(* ===== verification/Prelude.thy ===== *)
theory Prelude
  imports Complex_Main
    "HOL-Library.Signed_Division"
    "HOL-Library.List_Lexorder"
    "HOL-Library.Char_ord"
    "HOL-Library.Multiset"
begin

text \<open>
  What every component of the development shares: the result type that carries a Go error
  or a value, loops that stop at the first error, sorting by a comparator, decimal digits,
  the wrap-around of Go's \<open>int32\<close>, and the lemma collections
  (\<open>result_simps\<close>, \<open>val_simps\<close>) that the component theories extend.
\<close>

named_theorems result_simps \<open>inversion of the error monad\<close>
named_theorems val_simps \<open>numeric value of decimal operations\<close>

section \<open>Errors as values\<close>

text \<open>
  A Go function returning \<open>(T, error)\<close> is a function into \<open>('e, 'a) result\<close>; the zero
  value that accompanies a non-nil error is never read by the callers modelled here.
\<close>

datatype ('e, 'a) result = Err 'e | Ok 'a

fun bindR :: "('e, 'a) result \<Rightarrow> ('a \<Rightarrow> ('e, 'b) result) \<Rightarrow> ('e, 'b) result" where
  "bindR (Err e) f = Err e"
| "bindR (Ok x) f = f x"

fun map_err :: "('e \<Rightarrow> 'f) \<Rightarrow> ('e, 'a) result \<Rightarrow> ('f, 'a) result" where
  "map_err g (Err e) = Err (g e)"
| "map_err g (Ok x) = Ok x"

fun is_ok :: "('e, 'a) result \<Rightarrow> bool" where
  "is_ok (Ok x) = True"
| "is_ok (Err e) = False"

text \<open>A \<open>for\<close> loop that returns on the first error, with and without collected results.\<close>

fun foldR :: "('s \<Rightarrow> 'a \<Rightarrow> ('e, 's) result) \<Rightarrow> 's \<Rightarrow> 'a list \<Rightarrow> ('e, 's) result" where
  "foldR f s [] = Ok s"
| "foldR f s (x # xs) = bindR (f s x) (\<lambda>s'. foldR f s' xs)"

fun mapR :: "('a \<Rightarrow> ('e, 'b) result) \<Rightarrow> 'a list \<Rightarrow> ('e, 'b list) result" where
  "mapR f [] = Ok []"
| "mapR f (x # xs) = bindR (f x) (\<lambda>y. bindR (mapR f xs) (\<lambda>ys. Ok (y # ys)))"

lemma bindR_eq_Ok [simp, result_simps]:
  "bindR m f = Ok y \<longleftrightarrow> (\<exists>x. m = Ok x \<and> f x = Ok y)"
  by (cases m) auto

lemma bindR_eq_Err [result_simps]:
  "bindR m f = Err e \<longleftrightarrow> m = Err e \<or> (\<exists>x. m = Ok x \<and> f x = Err e)"
  by (cases m) auto

lemma map_err_eq_Ok [simp, result_simps]: "map_err g m = Ok y \<longleftrightarrow> m = Ok y"
  by (cases m) auto

lemma map_err_eq_Err [result_simps]: "map_err g m = Err e \<longleftrightarrow> (\<exists>e'. m = Err e' \<and> e = g e')"
  by (cases m) auto

lemma is_ok_iff: "is_ok m \<longleftrightarrow> (\<exists>x. m = Ok x)"
  by (cases m) auto

text \<open>For evaluation: what follows a step is simplified only once the step has a value.\<close>

lemma bindR_weak: "m = m' \<Longrightarrow> bindR m f = bindR m' f" by simp

lemma bindR_cong [fundef_cong]:
  "m = m' \<Longrightarrow> (\<And>x. m' = Ok x \<Longrightarrow> f x = g x) \<Longrightarrow> bindR m f = bindR m' g"
  by (cases m') auto

lemma foldR_append:
  "foldR f s (xs @ ys) = bindR (foldR f s xs) (\<lambda>s'. foldR f s' ys)"
proof (induction xs arbitrary: s)
  case (Cons x xs)
  then show ?case by (cases "f s x") auto
qed simp

lemma foldR_invariant:
  assumes "foldR f s xs = Ok s'" and "P s"
    and "\<And>s x s'. x \<in> set xs \<Longrightarrow> P s \<Longrightarrow> f s x = Ok s' \<Longrightarrow> P s'"
  shows "P s'"
  using assms
proof (induction xs arbitrary: s)
  case (Cons x xs)
  then obtain t where "f s x = Ok t" "foldR f t xs = Ok s'" by auto
  with Cons show ?case by (metis list.set_intros(1) list.set_intros(2))
qed simp

lemma mapR_Ok_iff:
  "mapR f xs = Ok ys \<longleftrightarrow> list_all2 (\<lambda>x y. f x = Ok y) xs ys"
proof (induction xs arbitrary: ys)
  case (Cons x xs)
  then show ?case by (cases ys) auto
qed auto

lemma mapR_length: "mapR f xs = Ok ys \<Longrightarrow> length ys = length xs"
  by (auto simp: mapR_Ok_iff dest: list_all2_lengthD)

lemma mapR_nth: "mapR f xs = Ok ys \<Longrightarrow> i < length xs \<Longrightarrow> f (xs ! i) = Ok (ys ! i)"
  by (auto simp: mapR_Ok_iff list_all2_conv_all_nth)

lemma mapR_set: "mapR f xs = Ok ys \<Longrightarrow> y \<in> set ys \<Longrightarrow> \<exists>x \<in> set xs. f x = Ok y"
  by (induction xs arbitrary: ys) auto

section \<open>Sorting by a comparator\<close>

text \<open>
  \<open>sort.Slice\<close> and \<open>slices.SortFunc\<close> sort by a comparator. Every comparator modelled
  here is a strict total order on the elements it meets, so the sorted permutation is unique
  and the algorithm is immaterial: insertion sort stands for it.
\<close>

fun ins_by :: "('a \<Rightarrow> 'a \<Rightarrow> bool) \<Rightarrow> 'a \<Rightarrow> 'a list \<Rightarrow> 'a list" where
  "ins_by lt x [] = [x]"
| "ins_by lt x (y # ys) = (if lt y x then y # ins_by lt x ys else x # y # ys)"

definition sort_by :: "('a \<Rightarrow> 'a \<Rightarrow> bool) \<Rightarrow> 'a list \<Rightarrow> 'a list" where
  "sort_by lt xs = foldr (ins_by lt) xs []"

lemma mset_ins_by [simp]: "mset (ins_by lt x ys) = add_mset x (mset ys)"
  by (induction ys) auto

lemma mset_sort_by [simp]: "mset (sort_by lt xs) = mset xs"
  unfolding sort_by_def by (induction xs) auto

lemma set_sort_by [simp]: "set (sort_by lt xs) = set xs"
  by (metis mset_sort_by set_mset_mset)

lemma length_sort_by [simp]: "length (sort_by lt xs) = length xs"
  by (metis mset_sort_by size_mset)

lemma distinct_sort_by [simp]: "distinct (sort_by lt xs) = distinct xs"
  by (metis mset_sort_by mset_eq_imp_distinct_iff)

lemma set_ins_by [simp]: "set (ins_by lt x ys) = insert x (set ys)"
  by (metis mset_ins_by set_mset_add_mset_insert set_mset_mset)

lemma sorted_ins_by:
  assumes asym: "\<And>a b. lt a b \<Longrightarrow> \<not> lt b a"
    and trans: "\<And>a b c. \<lbrakk>a \<in> A; b \<in> A; c \<in> A; \<not> lt b a; \<not> lt c b\<rbrakk> \<Longrightarrow> \<not> lt c a"
    and A: "x \<in> A" "set ys \<subseteq> A"
    and sorted: "sorted_wrt (\<lambda>a b. \<not> lt b a) ys"
  shows "sorted_wrt (\<lambda>a b. \<not> lt b a) (ins_by lt x ys)"
  using A(2) sorted
proof (induction ys)
  case (Cons y ys)
  then have IH: "sorted_wrt (\<lambda>a b. \<not> lt b a) (ins_by lt x ys)" by simp
  show ?case
  proof (cases "lt y x")
    case True
    with asym have "\<not> lt x y" by blast
    with IH True Cons.prems show ?thesis by simp
  next
    case False
    have "\<not> lt z x" if "z \<in> set ys" for z
      using trans[of x y z] Cons.prems A(1) False that by auto
    with False Cons.prems show ?thesis by simp
  qed
qed simp

lemma sorted_sort_by:
  assumes asym: "\<And>a b. lt a b \<Longrightarrow> \<not> lt b a"
    and trans: "\<And>a b c. \<lbrakk>a \<in> set xs; b \<in> set xs; c \<in> set xs; \<not> lt b a; \<not> lt c b\<rbrakk> \<Longrightarrow> \<not> lt c a"
  shows "sorted_wrt (\<lambda>a b. \<not> lt b a) (sort_by lt xs)"
proof -
  have "sorted_wrt (\<lambda>a b. \<not> lt b a) (foldr (ins_by lt) ys [])" if "set ys \<subseteq> set xs" for ys
    using that
  proof (induction ys)
    case (Cons y ys)
    have sub: "set (foldr (ins_by lt) ys []) = set ys"
      using set_sort_by[of lt ys] by (simp add: sort_by_def)
    have "sorted_wrt (\<lambda>a b. \<not> lt b a) (ins_by lt y (foldr (ins_by lt) ys []))"
      by (rule sorted_ins_by[where A = "set xs", OF asym trans]) (use Cons sub in auto)
    then show ?case by simp
  qed simp
  then show ?thesis by (simp add: sort_by_def)
qed

section \<open>Go's int32\<close>

text \<open>Conversion to and arithmetic on \<open>int32\<close>: two's complement wrap-around.\<close>

definition i32 :: "int \<Rightarrow> int" where
  "i32 x = (x + 2147483648) mod 4294967296 - 2147483648"

lemma i32_id [simp]: "- 2147483648 \<le> x \<Longrightarrow> x < 2147483648 \<Longrightarrow> i32 x = x"
  by (simp add: i32_def)

lemma i32_range: "- 2147483648 \<le> i32 x \<and> i32 x < 2147483648"
  unfolding i32_def by (smt (verit) pos_mod_bound pos_mod_sign)

section \<open>Decimal digits\<close>

fun ndig :: "nat \<Rightarrow> nat" where
  "ndig n = (if n < 10 then 1 else Suc (ndig (n div 10)))"

declare ndig.simps [simp del]

lemma ndig_pos [simp]: "0 < ndig n"
  by (subst ndig.simps) simp

lemma ndig_upper: "n < 10 ^ ndig n"
proof (induction n rule: ndig.induct)
  case (1 n)
  show ?case
  proof (cases "n < 10")
    case True
    then show ?thesis by (subst ndig.simps) simp
  next
    case False
    with 1 have "n div 10 < 10 ^ ndig (n div 10)" by simp
    then have "n < 10 * 10 ^ ndig (n div 10)" by simp
    with False show ?thesis by (subst ndig.simps) simp
  qed
qed

lemma ndig_lower: "0 < n \<Longrightarrow> 10 ^ (ndig n - 1) \<le> n"
proof (induction n rule: ndig.induct)
  case (1 n)
  show ?case
  proof (cases "n < 10")
    case True
    then show ?thesis using 1 by (subst ndig.simps) simp
  next
    case False
    with 1 have "10 ^ (ndig (n div 10) - 1) \<le> n div 10" by simp
    then have "10 * 10 ^ (ndig (n div 10) - 1) \<le> n" by simp
    moreover have "10 * 10 ^ (ndig (n div 10) - 1) = (10::nat) ^ ndig (n div 10)"
      by (metis Suc_diff_1 ndig_pos power_Suc)
    ultimately show ?thesis using False by (subst ndig.simps) simp
  qed
qed

lemma ndig_le_iff: "0 < k \<Longrightarrow> ndig n \<le> k \<longleftrightarrow> n < 10 ^ k"
proof
  assume "ndig n \<le> k"
  then have "(10::nat) ^ ndig n \<le> 10 ^ k" by (simp add: power_increasing)
  with ndig_upper[of n] show "n < 10 ^ k" by linarith
next
  assume k: "0 < k" and n: "n < 10 ^ k"
  show "ndig n \<le> k"
  proof (cases "n = 0")
    case True
    then show ?thesis using k by (subst ndig.simps) simp
  next
    case False
    then have "10 ^ (ndig n - 1) \<le> n" by (intro ndig_lower) simp
    with n have "(10::nat) ^ (ndig n - 1) < 10 ^ k" by linarith
    then have "ndig n - 1 < k" by simp
    then show ?thesis by simp
  qed
qed

lemma ndig_mono: "m \<le> n \<Longrightarrow> ndig m \<le> ndig n"
  using ndig_le_iff[of "ndig n" m] ndig_upper[of n] by simp

text \<open>\<open>NumDigits\<close> of a big integer: the number of decimal digits of its magnitude.\<close>

definition num_digits_int :: "int \<Rightarrow> int" where
  "num_digits_int b = int (ndig (nat \<bar>b\<bar>))"

lemma num_digits_int_pos: "0 < num_digits_int b"
  by (simp add: num_digits_int_def)

lemma num_digits_int_le_iff:
  "0 \<le> b \<Longrightarrow> 0 < k \<Longrightarrow> num_digits_int b \<le> int k \<longleftrightarrow> b < 10 ^ k"
proof -
  assume b: "0 \<le> b" and k: "0 < k"
  have "num_digits_int b \<le> int k \<longleftrightarrow> nat b < 10 ^ k"
    using b k by (simp add: num_digits_int_def ndig_le_iff)
  also have "\<dots> \<longleftrightarrow> b < 10 ^ k"
    using b by (metis of_nat_less_iff int_nat_eq of_nat_numeral of_nat_power)
  finally show ?thesis .
qed

lemma num_digits_int_upper: "0 \<le> b \<Longrightarrow> b < 10 ^ nat (num_digits_int b)"
  using num_digits_int_le_iff[of b "nat (num_digits_int b)"] num_digits_int_pos[of b] by simp

lemma num_digits_int_lower: "0 < b \<Longrightarrow> 10 ^ nat (num_digits_int b - 1) \<le> b"
proof -
  assume b: "0 < b"
  then have "10 ^ (ndig (nat b) - 1) \<le> nat b" by (intro ndig_lower) simp
  then have "int (10 ^ (ndig (nat b) - 1)) \<le> b" using b by linarith
  moreover have "nat (num_digits_int b - 1) = ndig (nat b) - 1"
    using b by (simp add: num_digits_int_def nat_diff_distrib')
  ultimately show ?thesis by simp
qed

lemma num_digits_int_0 [simp]: "num_digits_int 0 = 1"
  by (simp add: num_digits_int_def ndig.simps)

section \<open>Decimal text of integers\<close>

definition digit_char :: "nat \<Rightarrow> char" where
  "digit_char d = char_of (48 + d)"

fun show_nat :: "nat \<Rightarrow> string" where
  "show_nat n = (if n < 10 then [digit_char n] else show_nat (n div 10) @ [digit_char (n mod 10)])"

declare show_nat.simps [simp del]

definition show_int :: "int \<Rightarrow> string" where
  "show_int i = (if i < 0 then ''-'' @ show_nat (nat (- i)) else show_nat (nat i))"

definition is_digit :: "char \<Rightarrow> bool" where
  "is_digit c \<longleftrightarrow> 48 \<le> (of_char c :: nat) \<and> (of_char c :: nat) \<le> 57"

definition digit_val :: "char \<Rightarrow> nat" where
  "digit_val c = of_char c - 48"

fun digits_val :: "nat \<Rightarrow> string \<Rightarrow> nat" where
  "digits_val acc [] = acc"
| "digits_val acc (c # cs) = digits_val (10 * acc + digit_val c) cs"

definition parse_nat :: "string \<Rightarrow> nat option" where
  "parse_nat s = (if s \<noteq> [] \<and> list_all is_digit s then Some (digits_val 0 s) else None)"

lemma of_char_digit_char: "d < 10 \<Longrightarrow> (of_char (digit_char d) :: nat) = 48 + d"
  by (simp add: digit_char_def)

lemma is_digit_digit_char [simp]: "d < 10 \<Longrightarrow> is_digit (digit_char d)"
  by (simp add: is_digit_def of_char_digit_char)

lemma digit_val_digit_char [simp]: "d < 10 \<Longrightarrow> digit_val (digit_char d) = d"
  by (simp add: digit_val_def of_char_digit_char)

lemma digits_val_append: "digits_val acc (s @ t) = digits_val (digits_val acc s) t"
  by (induction s arbitrary: acc) auto

lemma length_show_nat: "length (show_nat n) = ndig n"
proof (induction n rule: show_nat.induct)
  case (1 n)
  then show ?case by (subst show_nat.simps, subst ndig.simps) auto
qed

lemma show_nat_digits: "list_all is_digit (show_nat n)"
proof (induction n rule: show_nat.induct)
  case (1 n)
  then show ?case by (subst show_nat.simps) auto
qed

lemma show_nat_nonempty [simp]: "show_nat n \<noteq> []"
  by (subst show_nat.simps) simp

lemma digits_val_show_nat: "digits_val 0 (show_nat n) = n"
proof (induction n rule: show_nat.induct)
  case (1 n)
  then show ?case by (subst show_nat.simps) (auto simp: digits_val_append)
qed

lemma parse_show_nat [simp]: "parse_nat (show_nat n) = Some n"
  by (simp add: parse_nat_def show_nat_digits digits_val_show_nat)

lemma digits_val_zeros: "digits_val 0 (replicate k (CHR ''0'') @ s) = digits_val 0 s"
  by (induction k) (auto simp: digit_val_def)

end
