(* ===== verification/Apd.thy ===== *)
theory Apd
  imports Prelude
begin

text \<open>
  The arbitrary-precision decimal library the fiscal core computes with, as vendored under
  \<open>backend/vendor/github.com/cockroachdb/apd/v3\<close>: the \<open>Decimal\<close> and \<open>Context\<close> structs,
  the condition flags, rounding, and the operations that \<open>internal/domain/fiscal\<close> calls
  (\<open>Add\<close>, \<open>Sub\<close>, \<open>Mul\<close>, \<open>Quo\<close>, \<open>QuoInteger\<close>, \<open>Rem\<close>, \<open>Quantize\<close>, \<open>Cmp\<close>, \<open>Int64\<close>).

  A \<open>big.Int\<close> is an \<open>int\<close>; exponents are \<open>int\<close> with \<open>i32\<close> wherever the Go code computes in
  \<open>int32\<close>. A method that writes its receiver returns the new receiver. The condition word
  is the set of its flags.
\<close>

section \<open>Decimals, contexts and conditions\<close>

datatype form = Finite | Infinite | NaNSignaling | NaN

record decimal =
  d_form :: form
  d_neg :: bool
  d_exp :: int
  d_coeff :: int

datatype cond = SystemOverflow | SystemUnderflow | Overflow | Underflow | Inexact | Subnormal
  | Rounded | DivisionUndefined | DivisionByZero | DivisionImpossible | InvalidOperation | Clamped

type_synonym condition = "cond set"

datatype rounder = RDown | RHalfUp | RHalfEven | RCeiling | RFloor | RHalfDown | RUp | R05Up
  | RUnset

record ctx =
  c_prec :: int
  c_emax :: int
  c_emin :: int
  c_traps :: condition
  c_rounding :: rounder

datatype apd_err = ExponentOutOfRange | Trapped condition | ZeroPrecision | ParseError
  | NotFiniteInt | FractionalInt | OutOfInt64 | ApdPanic

definition MaxExponent :: int where "MaxExponent = 100000"
definition MinExponent :: int where "MinExponent = - 100000"
definition unknownNumDigits :: int where "unknownNumDigits = - 1"

text \<open>\<open>var d apd.Decimal\<close>, \<open>New\<close>/\<open>SetFinite\<close> and the package's constants.\<close>

definition dec0 :: decimal where
  "dec0 = \<lparr>d_form = Finite, d_neg = False, d_exp = 0, d_coeff = 0\<rparr>"

definition set_finite :: "int \<Rightarrow> int \<Rightarrow> decimal" where
  "set_finite x e = \<lparr>d_form = Finite, d_neg = x < 0, d_exp = e, d_coeff = \<bar>x\<bar>\<rparr>"

definition decimalNaN :: decimal where
  "decimalNaN = dec0\<lparr>d_form := NaN\<rparr>"

definition decimalInfinity :: decimal where
  "decimalInfinity = dec0\<lparr>d_form := Infinite\<rparr>"

definition decimalHalf :: decimal where
  "decimalHalf = set_finite 5 (- 1)"

definition exp10 :: "int \<Rightarrow> int" where
  "exp10 x = 10 ^ nat x"

definition num_digits :: "decimal \<Rightarrow> int" where
  "num_digits d = num_digits_int (d_coeff d)"

definition dec_sign :: "decimal \<Rightarrow> int" where
  "dec_sign d = (if d_form d = Finite \<and> d_coeff d = 0 then 0 else if d_neg d then - 1 else 1)"

definition dec_is_zero :: "decimal \<Rightarrow> bool" where
  "dec_is_zero d \<longleftrightarrow> dec_sign d = 0"

definition dec_neg :: "decimal \<Rightarrow> decimal" where
  "dec_neg x = (if dec_is_zero x then x\<lparr>d_neg := False\<rparr> else x\<lparr>d_neg := \<not> d_neg x\<rparr>)"

definition dec_abs :: "decimal \<Rightarrow> decimal" where
  "dec_abs x = x\<lparr>d_neg := False\<rparr>"

section \<open>Comparison\<close>

definition big_cmp :: "int \<Rightarrow> int \<Rightarrow> int" where
  "big_cmp a b = (if a < b then - 1 else if a = b then 0 else 1)"

text \<open>\<open>Decimal.Cmp\<close>: signs, then forms, then equal exponents, then adjusted exponents, and
  only then coefficients aligned by a power of ten.\<close>

definition dec_cmp :: "decimal \<Rightarrow> decimal \<Rightarrow> int" where
  "dec_cmp d x =
     (let ds = dec_sign d; xs = dec_sign x in
      if ds < xs then - 1 else if ds > xs then 1 else if ds = 0 \<and> xs = 0 then 0
      else
        let gt = (if ds = - 1 then - 1 else 1); lt = (if ds = - 1 then 1 else - 1);
            flip = (\<lambda>c. if ds < 0 then - c else c) in
        if d_form d = Infinite then (if d_form x = Infinite then 0 else gt)
        else if d_form x = Infinite then lt
        else if d_exp d = d_exp x then flip (big_cmp (d_coeff d) (d_coeff x))
        else
          let dn = num_digits d + d_exp d; xn = num_digits x + d_exp x in
          if dn < xn then lt else if dn > xn then gt
          else if d_exp d < d_exp x
            then flip (big_cmp (d_coeff d) (d_coeff x * exp10 (d_exp x - d_exp d)))
            else flip (big_cmp (d_coeff d * exp10 (d_exp d - d_exp x)) (d_coeff x)))"

section \<open>Modf and Int64\<close>

text \<open>\<open>Modf\<close> into two fresh decimals: the integral and the fractional part.\<close>

definition modf :: "decimal \<Rightarrow> decimal \<times> decimal" where
  "modf d =
     (if d_exp d > 0 then (d, dec0\<lparr>d_neg := d_neg d\<rparr>)
      else
        let nd = num_digits d; e = - d_exp d in
        if e > nd then (dec0\<lparr>d_neg := d_neg d\<rparr>, d)
        else
          (dec0\<lparr>d_neg := d_neg d, d_coeff := d_coeff d sdiv exp10 e\<rparr>,
           dec0\<lparr>d_neg := d_neg d, d_exp := d_exp d, d_coeff := d_coeff d smod exp10 e\<rparr>))"

definition maxInt64 :: int where "maxInt64 = 9223372036854775807"

definition dec_int64 :: "decimal \<Rightarrow> (apd_err, int) result" where
  "dec_int64 d =
     (if d_form d \<noteq> Finite then Err NotFiniteInt
      else case modf d of (integ, fr) \<Rightarrow>
        if \<not> dec_is_zero fr then Err FractionalInt
        else if dec_cmp integ (set_finite maxInt64 0) > 0 then Err OutOfInt64
        else if dec_cmp integ (set_finite (- maxInt64 - 1) 0) < 0 then Err OutOfInt64
        else
          let v = d_coeff integ * exp10 (d_exp integ)
          in Ok (if d_neg d then - v else v))"

section \<open>Rounding\<close>

definition should_add_one :: "rounder \<Rightarrow> int \<Rightarrow> bool \<Rightarrow> int \<Rightarrow> bool" where
  "should_add_one r result neg half =
     (case r of
        RDown \<Rightarrow> False
      | RHalfUp \<Rightarrow> half \<ge> 0
      | RHalfEven \<Rightarrow> if half > 0 then True else if half < 0 then False else odd result
      | RCeiling \<Rightarrow> \<not> neg
      | RFloor \<Rightarrow> neg
      | RHalfDown \<Rightarrow> half > 0
      | RUp \<Rightarrow> True
      | R05Up \<Rightarrow> if result smod 5 = 0 then True else result smod 10 = 0
      | RUnset \<Rightarrow> half \<ge> 0)"

text \<open>\<open>roundAddOne\<close> adds one to the magnitude, dropping the digit a carry created.\<close>

definition round_add_one :: "int \<Rightarrow> int \<Rightarrow> (apd_err, int \<times> int) result" where
  "round_add_one b diff =
     (if b < 0 then Err ApdPanic
      else
        let nd = num_digits_int b; b1 = b + 1; nd2 = num_digits_int b1 in
        if nd2 > nd then Ok (b1 sdiv 10, diff + 1) else Ok (b1, diff))"

fun exp_sum :: "int \<Rightarrow> int list \<Rightarrow> (condition, int) result" where
  "exp_sum s [] = Ok s"
| "exp_sum s (x # xs) =
     (if x > MaxExponent then Err {SystemOverflow, Overflow}
      else if x < MinExponent then Err {SystemUnderflow, Underflow}
      else exp_sum (s + x) xs)"

text \<open>The subnormal branch of \<open>setExponent\<close>: drop digits below \<open>Etiny\<close>.\<close>

definition set_subnormal :: "ctx \<Rightarrow> decimal \<Rightarrow> condition \<Rightarrow> int \<Rightarrow> int \<Rightarrow> decimal \<times> condition \<times> int" where
  "set_subnormal c d res r etiny =
     (if r < etiny then
        let tmp = dec0\<lparr>d_coeff := d_coeff d, d_exp := i32 (r - etiny)\<rparr>;
            (integ, fr) = modf tmp;
            fr = dec_abs fr;
            (integ, res) =
              (if \<not> dec_is_zero fr
               then (if should_add_one (c_rounding c) (d_coeff integ) (d_neg integ) (dec_cmp fr decimalHalf)
                     then integ\<lparr>d_coeff := d_coeff integ + 1\<rparr> else integ,
                     insert Inexact res)
               else (integ, res));
            res = (if dec_is_zero integ then insert Clamped res else res)
        in (d\<lparr>d_coeff := d_coeff integ\<rparr>, insert Rounded res, etiny)
      else (d, res, r))"

definition set_exponent :: "ctx \<Rightarrow> decimal \<Rightarrow> int \<Rightarrow> condition \<Rightarrow> int list \<Rightarrow> decimal \<times> condition" where
  "set_exponent c d nd res xs =
     (case exp_sum 0 xs of
        Err fl \<Rightarrow> (d, fl)
      | Ok sm \<Rightarrow>
        let r = i32 sm;
            nd = (if nd = unknownNumDigits then num_digits d else nd);
            adj = sm + nd - 1 in
        if adj > MaxExponent then (d, {SystemOverflow, Overflow})
        else if adj < MinExponent then (d, {SystemUnderflow, Underflow})
        else
          let v = i32 adj;
              (d, res, r) =
                (if v < c_emin c
                 then set_subnormal c d (if dec_is_zero d then res else insert Subnormal res) r
                        (i32 (c_emin c - (i32 (c_prec c) - 1)))
                 else if v > c_emax c
                 then (if dec_is_zero d then (d, insert Clamped res, c_emax c)
                       else (d\<lparr>d_form := Infinite\<rparr>, {Overflow, Inexact} \<union> res, r))
                 else (d, res, r));
              res = (if Inexact \<in> res \<and> Subnormal \<in> res then insert Underflow res else res)
          in (d\<lparr>d_exp := r\<rparr>, res))"

text \<open>\<open>Rounder.Round\<close>: round \<open>x\<close> to the context's precision.\<close>

definition rounder_round ::
  "rounder \<Rightarrow> ctx \<Rightarrow> decimal \<Rightarrow> bool \<Rightarrow> (apd_err, decimal \<times> condition) result" where
  "rounder_round r c x disableIfPrecisionZero =
     (let nd = num_digits x; xs = dec_sign x in
      if disableIfPrecisionZero \<and> c_prec c = 0 then Ok (set_exponent c x nd {} [d_exp x])
      else if xs \<noteq> 0 \<and> d_exp x + nd - 1 < c_emin c
      then Ok (apsnd (insert Subnormal) (set_exponent c x nd {Subnormal} [d_exp x]))
      else
        let diff = nd - c_prec c in
        if diff > 0 then
          if diff > MaxExponent then Ok (x, {SystemOverflow, Overflow})
          else if diff < MinExponent then Ok (x, {SystemUnderflow, Underflow})
          else
            let e = exp10 diff; y = d_coeff x sdiv e; m = d_coeff x smod e in
            if m \<noteq> 0 then
              let discard = dec0\<lparr>d_coeff := m, d_exp := i32 (- diff)\<rparr> in
              bindR (if should_add_one r y (d_neg x) (dec_cmp discard decimalHalf)
                     then round_add_one y diff else Ok (y, diff))
                (\<lambda>(y, diff). Ok (apsnd ((\<union>) {Rounded, Inexact})
                   (set_exponent c (x\<lparr>d_coeff := y\<rparr>) unknownNumDigits {Rounded, Inexact} [d_exp x, diff])))
            else Ok (apsnd (insert Rounded)
                   (set_exponent c (x\<lparr>d_coeff := y\<rparr>) unknownNumDigits {Rounded} [d_exp x, diff]))
        else Ok (set_exponent c x nd {} [d_exp x, 0]))"

definition ctx_round :: "ctx \<Rightarrow> decimal \<Rightarrow> (apd_err, decimal \<times> condition) result" where
  "ctx_round c x = rounder_round (c_rounding c) c x True"

text \<open>\<open>goError\<close>: a system flag is always an error, another flag is one when it is trapped.\<close>

definition go_error :: "ctx \<Rightarrow> decimal \<Rightarrow> condition \<Rightarrow> (apd_err, decimal \<times> condition) result" where
  "go_error c d flags =
     (if SystemOverflow \<in> flags \<or> SystemUnderflow \<in> flags then Err ExponentOutOfRange
      else if flags \<inter> c_traps c \<noteq> {} then Err (Trapped (flags \<inter> c_traps c))
      else Ok (d, flags))"

definition etiny :: "ctx \<Rightarrow> int" where
  "etiny c = i32 (i32 (c_emin c - i32 (c_prec c)) + 1)"

section \<open>Context operations\<close>

definition is_nan_form :: "form \<Rightarrow> bool" where
  "is_nan_form f \<longleftrightarrow> f = NaNSignaling \<or> f = NaN"

definition should_set_as_nan :: "decimal \<Rightarrow> decimal option \<Rightarrow> bool" where
  "should_set_as_nan x y \<longleftrightarrow>
     is_nan_form (d_form x) \<or> (case y of None \<Rightarrow> False | Some y \<Rightarrow> is_nan_form (d_form y))"

definition set_as_nan :: "ctx \<Rightarrow> decimal \<Rightarrow> decimal option \<Rightarrow> (apd_err, decimal \<times> condition) result" where
  "set_as_nan c x y =
     (let y' = (case y of None \<Rightarrow> x | Some y \<Rightarrow> y);
          nan = (if d_form x = NaNSignaling then x else if d_form y' = NaNSignaling then y'
                 else if d_form x = NaN then x else y') in
      if d_form nan = NaNSignaling then go_error c (nan\<lparr>d_form := NaN\<rparr>) {InvalidOperation}
      else go_error c nan {})"

text \<open>\<open>upscale\<close>: both coefficients at the smaller exponent.\<close>

definition upscale :: "decimal \<Rightarrow> decimal \<Rightarrow> (apd_err, int \<times> int \<times> int) result" where
  "upscale a b =
     (if d_exp a = d_exp b then Ok (d_coeff a, d_coeff b, d_exp a)
      else if d_exp a < d_exp b then
        (if d_exp b - d_exp a > MaxExponent then Err ExponentOutOfRange
         else Ok (d_coeff a, d_coeff b * exp10 (d_exp b - d_exp a), d_exp a))
      else
        (if d_exp a - d_exp b > MaxExponent then Err ExponentOutOfRange
         else Ok (d_coeff a * exp10 (d_exp a - d_exp b), d_coeff b, d_exp b)))"

text \<open>\<open>round(d, d)\<close> followed by \<open>goError\<close>, the tail of most operations.\<close>

definition finish :: "ctx \<Rightarrow> condition \<Rightarrow> decimal \<Rightarrow> (apd_err, decimal \<times> condition) result" where
  "finish c res d = bindR (ctx_round c d) (\<lambda>(d', f). go_error c d' (res \<union> f))"

definition ctx_add_gen :: "ctx \<Rightarrow> decimal \<Rightarrow> decimal \<Rightarrow> bool \<Rightarrow> (apd_err, decimal \<times> condition) result" where
  "ctx_add_gen c x y subtract =
     (if should_set_as_nan x (Some y) then set_as_nan c x (Some y)
      else
        let xn = d_neg x; yn = (d_neg y \<noteq> subtract);
            xi = (d_form x = Infinite); yi = (d_form y = Infinite) in
        if xi \<or> yi then
          (if xi \<and> yi \<and> xn \<noteq> yn then go_error c decimalNaN {InvalidOperation}
           else if xi then Ok (x, {}) else Ok (decimalInfinity\<lparr>d_neg := yn\<rparr>, {}))
        else bindR (upscale x y) (\<lambda>(a, b, s).
          let (neg, co) =
            (if xn = yn then (xn, a + b)
             else let t = a - b in
               if t < 0 then (\<not> xn, - t)
               else if t = 0 then (c_rounding c = RFloor, t)
               else (xn, t))
          in finish c {} \<lparr>d_form = Finite, d_neg = neg, d_exp = s, d_coeff = co\<rparr>))"

definition ctx_add :: "ctx \<Rightarrow> decimal \<Rightarrow> decimal \<Rightarrow> (apd_err, decimal \<times> condition) result" where
  "ctx_add c x y = ctx_add_gen c x y False"

definition ctx_sub :: "ctx \<Rightarrow> decimal \<Rightarrow> decimal \<Rightarrow> (apd_err, decimal \<times> condition) result" where
  "ctx_sub c x y = ctx_add_gen c x y True"

definition ctx_mul :: "ctx \<Rightarrow> decimal \<Rightarrow> decimal \<Rightarrow> (apd_err, decimal \<times> condition) result" where
  "ctx_mul c x y =
     (if should_set_as_nan x (Some y) then set_as_nan c x (Some y)
      else
        let neg = (d_neg x \<noteq> d_neg y) in
        if d_form x = Infinite \<or> d_form y = Infinite then
          (if dec_is_zero x \<or> dec_is_zero y then go_error c decimalNaN {InvalidOperation}
           else Ok (decimalInfinity\<lparr>d_neg := neg\<rparr>, {}))
        else
          let d = \<lparr>d_form = Finite, d_neg = neg, d_exp = 0, d_coeff = d_coeff x * d_coeff y\<rparr>;
              (d, res) = set_exponent c d unknownNumDigits {} [d_exp x, d_exp y]
          in finish c res d)"

text \<open>\<open>quoSpecials\<close>: \<open>None\<close> when the operands are ordinary.\<close>

definition quo_specials ::
  "ctx \<Rightarrow> decimal \<Rightarrow> decimal \<Rightarrow> bool \<Rightarrow> (apd_err, decimal \<times> condition) result option" where
  "quo_specials c x y canClamp =
     (if should_set_as_nan x (Some y) then Some (set_as_nan c x (Some y))
      else
        let neg = (d_neg x \<noteq> d_neg y); xi = (d_form x = Infinite); yi = (d_form y = Infinite) in
        if xi \<or> yi then Some
          (if xi \<and> yi then go_error c decimalNaN {InvalidOperation}
           else if xi then go_error c (decimalInfinity\<lparr>d_neg := neg\<rparr>) {}
           else if canClamp then go_error c (dec0\<lparr>d_neg := neg, d_exp := etiny c\<rparr>) {Clamped}
           else go_error c (dec0\<lparr>d_neg := neg\<rparr>) {})
        else if dec_is_zero y then Some
          (if dec_is_zero x then go_error c decimalNaN {DivisionUndefined}
           else go_error c (decimalInfinity\<lparr>d_neg := neg\<rparr>) {DivisionByZero})
        else if c_prec c = 0 then Some (Err ZeroPrecision)
        else None)"

definition ctx_quo :: "ctx \<Rightarrow> decimal \<Rightarrow> decimal \<Rightarrow> (apd_err, decimal \<times> condition) result" where
  "ctx_quo c x y =
     (case quo_specials c x y True of
        Some r \<Rightarrow> r
      | None \<Rightarrow>
        let neg = (d_neg x \<noteq> d_neg y); shift = i32 (d_exp x - d_exp y) in
        if dec_is_zero x then
          (case set_exponent c (dec0\<lparr>d_neg := neg\<rparr>) unknownNumDigits {} [shift] of
             (d, res) \<Rightarrow> go_error c d res)
        else
          let dividend = \<bar>d_coeff x\<bar>; divisor = \<bar>d_coeff y\<bar>;
              ndDiff = num_digits_int dividend - num_digits_int divisor;
              dividend = (if ndDiff < 0 then dividend * exp10 (- ndDiff) else dividend);
              divisor = (if ndDiff > 0 then divisor * exp10 ndDiff else divisor);
              adjCoeffs = - ndDiff;
              (dividend, adjCoeffs) =
                (if dividend < divisor then (dividend * 10, adjCoeffs + 1) else (dividend, adjCoeffs));
              adjExp10 = c_prec c - 1;
              dividend = dividend * exp10 adjExp10;
              co = dividend sdiv divisor; rem = dividend smod divisor;
              nd = num_digits_int co;
              adj = shift + (- adjCoeffs) + (- adjExp10) + nd - 1;
              (co, nd, res) =
                (if rem \<noteq> 0 \<and> adj \<ge> c_emin c
                 then (if should_add_one (c_rounding c) co neg (big_cmp (rem * 2) divisor)
                       then (co + 1, unknownNumDigits, {Inexact, Rounded})
                       else (co, nd, {Inexact, Rounded}))
                 else (co, nd, {}));
              d = \<lparr>d_form = Finite, d_neg = neg, d_exp = 0, d_coeff = co\<rparr>
          in case set_exponent c d nd res [shift, - adjCoeffs, - adjExp10] of
               (d, fl) \<Rightarrow> go_error c d (res \<union> fl))"

definition ctx_quo_integer :: "ctx \<Rightarrow> decimal \<Rightarrow> decimal \<Rightarrow> (apd_err, decimal \<times> condition) result" where
  "ctx_quo_integer c x y =
     (case quo_specials c x y False of
        Some r \<Rightarrow> r
      | None \<Rightarrow>
        bindR (upscale x y) (\<lambda>(a, b, _).
          let neg = (d_neg x \<noteq> d_neg y);
              d = \<lparr>d_form = Finite, d_neg = neg, d_exp = 0, d_coeff = a sdiv b\<rparr> in
          if num_digits d > c_prec c
          then go_error c (decimalNaN\<lparr>d_exp := 0, d_neg := neg\<rparr>) {DivisionImpossible}
          else go_error c d {}))"

definition ctx_rem :: "ctx \<Rightarrow> decimal \<Rightarrow> decimal \<Rightarrow> (apd_err, decimal \<times> condition) result" where
  "ctx_rem c x y =
     (if should_set_as_nan x (Some y) then set_as_nan c x (Some y)
      else if d_form x \<noteq> Finite then go_error c decimalNaN {InvalidOperation}
      else if d_form y = Infinite then Ok (x, {})
      else if dec_is_zero y then
        go_error c decimalNaN (if dec_is_zero x then {DivisionUndefined} else {InvalidOperation})
      else bindR (upscale x y) (\<lambda>(a, b, s).
        if num_digits_int (a sdiv b) > c_prec c then go_error c decimalNaN {DivisionImpossible}
        else finish c {} \<lparr>d_form = Finite, d_neg = d_neg x, d_exp = s, d_coeff = a smod b\<rparr>))"

section \<open>Quantize\<close>

text \<open>The unexported \<open>quantize\<close>: \<open>v\<close> at exponent \<open>ex\<close>, before the precision check.\<close>

definition quantize_raw :: "ctx \<Rightarrow> decimal \<Rightarrow> int \<Rightarrow> (apd_err, decimal \<times> condition) result" where
  "quantize_raw c v ex =
     (let diff = i32 (ex - d_exp v) in
      if diff < 0 then
        (if diff < MinExponent then Ok (v, {SystemUnderflow, Underflow})
         else Ok (v\<lparr>d_coeff := d_coeff v * exp10 (- diff), d_exp := ex\<rparr>, {}))
      else if diff > 0 then
        (let p = i32 (i32 (num_digits v) - diff) in
         if p < 0 then
           (if dec_is_zero v then Ok (v\<lparr>d_exp := ex\<rparr>, {})
            else Ok (v\<lparr>d_coeff := 0, d_exp := ex\<rparr>, {Inexact, Rounded}))
         else
           bindR (rounder_round (c_rounding c) (c\<lparr>c_prec := p\<rparr>) (v\<lparr>d_exp := i32 (- diff)\<rparr>) False)
             (\<lambda>(d, res).
                Ok ((if d_exp d > 0 then d\<lparr>d_coeff := d_coeff d * 10\<rparr> else d)\<lparr>d_exp := ex\<rparr>, res)))
      else Ok (v\<lparr>d_exp := ex\<rparr>, {}))"

definition ctx_quantize :: "ctx \<Rightarrow> decimal \<Rightarrow> int \<Rightarrow> (apd_err, decimal \<times> condition) result" where
  "ctx_quantize c x ex =
     (if should_set_as_nan x None then set_as_nan c x None
      else if d_form x = Infinite \<or> ex < etiny c then go_error c decimalNaN {InvalidOperation}
      else bindR (quantize_raw c x ex) (\<lambda>(d, res).
        if num_digits d > c_prec c \<or> ex > c_emax c then go_error c decimalNaN {InvalidOperation}
        else bindR (ctx_round c d) (\<lambda>(d', f).
          let res = res \<union> f in
          if Overflow \<in> res \<or> Underflow \<in> res then go_error c decimalNaN {InvalidOperation}
          else go_error c d' res)))"

end
