(* ===== verification/ApdFacts.thy ===== *)
theory ApdFacts
  imports Apd
begin

text \<open>
  What the decimal library guarantees on well-formed operands (finite, non-negative
  coefficient): a context that traps \<open>Inexact\<close> computes exactly or fails
  (\<open>ctx_add_gen_exact\<close>, \<open>ctx_mul_exact\<close>), it does not fail while the exact result fits the
  precision (\<open>ctx_add_gen_fits\<close>, \<open>ctx_mul_fits\<close>), comparison is comparison of values, and
  \<open>Quantize\<close> is the closed form \<open>quant_coeff\<close>. \<open>dec_val\<close> is the rational a decimal denotes.
\<close>

section \<open>Well-formed decimals and their value\<close>

definition wf_dec :: "decimal \<Rightarrow> bool" where
  "wf_dec d \<longleftrightarrow> d_form d = Finite \<and> 0 \<le> d_coeff d"

definition dec_val :: "decimal \<Rightarrow> rat" where
  "dec_val d = (if d_neg d then - 1 else 1) * of_int (d_coeff d) * 10 powi (d_exp d)"

definition scoeff :: "decimal \<Rightarrow> int" where
  "scoeff d = (if d_neg d then - d_coeff d else d_coeff d)"

definition std_ctx :: "ctx \<Rightarrow> bool" where
  "std_ctx c \<longleftrightarrow> c_emax c = 100000 \<and> c_emin c = - 100000 \<and> 0 \<le> c_prec c \<and> c_prec c \<le> 100000"

abbreviation sys_flags :: condition where
  "sys_flags \<equiv> {SystemOverflow, SystemUnderflow}"

lemma dec_val_scoeff: "dec_val d = of_int (scoeff d) * 10 powi (d_exp d)"
  by (simp add: dec_val_def scoeff_def)

lemma exp10_pos [simp]: "0 < exp10 x"
  by (simp add: exp10_def)

lemma exp10_0 [simp]: "exp10 0 = 1"
  by (simp add: exp10_def)

lemma of_int_exp10: "0 \<le> x \<Longrightarrow> (of_int (exp10 x) :: rat) = 10 powi x"
  by (simp add: exp10_def power_int_def)

lemma powi_split: "(10::rat) powi (a + b) = 10 powi a * 10 powi b"
  by (simp add: power_int_add)

lemma powi10_pos [simp]: "(0::rat) < 10 powi a"
  by (simp add: zero_less_power_int)

lemma sdiv_nonneg: "0 \<le> (a::int) \<Longrightarrow> 0 < b \<Longrightarrow> a sdiv b = a div b"
  by (cases "a = 0") (simp_all add: signed_divide_int_def)

lemma smod_nonneg: "0 \<le> (a::int) \<Longrightarrow> 0 < b \<Longrightarrow> a smod b = a mod b"
  by (cases "a = 0") (simp_all add: signed_modulo_int_def)

lemma exp_sum_simps [simp]:
  "exp_sum s [] = Ok s"
  "- 100000 \<le> x \<Longrightarrow> x \<le> 100000 \<Longrightarrow> exp_sum s (x # xs) = exp_sum (s + x) xs"
  by (simp_all add: MaxExponent_def MinExponent_def)

lemma exp_sum_Err: "exp_sum s xs = Err fl \<Longrightarrow> fl \<inter> sys_flags \<noteq> {}"
  by (induction s xs rule: exp_sum.induct) (auto split: if_splits)

lemma exp_sum_Ok:
  "exp_sum s xs = Ok t \<longleftrightarrow> t = s + sum_list xs \<and> (\<forall>x \<in> set xs. - 100000 \<le> x \<and> x \<le> 100000)"
  by (induction s xs rule: exp_sum.induct) (auto simp: MaxExponent_def MinExponent_def)

text \<open>In a context with the library's own exponent bounds \<open>setExponent\<close> either reports a
  system flag or stores the sum: its subnormal and overflow branches are unreachable.\<close>

lemma set_exponent_std:
  assumes "c_emax c = 100000" "c_emin c = - 100000"
    and "\<forall>x \<in> set xs. - 100000 \<le> x \<and> x \<le> 100000"
  shows "set_exponent c d nd res xs =
    (let adj = sum_list xs + (if nd = - 1 then num_digits d else nd) - 1 in
     if adj > 100000 then (d, {SystemOverflow, Overflow})
     else if adj < - 100000 then (d, {SystemUnderflow, Underflow})
     else (d\<lparr>d_exp := i32 (sum_list xs)\<rparr>,
           if Inexact \<in> res \<and> Subnormal \<in> res then insert Underflow res else res))"
proof -
  have "exp_sum 0 xs = Ok (sum_list xs)" using assms(3) by (simp add: exp_sum_Ok)
  then show ?thesis
    using assms(1,2)
    by (auto simp: set_exponent_def Let_def MaxExponent_def MinExponent_def unknownNumDigits_def)
qed

lemma set_exponent_flags:
  assumes "c_emax c = 100000" "c_emin c = - 100000"
    and "set_exponent c d nd res xs = (d', f)" and "f \<inter> sys_flags = {}"
  shows "(\<forall>x \<in> set xs. - 100000 \<le> x \<and> x \<le> 100000) \<and> d' = d\<lparr>d_exp := i32 (sum_list xs)\<rparr> \<and> res \<subseteq> f
    \<and> - 100000 \<le> sum_list xs + (if nd = - 1 then num_digits d else nd) - 1
    \<and> sum_list xs + (if nd = - 1 then num_digits d else nd) - 1 \<le> 100000"
proof -
  have ok: "\<forall>x \<in> set xs. - 100000 \<le> x \<and> x \<le> 100000"
  proof (cases "exp_sum 0 xs")
    case (Err fl)
    then show ?thesis using assms(3,4) exp_sum_Err[OF Err] by (auto simp: set_exponent_def)
  next
    case (Ok t)
    then show ?thesis by (simp add: exp_sum_Ok)
  qed
  show ?thesis
    using assms(3,4) ok unfolding set_exponent_std[OF assms(1,2) ok] Let_def
    by (auto split: if_splits)
qed

section \<open>Rounding to the context\<close>

lemma apsnd_eq_pair: "apsnd g p = (a, b) \<longleftrightarrow> fst p = a \<and> g (snd p) = b"
  by (cases p) auto

lemma num_digits_pos: "0 < num_digits d"
  by (simp add: num_digits_def num_digits_int_pos)

lemma num_digits_exp [simp]: "num_digits (d\<lparr>d_exp := e\<rparr>) = num_digits d"
  by (simp add: num_digits_def)

lemma rounder_round_fits:
  assumes "std_ctx c" "num_digits x \<le> c_prec c" "- 100000 \<le> d_exp x" "d_exp x \<le> 100000"
    and "- 100000 \<le> d_exp x + num_digits x - 1" "d_exp x + num_digits x - 1 \<le> 100000"
  shows "rounder_round r c x b = Ok (x, {})"
proof -
  have "num_digits x \<noteq> - 1" using num_digits_pos[of x] by linarith
  then show ?thesis
    using assms by (auto simp: rounder_round_def Let_def set_exponent_std std_ctx_def)
qed

lemma num_digits_div:
  assumes "0 \<le> co" "0 \<le> p" "num_digits_int co - p \<le> k" "0 \<le> k" "0 < p"
  shows "num_digits_int (co div exp10 k) \<le> p"
proof -
  have "co < 10 ^ nat (num_digits_int co)" using assms(1) by (rule num_digits_int_upper)
  also have "\<dots> \<le> 10 ^ (nat p + nat k)"
    using assms num_digits_int_pos[of co] by (intro power_increasing) linarith+
  finally have "co < 10 ^ nat p * 10 ^ nat k" by (simp add: power_add)
  moreover have "co div 10 ^ nat k * 10 ^ nat k \<le> co" by (simp add: div_mult_mod_eq minus_mod_eq_div_mult[symmetric])
  ultimately have "co div 10 ^ nat k * 10 ^ nat k < 10 ^ nat p * 10 ^ nat k" by linarith
  then have "co div 10 ^ nat k < 10 ^ nat p" by simp
  moreover have "0 \<le> co div 10 ^ nat k" using assms(1) by (simp add: pos_imp_zdiv_nonneg_iff)
  ultimately have "num_digits_int (co div 10 ^ nat k) \<le> int (nat p)"
    using assms(5) by (subst num_digits_int_le_iff) auto
  then show ?thesis using assms(2) by (simp add: exp10_def)
qed

lemma rounder_round_exact:
  assumes c: "std_ctx c" "0 < c_prec c" and x: "wf_dec x"
    and r: "rounder_round r c x True = Ok (d, f)"
    and f: "f \<inter> insert Inexact sys_flags = {}"
  shows "wf_dec d \<and> dec_val d = dec_val x \<and> num_digits d \<le> c_prec c \<and> d_neg d = d_neg x
    \<and> d_exp x \<le> d_exp d \<and> (num_digits x \<le> c_prec c \<longrightarrow> d = x)
    \<and> - 100000 \<le> d_exp d + num_digits d - 1 \<and> d_exp d + num_digits d - 1 \<le> 100000"
proof -
  let ?nd = "num_digits x" and ?diff = "num_digits x - c_prec c"
  have emax: "c_emax c = 100000" and emin: "c_emin c = - 100000" using c by (auto simp: std_ctx_def)
  have nd1: "?nd \<noteq> - 1" using num_digits_pos[of x] by linarith
  have nosub: "\<not> (dec_sign x \<noteq> 0 \<and> d_exp x + ?nd - 1 < c_emin c)"
  proof
    assume sub: "dec_sign x \<noteq> 0 \<and> d_exp x + ?nd - 1 < c_emin c"
    then obtain d0 f0 where s: "set_exponent c x ?nd {Subnormal} [d_exp x] = (d0, f0)" "f = insert Subnormal f0"
      using r c(2) by (cases "set_exponent c x ?nd {Subnormal} [d_exp x]") (auto simp: rounder_round_def Let_def)
    with f have "f0 \<inter> sys_flags = {}" by auto
    from set_exponent_flags[OF emax emin s(1) this] sub nd1 emin show False by simp
  qed
  show ?thesis
  proof (cases "?diff > 0")
    case False
    then have s: "set_exponent c x ?nd {} [d_exp x, 0] = (d, f)"
      using r c(2) nosub by (auto simp: rounder_round_def Let_def)
    have "f \<inter> sys_flags = {}" using f by auto
    from set_exponent_flags[OF emax emin s this] nd1 False
    have "d = x" "- 100000 \<le> d_exp x + ?nd - 1" "d_exp x + ?nd - 1 \<le> 100000" by auto
    then show ?thesis using x False by simp
  next
    case True
    let ?e = "exp10 ?diff"
    have co: "0 \<le> d_coeff x" and fin: "d_form x = Finite" using x by (auto simp: wf_dec_def)
    have lim: "?diff \<le> 100000"
      using r True c(2) nosub f by (auto simp: rounder_round_def Let_def MaxExponent_def split: if_splits)
    have m0: "d_coeff x smod ?e = 0"
    proof (rule ccontr)
      assume "d_coeff x smod ?e \<noteq> 0"
      then have "Inexact \<in> f"
        using r True lim c(2) nosub
        by (auto simp: rounder_round_def Let_def MaxExponent_def MinExponent_def apsnd_eq_pair)
      with f show False by auto
    qed
    have y: "d_coeff x sdiv ?e = d_coeff x div ?e" "d_coeff x mod ?e = 0"
      using co m0 by (simp_all add: sdiv_nonneg smod_nonneg)
    obtain f0 where s: "set_exponent c (x\<lparr>d_coeff := d_coeff x div ?e\<rparr>) (- 1) {Rounded} [d_exp x, ?diff] = (d, f0)"
      and f0: "f = insert Rounded f0"
      using r True lim c(2) nosub m0 y(1)
      by (cases "set_exponent c (x\<lparr>d_coeff := d_coeff x div ?e\<rparr>) (- 1) {Rounded} [d_exp x, ?diff]")
        (auto simp: rounder_round_def Let_def MaxExponent_def MinExponent_def unknownNumDigits_def)
    have "f0 \<inter> sys_flags = {}" using f f0 by auto
    note se = set_exponent_flags[OF emax emin s this]
    have d: "d = x\<lparr>d_coeff := d_coeff x div ?e, d_exp := d_exp x + ?diff\<rparr>"
      using se by simp
    have "d_coeff x = (d_coeff x div ?e) * ?e" using y(2) by auto
    then have "(of_int (d_coeff x) :: rat) = of_int (d_coeff x div ?e) * 10 powi ?diff"
      using True by (metis of_int_exp10 of_int_mult less_imp_le)
    then have val: "dec_val d = dec_val x"
      unfolding d by (simp add: dec_val_def powi_split ac_simps)
    have "num_digits d \<le> c_prec c"
      unfolding d num_digits_def
      using num_digits_div[of "d_coeff x" "c_prec c" ?diff] co True c(2) by (simp add: num_digits_def)
    moreover have "0 \<le> d_coeff x div ?e" using co by (simp add: pos_imp_zdiv_nonneg_iff)
    then have "wf_dec d" using fin by (simp add: d wf_dec_def)
    moreover have "- 100000 \<le> d_exp d + num_digits d - 1 \<and> d_exp d + num_digits d - 1 \<le> 100000"
      using conjunct2[OF conjunct2[OF conjunct2[OF se]]] by (simp add: d num_digits_def)
    moreover have "d_neg d = d_neg x" "d_exp x \<le> d_exp d" using True by (simp_all add: d)
    ultimately show ?thesis
      using val True by auto
  qed
qed

section \<open>Exact addition and multiplication\<close>

lemma finish_exact:
  assumes "std_ctx c" "0 < c_prec c" "Inexact \<in> c_traps c" "wf_dec x"
    and "finish c res x = Ok (d, f)"
  shows "wf_dec d \<and> dec_val d = dec_val x \<and> num_digits d \<le> c_prec c \<and> d_neg d = d_neg x
    \<and> d_exp x \<le> d_exp d \<and> (num_digits x \<le> c_prec c \<longrightarrow> d = x)
    \<and> - 100000 \<le> d_exp d + num_digits d - 1 \<and> d_exp d + num_digits d - 1 \<le> 100000"
proof -
  obtain d' f' where r: "rounder_round (c_rounding c) c x True = Ok (d', f')"
    and g: "go_error c d' (res \<union> f') = Ok (d, f)"
    using assms(5) by (auto simp: finish_def ctx_round_def)
  have "d' = d" "f' \<inter> insert Inexact sys_flags = {}"
    using g assms(3) by (auto simp: go_error_def split: if_splits)
  with rounder_round_exact[OF assms(1,2,4) r] show ?thesis by simp
qed

lemma finish_fits:
  assumes "std_ctx c" "num_digits x \<le> c_prec c" "- 100000 \<le> d_exp x" "d_exp x \<le> 100000"
    and "- 100000 \<le> d_exp x + num_digits x - 1" "d_exp x + num_digits x - 1 \<le> 100000"
  shows "finish c {} x = Ok (x, {})"
  using assms by (simp add: finish_def ctx_round_def rounder_round_fits go_error_def)

definition raw_add :: "ctx \<Rightarrow> decimal \<Rightarrow> decimal \<Rightarrow> bool \<Rightarrow> decimal" where
  "raw_add c x y subtract =
     (let s = min (d_exp x) (d_exp y);
          a = d_coeff x * exp10 (d_exp x - s); b = d_coeff y * exp10 (d_exp y - s);
          xn = d_neg x; yn = (d_neg y \<noteq> subtract);
          t = a - b in
      \<lparr>d_form = Finite,
       d_neg = (if xn = yn then xn else if t < 0 then \<not> xn else if t = 0 then c_rounding c = RFloor else xn),
       d_exp = s, d_coeff = (if xn = yn then a + b else \<bar>t\<bar>)\<rparr>)"

lemma upscale_eq:
  "upscale x y =
     (if \<bar>d_exp x - d_exp y\<bar> > 100000 then Err ExponentOutOfRange
      else let s = min (d_exp x) (d_exp y) in
        Ok (d_coeff x * exp10 (d_exp x - s), d_coeff y * exp10 (d_exp y - s), s))"
  by (auto simp: upscale_def MaxExponent_def Let_def min_def)

lemma ctx_add_gen_finite:
  assumes "d_form x = Finite" "d_form y = Finite"
  shows "ctx_add_gen c x y b =
    (if \<bar>d_exp x - d_exp y\<bar> > 100000 then Err ExponentOutOfRange else finish c {} (raw_add c x y b))"
  using assms
  by (auto simp: ctx_add_gen_def should_set_as_nan_def is_nan_form_def upscale_eq raw_add_def Let_def
      abs_if)

lemma scaled_val:
  assumes "s \<le> d_exp x"
  shows "of_int (d_coeff x * exp10 (d_exp x - s)) * (10::rat) powi s = of_int (d_coeff x) * 10 powi d_exp x"
proof -
  have "(of_int (exp10 (d_exp x - s)) :: rat) * 10 powi s = 10 powi (d_exp x - s + s)"
    using assms by (simp only: of_int_exp10 powi_split)
  then show ?thesis by (simp add: mult.assoc)
qed

lemma raw_add_props:
  assumes "wf_dec x" "wf_dec y"
  shows "wf_dec (raw_add c x y b)"
    and "dec_val (raw_add c x y b) = dec_val x + (if b then - dec_val y else dec_val y)"
    and "d_exp (raw_add c x y b) = min (d_exp x) (d_exp y)"
proof -
  let ?s = "min (d_exp x) (d_exp y)"
  let ?a = "d_coeff x * exp10 (d_exp x - ?s)" and ?b = "d_coeff y * exp10 (d_exp y - ?s)"
  have nn: "0 \<le> ?a" "0 \<le> ?b"
    using assms exp10_pos[of "d_exp x - ?s"] exp10_pos[of "d_exp y - ?s"]
    by (simp_all add: wf_dec_def zero_le_mult_iff less_imp_le)
  show "wf_dec (raw_add c x y b)" "d_exp (raw_add c x y b) = ?s"
    using nn by (auto simp: raw_add_def wf_dec_def Let_def)
  have A: "of_int ?a * (10::rat) powi ?s = of_int (d_coeff x) * 10 powi d_exp x"
    and B: "of_int ?b * (10::rat) powi ?s = of_int (d_coeff y) * 10 powi d_exp y"
    by (simp_all only: scaled_val min.cobounded1 min.cobounded2)
  have "scoeff (raw_add c x y b) =
      (if d_neg x then - ?a else ?a) + (if (d_neg y \<noteq> b) then - ?b else ?b)"
    by (auto simp: raw_add_def scoeff_def Let_def)
  then have "dec_val (raw_add c x y b) =
      of_int ((if d_neg x then - ?a else ?a) + (if (d_neg y \<noteq> b) then - ?b else ?b)) * 10 powi ?s"
    by (simp add: dec_val_scoeff raw_add_def Let_def)
  also have "\<dots> = (if d_neg x then - 1 else 1) * (of_int ?a * 10 powi ?s) +
      (if (d_neg y \<noteq> b) then - 1 else 1) * (of_int ?b * 10 powi ?s)"
    by (simp add: distrib_right)
  also have "\<dots> = dec_val x + (if b then - dec_val y else dec_val y)"
    unfolding A B by (simp add: dec_val_def)
  finally show "dec_val (raw_add c x y b) = dec_val x + (if b then - dec_val y else dec_val y)" .
qed

lemma ctx_add_gen_exact:
  assumes "std_ctx c" "0 < c_prec c" "Inexact \<in> c_traps c" "wf_dec x" "wf_dec y"
    and "ctx_add_gen c x y b = Ok (d, f)"
  shows "wf_dec d \<and> dec_val d = dec_val x + (if b then - dec_val y else dec_val y)
    \<and> num_digits d \<le> c_prec c \<and> min (d_exp x) (d_exp y) \<le> d_exp d
    \<and> (num_digits (raw_add c x y b) \<le> c_prec c \<longrightarrow> d = raw_add c x y b)"
proof -
  have "finish c {} (raw_add c x y b) = Ok (d, f)"
    using assms(4-6) by (auto simp: ctx_add_gen_finite wf_dec_def split: if_splits)
  from finish_exact[OF assms(1-3) raw_add_props(1)[OF assms(4,5)] this]
  show ?thesis by (simp add: raw_add_props[OF assms(4,5)])
qed

definition raw_mul :: "decimal \<Rightarrow> decimal \<Rightarrow> decimal" where
  "raw_mul x y = \<lparr>d_form = Finite, d_neg = (d_neg x \<noteq> d_neg y), d_exp = d_exp x + d_exp y,
     d_coeff = d_coeff x * d_coeff y\<rparr>"

lemma exp_raw_mul: "d_exp (raw_mul x y) = d_exp x + d_exp y"
  by (simp add: raw_mul_def)

lemma raw_mul_props:
  assumes "wf_dec x" "wf_dec y"
  shows "wf_dec (raw_mul x y)" and "dec_val (raw_mul x y) = dec_val x * dec_val y"
  using assms by (auto simp: wf_dec_def raw_mul_def dec_val_def powi_split)

lemma ctx_mul_exact:
  assumes c: "std_ctx c" "0 < c_prec c" "Inexact \<in> c_traps c" and xy: "wf_dec x" "wf_dec y"
    and m: "ctx_mul c x y = Ok (d, f)"
  shows "wf_dec d \<and> dec_val d = dec_val x * dec_val y \<and> num_digits d \<le> c_prec c
    \<and> d_exp x + d_exp y \<le> d_exp d \<and> (num_digits (raw_mul x y) \<le> c_prec c \<longrightarrow> d = raw_mul x y)"
proof -
  let ?d0 = "\<lparr>d_form = Finite, d_neg = (d_neg x \<noteq> d_neg y), d_exp = 0, d_coeff = d_coeff x * d_coeff y\<rparr>"
  obtain d1 f1 where se: "set_exponent c ?d0 (- 1) {} [d_exp x, d_exp y] = (d1, f1)"
    and fin: "finish c f1 d1 = Ok (d, f)"
    using m xy by (auto simp: ctx_mul_def should_set_as_nan_def is_nan_form_def wf_dec_def Let_def
        unknownNumDigits_def split: prod.splits)
  have emax: "c_emax c = 100000" "c_emin c = - 100000" using c by (auto simp: std_ctx_def)
  have "f1 \<inter> sys_flags = {}"
    using fin by (auto simp: finish_def go_error_def split: if_splits)
  from set_exponent_flags[OF emax se this] have "d1 = raw_mul x y"
    by (simp add: raw_mul_def)
  with finish_exact[OF c _ fin] raw_mul_props[OF xy] show ?thesis
    by (simp add: raw_mul_def)
qed

text \<open>Completeness: within moderate exponents an operation whose exact result fits the
  precision returns that result, representation included, with no flag raised.\<close>

definition moderate :: "decimal \<Rightarrow> bool" where
  "moderate d \<longleftrightarrow> - 40000 \<le> d_exp d \<and> d_exp d \<le> 40000"

lemma ctx_add_gen_fits:
  assumes "std_ctx c" "c_prec c \<le> 1000" "wf_dec x" "wf_dec y" "moderate x" "moderate y"
    and "num_digits (raw_add c x y b) \<le> c_prec c"
  shows "ctx_add_gen c x y b = Ok (raw_add c x y b, {})"
proof -
  have e: "d_exp (raw_add c x y b) = min (d_exp x) (d_exp y)"
    using assms(3,4) by (rule raw_add_props)
  have "finish c {} (raw_add c x y b) = Ok (raw_add c x y b, {})"
    using assms num_digits_pos[of "raw_add c x y b"]
    by (intro finish_fits) (auto simp: e moderate_def)
  moreover have "\<not> \<bar>d_exp x - d_exp y\<bar> > 100000" using assms by (auto simp: moderate_def)
  ultimately show ?thesis
    using assms by (simp add: ctx_add_gen_finite wf_dec_def)
qed

lemma ctx_mul_fits:
  assumes "std_ctx c" "c_prec c \<le> 1000" "wf_dec x" "wf_dec y" "moderate x" "moderate y"
    and "num_digits (raw_mul x y) \<le> c_prec c"
  shows "ctx_mul c x y = Ok (raw_mul x y, {})"
proof -
  have nd: "num_digits (raw_mul x y) = num_digits_int (d_coeff x * d_coeff y)"
    by (simp add: num_digits_def raw_mul_def)
  have fin: "finish c {} (raw_mul x y) = Ok (raw_mul x y, {})"
    using assms num_digits_pos[of "raw_mul x y"]
    by (intro finish_fits) (auto simp: moderate_def exp_raw_mul)
  have se: "set_exponent c \<lparr>d_form = Finite, d_neg = (d_neg x \<noteq> d_neg y), d_exp = 0,
      d_coeff = d_coeff x * d_coeff y\<rparr> (- 1) {} [d_exp x, d_exp y] = (raw_mul x y, {})"
    using assms num_digits_int_pos[of "d_coeff x * d_coeff y"]
    by (subst set_exponent_std) (auto simp: std_ctx_def moderate_def Let_def nd num_digits_def raw_mul_def)
  show ?thesis
    using assms fin se
    by (simp add: ctx_mul_def should_set_as_nan_def is_nan_form_def wf_dec_def Let_def unknownNumDigits_def)
qed

section \<open>Comparison\<close>

lemma dec_val_sign:
  assumes "wf_dec d"
  shows "dec_sign d = (if dec_val d < 0 then - 1 else if dec_val d = 0 then 0 else 1)"
proof -
  have fin: "d_form d = Finite" using assms by (simp add: wf_dec_def)
  have "0 < d_coeff d \<or> d_coeff d = 0" using assms by (auto simp: wf_dec_def)
  then show ?thesis
  proof
    assume c: "0 < d_coeff d"
    define p where "p = of_int (d_coeff d) * (10::rat) powi d_exp d"
    have "0 < p" using c by (simp add: p_def)
    moreover have "dec_val d = (if d_neg d then - p else p)" by (simp add: dec_val_def p_def)
    ultimately show ?thesis using c fin by (auto simp: dec_sign_def)
  next
    assume "d_coeff d = 0"
    then show ?thesis using fin by (simp add: dec_sign_def dec_val_def)
  qed
qed

lemma dec_is_zero_iff: "wf_dec d \<Longrightarrow> dec_is_zero d \<longleftrightarrow> dec_val d = 0"
  by (simp add: dec_is_zero_def dec_val_sign)

lemma dec_is_zero_coeff: "wf_dec d \<Longrightarrow> dec_is_zero d \<longleftrightarrow> d_coeff d = 0"
  by (simp add: dec_is_zero_def dec_sign_def wf_dec_def)

text \<open>The magnitude lies between the powers of ten its adjusted exponent names.\<close>

lemma magnitude_bounds:
  assumes "0 < d_coeff d"
  shows "10 powi (num_digits d + d_exp d - 1) \<le> of_int (d_coeff d) * (10::rat) powi d_exp d"
    and "of_int (d_coeff d) * (10::rat) powi d_exp d < 10 powi (num_digits d + d_exp d)"
proof -
  let ?n = "num_digits_int (d_coeff d)"
  have n: "0 < ?n" by (rule num_digits_int_pos)
  have lo: "(10::rat) powi (?n - 1) \<le> of_int (d_coeff d)"
  proof -
    have "10 ^ nat (?n - 1) \<le> d_coeff d" using assms by (rule num_digits_int_lower)
    then have "of_int (exp10 (?n - 1)) \<le> (of_int (d_coeff d) :: rat)"
      by (simp only: exp10_def of_int_le_iff)
    then show ?thesis using n by (simp add: of_int_exp10)
  qed
  have hi: "of_int (d_coeff d) < (10::rat) powi ?n"
  proof -
    have "d_coeff d < 10 ^ nat ?n" using assms by (intro num_digits_int_upper) simp
    then have "(of_int (d_coeff d) :: rat) < of_int (exp10 ?n)"
      by (simp only: exp10_def of_int_less_iff)
    then show ?thesis using n by (simp add: of_int_exp10)
  qed
  have split: "(10::rat) powi (?n + d_exp d - 1) = 10 powi (?n - 1) * 10 powi d_exp d"
    "(10::rat) powi (?n + d_exp d) = 10 powi ?n * 10 powi d_exp d"
    by (simp_all add: powi_split[symmetric] algebra_simps)
  show "10 powi (num_digits d + d_exp d - 1) \<le> of_int (d_coeff d) * (10::rat) powi d_exp d"
    unfolding num_digits_def split using lo by (intro mult_right_mono) (simp_all add: less_imp_le)
  show "of_int (d_coeff d) * (10::rat) powi d_exp d < 10 powi (num_digits d + d_exp d)"
    unfolding num_digits_def split using hi by (intro mult_strict_right_mono) simp_all
qed

lemma powi10_mono: "a \<le> b \<Longrightarrow> (10::rat) powi a \<le> 10 powi b"
  by (intro power_int_increasing) auto

definition mag :: "decimal \<Rightarrow> rat" where
  "mag d = of_int (d_coeff d) * 10 powi d_exp d"

definition rat_cmp :: "rat \<Rightarrow> rat \<Rightarrow> int" where
  "rat_cmp a b = (if a < b then - 1 else if a = b then 0 else 1)"

lemma big_cmp_scale:
  "(0::rat) < k \<Longrightarrow> big_cmp a b = rat_cmp (of_int a * k) (of_int b * k)"
  by (simp add: big_cmp_def rat_cmp_def)

lemma mag_cmp:
  assumes "0 < d_coeff d" "0 < d_coeff x"
  shows "(if d_exp d = d_exp x then big_cmp (d_coeff d) (d_coeff x)
     else if num_digits d + d_exp d < num_digits x + d_exp x then - 1
     else if num_digits d + d_exp d > num_digits x + d_exp x then 1
     else if d_exp d < d_exp x then big_cmp (d_coeff d) (d_coeff x * exp10 (d_exp x - d_exp d))
     else big_cmp (d_coeff d * exp10 (d_exp d - d_exp x)) (d_coeff x)) = rat_cmp (mag d) (mag x)"
proof -
  note bd = magnitude_bounds[OF assms(1), folded mag_def]
  note bx = magnitude_bounds[OF assms(2), folded mag_def]
  have lt: "mag d < mag x" if "num_digits d + d_exp d < num_digits x + d_exp x"
    using bd(2) bx(1) powi10_mono[of "num_digits d + d_exp d" "num_digits x + d_exp x - 1"] that by simp
  have gt: "mag x < mag d" if "num_digits x + d_exp x < num_digits d + d_exp d"
    using bx(2) bd(1) powi10_mono[of "num_digits x + d_exp x" "num_digits d + d_exp d - 1"] that by simp
  have sx: "of_int (d_coeff x * exp10 (d_exp x - d_exp d)) * (10::rat) powi d_exp d = mag x"
    if "d_exp d < d_exp x"
    using that by (simp only: scaled_val mag_def less_imp_le)
  have sd: "of_int (d_coeff d * exp10 (d_exp d - d_exp x)) * (10::rat) powi d_exp x = mag d"
    if "d_exp x < d_exp d"
    using that by (simp only: scaled_val mag_def less_imp_le)
  consider (eq) "d_exp d = d_exp x" | (l) "d_exp d < d_exp x" | (g) "d_exp x < d_exp d" by linarith
  then show ?thesis
  proof cases
    case eq
    then show ?thesis by (simp add: big_cmp_scale[of "10 powi d_exp x"] mag_def)
  next
    case l
    then show ?thesis
      using lt gt sx by (auto simp: big_cmp_scale[of "10 powi d_exp d" "d_coeff d"] mag_def[of d, symmetric] rat_cmp_def)
  next
    case g
    then show ?thesis
      using lt gt sd by (auto simp: big_cmp_scale[of "10 powi d_exp x" _ "d_coeff x"] mag_def[of x, symmetric] rat_cmp_def)
  qed
qed

lemma dec_val_mag: "dec_val d = (if d_neg d then - mag d else mag d)"
  by (simp add: dec_val_def mag_def)

lemma dec_cmp_correct:
  assumes "wf_dec d" "wf_dec x"
  shows "dec_cmp d x = rat_cmp (dec_val d) (dec_val x)"
proof -
  note sg = dec_val_sign[OF assms(1)] dec_val_sign[OF assms(2)]
  have fin: "d_form d = Finite" "d_form x = Finite" using assms by (auto simp: wf_dec_def)
  show ?thesis
  proof (cases "dec_sign d = dec_sign x \<and> dec_sign d \<noteq> 0")
    case False
    then show ?thesis
      using sg by (auto simp: dec_cmp_def Let_def rat_cmp_def split: if_splits)
  next
    case True
    then have nz: "0 < d_coeff d" "0 < d_coeff x" and neg: "d_neg d = d_neg x"
      using assms by (auto simp: dec_sign_def wf_dec_def split: if_splits)
    have s: "dec_sign d = (if d_neg d then - 1 else 1)" "dec_sign x = (if d_neg d then - 1 else 1)"
      using True nz fin neg by (auto simp: dec_sign_def)
    have "dec_cmp d x = (if d_neg d then - rat_cmp (mag d) (mag x) else rat_cmp (mag d) (mag x))"
      unfolding mag_cmp[OF nz, symmetric] using s fin by (simp add: dec_cmp_def Let_def)
    also have "\<dots> = rat_cmp (dec_val d) (dec_val x)"
      using neg by (auto simp: dec_val_mag rat_cmp_def)
    finally show ?thesis .
  qed
qed

section \<open>Sign changes\<close>

lemma dec_neg_props:
  assumes "wf_dec d"
  shows "wf_dec (dec_neg d)" and "dec_val (dec_neg d) = - dec_val d"
    and "num_digits (dec_neg d) = num_digits d" and "d_exp (dec_neg d) = d_exp d"
  using assms by (auto simp: dec_neg_def wf_dec_def dec_val_def dec_is_zero_def dec_sign_def num_digits_def)

lemma dec_abs_props:
  assumes "wf_dec d"
  shows "wf_dec (dec_abs d)" and "dec_val (dec_abs d) = \<bar>dec_val d\<bar>"
  using assms by (auto simp: dec_abs_def wf_dec_def dec_val_def abs_mult)

section \<open>Integer quotient and remainder\<close>

lemma ctx_quo_integer_ok:
  assumes wf: "wf_dec x" "wf_dec y" and y: "d_coeff y \<noteq> 0"
    and near: "\<bar>d_exp x - d_exp y\<bar> \<le> 100000"
    and c: "0 < c_prec c" and ok: "ctx_quo_integer c x y = Ok (d, f)"
    and t: "DivisionImpossible \<in> c_traps c \<or>
        num_digits_int (d_coeff x * exp10 (d_exp x - min (d_exp x) (d_exp y)) div
          (d_coeff y * exp10 (d_exp y - min (d_exp x) (d_exp y)))) \<le> c_prec c"
  shows "d = \<lparr>d_form = Finite, d_neg = (d_neg x \<noteq> d_neg y), d_exp = 0,
    d_coeff = d_coeff x * exp10 (d_exp x - min (d_exp x) (d_exp y)) div
      (d_coeff y * exp10 (d_exp y - min (d_exp x) (d_exp y)))\<rparr>"
proof -
  let ?s = "min (d_exp x) (d_exp y)"
  let ?a = "d_coeff x * exp10 (d_exp x - ?s)" and ?b = "d_coeff y * exp10 (d_exp y - ?s)"
  have nn: "0 \<le> ?a" "0 < ?b"
    using wf y by (simp_all add: wf_dec_def zero_le_mult_iff zero_less_mult_iff less_imp_le)
  have q: "?a sdiv ?b = ?a div ?b" using nn by (rule sdiv_nonneg)
  have nz: "\<not> dec_is_zero y" using wf(2) y by (simp add: dec_is_zero_coeff)
  show ?thesis
    using ok t wf nz c near q
    by (auto simp: ctx_quo_integer_def quo_specials_def should_set_as_nan_def is_nan_form_def wf_dec_def
        upscale_eq Let_def num_digits_def go_error_def split: if_splits)
qed

lemma ctx_rem_ok:
  assumes c: "std_ctx c" "0 < c_prec c" and wf: "wf_dec x" "wf_dec y" and y: "d_coeff y \<noteq> 0"
    and near: "\<bar>d_exp x - d_exp y\<bar> \<le> 100000"
    and ok: "ctx_rem c x y = Ok (d, f)"
    and q: "num_digits_int (d_coeff x * exp10 (d_exp x - min (d_exp x) (d_exp y)) div
          (d_coeff y * exp10 (d_exp y - min (d_exp x) (d_exp y)))) \<le> c_prec c"
    and r: "num_digits_int (d_coeff x * exp10 (d_exp x - min (d_exp x) (d_exp y)) mod
          (d_coeff y * exp10 (d_exp y - min (d_exp x) (d_exp y)))) \<le> c_prec c"
    and m: "moderate x" "moderate y" "c_prec c \<le> 1000"
  shows "d = \<lparr>d_form = Finite, d_neg = d_neg x, d_exp = min (d_exp x) (d_exp y),
    d_coeff = d_coeff x * exp10 (d_exp x - min (d_exp x) (d_exp y)) mod
      (d_coeff y * exp10 (d_exp y - min (d_exp x) (d_exp y)))\<rparr>"
proof -
  let ?s = "min (d_exp x) (d_exp y)"
  let ?a = "d_coeff x * exp10 (d_exp x - ?s)" and ?b = "d_coeff y * exp10 (d_exp y - ?s)"
  let ?d = "\<lparr>d_form = Finite, d_neg = d_neg x, d_exp = ?s, d_coeff = ?a mod ?b\<rparr>"
  have nn: "0 \<le> ?a" "0 < ?b"
    using wf y by (simp_all add: wf_dec_def zero_le_mult_iff zero_less_mult_iff less_imp_le)
  have sd: "?a sdiv ?b = ?a div ?b" "?a smod ?b = ?a mod ?b"
    using nn by (simp_all add: sdiv_nonneg smod_nonneg)
  have nz: "\<not> dec_is_zero y" using wf(2) y by (simp add: dec_is_zero_coeff)
  have fin: "finish c {} ?d = Ok (?d, {})"
    using c r m num_digits_int_pos[of "?a mod ?b"]
    by (intro finish_fits) (auto simp: num_digits_def moderate_def)
  show ?thesis
    using ok wf nz near sd q fin
    by (auto simp: ctx_rem_def should_set_as_nan_def is_nan_form_def wf_dec_def
        upscale_eq Let_def split: if_splits)
qed

section \<open>Quantize in closed form\<close>

lemma exp10_ge_1 [simp]: "1 \<le> exp10 x"
  using exp10_pos[of x] by linarith

definition quant_coeff :: "rounder \<Rightarrow> bool \<Rightarrow> int \<Rightarrow> int \<Rightarrow> int" where
  "quant_coeff r neg co diff =
     (if diff \<le> 0 then co * exp10 (- diff)
      else if num_digits_int co < diff then 0
      else let y = co div exp10 diff; m = co mod exp10 diff in
        if m \<noteq> 0 \<and> should_add_one r y neg (big_cmp (2 * m) (exp10 diff)) then y + 1 else y)"

lemma discard_cmp:
  assumes "0 \<le> m" "0 < k" "k \<le> 100000"
  shows "dec_cmp (dec0\<lparr>d_coeff := m, d_exp := - k\<rparr>) decimalHalf = big_cmp (2 * m) (exp10 k)"
proof -
  have wf: "wf_dec (dec0\<lparr>d_coeff := m, d_exp := - k\<rparr>)" "wf_dec decimalHalf"
    using assms by (simp_all add: wf_dec_def dec0_def decimalHalf_def set_finite_def)
  have half: "dec_val decimalHalf = 1 / 2"
    by (simp add: decimalHalf_def set_finite_def dec_val_def)
  have v: "dec_val (dec0\<lparr>d_coeff := m, d_exp := - k\<rparr>) = of_int m * 10 powi (- k)"
    by (simp add: dec0_def dec_val_def)
  have "rat_cmp (of_int m * 10 powi (- k)) (1 / 2) =
      rat_cmp (of_int (2 * m) * (10 powi (- k) / 2)) (of_int (exp10 k) * (10 powi (- k) / 2))"
    using assms by (simp add: of_int_exp10 power_int_minus field_simps)
  also have "\<dots> = big_cmp (2 * m) (exp10 k)"
    by (rule big_cmp_scale[symmetric]) simp
  finally show ?thesis by (simp add: dec_cmp_correct[OF wf] half v)
qed

lemma num_digits_succ:
  assumes "0 \<le> y" "num_digits_int y < num_digits_int (y + 1)"
  shows "(y + 1) div 10 * 10 = y + 1" and "num_digits_int (y + 1) = num_digits_int y + 1"
proof -
  let ?n = "num_digits_int y"
  have n: "0 < ?n" by (rule num_digits_int_pos)
  have lt: "y < 10 ^ nat ?n" using assms(1) by (rule num_digits_int_upper)
  have "\<not> num_digits_int (y + 1) \<le> int (nat ?n)" using assms(2) n by simp
  then have "\<not> y + 1 < 10 ^ nat ?n"
    using assms(1) n by (subst (asm) num_digits_int_le_iff) auto
  with lt have eq: "y + 1 = 10 ^ nat ?n" by linarith
  then have "y + 1 = 10 * 10 ^ (nat ?n - 1)" using n by (cases "nat ?n") auto
  then show "(y + 1) div 10 * 10 = y + 1" by simp
  have "num_digits_int (y + 1) \<le> int (nat ?n + 1)"
    unfolding eq by (subst num_digits_int_le_iff) auto
  then show "num_digits_int (y + 1) = num_digits_int y + 1" using assms(2) n by simp
qed

lemma rounder_round_quant:
  assumes emax: "c_emax c = 100000" and emin: "c_emin c = - 100000"
    and v: "wf_dec v" and diff: "0 < diff" "diff \<le> num_digits v" and nd: "num_digits v \<le> 1000"
    and p: "c_prec c = num_digits v - diff"
  shows "\<exists>d f. rounder_round r c (v\<lparr>d_exp := - diff\<rparr>) False = Ok (d, f)
    \<and> (if d_exp d > 0 then d\<lparr>d_coeff := d_coeff d * 10\<rparr> else d)\<lparr>d_exp := ex\<rparr>
        = v\<lparr>d_coeff := quant_coeff r (d_neg v) (d_coeff v) diff, d_exp := ex\<rparr>
    \<and> f \<subseteq> {Inexact, Rounded} \<and> (Inexact \<in> f \<longleftrightarrow> d_coeff v mod exp10 diff \<noteq> 0)"
proof -
  let ?e = "exp10 diff"
  let ?y = "d_coeff v div ?e" and ?m = "d_coeff v mod ?e"
  let ?x = "v\<lparr>d_exp := - diff\<rparr>"
  have co: "0 \<le> d_coeff v" using v by (simp add: wf_dec_def)
  have sd: "d_coeff v sdiv ?e = ?y" "d_coeff v smod ?e = ?m"
    using co by (simp_all add: sdiv_nonneg smod_nonneg)
  have y0: "0 \<le> ?y" using co by (simp add: pos_imp_zdiv_nonneg_iff)
  have m0: "0 \<le> ?m" by simp
  have ndp: "num_digits ?x - c_prec c = diff" using p by simp
  have nosub: "\<not> (d_exp ?x + num_digits ?x - 1 < c_emin c)" using emin p diff nd by simp
  have yd: "num_digits_int ?y \<le> num_digits v"
  proof -
    have "?y \<le> d_coeff v" using zdiv_mono2[of "d_coeff v" 1 ?e] co by simp
    then show ?thesis
      using y0 by (simp add: num_digits_def num_digits_int_def ndig_mono)
  qed
  have se: "set_exponent c (?x\<lparr>d_coeff := k\<rparr>) unknownNumDigits res [- diff, t]
      = (v\<lparr>d_coeff := k, d_exp := t - diff\<rparr>, res)"
    if "num_digits_int k \<le> num_digits v + 1" "diff \<le> t" "t \<le> diff + 1" "Subnormal \<notin> res" for k t res
    using that diff nd num_digits_int_pos[of k] emax emin
    by (subst set_exponent_std) (auto simp: unknownNumDigits_def Let_def num_digits_def)
  have nd0: "\<not> (c_prec c = 0 \<and> False)" by simp
  have disc: "dec_cmp (dec0\<lparr>d_coeff := ?m, d_exp := - diff\<rparr>) decimalHalf = big_cmp (2 * ?m) ?e"
    using diff nd by (intro discard_cmp) auto
  have i: "i32 (- diff) = - diff" using diff nd by simp
  have ndv: "\<not> num_digits_int (d_coeff v) < diff" using diff by (simp add: num_digits_def)
  have lim: "diff > 0" "\<not> diff > MaxExponent" "\<not> diff < MinExponent"
    using diff nd by (simp_all add: MaxExponent_def MinExponent_def)
  have base: "rounder_round r c ?x False =
     (if ?m \<noteq> 0 then
        bindR (if should_add_one r ?y (d_neg v) (big_cmp (2 * ?m) ?e) then round_add_one ?y diff else Ok (?y, diff))
          (\<lambda>(y, t). Ok (apsnd ((\<union>) {Rounded, Inexact})
             (set_exponent c (?x\<lparr>d_coeff := y\<rparr>) unknownNumDigits {Rounded, Inexact} [- diff, t])))
      else Ok (apsnd (insert Rounded)
             (set_exponent c (?x\<lparr>d_coeff := ?y\<rparr>) unknownNumDigits {Rounded} [- diff, diff])))"
    unfolding rounder_round_def Let_def ndp
    using nosub lim by (simp add: sd i disc)
  have sey: "set_exponent c (?x\<lparr>d_coeff := ?y\<rparr>) unknownNumDigits res [- diff, diff]
      = (v\<lparr>d_coeff := ?y, d_exp := 0\<rparr>, res)" if "Subnormal \<notin> res" for res
    using se[of ?y diff res] yd that by simp
  show ?thesis
  proof (cases "?m \<noteq> 0 \<and> should_add_one r ?y (d_neg v) (big_cmp (2 * ?m) ?e)")
    case False
    then have q: "quant_coeff r (d_neg v) (d_coeff v) diff = ?y"
      using diff ndv by (auto simp: quant_coeff_def Let_def)
    have "rounder_round r c ?x False =
        Ok (v\<lparr>d_coeff := ?y, d_exp := 0\<rparr>, if ?m = 0 then {Rounded} else {Rounded, Inexact})"
      unfolding base using False sey[of "{Rounded}"] sey[of "{Rounded, Inexact}"] by auto
    then show ?thesis using q by simp
  next
    case True
    have q: "quant_coeff r (d_neg v) (d_coeff v) diff = ?y + 1"
      using True diff ndv by (simp add: quant_coeff_def Let_def)
    show ?thesis
    proof (cases "num_digits_int (?y + 1) > num_digits_int ?y")
      case False
      have "round_add_one ?y diff = Ok (?y + 1, diff)"
        using False y0 by (simp add: round_add_one_def Let_def)
      then have "rounder_round r c ?x False = Ok (v\<lparr>d_coeff := ?y + 1, d_exp := 0\<rparr>, {Rounded, Inexact})"
        unfolding base using True False se[of "?y + 1" diff "{Rounded, Inexact}"] yd by auto
      then show ?thesis using True q by auto
    next
      case carry: True
      note c10 = num_digits_succ[OF y0 carry]
      have "round_add_one ?y diff = Ok ((?y + 1) div 10, diff + 1)"
        using carry y0 by (simp add: round_add_one_def Let_def sdiv_nonneg)
      moreover have "num_digits_int ((?y + 1) div 10) \<le> num_digits v + 1"
      proof -
        have "(?y + 1) div 10 \<le> ?y + 1" using y0 by simp
        then have "num_digits_int ((?y + 1) div 10) \<le> num_digits_int (?y + 1)"
          using y0 by (simp add: num_digits_int_def ndig_mono)
        then show ?thesis using c10 yd by linarith
      qed
      ultimately have "rounder_round r c ?x False =
          Ok (v\<lparr>d_coeff := (?y + 1) div 10, d_exp := 1\<rparr>, {Rounded, Inexact})"
        unfolding base using True se[of "(?y + 1) div 10" "diff + 1" "{Rounded, Inexact}"] by auto
      then show ?thesis using True q c10(1) by auto
    qed
  qed
qed


text \<open>A policy context: the precision, exponent bounds and traps every policy uses.\<close>

definition policy_like :: "ctx \<Rightarrow> bool" where
  "policy_like c \<longleftrightarrow> std_ctx c \<and> 0 < c_prec c \<and> c_prec c \<le> 1000 \<and> InvalidOperation \<in> c_traps c
     \<and> c_traps c \<inter> {Inexact, Rounded} = {}"

lemma quantize_raw_eq:
  assumes c: "policy_like c" and x: "wf_dec x" "moderate x" "num_digits x \<le> 1000"
    and ex: "- 1000 \<le> ex" "ex \<le> 1000"
  shows "\<exists>f. f \<subseteq> {Inexact, Rounded} \<and> quantize_raw c x ex =
    Ok (x\<lparr>d_coeff := quant_coeff (c_rounding c) (d_neg x) (d_coeff x) (ex - d_exp x), d_exp := ex\<rparr>, f)"
proof -
  let ?diff = "ex - d_exp x"
  have d: "i32 ?diff = ?diff" using x ex by (simp add: moderate_def)
  have nd: "i32 (num_digits x) = num_digits x" using x num_digits_pos[of x] by simp
  have p: "i32 (num_digits x - ?diff) = num_digits x - ?diff"
    using x ex num_digits_pos[of x] by (simp add: moderate_def)
  consider (neg) "?diff < 0" | (zero) "?diff = 0" | (short) "0 < ?diff" "num_digits x < ?diff"
    | (rnd) "0 < ?diff" "?diff \<le> num_digits x" by linarith
  then show ?thesis
  proof cases
    case neg
    then show ?thesis
      using x ex d by (auto simp: quantize_raw_def Let_def MinExponent_def moderate_def quant_coeff_def)
  next
    case zero
    then show ?thesis
      by (auto simp: quantize_raw_def Let_def quant_coeff_def)
  next
    case short
    then show ?thesis
      using x d nd p
      by (auto simp: quantize_raw_def Let_def quant_coeff_def num_digits_def dec_is_zero_coeff)
  next
    case rnd
    have i: "i32 (- ?diff) = - ?diff" using x ex by (simp add: moderate_def)
    let ?c = "c\<lparr>c_prec := num_digits x - ?diff\<rparr>"
    have "\<exists>d f. rounder_round (c_rounding c) ?c (x\<lparr>d_exp := - ?diff\<rparr>) False = Ok (d, f)
      \<and> (if d_exp d > 0 then d\<lparr>d_coeff := d_coeff d * 10\<rparr> else d)\<lparr>d_exp := ex\<rparr>
          = x\<lparr>d_coeff := quant_coeff (c_rounding c) (d_neg x) (d_coeff x) ?diff, d_exp := ex\<rparr>
      \<and> f \<subseteq> {Inexact, Rounded} \<and> (Inexact \<in> f \<longleftrightarrow> d_coeff x mod exp10 ?diff \<noteq> 0)"
      using c x rnd by (intro rounder_round_quant) (auto simp: policy_like_def std_ctx_def)
    then obtain d0 f where R: "rounder_round (c_rounding c) ?c (x\<lparr>d_exp := - ?diff\<rparr>) False = Ok (d0, f)"
      and E: "(if d_exp d0 > 0 then d0\<lparr>d_coeff := d_coeff d0 * 10\<rparr> else d0)\<lparr>d_exp := ex\<rparr>
          = x\<lparr>d_coeff := quant_coeff (c_rounding c) (d_neg x) (d_coeff x) ?diff, d_exp := ex\<rparr>"
      and F: "f \<subseteq> {Inexact, Rounded}" by blast
    have "\<not> ?diff < 0" "\<not> num_digits x - ?diff < 0" using rnd by simp_all
    then have "quantize_raw c x ex =
        Ok ((if d_exp d0 > 0 then d0\<lparr>d_coeff := d_coeff d0 * 10\<rparr> else d0)\<lparr>d_exp := ex\<rparr>, f)"
      unfolding quantize_raw_def Let_def d nd p i R using rnd(1) by simp
    then show ?thesis unfolding E using F by blast
  qed
qed

lemma quant_coeff_nonneg: "0 \<le> co \<Longrightarrow> 0 \<le> quant_coeff r n co k"
  by (auto simp: quant_coeff_def Let_def pos_imp_zdiv_nonneg_iff zero_le_mult_iff less_imp_le
      intro: add_nonneg_nonneg)

lemma ctx_quantize_eq:
  assumes c: "policy_like c" and x: "wf_dec x" "moderate x" "num_digits x \<le> 1000"
    and ex: "- 1000 \<le> ex" "ex \<le> 1000"
  shows "bindR (ctx_quantize c x ex) (\<lambda>(d, _). Ok d) =
    (let q = quant_coeff (c_rounding c) (d_neg x) (d_coeff x) (ex - d_exp x) in
     if num_digits_int q > c_prec c then Err (Trapped {InvalidOperation})
     else Ok (x\<lparr>d_coeff := q, d_exp := ex\<rparr>))"
proof -
  let ?q = "quant_coeff (c_rounding c) (d_neg x) (d_coeff x) (ex - d_exp x)"
  obtain f where f: "f \<subseteq> {Inexact, Rounded}"
    and raw: "quantize_raw c x ex = Ok (x\<lparr>d_coeff := ?q, d_exp := ex\<rparr>, f)"
    using quantize_raw_eq[OF assms] by blast
  have std: "std_ctx c" "c_prec c \<le> 1000" "0 < c_prec c" using c by (auto simp: policy_like_def)
  have et: "\<not> ex < etiny c"
    using std ex by (simp add: etiny_def std_ctx_def)
  have emax: "\<not> c_emax c < ex" using std ex by (simp add: std_ctx_def)
  have tr: "c_traps c \<inter> f = {}" using c f by (auto simp: policy_like_def)
  have inv: "c_traps c \<inter> {InvalidOperation} = {InvalidOperation}" using c by (auto simp: policy_like_def)
  have rnd: "ctx_round c (x\<lparr>d_coeff := ?q, d_exp := ex\<rparr>) = Ok (x\<lparr>d_coeff := ?q, d_exp := ex\<rparr>, {})"
    if "num_digits_int ?q \<le> c_prec c"
    unfolding ctx_round_def
    using that std ex num_digits_int_pos[of ?q]
    by (intro rounder_round_fits) (auto simp: num_digits_def)
  have nosys: "f \<inter> {SystemOverflow, SystemUnderflow, Overflow, Underflow} = {}" using f by auto
  show ?thesis
    using x raw et emax tr inv rnd nosys
    by (auto simp: ctx_quantize_def should_set_as_nan_def is_nan_form_def wf_dec_def Let_def
        num_digits_def go_error_def Int_commute)
qed

section \<open>Evaluation\<close>

text \<open>The equations that compute a context operation on concrete decimals.\<close>

lemmas apd_eval = MaxExponent_def MinExponent_def unknownNumDigits_def dec0_def set_finite_def decimalNaN_def decimalInfinity_def decimalHalf_def exp10_def num_digits_def dec_sign_def dec_is_zero_def dec_neg_def dec_abs_def big_cmp_def dec_cmp_def modf_def dec_int64_def maxInt64_def should_add_one_def round_add_one_def set_exponent_def rounder_round_def ctx_round_def go_error_def etiny_def is_nan_form_def should_set_as_nan_def set_as_nan_def upscale_def finish_def ctx_add_gen_def ctx_add_def ctx_sub_def ctx_mul_def quo_specials_def ctx_quo_def ctx_quo_integer_def ctx_rem_def quantize_raw_def ctx_quantize_def num_digits_int_def i32_def signed_divide_int_def signed_modulo_int_def ndig.simps

end
