(* ===== verification/ApdText.thy ===== *)
theory ApdText
  imports ApdFacts
begin

text \<open>
  Decimal text: \<open>Decimal.setString\<close>, \<open>Context.SetString\<close> and \<open>NewFromString\<close>
  (\<open>apd/v3/decimal.go\<close>) and \<open>Text('f')\<close> (\<open>apd/v3/format.go\<close>). Strings are byte lists;
  \<open>strings.ToLower\<close> is its ASCII part. The lemmas show that printing a well-formed decimal of
  non-positive exponent and parsing it back is the identity, sign of zero excepted by the
  canonical form.
\<close>

section \<open>Parsing\<close>

definition consume_prefix :: "string \<Rightarrow> string \<Rightarrow> string \<times> bool" where
  "consume_prefix s pre = (if take (length pre) s = pre then (drop (length pre) s, True) else (s, False))"

definition has_prefix :: "string \<Rightarrow> string \<Rightarrow> bool" where
  "has_prefix s pre \<longleftrightarrow> take (length pre) s = pre"

definition lower_char :: "char \<Rightarrow> char" where
  "lower_char c = (let n = of_char c :: nat in if 65 \<le> n \<and> n \<le> 90 then char_of (n + 32) else c)"

definition to_lower :: "string \<Rightarrow> string" where
  "to_lower = map lower_char"

text \<open>\<open>big.Int.SetString(s, 10)\<close>: an optional sign and at least one digit.\<close>

definition parse_int :: "string \<Rightarrow> int option" where
  "parse_int s =
     (case s of
        [] \<Rightarrow> None
      | c # cs \<Rightarrow>
        if c = CHR ''-'' then map_option (\<lambda>n. - int n) (parse_nat cs)
        else if c = CHR ''+'' then map_option int (parse_nat cs)
        else map_option int (parse_nat s))"

definition parse_int_bits :: "nat \<Rightarrow> string \<Rightarrow> int option" where
  "parse_int_bits w s =
     (case parse_int s of
        None \<Rightarrow> None
      | Some i \<Rightarrow> if - (2 ^ (w - 1)) \<le> i \<and> i < 2 ^ (w - 1) then Some i else None)"

definition parse_uint64 :: "string \<Rightarrow> nat option" where
  "parse_uint64 s = (case parse_nat s of None \<Rightarrow> None | Some n \<Rightarrow> if n < 2 ^ 64 then Some n else None)"

fun index_byte :: "string \<Rightarrow> char \<Rightarrow> nat option" where
  "index_byte [] c = None"
| "index_byte (x # xs) c = (if x = c then Some 0 else map_option Suc (index_byte xs c))"

definition base_ctx :: ctx where
  "base_ctx = \<lparr>c_prec = 0, c_emax = MaxExponent, c_emin = MinExponent,
     c_traps = {SystemOverflow, SystemUnderflow, Overflow, Underflow, Subnormal, DivisionUndefined,
       DivisionByZero, DivisionImpossible, InvalidOperation},
     c_rounding = RUnset\<rparr>"

text \<open>The numeral of \<open>setString\<close>: an optional exponent after \<open>e\<close>, an optional point, and the
  coefficient; the exponents go to \<open>setExponent\<close>.\<close>

definition set_numeral :: "ctx \<Rightarrow> bool \<Rightarrow> string \<Rightarrow> (apd_err, decimal \<times> condition) result" where
  "set_numeral c neg s =
     (case (case index_byte s (CHR ''e'') of
              None \<Rightarrow> Some ([], s)
            | Some i \<Rightarrow> map_option (\<lambda>e. ([e], take i s)) (parse_int_bits 32 (drop (i + 1) s))) of
        None \<Rightarrow> Err ParseError
      | Some (exps, s) \<Rightarrow>
        let (exps, s) =
              (case index_byte s (CHR ''.'') of
                 None \<Rightarrow> (exps, s)
               | Some i \<Rightarrow> (exps @ [- (int (length s) - int i - 1)], take i s @ drop (i + 1) s)) in
        case parse_int s of
          None \<Rightarrow> Err ParseError
        | Some co \<Rightarrow>
          (case set_exponent c \<lparr>d_form = Finite, d_neg = neg, d_exp = 0, d_coeff = co\<rparr>
                  unknownNumDigits {} exps of
             (d, res) \<Rightarrow> go_error c d res))"

definition set_string :: "ctx \<Rightarrow> string \<Rightarrow> (apd_err, decimal \<times> condition) result" where
  "set_string c orig =
     (let (s, neg) = consume_prefix orig ''-'';
          s = (if neg then s else fst (consume_prefix s ''+''));
          s = to_lower s;
          d = \<lparr>d_form = NaN, d_neg = neg, d_exp = 0, d_coeff = 0\<rparr> in
      if has_prefix s ''-'' \<or> has_prefix s ''+'' then Err ParseError
      else if s = ''infinity'' \<or> s = ''inf'' then Ok (d\<lparr>d_form := Infinite\<rparr>, {})
      else
        let (s, isNaN) = consume_prefix s ''nan'';
            (s, isSNaN) = consume_prefix s ''snan'';
            d = (if isSNaN then d\<lparr>d_form := NaNSignaling\<rparr> else d) in
        if isNaN \<or> isSNaN then
          (if s \<noteq> [] \<and> parse_uint64 s = None then Err ParseError else Ok (d, {}))
        else set_numeral c neg s)"

definition new_from_string :: "string \<Rightarrow> (apd_err, decimal \<times> condition) result" where
  "new_from_string s =
     bindR (set_string base_ctx s) (\<lambda>(d, res).
       bindR (ctx_round base_ctx d) (\<lambda>(d', f). go_error base_ctx d' (res \<union> f)))"

section \<open>Printing\<close>

definition fmt_f :: "decimal \<Rightarrow> string \<Rightarrow> string" where
  "fmt_f d digits =
     (if d_exp d < 0 then
        (let left = - d_exp d - int (length digits) in
         if left \<ge> 0 then ''0.'' @ replicate (nat left) (CHR ''0'') @ digits
         else take (nat (- left)) digits @ ''.'' @ drop (nat (- left)) digits)
      else digits @ replicate (nat (d_exp d)) (CHR ''0''))"

definition text_f :: "decimal \<Rightarrow> string" where
  "text_f d =
     (if d_neg d then ''-'' else []) @
     (case d_form d of
        Finite \<Rightarrow> fmt_f d (show_int (d_coeff d))
      | NaN \<Rightarrow> ''NaN''
      | NaNSignaling \<Rightarrow> ''sNaN''
      | Infinite \<Rightarrow> ''Infinity'')"

section \<open>Printing then parsing\<close>

lemma is_digit_not_special:
  assumes "is_digit c"
  shows "c \<noteq> CHR ''-''" "c \<noteq> CHR ''+''" "c \<noteq> CHR ''.''" "c \<noteq> CHR ''e''" "c \<noteq> CHR ''n''"
    "c \<noteq> CHR ''s''" "c \<noteq> CHR ''i''" "lower_char c = c"
  using assms by (auto simp: is_digit_def lower_char_def Let_def)

lemma fmt_f_shape:
  assumes "d_exp d < 0"
  shows "\<exists>I F. fmt_f d (show_nat n) = I @ CHR ''.'' # F \<and> list_all is_digit I \<and> list_all is_digit F
    \<and> I \<noteq> [] \<and> int (length F) = - d_exp d \<and> digits_val 0 (I @ F) = n"
proof -
  let ?D = "show_nat n"
  let ?left = "- d_exp d - int (length ?D)"
  have dig0: "is_digit (CHR ''0'')" by (simp add: is_digit_def)
  show ?thesis
  proof (cases "?left \<ge> 0")
    case True
    let ?F = "replicate (nat ?left) (CHR ''0'') @ ?D"
    have "fmt_f d ?D = [CHR ''0''] @ CHR ''.'' # ?F"
      using assms True by (simp add: fmt_f_def Let_def)
    moreover have "list_all is_digit ?F"
      using dig0 show_nat_digits[of n] by (auto simp: list_all_iff)
    moreover have "digits_val 0 ([CHR ''0''] @ ?F) = n"
      using digits_val_zeros[of "nat ?left" ?D] digits_val_show_nat[of n] by (simp add: digit_val_def)
    moreover have "int (length ?F) = - d_exp d" using True by simp
    ultimately show ?thesis using dig0 by (intro exI[of _ "[CHR ''0'']"] exI[of _ ?F]) simp
  next
    case False
    let ?k = "nat (- ?left)"
    have "fmt_f d ?D = take ?k ?D @ CHR ''.'' # drop ?k ?D"
      using assms False by (simp add: fmt_f_def Let_def)
    moreover have "list_all is_digit (take ?k ?D)" "list_all is_digit (drop ?k ?D)"
      using show_nat_digits[of n] by (auto simp: list_all_iff dest: in_set_takeD in_set_dropD)
    moreover have "take ?k ?D \<noteq> []" using False by simp
    moreover have "int (length (drop ?k ?D)) = - d_exp d" using False assms by simp
    ultimately show ?thesis by (metis append_take_drop_id digits_val_show_nat)
  qed
qed

lemma index_byte_None: "c \<notin> set s \<Longrightarrow> index_byte s c = None"
  by (induction s) auto

lemma index_byte_app: "c \<notin> set s \<Longrightarrow> index_byte (s @ c # t) c = Some (length s)"
  by (induction s) auto

lemma digits_notin: "list_all is_digit s \<Longrightarrow> \<not> is_digit c \<Longrightarrow> c \<notin> set s"
  by (auto simp: list_all_iff)

lemma not_digit_special [simp]:
  "\<not> is_digit (CHR ''.'')" "\<not> is_digit (CHR ''e'')" "\<not> is_digit (CHR ''-'')" "\<not> is_digit (CHR ''+'')"
  by (simp_all add: is_digit_def)

lemma parse_int_digits:
  assumes "list_all is_digit s" "s \<noteq> []"
  shows "parse_int s = Some (int (digits_val 0 s))"
proof -
  obtain c cs where s: "s = c # cs" using assms(2) by (cases s) auto
  then have "is_digit c" using assms(1) by simp
  then show ?thesis
    using assms is_digit_not_special[of c] by (simp add: s parse_int_def parse_nat_def)
qed

lemma to_lower_digits: "list_all (\<lambda>c. is_digit c \<or> c = CHR ''.'') s \<Longrightarrow> to_lower s = s"
  unfolding to_lower_def
proof (induction s)
  case (Cons c s)
  moreover have "lower_char (CHR ''.'') = CHR ''.''" by (simp add: lower_char_def Let_def)
  ultimately show ?case using is_digit_not_special(8)[of c] by auto
qed simp

text \<open>The text of a decimal starts with a digit, so only the numeral branch is taken.\<close>

lemma set_string_numeral:
  assumes "s = c # cs" "is_digit c" "list_all (\<lambda>c. is_digit c \<or> c = CHR ''.'') s"
  shows "set_string k ((if neg then ''-'' else []) @ s) = set_numeral k neg s"
proof -
  note sp = is_digit_not_special[OF assms(2)]
  have pre: "consume_prefix s (x # xs) = (s, False)" "has_prefix s (x # xs) = False" if "x \<noteq> c" for x xs
    using that assms(1) by (auto simp: consume_prefix_def has_prefix_def)
  have "consume_prefix ((if neg then ''-'' else []) @ s) ''-'' = (s, neg)"
    using sp assms(1) by (auto simp: consume_prefix_def)
  moreover have "s \<noteq> ''infinity''" "s \<noteq> ''inf''" using sp assms(1) by auto
  moreover have "consume_prefix s ''+'' = (s, False)" "consume_prefix s ''nan'' = (s, False)"
    "consume_prefix s ''snan'' = (s, False)" "has_prefix s ''-'' = False" "has_prefix s ''+'' = False"
    using sp pre by auto
  ultimately show ?thesis
    using to_lower_digits[OF assms(3)] by (simp add: set_string_def Let_def)
qed

lemma go_error_base: "f = {} \<Longrightarrow> go_error c d f = Ok (d, f)"
  by (simp add: go_error_def)

lemma set_numeral_text:
  assumes d: "wf_dec d" "- 100000 \<le> d_exp d" "d_exp d \<le> 0" "d_exp d + num_digits d \<le> 100001"
    "- 100000 \<le> d_exp d + num_digits d - 1"
  shows "set_numeral base_ctx neg (fmt_f d (show_nat (nat (d_coeff d)))) = Ok (d\<lparr>d_neg := neg\<rparr>, {})"
proof -
  let ?n = "nat (d_coeff d)"
  let ?r = "\<lparr>d_form = Finite, d_neg = neg, d_exp = 0, d_coeff = d_coeff d\<rparr>"
  have b: "c_emax base_ctx = 100000" "c_emin base_ctx = - 100000"
    by (simp_all add: base_ctx_def MaxExponent_def MinExponent_def)
  have n: "int ?n = d_coeff d" using d by (simp add: wf_dec_def)
  have rd: "?r\<lparr>d_exp := d_exp d\<rparr> = d\<lparr>d_neg := neg\<rparr>" using d by (simp add: wf_dec_def)
  have se: "set_exponent base_ctx ?r unknownNumDigits {} xs = (d\<lparr>d_neg := neg\<rparr>, {})"
    if "xs = [d_exp d] \<or> xs = [] \<and> d_exp d = 0" for xs
    using that d b rd num_digits_int_pos[of "d_coeff d"]
    by (subst set_exponent_std) (auto simp: unknownNumDigits_def Let_def num_digits_def)
  show ?thesis
  proof (cases "d_exp d < 0")
    case False
    then have "fmt_f d (show_nat ?n) = show_nat ?n" using d by (simp add: fmt_f_def)
    moreover have "index_byte (show_nat ?n) (CHR ''e'') = None" "index_byte (show_nat ?n) (CHR ''.'') = None"
      by (intro index_byte_None digits_notin show_nat_digits; simp)+
    moreover have "parse_int (show_nat ?n) = Some (d_coeff d)"
      using d by (simp add: parse_int_digits show_nat_digits digits_val_show_nat wf_dec_def)
    ultimately show ?thesis
      using False d se[of "[]"] by (simp add: set_numeral_def Let_def go_error_base)
  next
    case True
    then obtain I F where t: "fmt_f d (show_nat ?n) = I @ CHR ''.'' # F"
      and dig: "list_all is_digit I" "list_all is_digit F" and I: "I \<noteq> []"
      and F: "int (length F) = - d_exp d" and v: "digits_val 0 (I @ F) = ?n"
      using fmt_f_shape by blast
    have "index_byte (I @ CHR ''.'' # F) (CHR ''e'') = None"
      using dig by (intro index_byte_None) (auto simp: list_all_iff)
    moreover have "index_byte (I @ CHR ''.'' # F) (CHR ''.'') = Some (length I)"
      using dig by (intro index_byte_app digits_notin) auto
    moreover have "parse_int (I @ F) = Some (d_coeff d)"
      using dig I d by (simp add: parse_int_digits v wf_dec_def)
    moreover have "- (int (length (I @ CHR ''.'' # F)) - int (length I) - 1) = d_exp d" using F by simp
    ultimately show ?thesis
      using se[of "[d_exp d]"] by (simp add: t set_numeral_def Let_def go_error_base)
  qed
qed

lemma fmt_f_head:
  assumes "d_exp d \<le> 0"
  shows "\<exists>c cs. fmt_f d (show_nat n) = c # cs \<and> is_digit c
    \<and> list_all (\<lambda>c. is_digit c \<or> c = CHR ''.'') (fmt_f d (show_nat n))"
proof (cases "d_exp d < 0")
  case True
  from fmt_f_shape[OF True, of n] obtain I F where t: "fmt_f d (show_nat n) = I @ CHR ''.'' # F"
    and dig: "list_all is_digit I" "list_all is_digit F" and I: "I \<noteq> []" by blast
  then show ?thesis by (cases I) (auto simp: list_all_iff)
next
  case False
  then have "fmt_f d (show_nat n) = show_nat n" using assms by (simp add: fmt_f_def)
  then show ?thesis using show_nat_digits[of n] by (cases "show_nat n") (auto simp: list_all_iff)
qed

lemma new_from_string_text:
  assumes d: "wf_dec d" "- 100000 \<le> d_exp d" "d_exp d \<le> 0" "d_exp d + num_digits d \<le> 100001"
    "- 100000 \<le> d_exp d + num_digits d - 1"
  shows "new_from_string ((if neg then ''-'' else []) @ fmt_f d (show_nat (nat (d_coeff d))))
    = Ok (d\<lparr>d_neg := neg\<rparr>, {})"
proof -
  obtain c cs where h: "fmt_f d (show_nat (nat (d_coeff d))) = c # cs" "is_digit c"
    "list_all (\<lambda>c. is_digit c \<or> c = CHR ''.'') (fmt_f d (show_nat (nat (d_coeff d))))"
    using fmt_f_head[OF d(3)] by blast
  have b: "c_emax base_ctx = 100000" "c_emin base_ctx = - 100000" "c_prec base_ctx = 0"
    by (simp_all add: base_ctx_def MaxExponent_def MinExponent_def)
  have "num_digits d \<noteq> - 1" using num_digits_pos[of d] by linarith
  then have "ctx_round base_ctx (d\<lparr>d_neg := neg\<rparr>) = Ok (d\<lparr>d_neg := neg\<rparr>, {})"
    using d b by (auto simp: ctx_round_def rounder_round_def Let_def set_exponent_std num_digits_def)
  then show ?thesis
    using set_string_numeral[OF h, of base_ctx neg] set_numeral_text[OF assms, of neg]
    by (simp add: new_from_string_def go_error_base)
qed

end
