(* ===== verification/Fiscal.thy ===== *)
theory Fiscal
  imports ApdText
begin

text \<open>
  The fiscal value objects of \<open>backend/internal/domain/fiscal\<close>: the decimal contexts
  (\<open>context.go\<close>), rounding modes and policies (\<open>rounding.go\<close>), money and rates (\<open>money.go\<close>),
  quantities and the canonical decimal form (\<open>quantity.go\<close>), exact operations and factors
  (\<open>exact.go\<close>) and the database representation (\<open>numeric.go\<close>). A Go string enum is a datatype
  whose last constructor carries every other string, so \<open>valid\<close> is as in the code.
\<close>

section \<open>Errors\<close>

datatype fiscal_err =
    ApdFailed string apd_err
  | CurrencyMismatch | UnitMismatch | NoWeight | FDivisionByZero | NotFinite
  | EmptyCurrency | EmptyUnit | EmptyTarget | UnknownRateBasis | NotRepresentable
  | UnknownMode | UnknownRoundingBasis | ScaleOutOfRange
  | NoMode | NoScale | NoBasis
  | NoCoefficient | NegativeCoefficient | TooManyDigits
  | NoWeights | NegativeWeight nat | NoParts | BadResidual | NotPerUnit

section \<open>Rounding policies (rounding.go)\<close>

datatype rounding_mode = HALF_UP | HALF_EVEN | HALF_DOWN | DOWN | UP | CEILING | FLOOR
  | ModeOther string

fun mode_name :: "rounding_mode \<Rightarrow> string" where
  "mode_name HALF_UP = ''HALF_UP''"
| "mode_name HALF_EVEN = ''HALF_EVEN''"
| "mode_name HALF_DOWN = ''HALF_DOWN''"
| "mode_name DOWN = ''DOWN''"
| "mode_name UP = ''UP''"
| "mode_name CEILING = ''CEILING''"
| "mode_name FLOOR = ''FLOOR''"
| "mode_name (ModeOther s) = s"

fun mode_rounder :: "rounding_mode \<Rightarrow> rounder" where
  "mode_rounder HALF_UP = RHalfUp"
| "mode_rounder HALF_EVEN = RHalfEven"
| "mode_rounder HALF_DOWN = RHalfDown"
| "mode_rounder DOWN = RDown"
| "mode_rounder UP = RUp"
| "mode_rounder CEILING = RCeiling"
| "mode_rounder FLOOR = RFloor"
| "mode_rounder (ModeOther s) = RUnset"

fun mode_valid :: "rounding_mode \<Rightarrow> bool" where
  "mode_valid (ModeOther s) = False"
| "mode_valid m = True"

datatype rounding_basis = LINE | DOCUMENT | TAX_COMPONENT | JURISDICTION_TOTAL | BasisOther string

fun basis_name :: "rounding_basis \<Rightarrow> string" where
  "basis_name LINE = ''LINE''"
| "basis_name DOCUMENT = ''DOCUMENT''"
| "basis_name TAX_COMPONENT = ''TAX_COMPONENT''"
| "basis_name JURISDICTION_TOTAL = ''JURISDICTION_TOTAL''"
| "basis_name (BasisOther s) = s"

fun basis_valid :: "rounding_basis \<Rightarrow> bool" where
  "basis_valid (BasisOther s) = False"
| "basis_valid b = True"

definition MaxScale :: int where "MaxScale = 12"

record rounding_policy =
  rp_mode :: rounding_mode
  rp_scale :: int
  rp_basis :: rounding_basis

text \<open>The wire form: pointers, so that an absent key differs from a zero.\<close>

record rounding_policy_json =
  rj_mode :: "rounding_mode option"
  rj_scale :: "int option"
  rj_basis :: "rounding_basis option"

definition policy_validate :: "rounding_policy \<Rightarrow> (fiscal_err, unit) result" where
  "policy_validate p =
     (if \<not> mode_valid (rp_mode p) then Err UnknownMode
      else if \<not> basis_valid (rp_basis p) then Err UnknownRoundingBasis
      else if rp_scale p < 0 \<or> rp_scale p > MaxScale then Err ScaleOutOfRange
      else Ok ())"

definition decode_rounding_policy :: "rounding_policy_json \<Rightarrow> (fiscal_err, rounding_policy) result" where
  "decode_rounding_policy raw =
     (case rj_mode raw of None \<Rightarrow> Err NoMode | Some m \<Rightarrow>
      case rj_scale raw of None \<Rightarrow> Err NoScale | Some s \<Rightarrow>
      case rj_basis raw of None \<Rightarrow> Err NoBasis | Some b \<Rightarrow>
        let p = \<lparr>rp_mode = m, rp_scale = s, rp_basis = b\<rparr> in
        bindR (policy_validate p) (\<lambda>_. Ok p))"

definition marshal_rounding_policy :: "rounding_policy \<Rightarrow> (fiscal_err, rounding_policy_json) result" where
  "marshal_rounding_policy p =
     bindR (policy_validate p) (\<lambda>_.
       Ok \<lparr>rj_mode = Some (rp_mode p), rj_scale = Some (rp_scale p), rj_basis = Some (rp_basis p)\<rparr>)"

definition policy_string :: "rounding_policy \<Rightarrow> string" where
  "policy_string p =
     mode_name (rp_mode p) @ ''@'' @ show_int (rp_scale p) @ ''/'' @ basis_name (rp_basis p)"

section \<open>Decimal contexts (context.go)\<close>

definition Precision :: int where "Precision = 34"

definition exact_ctx :: ctx where
  "exact_ctx = \<lparr>c_prec = Precision, c_emax = MaxExponent, c_emin = MinExponent,
     c_traps = {Inexact, Overflow, Underflow}, c_rounding = RHalfEven\<rparr>"

definition policy_ctx :: "rounding_policy \<Rightarrow> ctx" where
  "policy_ctx p = \<lparr>c_prec = Precision, c_emax = MaxExponent, c_emin = MinExponent,
     c_traps = {DivisionByZero, InvalidOperation, Overflow, Underflow},
     c_rounding = mode_rounder (rp_mode p)\<rparr>"

definition int_ctx :: ctx where
  "int_ctx = \<lparr>c_prec = Precision, c_emax = MaxExponent, c_emin = MinExponent,
     c_traps = {DivisionByZero, InvalidOperation, Overflow, Underflow}, c_rounding = RDown\<rparr>"

text \<open>\<open>wrap\<close>: name the operation, drop the condition word.\<close>

definition wrap :: "string \<Rightarrow> (apd_err, decimal \<times> condition) result \<Rightarrow> (fiscal_err, decimal) result" where
  "wrap op r = map_err (ApdFailed op) (bindR r (\<lambda>(d, _). Ok d))"

definition fadd :: "decimal \<Rightarrow> decimal \<Rightarrow> (fiscal_err, decimal) result" where
  "fadd x y = wrap ''add'' (ctx_add exact_ctx x y)"

definition fsub :: "decimal \<Rightarrow> decimal \<Rightarrow> (fiscal_err, decimal) result" where
  "fsub x y = wrap ''sub'' (ctx_sub exact_ctx x y)"

definition fmul :: "decimal \<Rightarrow> decimal \<Rightarrow> (fiscal_err, decimal) result" where
  "fmul x y = wrap ''mul'' (ctx_mul exact_ctx x y)"

definition apply_policy :: "decimal \<Rightarrow> rounding_policy \<Rightarrow> (fiscal_err, decimal) result" where
  "apply_policy x p =
     bindR (policy_validate p) (\<lambda>_.
       wrap ''quantize'' (ctx_quantize (policy_ctx p) x (- rp_scale p)))"

definition fquo :: "decimal \<Rightarrow> decimal \<Rightarrow> rounding_policy \<Rightarrow> (fiscal_err, decimal) result" where
  "fquo x y p =
     bindR (policy_validate p) (\<lambda>_.
       bindR (wrap ''quo'' (ctx_quo (policy_ctx p) x y)) (\<lambda>d. apply_policy d p))"

definition apply_rate :: "decimal \<Rightarrow> decimal \<Rightarrow> rounding_policy \<Rightarrow> (fiscal_err, decimal) result" where
  "apply_rate base rate p =
     bindR (policy_validate p) (\<lambda>_.
       bindR (fmul base rate) (\<lambda>product. apply_policy product p))"

definition within_precision :: "decimal \<Rightarrow> bool" where
  "within_precision d \<longleftrightarrow> num_digits d \<le> Precision"

definition quo_integer :: "decimal \<Rightarrow> decimal \<Rightarrow> (fiscal_err, decimal \<times> decimal) result" where
  "quo_integer x y =
     bindR (wrap ''quo-integer'' (ctx_quo_integer int_ctx x y)) (\<lambda>q.
       bindR (wrap ''rem'' (ctx_rem int_ctx x y)) (\<lambda>r. Ok (q, r)))"

section \<open>Money and rates (money.go)\<close>

record money =
  m_amount :: decimal
  m_currency :: string

definition parse_decimal :: "string \<Rightarrow> (fiscal_err, decimal) result" where
  "parse_decimal s =
     (case new_from_string s of
        Err e \<Rightarrow> Err (ApdFailed ''parse'' e)
      | Ok (d, cd) \<Rightarrow>
        if Inexact \<in> cd \<or> \<not> within_precision d then Err NotRepresentable else Ok d)"

definition parse_money :: "string \<Rightarrow> string \<Rightarrow> (fiscal_err, money) result" where
  "parse_money amount cur =
     (if cur = [] then Err EmptyCurrency
      else bindR (parse_decimal amount) (\<lambda>d. Ok \<lparr>m_amount = d, m_currency = cur\<rparr>))"

definition money_string :: "money \<Rightarrow> string" where
  "money_string m = text_f (m_amount m)"

definition money_is_zero :: "money \<Rightarrow> bool" where
  "money_is_zero m = dec_is_zero (m_amount m)"

definition money_add :: "money \<Rightarrow> money \<Rightarrow> (fiscal_err, money) result" where
  "money_add m other =
     (if m_currency m \<noteq> m_currency other then Err CurrencyMismatch
      else bindR (fadd (m_amount m) (m_amount other)) (\<lambda>s. Ok \<lparr>m_amount = s, m_currency = m_currency m\<rparr>))"

definition money_sub :: "money \<Rightarrow> money \<Rightarrow> (fiscal_err, money) result" where
  "money_sub m other =
     (if m_currency m \<noteq> m_currency other then Err CurrencyMismatch
      else bindR (fsub (m_amount m) (m_amount other)) (\<lambda>s. Ok \<lparr>m_amount = s, m_currency = m_currency m\<rparr>))"

datatype rate_basis = NET | GROSS | PER_UNIT | COMPOUND | RateBasisOther string

record rate =
  r_value :: decimal
  r_basis :: rate_basis

fun rate_basis_known :: "rate_basis \<Rightarrow> bool" where
  "rate_basis_known (RateBasisOther s) = False"
| "rate_basis_known b = True"

definition parse_rate :: "string \<Rightarrow> rate_basis \<Rightarrow> (fiscal_err, rate) result" where
  "parse_rate v b =
     (if \<not> rate_basis_known b then Err UnknownRateBasis
      else bindR (parse_decimal v) (\<lambda>d. Ok \<lparr>r_value = d, r_basis = b\<rparr>))"

definition money_apply_rate :: "money \<Rightarrow> rate \<Rightarrow> rounding_policy \<Rightarrow> (fiscal_err, money) result" where
  "money_apply_rate m r p =
     bindR (apply_rate (m_amount m) (r_value r) p) (\<lambda>d. Ok \<lparr>m_amount = d, m_currency = m_currency m\<rparr>)"

definition money_round :: "money \<Rightarrow> rounding_policy \<Rightarrow> (fiscal_err, money) result" where
  "money_round m p =
     bindR (apply_policy (m_amount m) p) (\<lambda>d. Ok \<lparr>m_amount = d, m_currency = m_currency m\<rparr>)"

section \<open>Quantities and the canonical form (quantity.go)\<close>

record quantity =
  q_amount :: decimal
  q_unit :: string

definition parse_quantity :: "string \<Rightarrow> string \<Rightarrow> (fiscal_err, quantity) result" where
  "parse_quantity amount u =
     (if u = [] then Err EmptyUnit
      else bindR (parse_decimal amount) (\<lambda>d. Ok \<lparr>q_amount = d, q_unit = u\<rparr>))"

definition quantity_add :: "quantity \<Rightarrow> quantity \<Rightarrow> (fiscal_err, quantity) result" where
  "quantity_add q other =
     (if q_unit q \<noteq> q_unit other then Err UnitMismatch
      else bindR (fadd (q_amount q) (q_amount other)) (\<lambda>s. Ok \<lparr>q_amount = s, q_unit = q_unit q\<rparr>))"

definition quantity_sub :: "quantity \<Rightarrow> quantity \<Rightarrow> (fiscal_err, quantity) result" where
  "quantity_sub q other =
     (if q_unit q \<noteq> q_unit other then Err UnitMismatch
      else bindR (fsub (q_amount q) (q_amount other)) (\<lambda>s. Ok \<lparr>q_amount = s, q_unit = q_unit q\<rparr>))"

definition extend_per_unit :: "quantity \<Rightarrow> rate \<Rightarrow> string \<Rightarrow> rounding_policy \<Rightarrow> (fiscal_err, money) result" where
  "extend_per_unit q per_unit cur p =
     (if r_basis per_unit \<noteq> PER_UNIT then Err NotPerUnit
      else bindR (apply_rate (q_amount q) (r_value per_unit) p) (\<lambda>d. Ok \<lparr>m_amount = d, m_currency = cur\<rparr>))"

definition canonical_decimal :: "decimal \<Rightarrow> string" where
  "canonical_decimal d =
     (let s = text_f d in if dec_is_zero d then fst (consume_prefix s ''-'') else s)"

definition money_canonical :: "money \<Rightarrow> string" where
  "money_canonical m = canonical_decimal (m_amount m)"

section \<open>Exact operations (exact.go)\<close>

definition money_neg :: "money \<Rightarrow> money" where
  "money_neg m = m\<lparr>m_amount := dec_neg (m_amount m)\<rparr>"

definition money_sign :: "money \<Rightarrow> int" where
  "money_sign m = dec_sign (m_amount m)"

definition money_cmp :: "money \<Rightarrow> money \<Rightarrow> (fiscal_err, int) result" where
  "money_cmp m other =
     (if m_currency m \<noteq> m_currency other then Err CurrencyMismatch
      else Ok (dec_cmp (m_amount m) (m_amount other)))"

definition money_min :: "money \<Rightarrow> money \<Rightarrow> (fiscal_err, money) result" where
  "money_min m other = bindR (money_cmp m other) (\<lambda>c. Ok (if c \<le> 0 then m else other))"

definition money_max :: "money \<Rightarrow> money \<Rightarrow> (fiscal_err, money) result" where
  "money_max m other = bindR (money_cmp m other) (\<lambda>c. Ok (if c \<ge> 0 then m else other))"

definition money_zero :: "money \<Rightarrow> money" where
  "money_zero m = m\<lparr>m_amount := set_finite 0 (d_exp (m_amount m))\<rparr>"

record factor =
  f_value :: decimal

definition factor_zero :: factor where "factor_zero = \<lparr>f_value = dec0\<rparr>"
definition factor_one :: factor where "factor_one = \<lparr>f_value = set_finite 1 0\<rparr>"
definition factor_of :: "rate \<Rightarrow> factor" where "factor_of r = \<lparr>f_value = r_value r\<rparr>"

definition factor_add :: "factor \<Rightarrow> factor \<Rightarrow> (fiscal_err, factor) result" where
  "factor_add f g = bindR (fadd (f_value f) (f_value g)) (\<lambda>d. Ok \<lparr>f_value = d\<rparr>)"

definition factor_mul :: "factor \<Rightarrow> factor \<Rightarrow> (fiscal_err, factor) result" where
  "factor_mul f g = bindR (fmul (f_value f) (f_value g)) (\<lambda>d. Ok \<lparr>f_value = d\<rparr>)"

definition factor_string :: "factor \<Rightarrow> string" where
  "factor_string f = canonical_decimal (f_value f)"

definition money_times :: "money \<Rightarrow> rate \<Rightarrow> (fiscal_err, money) result" where
  "money_times m r =
     bindR (fmul (m_amount m) (r_value r)) (\<lambda>d. Ok \<lparr>m_amount = d, m_currency = m_currency m\<rparr>)"

definition money_times_quantity :: "money \<Rightarrow> quantity \<Rightarrow> (fiscal_err, money) result" where
  "money_times_quantity m q =
     bindR (fmul (m_amount m) (q_amount q)) (\<lambda>d. Ok \<lparr>m_amount = d, m_currency = m_currency m\<rparr>)"

definition money_times_factor :: "money \<Rightarrow> factor \<Rightarrow> (fiscal_err, money) result" where
  "money_times_factor m f =
     bindR (fmul (m_amount m) (f_value f)) (\<lambda>d. Ok \<lparr>m_amount = d, m_currency = m_currency m\<rparr>)"

definition div_factor :: "money \<Rightarrow> factor \<Rightarrow> rounding_policy \<Rightarrow> (fiscal_err, money) result" where
  "div_factor m f p =
     (if dec_is_zero (f_value f) then Err FDivisionByZero
      else bindR (fquo (m_amount m) (f_value f) p) (\<lambda>d. Ok \<lparr>m_amount = d, m_currency = m_currency m\<rparr>))"

definition convert_at :: "money \<Rightarrow> rate \<Rightarrow> string \<Rightarrow> rounding_policy \<Rightarrow> (fiscal_err, money) result" where
  "convert_at m r to p =
     (if to = [] then Err EmptyTarget
      else bindR (apply_rate (m_amount m) (r_value r) p) (\<lambda>d. Ok \<lparr>m_amount = d, m_currency = to\<rparr>))"

section \<open>The database representation (numeric.go)\<close>

record numeric_cols =
  np_coeff :: "int option"
  np_exp :: int
  np_neg :: bool

definition numeric_parts :: "decimal \<Rightarrow> (fiscal_err, numeric_cols) result" where
  "numeric_parts d =
     (if d_form d \<noteq> Finite then Err NotFinite
      else Ok \<lparr>np_coeff = Some (d_coeff d), np_exp = d_exp d, np_neg = d_neg d\<rparr>)"

definition from_numeric_parts :: "numeric_cols \<Rightarrow> (fiscal_err, decimal) result" where
  "from_numeric_parts p =
     (case np_coeff p of
        None \<Rightarrow> Err NoCoefficient
      | Some co \<Rightarrow>
        if co < 0 then Err NegativeCoefficient
        else
          let d = \<lparr>d_form = Finite, d_neg = np_neg p, d_exp = np_exp p, d_coeff = co\<rparr> in
          if \<not> within_precision d then Err TooManyDigits else Ok d)"

definition money_from_numeric :: "numeric_cols \<Rightarrow> string \<Rightarrow> (fiscal_err, money) result" where
  "money_from_numeric p cur =
     (if cur = [] then Err EmptyCurrency
      else bindR (from_numeric_parts p) (\<lambda>d. Ok \<lparr>m_amount = d, m_currency = cur\<rparr>))"

definition rate_from_numeric :: "numeric_cols \<Rightarrow> rate_basis \<Rightarrow> (fiscal_err, rate) result" where
  "rate_from_numeric p b =
     (if \<not> rate_basis_known b then Err UnknownRateBasis
      else bindR (from_numeric_parts p) (\<lambda>d. Ok \<lparr>r_value = d, r_basis = b\<rparr>))"

definition quantity_from_numeric :: "numeric_cols \<Rightarrow> string \<Rightarrow> (fiscal_err, quantity) result" where
  "quantity_from_numeric p u =
     (if u = [] then Err EmptyUnit
      else bindR (from_numeric_parts p) (\<lambda>d. Ok \<lparr>q_amount = d, q_unit = u\<rparr>))"

end
