(* ===== verification/FiscalFacts.thy ===== *)
theory FiscalFacts
  imports Fiscal
begin

text \<open>
  Facts about the fiscal operations that the components above them share: the exact operations
  return the exact sum, difference and product or fail, a policy rounds to the reference
  \<open>round_ref\<close> of its mode, and the integer quotient and remainder are Euclidean division.
\<close>

lemmas wrap_simps = wrap_def map_err_eq_Ok bindR_eq_Ok

lemma std_exact [simp]: "std_ctx exact_ctx" "0 < c_prec exact_ctx" "c_prec exact_ctx = 34"
  "Inexact \<in> c_traps exact_ctx" "c_rounding exact_ctx \<noteq> RFloor"
  by (simp_all add: std_ctx_def exact_ctx_def Precision_def MaxExponent_def MinExponent_def)

lemma policy_ctx_like [simp]: "policy_like (policy_ctx p)" "c_prec (policy_ctx p) = 34"
  "c_rounding (policy_ctx p) = mode_rounder (rp_mode p)"
  by (simp_all add: policy_like_def std_ctx_def policy_ctx_def Precision_def MaxExponent_def MinExponent_def)

lemma std_int [simp]: "std_ctx int_ctx" "0 < c_prec int_ctx" "c_prec int_ctx = 34"
  by (simp_all add: std_ctx_def int_ctx_def Precision_def MaxExponent_def MinExponent_def)

section \<open>Exact operations\<close>

lemma fadd_exact:
  assumes "wf_dec x" "wf_dec y" "fadd x y = Ok z"
  shows "wf_dec z \<and> dec_val z = dec_val x + dec_val y \<and> num_digits z \<le> 34"
proof -
  obtain f where "ctx_add_gen exact_ctx x y False = Ok (z, f)"
    using assms(3) by (auto simp: fadd_def wrap_def ctx_add_def)
  from ctx_add_gen_exact[OF _ _ _ assms(1,2) this] show ?thesis by simp
qed

lemma fsub_exact:
  assumes "wf_dec x" "wf_dec y" "fsub x y = Ok z"
  shows "wf_dec z \<and> dec_val z = dec_val x - dec_val y \<and> num_digits z \<le> 34"
proof -
  obtain f where "ctx_add_gen exact_ctx x y True = Ok (z, f)"
    using assms(3) by (auto simp: fsub_def wrap_def ctx_sub_def)
  from ctx_add_gen_exact[OF _ _ _ assms(1,2) this] show ?thesis by simp
qed

lemma fmul_exact:
  assumes "wf_dec x" "wf_dec y" "fmul x y = Ok z"
  shows "wf_dec z \<and> dec_val z = dec_val x * dec_val y \<and> num_digits z \<le> 34"
proof -
  obtain f where "ctx_mul exact_ctx x y = Ok (z, f)"
    using assms(3) by (auto simp: fmul_def wrap_def)
  from ctx_mul_exact[OF _ _ _ assms(1,2) this] show ?thesis by simp
qed

lemma fadd_fits:
  assumes "wf_dec x" "wf_dec y" "moderate x" "moderate y"
    and "num_digits (raw_add exact_ctx x y False) \<le> 34"
  shows "fadd x y = Ok (raw_add exact_ctx x y False)"
  using ctx_add_gen_fits[of exact_ctx x y False] assms by (simp add: fadd_def wrap_def ctx_add_def)

lemma fsub_fits:
  assumes "wf_dec x" "wf_dec y" "moderate x" "moderate y"
    and "num_digits (raw_add exact_ctx x y True) \<le> 34"
  shows "fsub x y = Ok (raw_add exact_ctx x y True)"
  using ctx_add_gen_fits[of exact_ctx x y True] assms by (simp add: fsub_def wrap_def ctx_sub_def)

lemma fmul_fits:
  assumes "wf_dec x" "wf_dec y" "moderate x" "moderate y"
    and "num_digits (raw_mul x y) \<le> 34"
  shows "fmul x y = Ok (raw_mul x y)"
  using ctx_mul_fits[of exact_ctx x y] assms by (simp add: fmul_def wrap_def)

section \<open>Rounding under a policy\<close>

definition valid_policy :: "rounding_policy \<Rightarrow> bool" where
  "valid_policy p \<longleftrightarrow> policy_validate p = Ok ()"

lemma valid_policy_iff:
  "valid_policy p \<longleftrightarrow> mode_valid (rp_mode p) \<and> basis_valid (rp_basis p) \<and> 0 \<le> rp_scale p \<and> rp_scale p \<le> 12"
  by (auto simp: valid_policy_def policy_validate_def MaxScale_def)

lemma valid_policy_scale: "valid_policy p \<Longrightarrow> 0 \<le> rp_scale p \<and> rp_scale p \<le> 12"
  by (simp add: valid_policy_iff)

lemma apply_policy_eq:
  assumes "valid_policy p" "wf_dec x" "moderate x" "num_digits x \<le> 1000"
  shows "apply_policy x p =
    (let q = quant_coeff (mode_rounder (rp_mode p)) (d_neg x) (d_coeff x) (- rp_scale p - d_exp x) in
     if num_digits_int q > 34 then Err (ApdFailed ''quantize'' (Trapped {InvalidOperation}))
     else Ok (x\<lparr>d_coeff := q, d_exp := - rp_scale p\<rparr>))"
  using ctx_quantize_eq[of "policy_ctx p" x "- rp_scale p"] valid_policy_scale[of p] assms
  by (simp add: apply_policy_def wrap_def Let_def valid_policy_def)

definition nearest_even :: "rat \<Rightarrow> int" where
  "nearest_even v =
     (if v - of_int \<lfloor>v\<rfloor> < 1/2 \<or> (v - of_int \<lfloor>v\<rfloor> = 1/2 \<and> even \<lfloor>v\<rfloor>) then \<lfloor>v\<rfloor> else \<lfloor>v\<rfloor> + 1)"

fun round_ref :: "rounding_mode \<Rightarrow> rat \<Rightarrow> int" where
  "round_ref HALF_UP v = (if v < 0 then - \<lfloor>- v + 1/2\<rfloor> else \<lfloor>v + 1/2\<rfloor>)"
| "round_ref HALF_DOWN v = (if v < 0 then - \<lceil>- v - 1/2\<rceil> else \<lceil>v - 1/2\<rceil>)"
| "round_ref HALF_EVEN v = (if v < 0 then - nearest_even (- v) else nearest_even v)"
| "round_ref DOWN v = (if v < 0 then \<lceil>v\<rceil> else \<lfloor>v\<rfloor>)"
| "round_ref UP v = (if v < 0 then \<lfloor>v\<rfloor> else \<lceil>v\<rceil>)"
| "round_ref CEILING v = \<lceil>v\<rceil>"
| "round_ref FLOOR v = \<lfloor>v\<rfloor>"
| "round_ref (ModeOther s) v = 0"

lemma floor_split:
  fixes y :: int and q :: rat
  assumes q: "0 \<le> q" "q < 1"
  shows "\<lfloor>of_int y + q\<rfloor> = y"
    and "\<lceil>of_int y + q\<rceil> = (if q = 0 then y else y + 1)"
    and "\<lfloor>of_int y + q + 1/2\<rfloor> = (if 1/2 \<le> q then y + 1 else y)"
    and "\<lceil>of_int y + q - 1/2\<rceil> = (if 1/2 < q then y + 1 else y)"
  using q by (simp_all add: floor_eq_iff ceiling_eq_iff)

lemma ratio_half:
  fixes m E :: int
  assumes "0 \<le> m" "m < E"
  shows "0 \<le> of_int m / (of_int E :: rat)" "of_int m / (of_int E :: rat) < 1"
    and "1/2 \<le> of_int m / (of_int E :: rat) \<longleftrightarrow> E \<le> 2 * m"
    and "1/2 < of_int m / (of_int E :: rat) \<longleftrightarrow> E < 2 * m"
    and "of_int m / (of_int E :: rat) = 0 \<longleftrightarrow> m = 0"
proof -
  have E: "(0::rat) < of_int E" using assms by simp
  show "0 \<le> of_int m / (of_int E :: rat)" "of_int m / (of_int E :: rat) < 1"
    "of_int m / (of_int E :: rat) = 0 \<longleftrightarrow> m = 0"
    using assms E by simp_all
  have "1/2 \<le> of_int m / (of_int E :: rat) \<longleftrightarrow> (of_int E :: rat) \<le> of_int (2 * m)"
    using E by (simp add: field_simps)
  then show "1/2 \<le> of_int m / (of_int E :: rat) \<longleftrightarrow> E \<le> 2 * m" by (simp only: of_int_le_iff)
  have "1/2 < of_int m / (of_int E :: rat) \<longleftrightarrow> (of_int E :: rat) < of_int (2 * m)"
    using E by (simp add: field_simps)
  then show "1/2 < of_int m / (of_int E :: rat) \<longleftrightarrow> E < 2 * m" by (simp only: of_int_less_iff)
qed

definition signed :: "bool \<Rightarrow> 'a::uminus \<Rightarrow> 'a" where
  "signed n v = (if n then - v else v)"

text \<open>Adding one to the magnitude as the rounder decides is rounding under the mode.\<close>

lemma round_ref_split:
  fixes y m E :: int
  assumes m: "0 \<le> m" "m < E" and y: "0 \<le> y" and md: "mode_valid md"
  shows "round_ref md (signed n (of_int y + of_int m / of_int E)) =
    signed n (if m \<noteq> 0 \<and> should_add_one (mode_rounder md) y n (big_cmp (2 * m) E) then y + 1 else y)"
proof -
  define q where "q = of_int m / (of_int E :: rat)"
  note r = ratio_half[OF m, folded q_def]
  note f = floor_split[OF r(1,2), of y]
  have z: "of_int y + q < 0 \<longleftrightarrow> False" "- q - of_int y < 0 \<longleftrightarrow> \<not> (y = 0 \<and> q = 0)" "0 < of_int y + q \<longleftrightarrow> \<not> (y = 0 \<and> q = 0)"
    using y r(1) by (auto simp: add_nonneg_eq_0_iff less_le)
  have c: "\<lfloor>- (of_int y + q)\<rfloor> = - \<lceil>of_int y + q\<rceil>" "\<lceil>- (of_int y + q)\<rceil> = - \<lfloor>of_int y + q\<rfloor>"
    by (simp_all add: ceiling_def)
  have s: "signed n (of_int y + q) < 0 \<longleftrightarrow> n \<and> \<not> (y = 0 \<and> q = 0)" for n
    using y r(1) by (auto simp: signed_def add_nonneg_eq_0_iff less_le)
  have h: "2 * m < E \<longleftrightarrow> q < 1/2" "2 * m = E \<longleftrightarrow> q = 1/2" using r(3,4) by auto
  have zero: "round_ref md 0 = 0" by (cases md) (simp_all add: nearest_even_def floor_eq_iff ceiling_eq_iff)
  have ne: "nearest_even (of_int y + q) = (if q < 1/2 \<or> q = 1/2 \<and> even y then y else y + 1)"
    by (simp add: nearest_even_def f(1))
  show ?thesis
  proof (cases "y = 0 \<and> q = 0")
    case True
    then show ?thesis using zero r(5) unfolding q_def[symmetric] by (simp add: signed_def)
  next
    case False
    have neg: "- (of_int y + q) < 0" "\<not> of_int y + q < 0" "- (- (of_int y + q)) = of_int y + q"
      using False s[of True] y r(1) by (simp_all add: signed_def)
    have mz: "m = 0 \<longleftrightarrow> q = 0" using r(5) by simp
    show ?thesis
    proof (cases n)
      case True
      show ?thesis
        unfolding q_def[symmetric] mz signed_def if_P[OF True] using md
        by (cases md; simp only: round_ref.simps neg if_True if_False f ne c)
           (use r(3,4) h True in \<open>auto simp: should_add_one_def big_cmp_def\<close>)
    next
      case nn: False
      show ?thesis
        unfolding q_def[symmetric] mz signed_def if_not_P[OF nn] using md
        by (cases md; simp only: round_ref.simps neg if_True if_False f ne c)
           (use r(3,4) h nn in \<open>auto simp: should_add_one_def big_cmp_def\<close>)
    qed
  qed
qed

lemma signed_powi: "signed n (of_int co) * (10::rat) powi k = signed n (of_int co * 10 powi k)"
  by (simp add: signed_def)

lemma dec_val_signed: "dec_val d = signed (d_neg d) (of_int (d_coeff d) * 10 powi d_exp d)"
  by (simp add: dec_val_def signed_def)

lemma round_ref_int: "mode_valid md \<Longrightarrow> round_ref md (of_int k) = k"
proof -
  have "\<lceil>- of_int k - 1/2 :: rat\<rceil> = - k" "\<lceil>of_int k - 1/2 :: rat\<rceil> = k" "\<lfloor>- of_int k + 1/2 :: rat\<rfloor> = - k"
    "\<lfloor>of_int k + 1/2 :: rat\<rfloor> = k" "\<lfloor>- of_int k :: rat\<rfloor> = - k"
    by (simp_all add: floor_eq_iff ceiling_eq_iff)
  then show "mode_valid md \<Longrightarrow> round_ref md (of_int k) = k"
    by (cases md) (simp_all add: nearest_even_def)
qed

lemma quant_coeff_ref:
  assumes co: "0 \<le> co" and md: "mode_valid md"
  shows "signed n (quant_coeff (mode_rounder md) n co k) =
    (if num_digits_int co < k then 0 else round_ref md (signed n (of_int co * 10 powi (- k))))"
proof (cases "0 < k")
  case False
  then have "signed n (of_int co * (10::rat) powi (- k)) = of_int (signed n (co * exp10 (- k)))"
    by (simp add: signed_def of_int_exp10)
  then show ?thesis
    using False num_digits_int_pos[of co] md
    by (auto simp: quant_coeff_def round_ref_int)
next
  case True
  let ?y = "co div exp10 k" and ?m = "co mod exp10 k"
  have E: "of_int (exp10 k) = (10::rat) powi k" using True by (simp add: of_int_exp10)
  have "(of_int co :: rat) = of_int (?y * exp10 k + ?m)" by simp
  also have "\<dots> = of_int ?y * of_int (exp10 k) + of_int ?m" by (simp only: of_int_add of_int_mult)
  finally have v: "of_int co * (10::rat) powi (- k) = of_int ?y + of_int ?m / of_int (exp10 k)"
    by (simp add: E power_int_minus field_simps)
  show ?thesis
  proof (cases "num_digits_int co < k")
    case True
    then show ?thesis using \<open>0 < k\<close> by (simp add: quant_coeff_def signed_def)
  next
    case False
    then show ?thesis
      unfolding v
      using True co md round_ref_split[of ?m "exp10 k" ?y md n]
      by (auto simp: quant_coeff_def Let_def pos_imp_zdiv_nonneg_iff)
  qed
qed

text \<open>
  The value is below a tenth of the last place kept: apd's \<open>quantize\<close> returns zero without
  consulting the mode.
\<close>

definition below_tenth :: "decimal \<Rightarrow> rounding_policy \<Rightarrow> bool" where
  "below_tenth x p \<longleftrightarrow> num_digits x + d_exp x < - rp_scale p"

definition policy_result :: "decimal \<Rightarrow> rounding_policy \<Rightarrow> int" where
  "policy_result x p =
     (if below_tenth x p then 0 else round_ref (rp_mode p) (dec_val x * 10 powi rp_scale p))"

lemma quant_coeff_result:
  assumes x: "wf_dec x" and md: "mode_valid (rp_mode p)"
  shows "signed (d_neg x) (quant_coeff (mode_rounder (rp_mode p)) (d_neg x) (d_coeff x) (- rp_scale p - d_exp x))
    = policy_result x p"
proof -
  have co: "0 \<le> d_coeff x" using x by (simp add: wf_dec_def)
  have "signed (d_neg x) (of_int (d_coeff x) * 10 powi (- (- rp_scale p - d_exp x))) = dec_val x * (10::rat) powi rp_scale p"
    by (simp add: dec_val_def signed_def powi_split)
  then show ?thesis
    using quant_coeff_ref[OF co md, of "d_neg x" "- rp_scale p - d_exp x"]
    by (simp add: policy_result_def below_tenth_def num_digits_def algebra_simps)
qed

lemma apply_policy_value:
  assumes p: "valid_policy p" and x: "wf_dec x" "moderate x" "num_digits x \<le> 1000"
    and ok: "apply_policy x p = Ok d"
  shows "wf_dec d \<and> d_exp d = - rp_scale p \<and> d_neg d = d_neg x \<and> num_digits d \<le> 34
    \<and> signed (d_neg d) (d_coeff d) = policy_result x p
    \<and> dec_val d = of_int (policy_result x p) * 10 powi (- rp_scale p)"
proof -
  let ?q = "quant_coeff (mode_rounder (rp_mode p)) (d_neg x) (d_coeff x) (- rp_scale p - d_exp x)"
  have co: "0 \<le> d_coeff x" and md: "mode_valid (rp_mode p)" using x p by (simp_all add: wf_dec_def valid_policy_iff)
  have d: "d = x\<lparr>d_coeff := ?q, d_exp := - rp_scale p\<rparr>" "num_digits_int ?q \<le> 34"
    using ok unfolding apply_policy_eq[OF p x] by (auto simp: Let_def split: if_splits)
  have q: "signed (d_neg x) ?q = policy_result x p" by (rule quant_coeff_result[OF x(1) md])
  have v: "dec_val d = of_int (signed (d_neg x) ?q) * 10 powi (- rp_scale p)"
    by (simp add: d(1) dec_val_def signed_def)
  have w: "wf_dec d" using x(1) co by (simp add: d(1) wf_dec_def quant_coeff_nonneg)
  show ?thesis using d w v q by (simp add: num_digits_def)
qed

text \<open>In the half modes and \<open>DOWN\<close> the shortcut agrees with the reference.\<close>

definition nearest_mode :: "rounding_mode \<Rightarrow> bool" where
  "nearest_mode m \<longleftrightarrow> m \<in> {HALF_UP, HALF_EVEN, HALF_DOWN, DOWN}"

lemma round_ref_small:
  assumes "\<bar>v\<bar> < 1/10" "nearest_mode m"
  shows "round_ref m v = 0"
proof -
  have "nearest_even u = 0" if "0 \<le> u" "u < 1/10" for u
  proof -
    have "\<lfloor>u\<rfloor> = 0" using that by (simp add: floor_eq_iff)
    with that show ?thesis by (simp add: nearest_even_def)
  qed
  moreover have "- 1/10 < v" "v < 1/10" using assms(1) by (simp_all add: abs_less_iff)
  ultimately show ?thesis
    using assms(2) by (cases m) (auto simp: nearest_mode_def floor_eq_iff ceiling_eq_iff)
qed

lemma below_tenth_small:
  assumes "wf_dec x" "below_tenth x p"
  shows "\<bar>dec_val x * 10 powi rp_scale p\<bar> < 1/10"
proof (cases "d_coeff x = 0")
  case False
  with assms have "0 < d_coeff x" by (simp add: wf_dec_def)
  then have "mag x < 10 powi (num_digits x + d_exp x)" by (simp add: magnitude_bounds(2) mag_def)
  also have "\<dots> \<le> 10 powi (- rp_scale p - 1)"
    using assms(2) by (intro powi10_mono) (simp add: below_tenth_def)
  finally have "mag x * 10 powi rp_scale p < 10 powi (- rp_scale p - 1) * 10 powi rp_scale p"
    by (intro mult_strict_right_mono) simp_all
  also have "\<dots> = 1/10" by (simp add: powi_split[symmetric] power_int_minus)
  moreover have "0 \<le> mag x" using \<open>0 < d_coeff x\<close> by (simp add: mag_def less_imp_le)
  ultimately show ?thesis by (simp add: dec_val_mag abs_mult less_imp_le)
qed (simp add: dec_val_def)

lemma policy_result_nearest:
  "wf_dec x \<Longrightarrow> nearest_mode (rp_mode p) \<Longrightarrow>
    policy_result x p = round_ref (rp_mode p) (dec_val x * 10 powi rp_scale p)"
  using below_tenth_small[of x p] round_ref_small[of "dec_val x * 10 powi rp_scale p" "rp_mode p"]
  by (simp add: policy_result_def)

lemma policy_result_on_grid:
  assumes "wf_dec x" "mode_valid (rp_mode p)" "dec_val x = of_int k * 10 powi (- rp_scale p)"
  shows "policy_result x p = k"
proof -
  have v: "dec_val x * 10 powi rp_scale p = of_int k"
    using assms(3) by (simp add: power_int_minus)
  show ?thesis
    using below_tenth_small[OF assms(1), of p] round_ref_int[OF assms(2)]
    by (auto simp: policy_result_def v)
qed

lemma nearest_even_near: "\<bar>of_int (nearest_even v) - v\<bar> \<le> 1/2"
proof -
  have "of_int \<lfloor>v\<rfloor> \<le> v" "v < of_int \<lfloor>v\<rfloor> + 1" by linarith+
  then show ?thesis by (auto simp: nearest_even_def)
qed

lemma round_ref_half:
  assumes "m \<in> {HALF_UP, HALF_EVEN, HALF_DOWN}"
  shows "\<bar>of_int (round_ref m v) - v\<bar> \<le> 1/2"
proof -
  have near: "\<bar>of_int \<lfloor>u + 1/2\<rfloor> - u\<bar> \<le> 1/2" "\<bar>of_int \<lceil>u - 1/2\<rceil> - u\<bar> \<le> 1/2" for u :: rat
    by linarith+
  have flip: "\<bar>of_int (- k) - v\<bar> \<le> 1/2" if "\<bar>of_int k - (- v)\<bar> \<le> 1/2" for k
    using that by linarith
  note b = near[of v] flip[OF near(1)] flip[OF near(2)] nearest_even_near flip[OF nearest_even_near]
  consider "m = HALF_UP" | "m = HALF_EVEN" | "m = HALF_DOWN" using assms by blast
  then show ?thesis
    by cases (cases "v < 0"; simp only: round_ref.simps if_True if_False b)+
qed

lemma round_ref_near: "mode_valid m \<Longrightarrow> \<bar>of_int (round_ref m v) - v\<bar> < 1"
proof -
  assume v: "mode_valid m"
  have b: "\<bar>of_int \<lfloor>v\<rfloor> - v\<bar> < 1" "\<bar>of_int \<lceil>v\<rceil> - v\<bar> < 1" by linarith+
  show ?thesis
  proof (cases "m \<in> {HALF_UP, HALF_EVEN, HALF_DOWN}")
    case True
    from round_ref_half[OF this, of v] show ?thesis by linarith
  next
    case False
    then show ?thesis using v b by (cases m) simp_all
  qed
qed

lemma policy_result_near:
  assumes "wf_dec x" "mode_valid (rp_mode p)"
  shows "\<bar>of_int (policy_result x p) - dec_val x * 10 powi rp_scale p\<bar> < 1"
  using below_tenth_small[OF assms(1), of p] round_ref_near[OF assms(2)]
  by (auto simp: policy_result_def abs_minus_commute)

section \<open>Integer quotient and remainder\<close>

lemma quo_integer_ok:
  assumes wf: "wf_dec x" "wf_dec y" "d_coeff y \<noteq> 0" and md: "moderate x" "moderate y"
    and nd: "num_digits x \<le> 34" "num_digits y \<le> 34"
    and ok: "quo_integer x y = Ok (q, r)"
    and s: "s = min (d_exp x) (d_exp y)" "a = d_coeff x * exp10 (d_exp x - s)" "b = d_coeff y * exp10 (d_exp y - s)"
    and fit: "num_digits_int (a div b) \<le> 34" "num_digits_int (a mod b) \<le> 34"
  shows "q = \<lparr>d_form = Finite, d_neg = (d_neg x \<noteq> d_neg y), d_exp = 0, d_coeff = a div b\<rparr>"
    and "r = \<lparr>d_form = Finite, d_neg = d_neg x, d_exp = s, d_coeff = a mod b\<rparr>"
proof -
  obtain f1 f2 where Q: "ctx_quo_integer int_ctx x y = Ok (q, f1)" and R: "ctx_rem int_ctx x y = Ok (r, f2)"
    using ok by (auto simp: quo_integer_def wrap_def)
  have near: "\<bar>d_exp x - d_exp y\<bar> \<le> 100000" using md by (auto simp: moderate_def)
  show "q = \<lparr>d_form = Finite, d_neg = (d_neg x \<noteq> d_neg y), d_exp = 0, d_coeff = a div b\<rparr>"
    using ctx_quo_integer_ok[OF wf near _ Q] fit by (simp add: s)
  show "r = \<lparr>d_form = Finite, d_neg = d_neg x, d_exp = s, d_coeff = a mod b\<rparr>"
    using ctx_rem_ok[OF _ _ wf near R] fit md by (simp add: s)
qed

lemmas fiscal_eval = apd_eval policy_validate_def MaxScale_def Precision_def exact_ctx_def policy_ctx_def int_ctx_def wrap_def fadd_def fsub_def fmul_def apply_policy_def fquo_def apply_rate_def quo_integer_def money_round_def

end
