(* ===== verification/Errs.thy ===== *)
theory Errs
  imports Prelude
begin

text \<open>
  \<open>backend/internal/domain/errs\<close>: the error taxonomy (\<open>errs.go\<close>) and the register of reason
  codes, with every \<open>Register\<close> call of the estate (\<open>codes.go\<close> and the domain packages that
  register their own). A panic at start-up is an \<open>Err\<close>; the register is the list of
  registrations made so far.
\<close>

section \<open>Categories (errs.go)\<close>

datatype category = CatValidation | CatPolicy | CatNotFound | CatConflict | CatUnsupported
  | CatUnavailable | CatInternal

fun category_string :: "category \<Rightarrow> string" where
  "category_string CatValidation = ''VALIDATION''"
| "category_string CatPolicy = ''POLICY''"
| "category_string CatNotFound = ''NOT_FOUND''"
| "category_string CatConflict = ''CONFLICT''"
| "category_string CatUnsupported = ''UNSUPPORTED''"
| "category_string CatUnavailable = ''UNAVAILABLE''"
| "category_string CatInternal = ''INTERNAL''"

definition retryable :: "category \<Rightarrow> bool" where
  "retryable c \<longleftrightarrow> c = CatUnavailable"

section \<open>The register (errs.go)\<close>

record registration =
  g_code :: string
  g_category :: category
  g_owner :: string
  g_description :: string

definition reg :: "string \<Rightarrow> category \<Rightarrow> string \<Rightarrow> string \<Rightarrow> registration" where
  "reg code c owner description =
     \<lparr>g_code = code, g_category = c, g_owner = owner, g_description = description\<rparr>"

datatype register_panic = MalformedCode string | Undescribed string | DuplicateCode string string

definition code_char :: "nat \<Rightarrow> nat \<Rightarrow> char \<Rightarrow> bool" where
  "code_char n i ch \<longleftrightarrow>
     (let b = of_char ch :: nat in
      (65 \<le> b \<and> b \<le> 90) \<or> (48 \<le> b \<and> b \<le> 57) \<or> (b = 95 \<and> i \<noteq> 0 \<and> Suc i \<noteq> n))"

definition valid_code :: "string \<Rightarrow> bool" where
  "valid_code c \<longleftrightarrow> c \<noteq> [] \<and> list_all (\<lambda>(i, ch). code_char (length c) i ch) (List.enumerate 0 c)"

definition lookup_code :: "registration list \<Rightarrow> string \<Rightarrow> registration option" where
  "lookup_code regs code = find (\<lambda>r. g_code r = code) regs"

definition register :: "registration list \<Rightarrow> registration \<Rightarrow> (register_panic, registration list) result" where
  "register regs r =
     (if \<not> valid_code (g_code r) then Err (MalformedCode (g_code r))
      else if g_owner r = [] \<or> g_description r = [] then Err (Undescribed (g_code r))
      else case lookup_code regs (g_code r) of
        Some prior \<Rightarrow> Err (DuplicateCode (g_code r) (g_owner prior))
      | None \<Rightarrow> Ok (regs @ [r]))"

definition registered :: "registration list \<Rightarrow> string \<Rightarrow> bool" where
  "registered regs code \<longleftrightarrow> lookup_code regs code \<noteq> None"

definition describe :: "registration list \<Rightarrow> string \<Rightarrow> (string \<times> string) option" where
  "describe regs code = map_option (\<lambda>r. (g_description r, g_owner r)) (lookup_code regs code)"

definition codes :: "registration list \<Rightarrow> string list" where
  "codes regs = sort (map g_code regs)"

section \<open>Errors (errs.go)\<close>

text \<open>An \<open>*errs.Error\<close> with what it wraps, or an error from elsewhere with what it wraps.\<close>

datatype estate_error =
    AppError category string string string "estate_error option"
  | OtherError string "estate_error option"

definition ReasonUnregistered :: string where
  "ReasonUnregistered = ''UNREGISTERED_REASON_CODE''"

definition new_error :: "registration list \<Rightarrow> category \<Rightarrow> string \<Rightarrow> string \<Rightarrow> estate_error" where
  "new_error regs c reason detail =
     (if \<not> registered regs reason
      then AppError CatInternal ReasonUnregistered
             ''The service produced an error it cannot describe.'' []
             (Some (OtherError (''errs: unregistered reason code '' @ reason) None))
      else AppError c reason detail [] None)"

fun err_reason :: "estate_error \<Rightarrow> string" where
  "err_reason (AppError c r d f w) = r"
| "err_reason (OtherError m w) = []"

fun err_category :: "estate_error \<Rightarrow> category" where
  "err_category (AppError c r d f w) = c"
| "err_category (OtherError m w) = CatInternal"

fun set_wrapped :: "estate_error \<Rightarrow> estate_error \<Rightarrow> estate_error" where
  "set_wrapped e (AppError c r d f w) = AppError c r d f (Some e)"
| "set_wrapped e (OtherError m w) = OtherError m (Some e)"

fun set_field :: "string \<Rightarrow> estate_error \<Rightarrow> estate_error" where
  "set_field fl (AppError c r d f w) = AppError c r d fl w"
| "set_field fl (OtherError m w) = OtherError m w"

definition wrap_error :: "registration list \<Rightarrow> estate_error \<Rightarrow> category \<Rightarrow> string \<Rightarrow> string \<Rightarrow> estate_error" where
  "wrap_error regs err c reason detail =
     (let e = new_error regs c reason detail in
      if err_reason e = ReasonUnregistered then e else set_wrapped err e)"

definition invalid_error :: "registration list \<Rightarrow> string \<Rightarrow> string \<Rightarrow> string \<Rightarrow> estate_error" where
  "invalid_error regs field reason detail = set_field field (new_error regs CatValidation reason detail)"

text \<open>\<open>errors.As\<close> walks the chain of wrapped errors to the first \<open>*Error\<close>.\<close>

fun find_app :: "estate_error \<Rightarrow> (category \<times> string) option" where
  "find_app (AppError c r d f w) = Some (c, r)"
| "find_app (OtherError m None) = None"
| "find_app (OtherError m (Some e)) = find_app e"

definition category_of :: "estate_error \<Rightarrow> category" where
  "category_of e = (case find_app e of Some (c, r) \<Rightarrow> c | None \<Rightarrow> CatInternal)"

definition reason_of :: "estate_error \<Rightarrow> string" where
  "reason_of e = (case find_app e of Some (c, r) \<Rightarrow> r | None \<Rightarrow> ''INTERNAL_ERROR'')"

definition is_category :: "estate_error \<Rightarrow> category \<Rightarrow> bool" where
  "is_category e c \<longleftrightarrow> category_of e = c"

fun error_text :: "estate_error \<Rightarrow> string" where
  "error_text (OtherError m w) = m"
| "error_text (AppError c r d f None) = category_string c @ ''/'' @ r @ '': '' @ d"
| "error_text (AppError c r d f (Some e)) =
     category_string c @ ''/'' @ r @ '': '' @ d @ '': '' @ error_text e"

section \<open>The registered vocabulary (codes.go and the domain packages)\<close>

definition platform_codes :: "registration list" where
  "platform_codes = [
     reg ''INTERNAL_ERROR'' CatInternal ''lane-a''
       ''An unexpected condition prevented the request from completing. The failure is recorded and alerted; the request was not applied.'',
     reg ''UNREGISTERED_REASON_CODE'' CatInternal ''lane-a''
       ''The service attempted to report an error using an unregistered reason code. This is a defect in ZoikoTax.'',
     reg ''PANIC_RECOVERED'' CatInternal ''lane-a''
       ''A defect interrupted request handling. The request was not applied.'',
     reg ''TEMPORARILY_UNAVAILABLE'' CatUnavailable ''lane-b''
       ''A dependency was temporarily unavailable. The request was not applied and may be retried unchanged.'',
     reg ''DATABASE_UNAVAILABLE'' CatUnavailable ''lane-b''
       ''The cell database was unreachable. The request was not applied and may be retried unchanged.'']"

definition request_codes :: "registration list" where
  "request_codes = [
     reg ''MALFORMED_REQUEST'' CatValidation ''lane-k''
       ''The request body could not be parsed. Check that it is valid JSON and that Content-Type is application/json.'',
     reg ''UNKNOWN_FIELD'' CatValidation ''lane-k''
       ''The request contained a field the contract does not declare. Unknown fields are rejected rather than ignored.'',
     reg ''MISSING_FIELD'' CatValidation ''lane-k''
       ''A required field was absent.'',
     reg ''INVALID_VALUE'' CatValidation ''lane-k''
       ''A field carried a value outside its permitted domain.'',
     reg ''INVALID_DECIMAL'' CatValidation ''lane-d''
       ''A fiscal amount was not a canonical decimal string. Amounts are strings such as \"12.50\"; JSON numbers are rejected because they cannot carry decimal precision.'',
     reg ''CURRENCY_MISMATCH'' CatValidation ''lane-d''
       ''The request combined amounts in different currencies.'']"

definition auth_codes :: "registration list" where
  "auth_codes = [
     reg ''UNAUTHENTICATED'' CatPolicy ''lane-c''
       ''The request carried no valid session. Sign in and retry.'',
     reg ''SESSION_EXPIRED'' CatPolicy ''lane-c''
       ''The session has expired. Sign in again.'',
     reg ''SESSION_REVOKED'' CatPolicy ''lane-c''
       ''The session was revoked. Sign in again.'',
     reg ''INVALID_CREDENTIALS'' CatPolicy ''lane-c''
       ''The credentials supplied were not valid.'',
     reg ''FORBIDDEN'' CatPolicy ''lane-c''
       ''The authenticated subject does not hold a role permitting this action.'',
     reg ''TENANT_MISMATCH'' CatPolicy ''lane-c''
       ''The request referenced a tenant outside the authenticated subject's scope.'',
     reg ''USER_DISABLED'' CatPolicy ''lane-c''
       ''The user account is disabled.'',
     reg ''TENANT_SUSPENDED'' CatPolicy ''lane-c''
       ''The tenant is suspended. Contact your administrator.'',
     reg ''RATE_LIMITED'' CatPolicy ''lane-c''
       ''Too many requests. Retry after the interval given in Retry-After.'',
     reg ''PASSWORD_TOO_WEAK'' CatValidation ''lane-c''
       ''The password does not meet the minimum length or complexity policy.'',
     reg ''CREDENTIAL_LINK_INVALID'' CatPolicy ''lane-c''
       ''The link is not valid, has expired or has already been used. Ask for a new one.'']"

definition residency_codes :: "registration list" where
  "residency_codes = [
     reg ''TENANT_NOT_RESIDENT'' CatPolicy ''lane-c''
       ''The tenant is not resident in the cell that received the request. The request was not applied. This is recorded as a residency incident; contact support.'',
     reg ''TRANSFER_NOT_PERMITTED'' CatPolicy ''lane-c''
       ''The cross-cell transfer is not permitted by its approved transfer profile. Nothing was transferred.'']"

definition resource_codes :: "registration list" where
  "resource_codes = [
     reg ''NOT_FOUND'' CatNotFound ''lane-k''
       ''The referenced resource does not exist, or is outside the caller's tenant.'',
     reg ''ALREADY_EXISTS'' CatConflict ''lane-k''
       ''A resource with that identity already exists.'',
     reg ''OPTIMISTIC_CONFLICT'' CatConflict ''lane-d''
       ''The resource changed while the request was in flight. Re-read and retry.'',
     reg ''STATE_TRANSITION_INVALID'' CatConflict ''lane-d''
       ''The requested transition is not permitted from the resource's current state.'']"

definition idempotency_codes :: "registration list" where
  "idempotency_codes = [
     reg ''IDEMPOTENCY_KEY_REQUIRED'' CatValidation ''lane-i''
       ''This endpoint requires an Idempotency-Key header. The request was not applied.'',
     reg ''IDEMPOTENCY_KEY_REUSE'' CatConflict ''lane-i''
       ''This idempotency key was already used for a different request. The request was not applied. Use a new key, or resend the original request unchanged.'',
     reg ''REQUEST_IN_PROGRESS'' CatConflict ''lane-i''
       ''A request with this idempotency key is still being processed. The request was not applied. Retry after the interval given in Retry-After.'']"

definition content_codes :: "registration list" where
  "content_codes = [
     reg ''NO_CONTENT_BUNDLE'' CatUnavailable ''lane-f''
       ''The cell has no active content bundle. The request was not applied and may be retried.'',
     reg ''JURISDICTION_UNSUPPORTED'' CatUnsupported ''lane-f''
       ''No active country pack covers the jurisdiction resolved for this transaction.'',
     reg ''JURISDICTION_UNRESOLVED'' CatValidation ''lane-g''
       ''The supplied location did not resolve to a jurisdiction. Check the address or supply coordinates.'',
     reg ''NO_ROUNDING_POLICY'' CatInternal ''lane-f''
       ''A rule applied a rate without naming a rounding policy. The content bundle is invalid.'',
     reg ''IR_VERSION_UNSUPPORTED'' CatUnsupported ''lane-h''
       ''The content bundle requires a rule-IR version this runtime does not support.'']"

definition evidence_codes :: "registration list" where
  "evidence_codes = [
     reg ''EVIDENCE_INTEGRITY'' CatInternal ''lane-d''
       ''Stored evidence did not match its registered digest. The failure is recorded and alerted as an integrity incident.'']"

definition outcome_codes :: "registration list" where
  "outcome_codes = [
     reg ''AMBIGUOUS'' CatUnsupported ''lane-g''
       ''More than one rule applied and the content does not resolve the precedence. Recorded as a decision with full evidence; not authoritative.'',
     reg ''CONFLICTED'' CatUnsupported ''lane-g''
       ''Applicable rules produced conflicting outcomes. Recorded as a decision with full evidence; not authoritative.'',
     reg ''REVIEW_REQUIRED'' CatUnsupported ''lane-g''
       ''The outcome requires human review before it can be treated as authoritative.'',
     reg ''UNSUPPORTED'' CatUnsupported ''lane-g''
       ''No active rule covers this transaction shape. Recorded as a decision; not authoritative.'']"

definition location_codes :: "registration list" where
  "location_codes = [
     reg ''SITUS_EVIDENCE_INSUFFICIENT'' CatUnsupported ''lane-g''
       ''The supplied evidence does not establish where the supply took place. The decision lists the evidence types that would; no tax is determined until it is supplied.'',
     reg ''SITUS_DATASET_DEFECT'' CatUnsupported ''lane-g''
       ''The jurisdiction dataset places this location in two jurisdictions at one level. An incident is raised; the decision is not authoritative.'',
     reg ''JURISDICTION_LEVEL_REQUIRED'' CatUnsupported ''lane-g''
       ''The place of supply resolved only to the country, and this country's content needs the province or state. Supply the subdivision.'',
     reg ''SERVICE_NOT_COVERED'' CatUnsupported ''lane-g''
       ''The active content covers the place of supply but not this service in it. Recorded as a decision; no tax is assumed.'',
     reg ''NO_APPLICABLE_CONTENT'' CatUnsupported ''lane-g''
       ''No tax component in the active content applies to this line's service, customer role and supply. The line is not treated as untaxed.'',
     reg ''CLASSIFICATION_REQUIRED'' CatUnsupported ''lane-g''
       ''The line carries no service classification. Map the SKU to an ontology family before tax can be determined.'',
     reg ''QUANTITY_REQUIRED'' CatUnsupported ''lane-g''
       ''A per-unit charge applies and the line carries no quantity in its unit. Units are never inferred from price.'',
     reg ''EXEMPTION_VERIFICATION_UNAVAILABLE'' CatUnsupported ''lane-g''
       ''An exemption certificate applies and its verification was unavailable. Held for review; the charge is neither applied nor suppressed.'',
     reg ''INCLUSIVE_PRICING_UNSUPPORTED'' CatUnsupported ''lane-g''
       ''The content does not declare how tax is extracted from an inclusive price for this document. Send net amounts, or extend the content.'']"

definition correction_codes :: "registration list" where
  "correction_codes = [
     reg ''CORRECTION_PRICING_ERROR'' CatValidation ''lane-j''
       ''The original document billed the wrong price or quantity; the correction restates what should have been billed.'',
     reg ''CORRECTION_CUSTOMER_CANCELLATION'' CatValidation ''lane-j''
       ''The customer cancelled what was billed, within whatever right the sale gave them.'',
     reg ''CORRECTION_DUPLICATE_BILLING'' CatValidation ''lane-j''
       ''The same supply was billed on more than one document; the correction removes the duplicate.'',
     reg ''CORRECTION_SERVICE_NOT_PROVIDED'' CatValidation ''lane-j''
       ''The supply billed was not, or not fully, provided.'',
     reg ''CORRECTION_TAX_REDETERMINED'' CatValidation ''lane-j''
       ''The tax on the original was corrected by a later decision under the content that made it; the correction carries that decision's tax.'',
     reg ''CORRECTION_CUSTOMER_DATA'' CatValidation ''lane-j''
       ''The original document carried wrong customer or document data; the figures may be unchanged.'']"

definition authorization_codes :: "registration list" where
  "authorization_codes = [
     reg ''NOT_AUTHORITATIVE'' CatPolicy ''lane-a''
       ''This deployment is not authorized to produce authoritative fiscal output. Results are advisory and must not be filed.'']"

definition ai_degraded_codes :: "registration list" where
  "ai_degraded_codes = [
     reg ''AI_GATEWAY_NOT_CONFIGURED'' CatUnsupported ''lane-l''
       ''AI assistance is not available in this region yet. Deterministic processing is unaffected.'',
     reg ''AI_GATEWAY_UNAVAILABLE'' CatUnavailable ''lane-l''
       ''AI assistance is temporarily unavailable. Deterministic processing is unaffected and the request may be retried.'',
     reg ''AI_GATEWAY_REPLY_UNEVIDENCED'' CatInternal ''lane-l''
       ''The AI Gateway returned a result without its provenance. The result was discarded.'',
     reg ''AI_PROPOSAL_NOT_AN_ONTOLOGY_NODE'' CatInternal ''lane-l''
       ''The AI Gateway proposed a code that is not an ontology node. The proposal was discarded.'']"

definition ai_governance_codes :: "registration list" where
  "ai_governance_codes = [
     reg ''AI_MALFORMED_CONTEXT'' CatInternal ''lane-l''
       ''The AI request did not carry a complete governance context. This is a defect in ZoikoTax; the request was not sent.'',
     reg ''AI_KILL_SWITCH_ENGAGED'' CatPolicy ''lane-l''
       ''This AI capability has been switched off by an operator. Deterministic processing is unaffected.'',
     reg ''AI_UNKNOWN_USE_CASE'' CatPolicy ''lane-l''
       ''The AI capability requested is not a registered use case and cannot run.'',
     reg ''AI_USE_CASE_SUSPENDED'' CatPolicy ''lane-l''
       ''This AI capability is suspended. Deterministic processing is unaffected.'',
     reg ''AI_AUTHORITY_REFUSED'' CatPolicy ''lane-l''
       ''The AI request asked for more authority than the use case is permitted. A5 actions are refused unconditionally.'',
     reg ''AI_RISK_TIER_EXCEEDED'' CatPolicy ''lane-l''
       ''The AI request's risk tier exceeds what the use case is approved for. It is refused, not downgraded.'',
     reg ''AI_RESIDENCY_REFUSED'' CatPolicy ''lane-l''
       ''The AI use case is not approved to process data in this region.'',
     reg ''AI_DATA_CLASS_REFUSED'' CatPolicy ''lane-l''
       ''The AI request would send a class of data the use case is not approved to send to a model.'']"

definition compliance_codes :: "registration list" where
  "compliance_codes = [
     reg ''SEGREGATION_OF_DUTIES'' CatPolicy ''lane-m''
       ''The person who prepared this version cannot review or approve it. Another person must.'',
     reg ''PREPARATION_VERSION_STALE'' CatConflict ''lane-m''
       ''The preparation version named is not the current one. Read the package again and act on what it holds now.'',
     reg ''FILING_BLOCKED'' CatPolicy ''lane-m''
       ''This filing may not be submitted now. The detail says which precondition failed.'']"

definition migration_codes :: "registration list" where
  "migration_codes = [
     reg ''CUTOVER_BLOCKED'' CatPolicy ''lane-m''
       ''The cutover may not proceed: a readiness gate failed or it lacks independent authorization. The detail says which.'']"

definition remittance_codes :: "registration list" where
  "remittance_codes = [
     reg ''MAKER_CHECKER'' CatPolicy ''lane-m''
       ''The person who made this cannot also approve or verify it. Another person must.'',
     reg ''INSTRUCTION_HASH_MISMATCH'' CatConflict ''lane-m''
       ''The instruction hash approved is not this instruction's. Approval binds the exact instruction.'',
     reg ''PAYMENT_BLOCKED'' CatPolicy ''lane-m''
       ''This payment may not proceed now. The detail says which readiness check failed.'']"

text \<open>Every registration the process makes before it serves a request.\<close>

definition estate_codes :: "registration list" where
  "estate_codes = concat [platform_codes, request_codes, auth_codes, residency_codes,
     resource_codes, idempotency_codes, content_codes, evidence_codes, outcome_codes, location_codes,
     correction_codes, authorization_codes,
     ai_degraded_codes, ai_governance_codes, compliance_codes, migration_codes, remittance_codes]"

definition startup :: "(register_panic, registration list) result" where
  "startup = foldR register [] estate_codes"

end
