(* ===== verification/RuleIR.thy ===== *)
theory RuleIR
  imports FiscalFacts Errs
begin

text \<open>
  \<open>backend/internal/domain/rule/ir.go\<close>: the instruction set of compiled content, a node of the
  rule graph and the shape check every node passes before a bundle loads. The register of reason
  codes is an argument, as in the component it comes from.
\<close>

datatype op =
    OpConst | OpInput | OpAccumulator | OpAdd | OpSub | OpMul | OpApplyRate | OpQuo | OpRound
  | OpCompare | OpSelect | OpAnd | OpOr | OpNot | OpEmit | OpRefuse | OpOther string

fun op_valid :: "op \<Rightarrow> bool" where
  "op_valid (OpOther s) = False"
| "op_valid x = True"

datatype vtype = TMoney | TRate | TQuantity | TBool | TString | TReason | TOther string

datatype cmp = CmpEq | CmpNe | CmpLt | CmpLte | CmpGt | CmpGte | CmpOther string

fun cmp_known :: "cmp \<Rightarrow> bool" where
  "cmp_known (CmpOther s) = False"
| "cmp_known c = True"

type_synonym node_id = string

record node =
  nd_id :: node_id
  nd_op :: op
  nd_type :: vtype
  nd_args :: "node_id list"
  nd_const :: string
  nd_field :: string
  nd_cmp :: cmp
  nd_policy :: "rounding_policy option"
  nd_emit :: string
  nd_reason :: string
  nd_rule_version :: string
  nd_semantic_id :: string

datatype rule_err =
    NoNodeId | UnknownOp node_id | NeedsPolicy node_id | CarriesPolicy node_id
  | Arity node_id nat nat | UnknownComparison node_id | NoField node_id | NoSlot node_id
  | NoReason node_id | UnregisteredReason node_id string | NoRuleVersion node_id
  | NoBundleId | IRVersionUnsupported int | NoContent string | ConstNoName | ConstBad string fiscal_err
  | ConstType string | NodeTwice node_id | UnknownArg node_id node_id | UnknownConst node_id string
  | UnknownRoot node_id | CyclicGraph nat node_id | TaxationBad string
  | ProfileBad string | UnreadAccumulator string | UnreadInput string string | UnemittedSlot string string
  | NoActiveBundle | NoAccumulator node_id string | NoInput node_id string | TypeMismatch node_id
  | UsesMul node_id | UsesQuo node_id | NoCurrencyConst node_id | OrdersBool node_id
  | OrdersString node_id | ComparesUnsupported node_id | UnsupportedConst string | UnhandledOp node_id
  | RuleFiscal fiscal_err | NilPolicy node_id

definition rounds :: "op \<Rightarrow> bool" where
  "rounds x \<longleftrightarrow> x = OpApplyRate \<or> x = OpQuo \<or> x = OpRound"

fun arity :: "op \<Rightarrow> nat option" where
  "arity OpAdd = Some 2" | "arity OpSub = Some 2" | "arity OpMul = Some 2"
| "arity OpApplyRate = Some 2" | "arity OpQuo = Some 2" | "arity OpRound = Some 1"
| "arity OpCompare = Some 2" | "arity OpSelect = Some 3" | "arity OpAnd = Some 2"
| "arity OpOr = Some 2" | "arity OpNot = Some 1" | "arity OpEmit = Some 1"
| "arity OpConst = Some 0" | "arity OpInput = Some 0" | "arity OpAccumulator = Some 0"
| "arity OpRefuse = Some 0" | "arity (OpOther s) = None"

definition check_shape :: "registration list \<Rightarrow> node \<Rightarrow> (rule_err, unit) result" where
  "check_shape regs n =
     (case nd_op n of
        OpCompare \<Rightarrow> if \<not> cmp_known (nd_cmp n) then Err (UnknownComparison (nd_id n)) else Ok ()
      | OpInput \<Rightarrow> if nd_field n = [] then Err (NoField (nd_id n)) else Ok ()
      | OpAccumulator \<Rightarrow> if nd_field n = [] then Err (NoField (nd_id n)) else Ok ()
      | OpEmit \<Rightarrow> if nd_emit n = [] then Err (NoSlot (nd_id n)) else Ok ()
      | OpRefuse \<Rightarrow>
          if nd_reason n = [] then Err (NoReason (nd_id n))
          else if \<not> registered regs (nd_reason n) then Err (UnregisteredReason (nd_id n) (nd_reason n))
          else Ok ()
      | _ \<Rightarrow> Ok ())"

definition validate_node :: "registration list \<Rightarrow> node \<Rightarrow> (rule_err, unit) result" where
  "validate_node regs n =
     (if nd_id n = [] then Err NoNodeId
      else if \<not> op_valid (nd_op n) then Err (UnknownOp (nd_id n))
      else if rounds (nd_op n) \<and> nd_policy n = None then Err (NeedsPolicy (nd_id n))
      else if \<not> rounds (nd_op n) \<and> nd_policy n \<noteq> None then Err (CarriesPolicy (nd_id n))
      else
        bindR (case arity (nd_op n) of
                 None \<Rightarrow> Ok ()
               | Some want \<Rightarrow> if length (nd_args n) \<noteq> want
                   then Err (Arity (nd_id n) want (length (nd_args n))) else Ok ()) (\<lambda>_.
        bindR (check_shape regs n) (\<lambda>_.
          if nd_rule_version n = [] \<or> nd_semantic_id n = [] then Err (NoRuleVersion (nd_id n)) else Ok ())))"

end
