(* ===== verification/Profile.thy ===== *)
theory Profile
  imports Prelude
begin

text \<open>
  \<open>backend/internal/domain/content/fiscal.go\<close>: the fiscal profile of a bundle, the checks it
  passes on its own and its normal form. A set the code keeps in a \<open>map[string]bool\<close> is a set.
\<close>

record contribution_source =
  cs_input :: string
  cs_emitted :: string

record threshold_decl =
  td_id :: string
  td_limit :: string
  td_comparison :: string

record accumulator_binding =
  ab_read :: string
  ab_currency :: string
  ab_period :: string
  ab_timezone :: string
  ab_year_start :: int
  ab_contributes :: contribution_source
  ab_thresholds :: "threshold_decl list"

record posting_line_decl =
  pd_account :: string
  pd_side :: string
  pd_emitted :: string

record posting_decl =
  pg_profile :: string
  pg_version :: string
  pg_type :: string
  pg_lines :: "posting_line_decl list"

record obligation_decl =
  od_id :: string
  od_version :: string
  od_type :: string
  od_authority :: string
  od_jurisdiction :: string
  od_duty :: string
  od_currency :: string
  od_assesses :: "string list"
  od_period_kind :: string
  od_timezone :: string
  od_year_start :: int
  od_offset_months :: int
  od_day_of_month :: int
  od_offset_days :: int
  od_source :: string
  od_citation :: string

record fiscal_profile =
  fp_accumulators :: "accumulator_binding list"
  fp_posting :: "posting_decl option"
  fp_obligations :: "obligation_decl list"

datatype profile_err =
    NoReadKey nat | BoundTwice string | NoAccCurrency string | NoAccTimezone string
  | BadYearStart string int | BadPeriod string string | ContributionSources string
  | ThresholdIncomplete string | ThresholdTwice string string | BadThresholdComparison string
  | ObligationIncomplete nat | ObligationTwice string | NoAuthority string | BadDuty string
  | NothingAssessed string | NoCitation string | NoObligationTimezone string
  | BadDueDay string int | DueBeforeEnd string | AssessedSlot string
  | PostingIncomplete | PostingLines nat | PostingLine nat

definition check_period :: "string \<Rightarrow> string \<Rightarrow> int \<Rightarrow> (profile_err, unit) result" where
  "check_period who period start =
     (if period = ''MONTH'' then Ok ()
      else if period = ''QUARTER'' \<or> period = ''YEAR'' then
        (if start < 1 \<or> start > 12 then Err (BadYearStart who start) else Ok ())
      else Err (BadPeriod who period))"

fun check_threshold_decls :: "string \<Rightarrow> string set \<Rightarrow> threshold_decl list \<Rightarrow> (profile_err, unit) result" where
  "check_threshold_decls who ids [] = Ok ()"
| "check_threshold_decls who ids (t # ts) =
     (if td_id t = [] \<or> td_limit t = [] then Err (ThresholdIncomplete who)
      else if td_id t \<in> ids then Err (ThresholdTwice who (td_id t))
      else if td_comparison t \<noteq> ''GTE'' \<and> td_comparison t \<noteq> ''GT'' then Err (BadThresholdComparison (td_id t))
      else check_threshold_decls who (insert (td_id t) ids) ts)"

fun check_bindings :: "nat \<Rightarrow> string set \<Rightarrow> accumulator_binding list \<Rightarrow> (profile_err, unit) result" where
  "check_bindings i seen [] = Ok ()"
| "check_bindings i seen (a # as) =
     (if ab_read a = [] then Err (NoReadKey i)
      else if ab_read a \<in> seen then Err (BoundTwice (ab_read a))
      else if ab_currency a = [] then Err (NoAccCurrency (ab_read a))
      else if ab_timezone a = [] then Err (NoAccTimezone (ab_read a))
      else
        bindR (check_period (ab_read a) (ab_period a) (ab_year_start a)) (\<lambda>_.
          if (cs_input (ab_contributes a) = []) = (cs_emitted (ab_contributes a) = [])
          then Err (ContributionSources (ab_read a))
          else
            bindR (check_threshold_decls (ab_read a) {} (ab_thresholds a)) (\<lambda>_.
              check_bindings (Suc i) (insert (ab_read a) seen) as)))"

fun check_slots :: "string \<Rightarrow> string set \<Rightarrow> string list \<Rightarrow> (profile_err, unit) result" where
  "check_slots who slots [] = Ok ()"
| "check_slots who slots (a # as) =
     (if a = [] \<or> a \<in> slots then Err (AssessedSlot who) else check_slots who (insert a slots) as)"

fun check_obligations :: "nat \<Rightarrow> string set \<Rightarrow> obligation_decl list \<Rightarrow> (profile_err, unit) result" where
  "check_obligations i seen [] = Ok ()"
| "check_obligations i seen (ob # obs) =
     (if od_id ob = [] \<or> od_version ob = [] \<or> od_type ob = [] then Err (ObligationIncomplete i)
      else if od_id ob \<in> seen then Err (ObligationTwice (od_id ob))
      else if od_authority ob = [] \<or> od_jurisdiction ob = [] then Err (NoAuthority (od_id ob))
      else if od_duty ob \<noteq> ''TRANSACTION_MONETARY'' then Err (BadDuty (od_id ob))
      else if od_currency ob = [] \<or> od_assesses ob = [] then Err (NothingAssessed (od_id ob))
      else if od_source ob = [] \<or> od_citation ob = [] then Err (NoCitation (od_id ob))
      else if od_timezone ob = [] then Err (NoObligationTimezone (od_id ob))
      else if od_day_of_month ob < 0 \<or> od_day_of_month ob > 31 then Err (BadDueDay (od_id ob) (od_day_of_month ob))
      else if od_offset_months ob < 0 \<or> od_offset_days ob < 0 then Err (DueBeforeEnd (od_id ob))
      else
        bindR (check_period (od_id ob) (od_period_kind ob) (od_year_start ob)) (\<lambda>_.
        bindR (check_slots (od_id ob) {} (od_assesses ob)) (\<lambda>_.
          check_obligations (Suc i) (insert (od_id ob) seen) obs)))"

fun check_posting_lines :: "nat \<Rightarrow> posting_line_decl list \<Rightarrow> (profile_err, unit) result" where
  "check_posting_lines i [] = Ok ()"
| "check_posting_lines i (l # ls) =
     (if pd_account l = [] \<or> pd_emitted l = [] \<or> (pd_side l \<noteq> ''DEBIT'' \<and> pd_side l \<noteq> ''CREDIT'')
      then Err (PostingLine i) else check_posting_lines (Suc i) ls)"

definition check_posting :: "posting_decl option \<Rightarrow> (profile_err, unit) result" where
  "check_posting posting =
     (case posting of
        None \<Rightarrow> Ok ()
      | Some p \<Rightarrow>
        if pg_profile p = [] \<or> pg_version p = [] \<or> pg_type p = [] then Err PostingIncomplete
        else if length (pg_lines p) < 2 then Err (PostingLines (length (pg_lines p)))
        else check_posting_lines 0 (pg_lines p))"

definition validate_profile :: "fiscal_profile \<Rightarrow> (profile_err, unit) result" where
  "validate_profile f =
     bindR (check_bindings 0 {} (fp_accumulators f)) (\<lambda>_.
     bindR (check_obligations 0 {} (fp_obligations f)) (\<lambda>_. check_posting (fp_posting f)))"

definition normalize_profile :: "fiscal_profile \<Rightarrow> fiscal_profile" where
  "normalize_profile f =
     \<lparr>fp_accumulators =
        map (\<lambda>a. a\<lparr>ab_thresholds := sort_key td_id (ab_thresholds a)\<rparr>) (sort_key ab_read (fp_accumulators f)),
      fp_posting = fp_posting f,
      fp_obligations =
        map (\<lambda>ob. ob\<lparr>od_assesses := sort (od_assesses ob)\<rparr>) (sort_key od_id (fp_obligations f))\<rparr>"

end
