(* ===== verification/Kahn.thy ===== *)
theory Kahn
  imports Prelude
begin

text \<open>
  Kahn's algorithm as the repository writes it twice: \<open>topologicalOrder\<close> of
  \<open>internal/domain/determination/schedule.go\<close> (component indices, the ready list sorted once per
  round) and \<open>topoSort\<close> of \<open>internal/domain/rule/bundle.go\<close> (node identifiers, sorted at every
  push). The loop is shared; the locale holds what both callers rely on, proved once.
\<close>

section \<open>The loop\<close>

text \<open>\<open>indegree[d]--; if indegree[d] == 0 { ready = append(ready, d) }\<close> over the dependents.\<close>

fun release :: "('a list \<Rightarrow> 'a \<Rightarrow> 'a list) \<Rightarrow> 'a list \<Rightarrow> ('a \<Rightarrow> int) \<Rightarrow> 'a list \<Rightarrow> ('a \<Rightarrow> int) \<times> 'a list" where
  "release push [] deg ready = (deg, ready)"
| "release push (d # ds) deg ready =
     (let deg' = deg(d := deg d - 1) in
      release push ds deg' (if deg' d = 0 then push ready d else ready))"

text \<open>The outer loop. It carries fuel; the theorems show the node count is always enough.\<close>

fun kahn_loop ::
  "('a list \<Rightarrow> 'a \<Rightarrow> 'a list) \<Rightarrow> ('a list \<Rightarrow> 'a list) \<Rightarrow> ('a \<Rightarrow> 'a list) \<Rightarrow>
   nat \<Rightarrow> ('a \<Rightarrow> int) \<Rightarrow> 'a list \<Rightarrow> 'a list \<Rightarrow> (('a \<Rightarrow> int) \<times> 'a list) option" where
  "kahn_loop push settle deps fuel deg [] order = Some (deg, order)"
| "kahn_loop push settle deps 0 deg (x # ready) order = None"
| "kahn_loop push settle deps (Suc fuel) deg (x # ready) order =
     (case release push (deps x) deg ready of
        (deg', ready') \<Rightarrow> kahn_loop push settle deps fuel deg' (settle ready') (order @ [x]))"

section \<open>Topological orders\<close>

definition topological :: "('a \<Rightarrow> 'a list) \<Rightarrow> 'a list \<Rightarrow> bool" where
  "topological refs xs \<longleftrightarrow> (\<forall>i < length xs. set (refs (xs ! i)) \<subseteq> set (take i xs))"

lemma topological_Nil [simp]: "topological refs []"
  by (simp add: topological_def)

lemma topological_snoc:
  "topological refs (xs @ [x]) \<longleftrightarrow> topological refs xs \<and> set (refs x) \<subseteq> set xs"
  by (auto simp: topological_def nth_append less_Suc_eq)

definition pending :: "('a \<Rightarrow> 'a list) \<Rightarrow> 'a list \<Rightarrow> 'a \<Rightarrow> int" where
  "pending refs done i = int (length (filter (\<lambda>j. j \<notin> set done) (refs i)))"

lemma pending_0: "pending refs done i = 0 \<longleftrightarrow> set (refs i) \<subseteq> set done"
  by (auto simp: pending_def filter_empty_conv)

lemma pending_snoc:
  "x \<notin> set done \<Longrightarrow> pending refs (done @ [x]) i = pending refs done i - int (count_list (refs i) x)"
proof -
  assume x: "x \<notin> set done"
  have "length (filter (\<lambda>j. j \<notin> set done) rs) =
      length (filter (\<lambda>j. j \<notin> set (done @ [x])) rs) + count_list rs x" for rs
    using x by (induction rs) auto
  then show ?thesis by (simp add: pending_def)
qed

lemma count_list_pos: "0 < count_list xs x \<longleftrightarrow> x \<in> set xs"
  by (metis count_list_0_iff neq0_conv)

lemma count_list_concat:
  "distinct xs \<Longrightarrow> (\<And>x y. y \<noteq> x \<Longrightarrow> count_list (f x) y = 0) \<Longrightarrow>
    count_list (concat (map f xs)) y = (if y \<in> set xs then count_list (f y) y else 0)"
proof (induction xs)
  case (Cons x xs)
  then show ?case by (cases "y = x") (auto simp: count_list_append)
qed simp

lemma count_list_const: "count_list (map (\<lambda>_. x) xs) y = (if y = x then length xs else 0)"
  by (induction xs) auto

lemma count_list_filter: "count_list xs j = length (filter (\<lambda>r. r = j) xs)"
  by (induction xs) auto

lemma count_list_mset: "count_list xs x = count (mset xs) x"
  by (induction xs) auto

text \<open>What one round of releases does to the indegrees and the ready list.\<close>

lemma release_props:
  assumes push: "\<And>xs d. mset (push xs d) = add_mset d (mset xs)"
    and "\<forall>d. int (count_list ds d) \<le> deg d" "release push ds deg ready = (deg', ready')"
  shows "deg' = (\<lambda>d. deg d - int (count_list ds d))
    \<and> mset ready' = mset ready + mset_set {d \<in> set ds. deg d = int (count_list ds d)}"
  using assms(2,3)
proof (induction ds arbitrary: deg ready)
  case (Cons d ds)
  let ?deg = "deg(d := deg d - 1)"
  let ?ready = "if ?deg d = 0 then push ready d else ready"
  have pre: "\<forall>e. int (count_list ds e) \<le> ?deg e"
    using Cons.prems(1) by (auto split: if_splits)
  have "release push ds ?deg ?ready = (deg', ready')" using Cons.prems(2) by (simp add: Let_def)
  note IH = Cons.IH[OF pre this]
  let ?A = "{e \<in> set ds. ?deg e = int (count_list ds e)}"
  let ?B = "{e \<in> set (d # ds). deg e = int (count_list (d # ds) e)}"
  have "mset ?ready + mset_set ?A = mset ready + mset_set ?B"
  proof (cases "deg d = 1")
    case True
    have "int (count_list (d # ds) d) \<le> deg d" using Cons.prems(1) by blast
    then have d: "d \<notin> set ds" using True by (simp add: count_list_0_iff)
    have "?B = insert d ?A" using True d by (auto simp: count_list_0_iff)
    moreover have "d \<notin> ?A" using d by simp
    ultimately show ?thesis using True push by simp
  next
    case False
    have "?B = ?A" using False
      by (auto simp: count_list_pos[symmetric] simp del: count_list.simps) (auto split: if_splits)
    then show ?thesis using False by simp
  qed
  then show ?case using IH by (auto simp: fun_eq_iff)
qed simp

text \<open>
  The interface: a graph \<open>g\<close> that passed the caller's checks (\<open>ok\<close>) has distinct nodes, and the
  dependents of a node list every reference to it. How the ready list grows (\<open>push\<close>) and is
  reordered (\<open>settle\<close>) is the caller's, as long as nothing is lost.
\<close>

locale kahn =
  fixes ok :: "'g \<Rightarrow> bool" and nodes :: "'g \<Rightarrow> 'a list" and refs :: "'g \<Rightarrow> 'a \<Rightarrow> 'a list"
    and deps :: "'g \<Rightarrow> 'a \<Rightarrow> 'a list"
    and push :: "'g \<Rightarrow> 'a list \<Rightarrow> 'a \<Rightarrow> 'a list" and settle :: "'g \<Rightarrow> 'a list \<Rightarrow> 'a list"
  assumes nodes_distinct: "ok g \<Longrightarrow> distinct (nodes g)"
    and deps_count: "ok g \<Longrightarrow>
      count_list (deps g j) i = (if i \<in> set (nodes g) then count_list (refs g i) j else 0)"
    and push_mset: "mset (push g xs d) = add_mset d (mset xs)"
    and settle_mset: "mset (settle g xs) = mset xs"
begin

definition inv :: "'g \<Rightarrow> ('a \<Rightarrow> int) \<Rightarrow> 'a list \<Rightarrow> 'a list \<Rightarrow> bool" where
  "inv g deg ready order \<longleftrightarrow>
     distinct (order @ ready) \<and> topological (refs g) order
     \<and> set (order @ ready) = {i \<in> set (nodes g). deg i = 0}
     \<and> deg = (\<lambda>i. if i \<in> set (nodes g) then pending (refs g) order i else 0)"

lemma inv_step:
  assumes ok: "ok g" and I: "inv g deg (x # ready) order" and rel: "release (push g) (deps g x) deg ready = (deg', ready')"
  shows "inv g deg' (settle g ready') (order @ [x])"
proof -
  have deg: "deg = (\<lambda>i. if i \<in> set (nodes g) then pending (refs g) order i else 0)"
    and dist: "distinct (order @ x # ready)" and top: "topological (refs g) order"
    and zero: "set (order @ x # ready) = {i \<in> set (nodes g). deg i = 0}"
    using I by (auto simp: inv_def)
  have x: "x \<notin> set order" "x \<in> set (nodes g)" "deg x = 0" using dist zero by auto
  have cnt: "count_list (deps g x) i = (if i \<in> set (nodes g) then count_list (refs g i) x else 0)" for i
    by (rule deps_count[OF ok])
  have snoc: "pending (refs g) (order @ [x]) i = pending (refs g) order i - int (count_list (refs g i) x)" for i
    by (rule pending_snoc[OF x(1)])
  have le: "int (count_list (deps g x) i) \<le> deg i" for i
    using snoc[of i] by (auto simp: cnt deg pending_def)
  note R = release_props[OF push_mset[of g] _ rel]
  have deg': "deg' = (\<lambda>i. deg i - int (count_list (deps g x) i))"
    and m: "mset ready' = mset ready + mset_set {d \<in> set (deps g x). deg d = int (count_list (deps g x) d)}"
    using R le by auto
  let ?new = "{d \<in> set (deps g x). deg d = int (count_list (deps g x) d)}"
  have new: "d \<in> set (nodes g) \<and> deg d > 0" if "d \<in> ?new" for d
  proof -
    have "0 < count_list (deps g x) d" using that by (simp add: count_list_pos)
    then show ?thesis using that cnt[of d] by (auto split: if_splits)
  qed
  have degp: "deg' = (\<lambda>i. if i \<in> set (nodes g) then pending (refs g) (order @ [x]) i else 0)"
    unfolding deg' by (auto simp: fun_eq_iff cnt snoc deg)
  have fin: "finite ?new" by simp
  have set': "set (settle g ready') = set ready \<union> ?new"
  proof -
    have "set_mset (mset ready') = set_mset (mset ready) \<union> ?new" unfolding m by (simp add: fin)
    then show ?thesis by (metis set_mset_mset settle_mset)
  qed
  have dis': "distinct (settle g ready')"
  proof -
    have "\<forall>d \<in> set ready. deg d = 0" using zero by auto
    then have "\<forall>d \<in> ?new. d \<notin> set ready" using new by force
    then have "set ready \<inter> ?new = {}" by blast
    then have "mset_set (set ready \<union> ?new) = mset_set (set ready) + mset_set ?new"
      by (intro mset_set_Union) auto
    then have "mset ready' = mset_set (set ready \<union> ?new)"
      using dist m by (simp add: mset_set_set)
    then have "mset (settle g ready') = mset_set (set (settle g ready'))"
      by (simp only: settle_mset set')
    then have "count (mset (settle g ready')) a = (if a \<in> set (settle g ready') then 1 else 0)" for a
      by simp
    then show ?thesis unfolding distinct_count_atmost_1 by blast
  qed
  have disj: "set (order @ [x]) \<inter> set (settle g ready') = {}"
  proof -
    have "\<forall>d \<in> set (order @ x # ready). deg d = 0" using zero by blast
    then have "set (order @ [x]) \<inter> ?new = {}" using new by fastforce
    then show ?thesis using dist unfolding set' by auto
  qed
  have "set (order @ [x]) \<union> set (settle g ready') = {i \<in> set (nodes g). deg' i = 0}"
  proof -
    have "{i \<in> set (nodes g). deg' i = 0} = {i \<in> set (nodes g). deg i = 0} \<union> ?new"
    proof -
      have "deg' i = 0 \<longleftrightarrow> deg i = 0 \<or> i \<in> ?new" if "i \<in> set (nodes g)" for i
      proof (cases "i \<in> set (deps g x)")
        case True
        then have "0 < count_list (deps g x) i" by (simp add: count_list_pos)
        then show ?thesis using True le[of i] by (auto simp: deg')
      next
        case False
        then have "count_list (deps g x) i = 0" by (simp add: count_list_0_iff)
        then show ?thesis using False by (simp add: deg')
      qed
      moreover have "?new \<subseteq> set (nodes g)" using new by blast
      ultimately show ?thesis by blast
    qed
    then show ?thesis using zero unfolding set' by auto
  qed
  moreover have "topological (refs g) (order @ [x])"
    using top x pending_0[of "refs g" order x] by (simp add: topological_snoc deg)
  ultimately show ?thesis
    using dist dis' disj degp by (auto simp: inv_def)
qed

lemma loop_total:
  assumes ok: "ok g" and "inv g deg ready order" "length (nodes g) \<le> length order + fuel"
  shows "\<exists>deg' order'. kahn_loop (push g) (settle g) (deps g) fuel deg ready order = Some (deg', order') \<and> inv g deg' [] order'"
  using assms
proof (induction fuel arbitrary: deg ready order)
  case 0
  have sub: "set (order @ ready) \<subseteq> set (nodes g)" and dist: "distinct (order @ ready)" using 0 by (auto simp: inv_def)
  then have "length (order @ ready) \<le> length (nodes g)"
    using card_mono[OF _ sub] distinct_card[OF dist] distinct_card[OF nodes_distinct[OF ok]] by simp
  then have "length order + length ready \<le> length (nodes g)" by simp
  then have "length ready = 0" using 0(3) by linarith
  then have "ready = []" by simp
  then show ?case using 0 by simp
next
  case (Suc fuel)
  show ?case
  proof (cases ready)
    case Nil
    then show ?thesis using Suc.prems by simp
  next
    case (Cons x rest)
    obtain deg' ready' where r: "release (push g) (deps g x) deg rest = (deg', ready')" by fastforce
    have "inv g deg' (settle g ready') (order @ [x])" using inv_step[OF ok] r Suc.prems(2) Cons by blast
    from Suc.IH[OF ok this] show ?thesis using Suc.prems(3) Cons r by simp
  qed
qed

lemma result_order:
  assumes ok: "ok g" and "inv g deg [] order"
  shows "distinct order" "topological (refs g) order" "set order \<subseteq> set (nodes g)"
    and "length order = length (nodes g) \<longleftrightarrow> set order = set (nodes g)"
    and "set (nodes g) - set order = {i \<in> set (nodes g). deg i > 0}"
proof -
  show d: "distinct order" and "topological (refs g) order" and s: "set order \<subseteq> set (nodes g)"
    using assms by (auto simp: inv_def)
  show "length order = length (nodes g) \<longleftrightarrow> set order = set (nodes g)"
    using distinct_card[OF d] distinct_card[OF nodes_distinct[OF ok]] card_subset_eq[OF finite_set s] by metis
  have deg: "deg = (\<lambda>i. if i \<in> set (nodes g) then pending (refs g) order i else 0)"
    and z: "set order = {i \<in> set (nodes g). deg i = 0}" using assms by (auto simp: inv_def)
  have p: "0 \<le> deg i" for i by (simp add: deg pending_def)
  show "set (nodes g) - set order = {i \<in> set (nodes g). deg i > 0}"
    unfolding z using p by (auto simp: order.strict_iff_order)
qed

text \<open>A node left over has a reference that is left over: following them is a cycle.\<close>

lemma stuck_ref:
  assumes "inv g deg [] order" "set (refs g i) \<subseteq> set (nodes g)" "i \<in> set (nodes g)" "i \<notin> set order"
  shows "\<exists>j \<in> set (refs g i). j \<in> set (nodes g) \<and> j \<notin> set order"
proof -
  have "pending (refs g) order i \<noteq> 0" using assms by (auto simp: inv_def)
  then show ?thesis using pending_0[of "refs g" order i] assms(2) by blast
qed

text \<open>When some topological order exists, the loop finds one.\<close>

lemma complete:
  assumes ok: "ok g" and "inv g deg [] order" "topological (refs g) ys" "set ys = set (nodes g)"
  shows "set order = set (nodes g)"
proof -
  have "ys ! k \<in> set order" if "k < length ys" for k
    using that
  proof (induction k rule: less_induct)
    case (less k)
    have "set (refs g (ys ! k)) \<subseteq> set (take k ys)" using assms(3) less.prems by (simp add: topological_def)
    also have "\<dots> \<subseteq> set order"
      using less by (auto simp: in_set_conv_nth)
    finally have "pending (refs g) order (ys ! k) = 0" by (simp add: pending_0)
    then show ?case using assms(2,4) less.prems nth_mem by (auto simp: inv_def)
  qed
  then have "set ys \<subseteq> set order" by (auto simp: in_set_conv_nth)
  then show ?thesis using assms(4) result_order(3)[OF assms(1,2)] by simp
qed

lemma initial:
  assumes "distinct ready" "set ready = {i \<in> set (nodes g). refs g i = []}"
    and "deg = (\<lambda>i. if i \<in> set (nodes g) then int (length (refs g i)) else 0)"
  shows "inv g deg ready []"
  using assms by (auto simp: inv_def pending_def)

lemma run:
  assumes ok: "ok g" and ready: "distinct ready" "set ready = {i \<in> set (nodes g). refs g i = []}"
    and deg: "deg = (\<lambda>i. if i \<in> set (nodes g) then int (length (refs g i)) else 0)"
  shows "\<exists>deg' order. kahn_loop (push g) (settle g) (deps g) (length (nodes g)) deg ready [] = Some (deg', order)
    \<and> inv g deg' [] order"
  using loop_total[OF ok initial[OF ready deg]] by simp

end

text \<open>
  The least node first. Among the nodes whose references are all placed, the loop takes the one
  with the least key; that fixes the order, whatever order the nodes were declared in.
\<close>

definition least_first :: "('a \<Rightarrow> 'k::linorder) \<Rightarrow> ('a \<Rightarrow> 'a list) \<Rightarrow> 'a set \<Rightarrow> 'a list \<Rightarrow> bool" where
  "least_first key refs V xs \<longleftrightarrow>
     (\<forall>k < length xs. \<forall>j \<in> V. j \<notin> set (take k xs) \<longrightarrow> set (refs j) \<subseteq> set (take k xs) \<longrightarrow>
        key (xs ! k) \<le> key j)"

lemma least_first_snoc:
  "least_first key refs V (xs @ [x]) \<longleftrightarrow> least_first key refs V xs
     \<and> (\<forall>j \<in> V. j \<notin> set xs \<longrightarrow> set (refs j) \<subseteq> set xs \<longrightarrow> key x \<le> key j)"
  by (auto simp: least_first_def nth_append less_Suc_eq)

lemma least_first_unique:
  assumes "least_first key refs V xs" "least_first key refs V ys"
    and "topological refs xs" "topological refs ys" "distinct xs" "distinct ys"
    and "set xs \<subseteq> V" "set ys \<subseteq> V" "inj_on key V" "length xs = length ys"
  shows "xs = ys"
proof (rule nth_equalityI)
  show "length xs = length ys" by fact
  fix k assume "k < length xs"
  then show "xs ! k = ys ! k"
  proof (induction k rule: less_induct)
    case (less k)
    have eq: "take k xs = take k ys"
      using less assms(10) by (intro nth_equalityI) auto
    have k: "k < length xs" "k < length ys" using less assms(10) by auto
    have in_V: "xs ! k \<in> V" "ys ! k \<in> V" using assms(7,8) k nth_mem by blast+
    have ready: "zs ! k \<notin> set (take k zs) \<and> set (refs (zs ! k)) \<subseteq> set (take k zs)"
      if "k < length zs" "distinct zs" "topological refs zs" for zs
      using that by (auto simp: topological_def in_set_conv_nth nth_eq_iff_index_eq)
    have "key (xs ! k) \<le> key (ys ! k)"
      using assms(1) k in_V(2) ready[OF k(2) assms(6,4)] eq by (simp add: least_first_def)
    moreover have "key (ys ! k) \<le> key (xs ! k)"
      using assms(2) k in_V(1) ready[OF k(1) assms(5,3)] eq by (simp add: least_first_def)
    ultimately show ?case
      using assms(9) in_V by (simp add: inj_on_def)
  qed
qed

locale kahn_least = kahn ok nodes refs deps push settle
  for ok :: "'g \<Rightarrow> bool" and nodes :: "'g \<Rightarrow> 'a list" and refs :: "'g \<Rightarrow> 'a \<Rightarrow> 'a list"
    and deps :: "'g \<Rightarrow> 'a \<Rightarrow> 'a list"
    and push :: "'g \<Rightarrow> 'a list \<Rightarrow> 'a \<Rightarrow> 'a list" and settle :: "'g \<Rightarrow> 'a list \<Rightarrow> 'a list" +
  fixes key :: "'g \<Rightarrow> 'a \<Rightarrow> 'k::linorder"
  assumes round_sorted: "sorted (map (key g) xs) \<Longrightarrow>
    sorted (map (key g) (settle g (foldl (push g) xs ds)))"
begin

lemma release_foldl: "\<exists>ds'. snd (release (push g) ds deg ready) = foldl (push g) ready ds'"
proof (induction ds arbitrary: deg ready)
  case Nil
  show ?case by (rule exI[of _ "[]"]) simp
next
  case (Cons d ds)
  let ?deg = "deg(d := deg d - 1)"
  show ?case
  proof (cases "deg d - 1 = 0")
    case True
    obtain ds' where "snd (release (push g) ds ?deg (push g ready d)) = foldl (push g) (push g ready d) ds'"
      using Cons by blast
    then show ?thesis using True by (intro exI[of _ "d # ds'"]) (simp add: Let_def)
  next
    case False
    then have "release (push g) (d # ds) deg ready = release (push g) ds ?deg ready" by (simp add: Let_def)
    then show ?thesis using Cons[of ?deg ready] by (simp only:)
  qed
qed

lemma loop_least:
  assumes ok: "ok g" and "inv g deg ready order" "sorted (map (key g) ready)"
    and "least_first (key g) (refs g) (set (nodes g)) order"
    and "kahn_loop (push g) (settle g) (deps g) fuel deg ready order = Some (deg', order')"
  shows "least_first (key g) (refs g) (set (nodes g)) order'"
  using assms
proof (induction fuel arbitrary: deg ready order)
  case 0
  then show ?case by (cases ready) auto
next
  case (Suc fuel)
  show ?case
  proof (cases ready)
    case Nil
    then show ?thesis using Suc.prems by simp
  next
    case (Cons x rest)
    obtain d1 r1 where r: "release (push g) (deps g x) deg rest = (d1, r1)" by fastforce
    have I: "inv g d1 (settle g r1) (order @ [x])" using inv_step[OF ok] r Suc.prems(2) Cons by blast
    have sx: "sorted (map (key g) (x # rest))" using Suc.prems(3) Cons by simp
    obtain ds' where "r1 = foldl (push g) rest ds'" using release_foldl[of g "deps g x" deg rest] r by auto
    then have s: "sorted (map (key g) (settle g r1))" using round_sorted sx by simp
    have least: "key g x \<le> key g j"
      if "j \<in> set (nodes g)" "j \<notin> set order" "set (refs g j) \<subseteq> set order" for j
    proof -
      have "deg j = 0" using Suc.prems(2) that by (auto simp: inv_def pending_0)
      then have "j \<in> set (x # rest)" using Suc.prems(2) Cons that by (auto simp: inv_def)
      then show ?thesis using sx by auto
    qed
    have "least_first (key g) (refs g) (set (nodes g)) (order @ [x])"
      using Suc.prems(4) least by (simp add: least_first_snoc)
    from Suc.IH[OF ok I s this] show ?thesis using Suc.prems(5) Cons r by simp
  qed
qed

lemma run_least:
  assumes ok: "ok g" and ready: "distinct ready" "set ready = {i \<in> set (nodes g). refs g i = []}"
    and sorted: "sorted (map (key g) ready)"
    and deg: "deg = (\<lambda>i. if i \<in> set (nodes g) then int (length (refs g i)) else 0)"
    and run: "kahn_loop (push g) (settle g) (deps g) (length (nodes g)) deg ready [] = Some (deg', order)"
  shows "inv g deg' [] order" and "least_first (key g) (refs g) (set (nodes g)) order"
proof -
  have I: "inv g deg ready []" by (rule initial[OF ready deg])
  show "inv g deg' [] order" using loop_total[OF ok I, of "length (nodes g)"] run by auto
  show "least_first (key g) (refs g) (set (nodes g)) order"
    by (rule loop_least[OF ok I sorted _ run]) (simp add: least_first_def)
qed

end

end
