(* ===== verification/RuleBundle.thy ===== *)
theory RuleBundle
  imports RuleIR Profile Kahn
begin

text \<open>
  \<open>backend/internal/domain/rule/bundle.go\<close>: a manifest verified into an immutable bundle, and the
  holder and library that serve bundles. The taxation engine of \<open>domain/taxation\<close> is a parameter:
  \<open>tax\<close> compiles the manifest's taxation profile and \<open>slots\<close> lists what a compiled engine emits.
  The node map is the list of nodes in manifest order, whose identifiers Load makes distinct.
\<close>

definition IRVersion :: int where "IRVersion = 1"
definition MinSupportedIRVersion :: int where "MinSupportedIRVersion = 1"

record const_decl =
  k_name :: string
  k_type :: vtype
  k_value :: string
  k_currency :: string
  k_unit :: string
  k_basis :: string

record 't manifest =
  mf_id :: string
  mf_digest :: string
  mf_ir_version :: int
  mf_nodes :: "node list"
  mf_roots :: "node_id list"
  mf_constants :: "const_decl list"
  mf_fiscal :: "fiscal_profile option"
  mf_taxation :: "'t option"

record const_pool =
  cp_money :: "string \<rightharpoonup> money"
  cp_rate :: "string \<rightharpoonup> rate"
  cp_quantity :: "string \<rightharpoonup> quantity"
  cp_string :: "string \<rightharpoonup> string"

record 'e rule_bundle =
  bd_id :: string
  bd_digest :: string
  bd_ir_version :: int
  bd_nodes :: "node list"
  bd_order :: "node_id list"
  bd_roots :: "node_id list"
  bd_consts :: const_pool
  bd_fiscal :: "fiscal_profile option"
  bd_taxation :: "'e option"

definition find_node :: "node list \<Rightarrow> node_id \<Rightarrow> node option" where
  "find_node ns i = find (\<lambda>n. nd_id n = i) ns"

section \<open>The constant pool\<close>

definition basis_of :: "string \<Rightarrow> rate_basis" where
  "basis_of s =
     (if s = ''NET'' then NET else if s = ''GROSS'' then GROSS else if s = ''PER_UNIT'' then PER_UNIT
      else if s = ''COMPOUND'' then COMPOUND else RateBasisOther s)"

definition empty_pool :: const_pool where
  "empty_pool = \<lparr>cp_money = (\<lambda>_. None), cp_rate = (\<lambda>_. None), cp_quantity = (\<lambda>_. None), cp_string = (\<lambda>_. None)\<rparr>"

definition add_constant :: "const_pool \<Rightarrow> const_decl \<Rightarrow> (rule_err, const_pool) result" where
  "add_constant p c =
     (if k_name c = [] then Err ConstNoName
      else case k_type c of
        TMoney \<Rightarrow> map_err (ConstBad (k_name c))
          (bindR (parse_money (k_value c) (k_currency c)) (\<lambda>m. Ok (p\<lparr>cp_money := (cp_money p)(k_name c \<mapsto> m)\<rparr>)))
      | TRate \<Rightarrow> map_err (ConstBad (k_name c))
          (bindR (parse_rate (k_value c) (basis_of (k_basis c))) (\<lambda>r. Ok (p\<lparr>cp_rate := (cp_rate p)(k_name c \<mapsto> r)\<rparr>)))
      | TQuantity \<Rightarrow> map_err (ConstBad (k_name c))
          (bindR (parse_quantity (k_value c) (k_unit c)) (\<lambda>q. Ok (p\<lparr>cp_quantity := (cp_quantity p)(k_name c \<mapsto> q)\<rparr>)))
      | TString \<Rightarrow> Ok (p\<lparr>cp_string := (cp_string p)(k_name c \<mapsto> k_value c)\<rparr>)
      | TReason \<Rightarrow> Ok (p\<lparr>cp_string := (cp_string p)(k_name c \<mapsto> k_value c)\<rparr>)
      | TBool \<Rightarrow> Err (ConstType (k_name c))
      | TOther s \<Rightarrow> Err (ConstType (k_name c)))"

fun has_constant :: "const_pool \<Rightarrow> string \<Rightarrow> vtype \<Rightarrow> bool" where
  "has_constant p name TMoney = (cp_money p name \<noteq> None)"
| "has_constant p name TRate = (cp_rate p name \<noteq> None)"
| "has_constant p name TQuantity = (cp_quantity p name \<noteq> None)"
| "has_constant p name TString = (cp_string p name \<noteq> None)"
| "has_constant p name TReason = (cp_string p name \<noteq> None)"
| "has_constant p name t = False"

section \<open>The graph\<close>

definition add_node :: "registration list \<Rightarrow> node list \<Rightarrow> node \<Rightarrow> (rule_err, node list) result" where
  "add_node regs ns n =
     bindR (validate_node regs n) (\<lambda>_.
       if find_node ns (nd_id n) \<noteq> None then Err (NodeTwice (nd_id n)) else Ok (ns @ [n]))"

definition check_arg :: "node list \<Rightarrow> node \<Rightarrow> node_id \<Rightarrow> (rule_err, unit) result" where
  "check_arg ns n a = (if find_node ns a = None then Err (UnknownArg (nd_id n) a) else Ok ())"

definition check_refs :: "node list \<Rightarrow> const_pool \<Rightarrow> node \<Rightarrow> (rule_err, unit) result" where
  "check_refs ns pool n =
     bindR (foldR (\<lambda>_. check_arg ns n) () (nd_args n)) (\<lambda>_.
       if nd_op n = OpConst \<and> \<not> has_constant pool (nd_const n) (nd_type n)
       then Err (UnknownConst (nd_id n) (nd_const n)) else Ok ())"

definition check_root :: "node list \<Rightarrow> node_id \<Rightarrow> (rule_err, unit) result" where
  "check_root ns r = (if find_node ns r = None then Err (UnknownRoot r) else Ok ())"

definition node_args :: "node list \<Rightarrow> node_id \<Rightarrow> node_id list" where
  "node_args ns i = (case find_node ns i of Some n \<Rightarrow> nd_args n | None \<Rightarrow> [])"

text \<open>\<open>dependents[arg]\<close> in the order the loop sorts it before use.\<close>

definition node_dependents :: "node list \<Rightarrow> node_id \<Rightarrow> node_id list" where
  "node_dependents ns a =
     sort (concat (map (\<lambda>n. map (\<lambda>_. nd_id n) (filter (\<lambda>r. r = a) (nd_args n))) ns))"

definition node_indegree :: "node list \<Rightarrow> node_id \<Rightarrow> int" where
  "node_indegree ns i = (if i \<in> nd_id ` set ns then int (length (node_args ns i)) else 0)"

definition push_sorted :: "node_id list \<Rightarrow> node_id \<Rightarrow> node_id list" where
  "push_sorted ready d = sort (ready @ [d])"

definition topo_sort :: "node list \<Rightarrow> (rule_err, node_id list) result" where
  "topo_sort ns =
     (let ready = sort (filter (\<lambda>i. node_indegree ns i = 0) (map nd_id ns)) in
      case kahn_loop push_sorted id (node_dependents ns) (length ns) (node_indegree ns) ready [] of
        None \<Rightarrow> Err (CyclicGraph 0 [])
      | Some (deg, order) \<Rightarrow>
        if length order \<noteq> length ns then
          (let stuck = sort (filter (\<lambda>i. deg i > 0) (map nd_id ns)) in
           Err (CyclicGraph (length stuck) (hd stuck)))
        else Ok order)"

section \<open>The fiscal profile against the graph\<close>

definition reads_of :: "node list \<Rightarrow> string set" where
  "reads_of ns = nd_field ` set (filter (\<lambda>n. nd_op n = OpAccumulator) ns)"

definition inputs_of :: "node list \<Rightarrow> string set" where
  "inputs_of ns = nd_field ` set (filter (\<lambda>n. nd_op n = OpInput \<and> nd_type n = TMoney) ns)"

definition emits_of :: "node list \<Rightarrow> string list \<Rightarrow> string set" where
  "emits_of ns taxed = nd_emit ` set (filter (\<lambda>n. nd_op n = OpEmit \<and> nd_type n = TMoney) ns) \<union> set taxed"

definition check_binding :: "node list \<Rightarrow> string set \<Rightarrow> accumulator_binding \<Rightarrow> (rule_err, unit) result" where
  "check_binding ns emits a =
     (let src = ab_contributes a in
      if ab_read a \<notin> reads_of ns then Err (UnreadAccumulator (ab_read a))
      else if cs_input src \<noteq> [] \<and> cs_input src \<notin> inputs_of ns then Err (UnreadInput (ab_read a) (cs_input src))
      else if cs_emitted src \<noteq> [] \<and> cs_emitted src \<notin> emits then Err (UnemittedSlot (ab_read a) (cs_emitted src))
      else Ok ())"

definition check_emitted :: "string set \<Rightarrow> string \<Rightarrow> string \<Rightarrow> (rule_err, unit) result" where
  "check_emitted emits who slot = (if slot \<notin> emits then Err (UnemittedSlot who slot) else Ok ())"

definition check_fiscal :: "node list \<Rightarrow> string list \<Rightarrow> fiscal_profile \<Rightarrow> (rule_err, unit) result" where
  "check_fiscal ns taxed f =
     (let emits = emits_of ns taxed in
      bindR (map_err (\<lambda>_. ProfileBad ''fiscal profile'') (validate_profile f)) (\<lambda>_.
      bindR (foldR (\<lambda>_. check_binding ns emits) () (fp_accumulators f)) (\<lambda>_.
      bindR (foldR (\<lambda>_ ob. foldR (\<lambda>_. check_emitted emits (od_id ob)) () (od_assesses ob)) () (fp_obligations f)) (\<lambda>_.
        case fp_posting f of
          None \<Rightarrow> Ok ()
        | Some p \<Rightarrow> foldR (\<lambda>_ l. check_emitted emits (pd_account l) (pd_emitted l)) () (pg_lines p)))))"

section \<open>Load\<close>

definition load ::
  "registration list \<Rightarrow> ('t \<Rightarrow> (string, 'e) result) \<Rightarrow> ('e \<Rightarrow> string list) \<Rightarrow> 't manifest \<Rightarrow>
   (rule_err, 'e rule_bundle) result" where
  "load regs tax slots m =
     (if mf_id m = [] \<or> mf_digest m = [] then Err NoBundleId
      else if mf_ir_version m < MinSupportedIRVersion \<or> mf_ir_version m > IRVersion
        then Err (IRVersionUnsupported (mf_ir_version m))
      else if mf_nodes m = [] \<and> mf_taxation m = None then Err (NoContent (mf_id m))
      else
        bindR (foldR add_constant empty_pool (mf_constants m)) (\<lambda>pool.
        bindR (foldR (add_node regs) [] (mf_nodes m)) (\<lambda>ns.
        bindR (foldR (\<lambda>_. check_refs ns pool) () ns) (\<lambda>_.
        bindR (foldR (\<lambda>_. check_root ns) () (mf_roots m)) (\<lambda>_.
        bindR (topo_sort ns) (\<lambda>order.
        bindR (case mf_taxation m of
                 None \<Rightarrow> Ok None
               | Some t \<Rightarrow> map_err TaxationBad (bindR (tax t) (\<lambda>e. Ok (Some e)))) (\<lambda>engine.
        bindR (case mf_fiscal m of
                 None \<Rightarrow> Ok None
               | Some f \<Rightarrow>
                 bindR (check_fiscal ns (case engine of None \<Rightarrow> [] | Some e \<Rightarrow> slots e) f)
                   (\<lambda>_. Ok (Some (normalize_profile f)))) (\<lambda>fiscal.
          Ok \<lparr>bd_id = mf_id m, bd_digest = mf_digest m, bd_ir_version = mf_ir_version m,
              bd_nodes = ns, bd_order = order, bd_roots = mf_roots m, bd_consts = pool,
              bd_fiscal = fiscal, bd_taxation = engine\<rparr>))))))))"

definition has_rules :: "'e rule_bundle \<Rightarrow> bool" where
  "has_rules b \<longleftrightarrow> bd_nodes b \<noteq> []"

definition bundle_fiscal :: "'e rule_bundle \<Rightarrow> fiscal_profile option" where
  "bundle_fiscal b = map_option normalize_profile (bd_fiscal b)"

definition accumulator_keys :: "'e rule_bundle \<Rightarrow> string list" where
  "accumulator_keys b = sorted_list_of_set (reads_of (bd_nodes b))"

section \<open>The holder and the library\<close>

type_synonym 'e holder = "'e rule_bundle option"

definition publish :: "'e holder \<Rightarrow> 'e rule_bundle \<Rightarrow> 'e holder" where
  "publish h b = Some b"

definition current :: "'e holder \<Rightarrow> 'e rule_bundle option" where
  "current h = h"

type_synonym 'e bundle_library = "string \<rightharpoonup> 'e rule_bundle"

definition library_add :: "'e bundle_library \<Rightarrow> 'e rule_bundle option \<Rightarrow> 'e bundle_library" where
  "library_add l b = (case b of None \<Rightarrow> l | Some b \<Rightarrow> l(bd_digest b \<mapsto> b))"

definition by_digest :: "'e bundle_library \<Rightarrow> string \<Rightarrow> 'e rule_bundle option" where
  "by_digest l digest = l digest"

end
