(* ===== verification/RuleEval.thy ===== *)
theory RuleEval
  imports RuleBundle
begin

text \<open>
  \<open>backend/internal/domain/rule/eval.go\<close>: the evaluation of a loaded bundle over a frame, one
  value and one trace step per node in the order Load fixed.
\<close>

record frame =
  fr_decision_time :: int
  fr_event_time :: int
  fr_money :: "string \<rightharpoonup> money"
  fr_rates :: "string \<rightharpoonup> rate"
  fr_quantities :: "string \<rightharpoonup> quantity"
  fr_flags :: "string \<rightharpoonup> bool"
  fr_strings :: "string \<rightharpoonup> string"
  fr_accumulators :: "string \<rightharpoonup> money"

record val =
  v_type :: vtype
  v_money :: money
  v_rate :: rate
  v_quantity :: quantity
  v_bool :: bool
  v_string :: string
  v_reason :: string

text \<open>The zero \<open>Value\<close>, what a map lookup of an absent node yields.\<close>

definition val0 :: val where
  "val0 = \<lparr>v_type = TOther [], v_money = \<lparr>m_amount = dec0, m_currency = []\<rparr>,
     v_rate = \<lparr>r_value = dec0, r_basis = RateBasisOther []\<rparr>,
     v_quantity = \<lparr>q_amount = dec0, q_unit = []\<rparr>, v_bool = False, v_string = [], v_reason = []\<rparr>"

definition money_val :: "money \<Rightarrow> val" where "money_val m = val0\<lparr>v_type := TMoney, v_money := m\<rparr>"
definition bool_val :: "bool \<Rightarrow> val" where "bool_val b = val0\<lparr>v_type := TBool, v_bool := b\<rparr>"

record rule_step =
  rs_node :: node_id
  rs_op :: op
  rs_args :: "node_id list"
  rs_output :: string
  rs_output_type :: vtype
  rs_rule_version :: string
  rs_semantic_id :: string
  rs_policy :: string

record eval_result =
  er_emitted :: "string \<rightharpoonup> val"
  er_trace :: "rule_step list"
  er_refused :: bool
  er_reason :: string

definition rfisc :: "(fiscal_err, 'a) result \<Rightarrow> (rule_err, 'a) result" where
  "rfisc r = map_err RuleFiscal r"

section \<open>Leaves\<close>

definition input_value :: "frame \<Rightarrow> node \<Rightarrow> (rule_err, val) result" where
  "input_value f n =
     (let missing = Err (NoInput (nd_id n) (nd_field n)) in
      case nd_type n of
        TMoney \<Rightarrow> (case fr_money f (nd_field n) of Some v \<Rightarrow> Ok (money_val v) | None \<Rightarrow> missing)
      | TRate \<Rightarrow> (case fr_rates f (nd_field n) of Some v \<Rightarrow> Ok (val0\<lparr>v_type := TRate, v_rate := v\<rparr>) | None \<Rightarrow> missing)
      | TQuantity \<Rightarrow> (case fr_quantities f (nd_field n) of
          Some v \<Rightarrow> Ok (val0\<lparr>v_type := TQuantity, v_quantity := v\<rparr>) | None \<Rightarrow> missing)
      | TBool \<Rightarrow> (case fr_flags f (nd_field n) of Some v \<Rightarrow> Ok (bool_val v) | None \<Rightarrow> missing)
      | TString \<Rightarrow> (case fr_strings f (nd_field n) of
          Some v \<Rightarrow> Ok (val0\<lparr>v_type := TString, v_string := v\<rparr>) | None \<Rightarrow> missing)
      | _ \<Rightarrow> missing)"

text \<open>A map lookup without the presence flag: the zero value when the key is absent.\<close>

definition get_or :: "'v \<Rightarrow> ('k \<rightharpoonup> 'v) \<Rightarrow> 'k \<Rightarrow> 'v" where
  "get_or z m k = (case m k of None \<Rightarrow> z | Some v \<Rightarrow> v)"

definition constant_value :: "const_pool \<Rightarrow> string \<Rightarrow> vtype \<Rightarrow> (rule_err, val) result" where
  "constant_value p name t =
     (case t of
        TMoney \<Rightarrow> Ok (money_val (get_or (v_money val0) (cp_money p) name))
      | TRate \<Rightarrow> Ok (val0\<lparr>v_type := TRate, v_rate := get_or (v_rate val0) (cp_rate p) name\<rparr>)
      | TQuantity \<Rightarrow> Ok (val0\<lparr>v_type := TQuantity, v_quantity := get_or (v_quantity val0) (cp_quantity p) name\<rparr>)
      | TString \<Rightarrow> Ok (val0\<lparr>v_type := TString, v_string := get_or [] (cp_string p) name\<rparr>)
      | TReason \<Rightarrow> Ok (val0\<lparr>v_type := TReason, v_reason := get_or [] (cp_string p) name\<rparr>)
      | _ \<Rightarrow> Err (UnsupportedConst name))"

section \<open>Comparison\<close>

definition sign_of :: "money \<Rightarrow> int" where
  "sign_of m =
     (if money_is_zero m then 0
      else if money_canonical m \<noteq> [] \<and> hd (money_canonical m) = CHR ''-'' then - 1 else 1)"

fun compare_sign :: "cmp \<Rightarrow> int \<Rightarrow> bool" where
  "compare_sign CmpEq s = (s = 0)"
| "compare_sign CmpNe s = (s \<noteq> 0)"
| "compare_sign CmpLt s = (s < 0)"
| "compare_sign CmpLte s = (s \<le> 0)"
| "compare_sign CmpGt s = (s > 0)"
| "compare_sign CmpGte s = (s \<ge> 0)"
| "compare_sign (CmpOther x) s = False"

definition compare_values :: "node \<Rightarrow> val \<Rightarrow> val \<Rightarrow> (rule_err, val) result" where
  "compare_values n a b =
     (if v_type a \<noteq> v_type b then Err (TypeMismatch (nd_id n))
      else if v_type a = TMoney then
        bindR (rfisc (money_sub (v_money a) (v_money b))) (\<lambda>diff.
          Ok (bool_val (compare_sign (nd_cmp n) (sign_of diff))))
      else if v_type a = TBool then
        (case nd_cmp n of
           CmpEq \<Rightarrow> Ok (bool_val (v_bool a = v_bool b))
         | CmpNe \<Rightarrow> Ok (bool_val (v_bool a \<noteq> v_bool b))
         | _ \<Rightarrow> Err (OrdersBool (nd_id n)))
      else if v_type a = TString \<or> v_type a = TReason then
        (let eq = (v_string a = v_string b \<and> v_reason a = v_reason b) in
         case nd_cmp n of
           CmpEq \<Rightarrow> Ok (bool_val eq)
         | CmpNe \<Rightarrow> Ok (bool_val (\<not> eq))
         | _ \<Rightarrow> Err (OrdersString (nd_id n)))
      else Err (ComparesUnsupported (nd_id n)))"

section \<open>One node\<close>

definition with_policy :: "node \<Rightarrow> (rounding_policy \<Rightarrow> (fiscal_err, money) result) \<Rightarrow> (rule_err, val) result" where
  "with_policy n op =
     (case nd_policy n of
        None \<Rightarrow> Err (NilPolicy (nd_id n))
      | Some p \<Rightarrow> bindR (rfisc (op p)) (\<lambda>m. Ok (money_val m)))"

definition rate_charge :: "const_pool \<Rightarrow> node \<Rightarrow> val \<Rightarrow> val \<Rightarrow> (rule_err, val) result" where
  "rate_charge pool n base r =
     (if v_type r \<noteq> TRate then Err (TypeMismatch (nd_id n))
      else if v_type base = TMoney then with_policy n (money_apply_rate (v_money base) (v_rate r))
      else if v_type base = TQuantity then
        (let currency = get_or [] (cp_string pool) (nd_field n) in
         if currency = [] then Err (NoCurrencyConst (nd_id n))
         else with_policy n (extend_per_unit (v_quantity base) (v_rate r) currency))
      else Err (TypeMismatch (nd_id n)))"

definition eval_node ::
  "const_pool \<Rightarrow> frame \<Rightarrow> node \<Rightarrow> (node_id \<rightharpoonup> val) \<Rightarrow> (rule_err, val) result" where
  "eval_node pool f n values =
     (let arg = (\<lambda>i. get_or val0 values (nd_args n ! i)); mismatch = Err (TypeMismatch (nd_id n)) in
      case nd_op n of
        OpConst \<Rightarrow> constant_value pool (nd_const n) (nd_type n)
      | OpInput \<Rightarrow> input_value f n
      | OpAccumulator \<Rightarrow>
          (case fr_accumulators f (nd_field n) of
             None \<Rightarrow> Err (NoAccumulator (nd_id n) (nd_field n))
           | Some m \<Rightarrow> Ok (money_val m))
      | OpAdd \<Rightarrow>
          if v_type (arg 0) \<noteq> TMoney \<or> v_type (arg 1) \<noteq> TMoney then mismatch
          else bindR (rfisc (money_add (v_money (arg 0)) (v_money (arg 1)))) (\<lambda>m. Ok (money_val m))
      | OpSub \<Rightarrow>
          if v_type (arg 0) \<noteq> TMoney \<or> v_type (arg 1) \<noteq> TMoney then mismatch
          else bindR (rfisc (money_sub (v_money (arg 0)) (v_money (arg 1)))) (\<lambda>m. Ok (money_val m))
      | OpMul \<Rightarrow> Err (UsesMul (nd_id n))
      | OpApplyRate \<Rightarrow>
          rate_charge pool n (arg 0) (arg 1)
      | OpRound \<Rightarrow>
          if v_type (arg 0) \<noteq> TMoney then mismatch
          else with_policy n (money_round (v_money (arg 0)))
      | OpQuo \<Rightarrow> Err (UsesQuo (nd_id n))
      | OpCompare \<Rightarrow> compare_values n (arg 0) (arg 1)
      | OpSelect \<Rightarrow>
          if v_type (arg 0) \<noteq> TBool then mismatch
          else Ok (if v_bool (arg 0) then arg 1 else arg 2)
      | OpAnd \<Rightarrow>
          if v_type (arg 0) \<noteq> TBool \<or> v_type (arg 1) \<noteq> TBool then mismatch
          else Ok (bool_val (v_bool (arg 0) \<and> v_bool (arg 1)))
      | OpOr \<Rightarrow>
          if v_type (arg 0) \<noteq> TBool \<or> v_type (arg 1) \<noteq> TBool then mismatch
          else Ok (bool_val (v_bool (arg 0) \<or> v_bool (arg 1)))
      | OpNot \<Rightarrow>
          if v_type (arg 0) \<noteq> TBool then mismatch else Ok (bool_val (\<not> v_bool (arg 0)))
      | OpEmit \<Rightarrow> Ok (arg 0)
      | OpRefuse \<Rightarrow> Err (UnhandledOp (nd_id n))
      | OpOther s \<Rightarrow> Err (UnhandledOp (nd_id n)))"

fun render :: "val \<Rightarrow> string" where
  "render v =
     (case v_type v of
        TMoney \<Rightarrow> money_canonical (v_money v) @ '' '' @ m_currency (v_money v)
      | TRate \<Rightarrow> canonical_decimal (r_value (v_rate v))
      | TQuantity \<Rightarrow> canonical_decimal (q_amount (v_quantity v)) @ '' '' @ q_unit (v_quantity v)
      | TBool \<Rightarrow> if v_bool v then ''true'' else ''false''
      | TReason \<Rightarrow> v_reason v
      | _ \<Rightarrow> v_string v)"

section \<open>The walk\<close>

definition value_step :: "node \<Rightarrow> val \<Rightarrow> rule_step" where
  "value_step n v =
     \<lparr>rs_node = nd_id n, rs_op = nd_op n, rs_args = nd_args n, rs_output = render v, rs_output_type = v_type v,
      rs_rule_version = nd_rule_version n, rs_semantic_id = nd_semantic_id n,
      rs_policy = (case nd_policy n of None \<Rightarrow> [] | Some p \<Rightarrow> policy_string p)\<rparr>"

definition refusal_step :: "node \<Rightarrow> rule_step" where
  "refusal_step n =
     \<lparr>rs_node = nd_id n, rs_op = nd_op n, rs_args = [], rs_output = nd_reason n, rs_output_type = TReason,
      rs_rule_version = nd_rule_version n, rs_semantic_id = nd_semantic_id n, rs_policy = []\<rparr>"

fun walk ::
  "node list \<Rightarrow> const_pool \<Rightarrow> frame \<Rightarrow> (node_id \<rightharpoonup> val) \<Rightarrow> eval_result \<Rightarrow> node_id list \<Rightarrow>
   (rule_err, eval_result) result" where
  "walk ns pool f values res [] = Ok res"
| "walk ns pool f values res (i # is) =
     (case find_node ns i of
        None \<Rightarrow> Err (UnhandledOp [])
      | Some n \<Rightarrow>
        if nd_op n = OpRefuse then
          Ok (res\<lparr>er_trace := er_trace res @ [refusal_step n], er_refused := True, er_reason := nd_reason n\<rparr>)
        else
          bindR (eval_node pool f n values) (\<lambda>v.
            let res = res\<lparr>er_trace := er_trace res @ [value_step n v]\<rparr>;
                res = (if nd_op n = OpEmit then res\<lparr>er_emitted := (er_emitted res)(nd_emit n \<mapsto> v)\<rparr> else res) in
            walk ns pool f (values(i \<mapsto> v)) res is))"

definition eval_bundle :: "'e rule_bundle option \<Rightarrow> frame \<Rightarrow> (rule_err, eval_result) result" where
  "eval_bundle b f =
     (case b of
        None \<Rightarrow> Err NoActiveBundle
      | Some b \<Rightarrow>
        walk (bd_nodes b) (bd_consts b) f (\<lambda>_. None)
          \<lparr>er_emitted = (\<lambda>_. None), er_trace = [], er_refused = False, er_reason = []\<rparr> (bd_order b))"

end
