(* ===== verification/RuleFacts.thy ===== *)
theory RuleFacts
  imports RuleEval
begin

text \<open>
  What Load guarantees of a rule bundle (\<open>bundle.go\<close>), the meaning of a node as a big-step relation, and the
  walk of \<open>eval.go\<close> against it.
\<close>


section \<open>The node graph\<close>

definition any_ids :: "node list \<Rightarrow> bool" where
  "any_ids ns \<longleftrightarrow> distinct (map nd_id ns)"

lemma find_node_id:
  assumes "distinct (map nd_id ns)" "n \<in> set ns"
  shows "find_node ns (nd_id n) = Some n"
  using assms by (induction ns) (auto simp: find_node_def)

lemma find_node_Some: "find_node ns i = Some n \<Longrightarrow> n \<in> set ns \<and> nd_id n = i"
  by (auto simp: find_node_def find_Some_iff in_set_conv_nth)

lemma find_node_None: "find_node ns i = None \<longleftrightarrow> i \<notin> nd_id ` set ns"
  by (auto simp: find_node_def find_None_iff)

lemma node_dependents_sum:
  "distinct (map nd_id ns) \<Longrightarrow>
    count_list (concat (map (\<lambda>n. map (\<lambda>_. nd_id n) (filter (\<lambda>r. r = a) (nd_args n))) ns)) i =
      (if i \<in> nd_id ` set ns then count_list (node_args ns i) a else 0)"
proof (induction ns)
  case (Cons n ns)
  have "node_args (n # ns) i = (if nd_id n = i then nd_args n else node_args ns i)"
    by (simp add: node_args_def find_node_def)
  then show ?case using Cons by (auto simp: count_list_append count_list_const count_list_filter)
qed simp

lemma node_dependents_count:
  assumes "any_ids ns"
  shows "count_list (node_dependents ns a) i = (if i \<in> set (map nd_id ns) then count_list (node_args ns i) a else 0)"
  using node_dependents_sum[of ns a i] assms
  by (simp add: node_dependents_def any_ids_def count_list_mset)

lemma push_sorted_rounds: "sorted xs \<Longrightarrow> sorted (foldl push_sorted xs ds)"
  by (induction ds arbitrary: xs) (auto simp: push_sorted_def)

interpretation rule_graph: kahn_least any_ids "map nd_id" node_args node_dependents
  "\<lambda>_. push_sorted" "\<lambda>_. id" "\<lambda>_ i. i"
proof unfold_locales
  fix ns :: "node list" and xs ds :: "node_id list"
  show "sorted (map (\<lambda>i. i) xs) \<Longrightarrow> sorted (map (\<lambda>i. i) (id (foldl push_sorted xs ds)))"
    using push_sorted_rounds[of xs ds] by simp
qed (auto simp: any_ids_def node_dependents_count push_sorted_def)

lemma graph_start:
  fixes ns :: "node list"
  defines "ready \<equiv> sort (filter (\<lambda>i. node_indegree ns i = 0) (map nd_id ns))"
  assumes "any_ids ns"
  shows "distinct ready" "set ready = {i \<in> set (map nd_id ns). node_args ns i = []}"
    and "sorted (map (\<lambda>i. i) ready)"
    and "node_indegree ns = (\<lambda>i. if i \<in> set (map nd_id ns) then int (length (node_args ns i)) else 0)"
  using assms by (auto simp: ready_def node_indegree_def any_ids_def)

lemma graph_loop:
  assumes ok: "any_ids ns"
  obtains deg order where
    "kahn_loop push_sorted id (node_dependents ns) (length ns) (node_indegree ns)
       (sort (filter (\<lambda>i. node_indegree ns i = 0) (map nd_id ns))) [] = Some (deg, order)"
    and "rule_graph.inv ns deg [] order"
    and "least_first (\<lambda>i. i) (node_args ns) (nd_id ` set ns) order"
proof -
  obtain deg order where r: "kahn_loop push_sorted id (node_dependents ns) (length (map nd_id ns)) (node_indegree ns)
       (sort (filter (\<lambda>i. node_indegree ns i = 0) (map nd_id ns))) [] = Some (deg, order)"
    using rule_graph.run[OF ok graph_start(1,2,4)[OF ok]] by blast
  note R = rule_graph.run_least[OF ok graph_start[OF ok] r]
  show ?thesis using that[of deg order] r R by simp
qed

lemma topo_sort_ok:
  assumes ok: "any_ids ns" and "topo_sort ns = Ok order"
  shows "distinct order" "set order = nd_id ` set ns" "topological (node_args ns) order"
    and "least_first (\<lambda>i. i) (node_args ns) (nd_id ` set ns) order"
proof -
  obtain deg ord where L: "kahn_loop push_sorted id (node_dependents ns) (length ns) (node_indegree ns)
       (sort (filter (\<lambda>i. node_indegree ns i = 0) (map nd_id ns))) [] = Some (deg, ord)"
    "rule_graph.inv ns deg [] ord" "least_first (\<lambda>i. i) (node_args ns) (nd_id ` set ns) ord"
    by (rule graph_loop[OF ok])
  have eq: "ord = order" "length order = length ns"
    using assms(2) L(1) by (auto simp: topo_sort_def Let_def split: if_splits)
  note O = rule_graph.result_order[OF ok L(2)]
  show "distinct order" "topological (node_args ns) order" using O(1,2) eq by simp_all
  show "set order = nd_id ` set ns" using O(4) eq by simp
  show "least_first (\<lambda>i. i) (node_args ns) (nd_id ` set ns) order" using L(3) eq by simp
qed

lemma topo_sort_fails:
  assumes ok: "any_ids ns" and "topo_sort ns = Err e"
  shows "\<not> (\<exists>ys. topological (node_args ns) ys \<and> set ys = nd_id ` set ns)"
    and "\<exists>k i. e = CyclicGraph k i \<and> 0 < k \<and> i \<in> nd_id ` set ns"
proof -
  obtain deg ord where L: "kahn_loop push_sorted id (node_dependents ns) (length ns) (node_indegree ns)
       (sort (filter (\<lambda>i. node_indegree ns i = 0) (map nd_id ns))) [] = Some (deg, ord)"
    "rule_graph.inv ns deg [] ord" "least_first (\<lambda>i. i) (node_args ns) (nd_id ` set ns) ord"
    by (rule graph_loop[OF ok])
  let ?stuck = "sort (filter (\<lambda>i. deg i > 0) (map nd_id ns))"
  have e: "e = CyclicGraph (length ?stuck) (hd ?stuck)" "length ord \<noteq> length ns"
    using assms(2) L(1) by (auto simp: topo_sort_def Let_def split: if_splits)
  note O = rule_graph.result_order[OF ok L(2)]
  show "\<not> (\<exists>ys. topological (node_args ns) ys \<and> set ys = nd_id ` set ns)"
    using rule_graph.complete[OF ok L(2)] O(4) e(2) by auto
  have "set ord \<noteq> nd_id ` set ns" using O(4) e(2) by simp
  then have "set ?stuck \<noteq> {}" using O(3,5) by auto
  then have ne: "?stuck \<noteq> []" by (metis list.set(1))
  then have "hd ?stuck \<in> set ?stuck" by (rule hd_in_set)
  then have "hd ?stuck \<in> nd_id ` set ns" by auto
  moreover have "0 < length ?stuck" using ne by (rule length_greater_0_conv[THEN iffD2])
  ultimately show "\<exists>k i. e = CyclicGraph k i \<and> 0 < k \<and> i \<in> nd_id ` set ns" using e(1) by blast
qed


section \<open>What Load guarantees\<close>

lemma topological_prefix: "topological refs (xs @ ys) \<Longrightarrow> topological refs xs"
proof (induction ys rule: rev_induct)
  case (snoc y ys)
  then show ?case using topological_snoc[of refs "xs @ ys" y] by simp
qed simp

lemma add_nodes_ok:
  assumes "foldR (add_node regs) acc ms = Ok ns" "distinct (map nd_id acc)"
  shows "ns = acc @ ms \<and> distinct (map nd_id ns) \<and> (\<forall>n \<in> set ms. validate_node regs n = Ok ())"
  using assms
proof (induction ms arbitrary: acc)
  case (Cons m ms)
  from Cons.prems(1) obtain acc' where a: "add_node regs acc m = Ok acc'" "foldR (add_node regs) acc' ms = Ok ns"
    by auto
  have v: "validate_node regs m = Ok ()" "find_node acc (nd_id m) = None" and r: "acc' = acc @ [m]"
    using a(1) by (auto simp: add_node_def split: if_splits)
  have "distinct (map nd_id (acc @ [m]))" using Cons.prems(2) v(2) by (auto simp: find_node_None)
  note H = Cons.IH[OF a(2)[unfolded r] this]
  have "ns = acc @ m # ms" using H by simp
  moreover have "distinct (map nd_id ns)" using H by blast
  ultimately show ?case using H v(1) by (simp del: distinct_append map_append)
qed simp

lemma foldR_check: "foldR (\<lambda>_. f) () xs = Ok u \<longleftrightarrow> (\<forall>x \<in> set xs. f x = Ok ())"
  by (induction xs) auto

lemma load_ok:
  assumes "load regs tax slots m = Ok b"
  shows "bd_nodes b = mf_nodes m" "any_ids (bd_nodes b)" "\<forall>n \<in> set (bd_nodes b). validate_node regs n = Ok ()"
    and "\<forall>n \<in> set (bd_nodes b). check_refs (bd_nodes b) (bd_consts b) n = Ok ()"
    and "topo_sort (bd_nodes b) = Ok (bd_order b)"
    and "\<forall>r \<in> set (bd_roots b). r \<in> nd_id ` set (bd_nodes b)"
    and "bd_roots b = mf_roots m"
  using assms add_nodes_ok[of regs "[]" "mf_nodes m"]
  by (auto simp: load_def foldR_check check_root_def find_node_None any_ids_def split: if_splits)

lemma load_args:
  assumes "load regs tax slots m = Ok b" "n \<in> set (bd_nodes b)"
  shows "set (nd_args n) \<subseteq> nd_id ` set (bd_nodes b)"
  using load_ok(4)[OF assms(1)] assms(2) by (auto simp: check_refs_def foldR_check check_arg_def find_node_None split: if_splits)

lemma load_order:
  assumes "load regs tax slots m = Ok b"
  shows "distinct (bd_order b)" "set (bd_order b) = nd_id ` set (bd_nodes b)"
    and "topological (node_args (bd_nodes b)) (bd_order b)"
    and "least_first (\<lambda>i. i) (node_args (bd_nodes b)) (nd_id ` set (bd_nodes b)) (bd_order b)"
  using topo_sort_ok[OF load_ok(2,5)[OF assms]] .

lemma load_arity:
  assumes "load regs tax slots m = Ok b" "n \<in> set (bd_nodes b)" "arity (nd_op n) = Some k"
  shows "length (nd_args n) = k"
proof -
  have "validate_node regs n = Ok ()" using load_ok(3)[OF assms(1)] assms(2) by blast
  then show ?thesis using assms(3) by (simp add: validate_node_def split: if_splits)
qed

lemma load_op_valid:
  assumes "load regs tax slots m = Ok b" "n \<in> set (bd_nodes b)"
  shows "op_valid (nd_op n)" "\<exists>k. arity (nd_op n) = Some k"
proof -
  have "validate_node regs n = Ok ()" using load_ok(3)[OF assms(1)] assms(2) by blast
  then show v: "op_valid (nd_op n)" by (simp add: validate_node_def split: if_splits)
  show "\<exists>k. arity (nd_op n) = Some k" using v by (cases "nd_op n") auto
qed

lemma load_reason:
  assumes "load regs tax slots m = Ok b" "n \<in> set (bd_nodes b)" "nd_op n = OpRefuse"
  shows "registered regs (nd_reason n)"
proof -
  have "validate_node regs n = Ok ()" using load_ok(3)[OF assms(1)] assms(2) by blast
  then have "check_shape regs n = Ok ()" by (simp add: validate_node_def split: if_splits)
  then show ?thesis using assms(3) by (simp add: check_shape_def split: if_splits)
qed

lemma find_node_mset:
  assumes "mset ns = mset ms" "any_ids ns"
  shows "find_node ns = find_node ms"
proof
  fix i
  have s: "set ns = set ms" using assms(1) by (rule mset_eq_setD)
  have d: "distinct (map nd_id ns)" "distinct (map nd_id ms)"
    using assms by (auto simp: any_ids_def) (metis mset_map mset_eq_imp_distinct_iff)
  show "find_node ns i = find_node ms i"
  proof (cases "find_node ns i")
    case None
    then show ?thesis using s by (metis find_node_None)
  next
    case (Some n)
    then show ?thesis using find_node_Some[OF Some] find_node_id[OF d(2)] s by auto
  qed
qed

section \<open>The meaning of a node\<close>

text \<open>
  The reference semantics: a node means what its operation makes of the meanings of its arguments,
  with no order of evaluation and no store. Only the vals of the arguments may matter.
\<close>

inductive means :: "node list \<Rightarrow> const_pool \<Rightarrow> frame \<Rightarrow> node_id \<Rightarrow> val \<Rightarrow> bool"
  for ns pool f where
  Node: "\<lbrakk> find_node ns i = Some n; nd_op n \<noteq> OpRefuse; dom vals = set (nd_args n);
           \<And>a w. vals a = Some w \<Longrightarrow> means ns pool f a w; eval_node pool f n vals = Ok v \<rbrakk>
         \<Longrightarrow> means ns pool f i v"

inductive_cases meansE: "means ns pool f i v"

lemma eval_node_local:
  assumes "arity (nd_op n) = Some (length (nd_args n))" "\<And>a. a \<in> set (nd_args n) \<Longrightarrow> vals a = vals' a"
  shows "eval_node pool f n vals = eval_node pool f n vals'"
proof -
  have a: "get_or val0 vals (nd_args n ! i) = get_or val0 vals' (nd_args n ! i)" if "i < length (nd_args n)" for i
    using assms(2)[of "nd_args n ! i"] that by (simp add: get_or_def)
  show ?thesis
    using assms(1) a[of 0] a[of 1] a[of 2]
    by (cases "nd_op n") (simp_all add: eval_node_def Let_def flip: length_greater_0_conv)
qed

lemma means_unique:
  assumes "\<And>n. n \<in> set ns \<Longrightarrow> arity (nd_op n) = Some (length (nd_args n))"
    and "means ns pool f i v" "means ns pool f i w"
  shows "v = w"
  using assms(2,3)
proof (induction arbitrary: w)
  case (Node i n vals v)
  from Node.prems obtain vals' where w: "dom vals' = set (nd_args n)" "eval_node pool f n vals' = Ok w"
    "\<And>a w. vals' a = Some w \<Longrightarrow> means ns pool f a w"
    using Node.hyps(1) by (auto elim: meansE)
  have "vals a = vals' a" if a: "a \<in> set (nd_args n)" for a
  proof -
    obtain x where x: "vals a = Some x" using a Node.hyps(3) by blast
    obtain y where y: "vals' a = Some y" using a w(1) by blast
    show ?thesis using Node.IH[OF x w(3)[OF y]] x y by simp
  qed
  moreover have "arity (nd_op n) = Some (length (nd_args n))"
    using assms(1) find_node_Some[OF Node.hyps(1)] by blast
  ultimately have "eval_node pool f n vals = eval_node pool f n vals'" by (intro eval_node_local)
  then show ?case using Node.hyps(5) w(2) by simp
qed

section \<open>The walk against the meaning\<close>

text \<open>
  What the walk holds after a prefix of the order: the vals of exactly the nodes walked, each the
  meaning of its node, and everything emitted is the meaning of an emitting node.
\<close>

definition walked :: "node list \<Rightarrow> const_pool \<Rightarrow> frame \<Rightarrow> node_id list \<Rightarrow> (node_id \<rightharpoonup> val) \<Rightarrow> eval_result \<Rightarrow> bool" where
  "walked ns pool f done vals res \<longleftrightarrow>
     dom vals = set done \<and> (\<forall>i v. vals i = Some v \<longrightarrow> means ns pool f i v)
     \<and> map rs_node (er_trace res) = done
     \<and> (\<forall>s v. er_emitted res s = Some v \<longrightarrow>
          (\<exists>n \<in> set ns. nd_op n = OpEmit \<and> nd_emit n = s \<and> nd_id n \<in> set done \<and> means ns pool f (nd_id n) v))
     \<and> (\<forall>n \<in> set ns. nd_op n = OpEmit \<longrightarrow> nd_id n \<in> set done \<longrightarrow> er_emitted res (nd_emit n) \<noteq> None)
     \<and> \<not> er_refused res"

lemma walked_step:
  assumes W: "walked ns pool f done vals res" and n: "n \<in> set ns" "any_ids ns"
    and v: "means ns pool f (nd_id n) v"
    and res': "res' = (if nd_op n = OpEmit then res\<lparr>er_trace := er_trace res @ [value_step n v],
      er_emitted := (er_emitted res)(nd_emit n \<mapsto> v)\<rparr> else res\<lparr>er_trace := er_trace res @ [value_step n v]\<rparr>)"
  shows "walked ns pool f (done @ [nd_id n]) (vals(nd_id n \<mapsto> v)) res'"
proof -
  have same: "m = n" if "m \<in> set ns" "nd_id m = nd_id n" for m
    using that n by (auto simp: any_ids_def distinct_map inj_on_def)
  have emit: "(er_emitted res') s = (if nd_op n = OpEmit \<and> s = nd_emit n then Some v else er_emitted res s)" for s
    by (simp add: res')
  have trace: "map rs_node (er_trace res') = done @ [nd_id n]" "er_refused res' = er_refused res"
    using W by (simp_all add: res' value_step_def walked_def)
  have store: "dom (vals(nd_id n \<mapsto> v)) = set (done @ [nd_id n])"
    "\<forall>i w. (vals(nd_id n \<mapsto> v)) i = Some w \<longrightarrow> means ns pool f i w"
    using W v by (auto simp: walked_def)
  have emitted: "\<exists>m \<in> set ns. nd_op m = OpEmit \<and> nd_emit m = s \<and> nd_id m \<in> set (done @ [nd_id n]) \<and> means ns pool f (nd_id m) w"
    if "er_emitted res' s = Some w" for s w
  proof (cases "nd_op n = OpEmit \<and> s = nd_emit n")
    case True
    then show ?thesis using that v n(1) emit[of s] by auto
  next
    case False
    then have "er_emitted res s = Some w" using that emit[of s] by auto
    then have "\<exists>m \<in> set ns. nd_op m = OpEmit \<and> nd_emit m = s \<and> nd_id m \<in> set done \<and> means ns pool f (nd_id m) w"
      using W unfolding walked_def by blast
    then show ?thesis by auto
  qed
  have all: "er_emitted res' (nd_emit m) \<noteq> None"
    if "m \<in> set ns" "nd_op m = OpEmit" "nd_id m \<in> set (done @ [nd_id n])" for m
  proof (cases "nd_id m = nd_id n")
    case True
    then show ?thesis using same[OF that(1)] that(2) emit[of "nd_emit m"] by auto
  next
    case False
    then have "er_emitted res (nd_emit m) \<noteq> None" using W that unfolding walked_def by auto
    then show ?thesis using emit[of "nd_emit m"] by auto
  qed
  show ?thesis
    unfolding walked_def using store trace emitted all W by (auto simp: walked_def simp del: fun_upd_apply)
qed

lemma walked_emitted:
  assumes "walked ns pool f done vals res"
  shows "dom (er_emitted res) = nd_emit ` {n \<in> set ns. nd_op n = OpEmit \<and> nd_id n \<in> set done}"
    and "\<forall>s v. er_emitted res s = Some v \<longrightarrow>
      (\<exists>n \<in> set ns. nd_op n = OpEmit \<and> nd_emit n = s \<and> nd_id n \<in> set done \<and> means ns pool f (nd_id n) v)"
proof -
  show e: "\<forall>s v. er_emitted res s = Some v \<longrightarrow>
      (\<exists>n \<in> set ns. nd_op n = OpEmit \<and> nd_emit n = s \<and> nd_id n \<in> set done \<and> means ns pool f (nd_id n) v)"
    using assms unfolding walked_def by blast
  have "\<forall>n \<in> set ns. nd_op n = OpEmit \<longrightarrow> nd_id n \<in> set done \<longrightarrow> nd_emit n \<in> dom (er_emitted res)"
    using assms unfolding walked_def by blast
  with e show "dom (er_emitted res) = nd_emit ` {n \<in> set ns. nd_op n = OpEmit \<and> nd_id n \<in> set done}" by blast
qed

lemma walked_evaluates:
  assumes "walked ns pool f done vals res" "any_ids ns"
  shows "\<forall>n \<in> set ns. nd_id n \<in> set done \<longrightarrow> nd_op n \<noteq> OpRefuse"
proof (intro ballI impI)
  fix n assume n: "n \<in> set ns" "nd_id n \<in> set done"
  then obtain v where "means ns pool f (nd_id n) v" using assms(1) unfolding walked_def by blast
  moreover have "find_node ns (nd_id n) = Some n" using find_node_id n(1) assms(2) by (simp add: any_ids_def)
  ultimately show "nd_op n \<noteq> OpRefuse" by (elim meansE) simp
qed

text \<open>What a walk returns when it meets a REFUSE node: the result so far, marked.\<close>

definition refused_at :: "node \<Rightarrow> eval_result \<Rightarrow> eval_result" where
  "refused_at n res = res\<lparr>er_trace := er_trace res @ [refusal_step n], er_refused := True, er_reason := nd_reason n\<rparr>"

lemma refused_at_marked [simp]: "er_refused (refused_at n res)" "er_reason (refused_at n res) = nd_reason n"
  by (simp_all add: refused_at_def)

lemma walk_ok:
  assumes "walk ns pool f vals res is = Ok out" "walked ns pool f done vals res"
    and "topological (node_args ns) (done @ is)" "any_ids ns"
    and "\<And>n. n \<in> set ns \<Longrightarrow> arity (nd_op n) = Some (length (nd_args n))"
  shows "if er_refused out
    then \<exists>k n vals' res'. k < length is \<and> find_node ns (is ! k) = Some n \<and> nd_op n = OpRefuse
      \<and> walked ns pool f (done @ take k is) vals' res' \<and> out = refused_at n res'
    else \<exists>vals'. walked ns pool f (done @ is) vals' out"
  using assms(1-3)
proof (induction "is" arbitrary: "done" vals res)
  case Nil
  then show ?case by (auto simp: walked_def)
next
  case (Cons i rest)
  from Cons.prems(1) obtain n where n: "find_node ns i = Some n" by (auto split: option.splits)
  note nid = find_node_Some[OF n]
  show ?case
  proof (cases "nd_op n = OpRefuse")
    case True
    then have "out = refused_at n res"
      using Cons.prems(1) n by (simp add: refused_at_def)
    then show ?thesis using Cons.prems(2) n True
      by (auto intro!: exI[of _ 0] exI[of _ n] exI[of _ vals] exI[of _ res])
  next
    case False
    obtain v where v: "eval_node pool f n vals = Ok v" using Cons.prems(1) n False by auto
    define res' where "res' = (if nd_op n = OpEmit then res\<lparr>er_trace := er_trace res @ [value_step n v],
      er_emitted := (er_emitted res)(nd_emit n \<mapsto> v)\<rparr> else res\<lparr>er_trace := er_trace res @ [value_step n v]\<rparr>)"
    have w: "walk ns pool f (vals(i \<mapsto> v)) res' rest = Ok out"
      using Cons.prems(1) n False v by (auto simp: res'_def Let_def split: if_splits)
    have "set (nd_args n) \<subseteq> set done"
    proof -
      have "topological (node_args ns) (done @ [i])"
        by (rule topological_prefix[of _ _ rest]) (use Cons.prems(3) in simp)
      then show ?thesis using n by (simp add: topological_snoc node_args_def)
    qed
    then have args: "set (nd_args n) \<subseteq> dom vals" using Cons.prems(2) by (simp add: walked_def)
    have "means ns pool f i v"
    proof (rule Node[OF n False, of "vals |` set (nd_args n)"])
      show "dom (vals |` set (nd_args n)) = set (nd_args n)" using args by auto
      show "means ns pool f a w" if "(vals |` set (nd_args n)) a = Some w" for a w
        using that Cons.prems(2) by (auto simp: walked_def restrict_map_def split: if_splits)
      show "eval_node pool f n (vals |` set (nd_args n)) = Ok v"
        using eval_node_local[OF assms(5)] nid v by (metis restrict_in)
    qed
    then have W: "walked ns pool f (done @ [i]) (vals(i \<mapsto> v)) res'"
      using walked_step[OF Cons.prems(2) _ assms(4), of n v res'] nid by (simp add: res'_def)
    have t: "topological (node_args ns) ((done @ [i]) @ rest)" using Cons.prems(3) by simp
    note IH = Cons.IH[OF w W t]
    show ?thesis
    proof (cases "er_refused out")
      case True
      then obtain k m vals' res1 where k: "k < length rest" "find_node ns (rest ! k) = Some m" "nd_op m = OpRefuse"
        "walked ns pool f ((done @ [i]) @ take k rest) vals' res1" "out = refused_at m res1"
        using IH by auto
      have "walked ns pool f (done @ take (Suc k) (i # rest)) vals' res1" using k(4) by simp
      then show ?thesis using True k by (intro if_P[THEN iffD2]) (auto intro!: exI[of _ "Suc k"] exI[of _ vals'] exI[of _ res1])
    next
      case F: False
      then show ?thesis using IH by simp
    qed
  qed
qed

end
