(* ===== verification/Schedule.thy ===== *)
theory Schedule
  imports FiscalFacts Kahn
begin

text \<open>
  \<open>backend/internal/domain/determination/schedule.go\<close>: the component schedule a content bundle
  declares, its compilation into a plan, and the deterministic evaluation order. A Go map that is
  only looked up is the list it was built from; the index of a component is its position.
\<close>

section \<open>The declarations\<close>

type_synonym comp_id = string

datatype base_kind = LineNet | LineGross | ComponentSum | NetPlusComponents | BaseQuantity | DocumentNet
  | BaseOther string

fun base_kind_name :: "base_kind \<Rightarrow> string" where
  "base_kind_name LineNet = ''LINE_NET''"
| "base_kind_name LineGross = ''LINE_GROSS''"
| "base_kind_name ComponentSum = ''COMPONENT_SUM''"
| "base_kind_name NetPlusComponents = ''NET_PLUS_COMPONENTS''"
| "base_kind_name BaseQuantity = ''QUANTITY''"
| "base_kind_name DocumentNet = ''DOCUMENT_NET''"
| "base_kind_name (BaseOther s) = s"

fun base_kind_valid :: "base_kind \<Rightarrow> bool" where
  "base_kind_valid (BaseOther s) = False"
| "base_kind_valid k = True"

definition compounding :: "base_kind \<Rightarrow> bool" where
  "compounding k \<longleftrightarrow> k = ComponentSum \<or> k = NetPlusComponents"

datatype adj_kind = SubtractAmount | SubtractProportion | AdjOther string

fun adj_kind_name :: "adj_kind \<Rightarrow> string" where
  "adj_kind_name SubtractAmount = ''SUBTRACT_AMOUNT''"
| "adj_kind_name SubtractProportion = ''SUBTRACT_PROPORTION''"
| "adj_kind_name (AdjOther s) = s"

record base_adjustment =
  a_kind :: adj_kind
  a_name :: string
  a_amount :: "money option"
  a_proportion :: "rate option"

record base_decl =
  b_kind :: base_kind
  b_components :: "comp_id list"
  b_adjustments :: "base_adjustment list"
  b_allow_negative :: bool

datatype rate_kind = AdValorem | Specific | Flat | Bracket | RateOther string

fun rate_kind_name :: "rate_kind \<Rightarrow> string" where
  "rate_kind_name AdValorem = ''AD_VALOREM''"
| "rate_kind_name Specific = ''SPECIFIC''"
| "rate_kind_name Flat = ''FLAT''"
| "rate_kind_name Bracket = ''BRACKET''"
| "rate_kind_name (RateOther s) = s"

datatype bracket_mode = Marginal | Cliff | BracketOther string

record tier =
  t_from :: money
  t_rate :: rate

record bracket =
  k_mode :: bracket_mode
  k_tiers :: "tier list"

record rate_decl =
  rd_kind :: rate_kind
  rd_proportion :: "rate option"
  rd_per_unit :: "money option"
  rd_flat :: "money option"
  rd_bracket :: "bracket option"

record tax_component =
  c_id :: comp_id
  c_jurisdiction :: string
  c_tax_type :: string
  c_base :: base_decl
  c_rate :: rate_decl
  c_policy :: rounding_policy
  c_inclusive :: bool

record schedule =
  s_components :: "tax_component list"
  s_extraction :: "rounding_policy option"
  s_subtraction :: "comp_id list"

text \<open>\<open>Plan\<close>: the compiled schedule. \<open>pl_referenced\<close> is \<open>referencedByBase\<close>.\<close>

record plan =
  pl_components :: "tax_component list"
  pl_order :: "nat list"
  pl_extraction :: "rounding_policy option"
  pl_inclusive_flat :: "comp_id list"
  pl_referenced :: "comp_id set"

datatype sched_err =
    NoComponents | EmptyId | LongId comp_id | BadIdChar comp_id | DuplicateId comp_id
  | NoJurisdiction comp_id | NoTaxType comp_id | NoPolicy comp_id | BadBaseKind comp_id
  | NoBaseComponents comp_id | BaseRefTwice comp_id comp_id | BaseNamesComponents comp_id
  | AdjNotAmount comp_id nat | AdjNotProportion comp_id nat | BadAdjKind comp_id nat
  | InclusiveDocument comp_id | DocumentRounding comp_id
  | RateValues comp_id nat | RateValueMissing comp_id rate_kind | ProportionOnQuantity comp_id
  | SpecificBase comp_id | BadRateKind comp_id
  | BadBracketMode comp_id | NoTiers comp_id | FirstTier comp_id | TierCmp comp_id nat fiscal_err
  | TiersNotAscending comp_id nat
  | UnknownBaseRef comp_id comp_id | SelfBaseRef comp_id | CoarseBaseRef comp_id comp_id
  | PoolTwoPolicies string | Cycle "comp_id list"
  | InclusiveRounding comp_id | InclusiveBracket comp_id | InclusiveAdjusted comp_id
  | InclusiveBase comp_id | InclusiveBaseRef comp_id comp_id | NoExtractionPolicy | ExtractionNoMode
  | SubtractionTwice comp_id | NotInSubtraction comp_id | SubtractionExtra "comp_id list"

section \<open>Component identifiers\<close>

definition MaxComponentIDLength :: nat where "MaxComponentIDLength = 128"

definition id_char_ok :: "char \<Rightarrow> bool" where
  "id_char_ok c \<longleftrightarrow> (32 :: nat) < of_char c \<and> (of_char c :: nat) \<le> 126"

definition validate_id :: "comp_id \<Rightarrow> (sched_err, unit) result" where
  "validate_id c =
     (if c = [] then Err EmptyId
      else if length c > MaxComponentIDLength then Err (LongId c)
      else if \<not> list_all id_char_ok c then Err (BadIdChar c)
      else Ok ())"

section \<open>Validation of one component\<close>

fun validate_tiers :: "comp_id \<Rightarrow> nat \<Rightarrow> tier list \<Rightarrow> (sched_err, unit) result" where
  "validate_tiers i n (t # u # ts) =
     (case money_cmp (t_from u) (t_from t) of
        Err e \<Rightarrow> Err (TierCmp i n e)
      | Ok c \<Rightarrow> if c \<le> 0 then Err (TiersNotAscending i n) else validate_tiers i (Suc n) (u # ts))"
| "validate_tiers i n ts = Ok ()"

definition validate_bracket :: "comp_id \<Rightarrow> bracket \<Rightarrow> (sched_err, unit) result" where
  "validate_bracket i b =
     (if k_mode b \<noteq> Marginal \<and> k_mode b \<noteq> Cliff then Err (BadBracketMode i)
      else case k_tiers b of
        [] \<Rightarrow> Err (NoTiers i)
      | t # ts \<Rightarrow> if money_sign (t_from t) \<noteq> 0 then Err (FirstTier i) else validate_tiers i 1 (t # ts))"

definition rate_values :: "rate_decl \<Rightarrow> nat" where
  "rate_values r =
     length (filter id [rd_proportion r \<noteq> None, rd_per_unit r \<noteq> None, rd_flat r \<noteq> None, rd_bracket r \<noteq> None])"

definition validate_rate :: "tax_component \<Rightarrow> (sched_err, unit) result" where
  "validate_rate c =
     (let r = c_rate c; i = c_id c in
      if rate_values r \<noteq> 1 then Err (RateValues i (rate_values r))
      else case rd_kind r of
        AdValorem \<Rightarrow>
          if rd_proportion r = None then Err (RateValueMissing i AdValorem)
          else if b_kind (c_base c) = BaseQuantity then Err (ProportionOnQuantity i) else Ok ()
      | Specific \<Rightarrow>
          if rd_per_unit r = None then Err (RateValueMissing i Specific)
          else if b_kind (c_base c) \<noteq> BaseQuantity then Err (SpecificBase i) else Ok ()
      | Flat \<Rightarrow> if rd_flat r = None then Err (RateValueMissing i Flat) else Ok ()
      | Bracket \<Rightarrow>
          (case rd_bracket r of None \<Rightarrow> Err (RateValueMissing i Bracket) | Some b \<Rightarrow> validate_bracket i b)
      | RateOther s \<Rightarrow> Err (BadRateKind i))"

fun no_repeats :: "(comp_id \<Rightarrow> sched_err) \<Rightarrow> comp_id set \<Rightarrow> comp_id list \<Rightarrow> (sched_err, unit) result" where
  "no_repeats e seen [] = Ok ()"
| "no_repeats e seen (r # rs) = (if r \<in> seen then Err (e r) else no_repeats e (insert r seen) rs)"

definition validate_adjustment :: "comp_id \<Rightarrow> nat \<times> base_adjustment \<Rightarrow> (sched_err, unit) result" where
  "validate_adjustment i = (\<lambda>(n, a).
     case a_kind a of
       SubtractAmount \<Rightarrow>
         if a_amount a = None \<or> a_proportion a \<noteq> None then Err (AdjNotAmount i n) else Ok ()
     | SubtractProportion \<Rightarrow>
         if a_proportion a = None \<or> a_amount a \<noteq> None then Err (AdjNotProportion i n) else Ok ()
     | AdjOther s \<Rightarrow> Err (BadAdjKind i n))"

definition validate_component :: "tax_component \<Rightarrow> (sched_err, unit) result" where
  "validate_component c =
     (let i = c_id c; b = c_base c in
      if c_jurisdiction c = [] then Err (NoJurisdiction i)
      else if c_tax_type c = [] then Err (NoTaxType i)
      else if mode_name (rp_mode (c_policy c)) = [] then Err (NoPolicy i)
      else if \<not> base_kind_valid (b_kind b) then Err (BadBaseKind i)
      else bindR
        (if compounding (b_kind b) then
           (if b_components b = [] then Err (NoBaseComponents i)
            else no_repeats (BaseRefTwice i) {} (b_components b))
         else if b_components b \<noteq> [] then Err (BaseNamesComponents i) else Ok ())
        (\<lambda>_. bindR (foldR (\<lambda>_. validate_adjustment i) () (List.enumerate 0 (b_adjustments b)))
        (\<lambda>_.
          if b_kind b = DocumentNet \<and> c_inclusive c then Err (InclusiveDocument i)
          else if b_kind b = DocumentNet \<and> rp_basis (c_policy c) \<noteq> TAX_COMPONENT then Err (DocumentRounding i)
          else validate_rate c)))"

section \<open>Validation across components\<close>

definition coarse :: "rounding_policy \<Rightarrow> bool" where
  "coarse p \<longleftrightarrow> rp_basis p \<noteq> LINE"

definition find_component :: "tax_component list \<Rightarrow> comp_id \<Rightarrow> tax_component option" where
  "find_component cs i = find (\<lambda>c. c_id c = i) cs"

definition index_of :: "tax_component list \<Rightarrow> comp_id \<Rightarrow> nat" where
  "index_of cs i = length (takeWhile (\<lambda>c. c_id c \<noteq> i) cs)"

fun check_ids :: "comp_id set \<Rightarrow> tax_component list \<Rightarrow> (sched_err, unit) result" where
  "check_ids seen [] = Ok ()"
| "check_ids seen (c # cs) =
     bindR (validate_id (c_id c)) (\<lambda>_.
       if c_id c \<in> seen then Err (DuplicateId (c_id c)) else check_ids (insert (c_id c) seen) cs)"

definition check_ref :: "tax_component list \<Rightarrow> tax_component \<Rightarrow> comp_id \<Rightarrow> (sched_err, unit) result" where
  "check_ref cs c ref =
     (if find_component cs ref = None then Err (UnknownBaseRef (c_id c) ref)
      else if ref = c_id c then Err (SelfBaseRef (c_id c))
      else Ok ())"

definition check_component :: "tax_component list \<Rightarrow> tax_component \<Rightarrow> (sched_err, unit) result" where
  "check_component cs c =
     bindR (validate_component c) (\<lambda>_. foldR (\<lambda>_. check_ref cs c) () (b_components (c_base c)))"

definition check_coarse_ref :: "tax_component list \<Rightarrow> tax_component \<Rightarrow> comp_id \<Rightarrow> (sched_err, unit) result" where
  "check_coarse_ref cs c ref =
     (case find_component cs ref of
        None \<Rightarrow> Ok ()
      | Some d \<Rightarrow> if coarse (c_policy d) then Err (CoarseBaseRef (c_id c) ref) else Ok ())"

definition validate_coarse_references :: "tax_component list \<Rightarrow> (sched_err, unit) result" where
  "validate_coarse_references cs =
     foldR (\<lambda>_ c. foldR (\<lambda>_. check_coarse_ref cs c) () (b_components (c_base c))) () cs"

definition pool_key :: "tax_component \<Rightarrow> string option" where
  "pool_key c =
     (case rp_basis (c_policy c) of
        TAX_COMPONENT \<Rightarrow> Some (''component:'' @ c_id c)
      | JURISDICTION_TOTAL \<Rightarrow> Some (''jurisdiction:'' @ c_jurisdiction c)
      | DOCUMENT \<Rightarrow> Some ''document''
      | LINE \<Rightarrow> None
      | BasisOther s \<Rightarrow> None)"

definition pool_policy_step ::
  "(string \<rightharpoonup> rounding_policy) \<Rightarrow> tax_component \<Rightarrow> (sched_err, string \<rightharpoonup> rounding_policy) result" where
  "pool_policy_step pools c =
     (case pool_key c of
        None \<Rightarrow> Ok pools
      | Some k \<Rightarrow>
        if rp_basis (c_policy c) = TAX_COMPONENT then Ok pools
        else case pools k of
          Some prior \<Rightarrow>
            if policy_string prior \<noteq> policy_string (c_policy c) then Err (PoolTwoPolicies k)
            else Ok (pools(k \<mapsto> c_policy c))
        | None \<Rightarrow> Ok (pools(k \<mapsto> c_policy c)))"

definition validate_pool_policies :: "tax_component list \<Rightarrow> (sched_err, unit) result" where
  "validate_pool_policies cs = bindR (foldR pool_policy_step (\<lambda>_. None) cs) (\<lambda>_. Ok ())"

section \<open>The evaluation order\<close>

definition comp_refs :: "tax_component list \<Rightarrow> nat \<Rightarrow> nat list" where
  "comp_refs cs i = map (index_of cs) (b_components (c_base (cs ! i)))"

text \<open>\<open>dependents[j]\<close>: every \<open>i\<close> once per reference it makes to \<open>j\<close>, in declaration order.\<close>

definition comp_dependents :: "tax_component list \<Rightarrow> nat \<Rightarrow> nat list" where
  "comp_dependents cs j =
     concat (map (\<lambda>i. map (\<lambda>_. i) (filter (\<lambda>r. r = j) (comp_refs cs i))) [0..<length cs])"

definition by_id :: "tax_component list \<Rightarrow> nat list \<Rightarrow> nat list" where
  "by_id cs s = sort_key (\<lambda>i. c_id (cs ! i)) s"

definition comp_indegree :: "tax_component list \<Rightarrow> nat \<Rightarrow> int" where
  "comp_indegree cs i = (if i < length cs then int (length (comp_refs cs i)) else 0)"

definition topological_order :: "tax_component list \<Rightarrow> (sched_err, nat list) result" where
  "topological_order cs =
     (let n = length cs;
          ready = by_id cs (filter (\<lambda>i. comp_indegree cs i = 0) [0..<n]) in
      case kahn_loop (\<lambda>xs d. xs @ [d]) (by_id cs) (comp_dependents cs) n (comp_indegree cs) ready [] of
        None \<Rightarrow> Err (Cycle [])
      | Some (deg, order) \<Rightarrow>
        if length order \<noteq> n
        then Err (Cycle (sort (map (\<lambda>i. c_id (cs ! i)) (filter (\<lambda>i. deg i > 0) [0..<n]))))
        else Ok order)"

section \<open>Inclusive components\<close>

definition check_inclusive_ref :: "tax_component list \<Rightarrow> tax_component \<Rightarrow> comp_id \<Rightarrow> (sched_err, unit) result" where
  "check_inclusive_ref cs c ref =
     (case find_component cs ref of
        None \<Rightarrow> Ok ()
      | Some d \<Rightarrow>
        if \<not> c_inclusive d \<or> rd_kind (c_rate d) \<noteq> AdValorem then Err (InclusiveBaseRef (c_id c) ref) else Ok ())"

text \<open>One component: whether it is an inclusive flat or specific amount.\<close>

definition inclusive_step :: "tax_component list \<Rightarrow> comp_id list \<Rightarrow> tax_component \<Rightarrow> (sched_err, comp_id list) result" where
  "inclusive_step cs flats c =
     (if \<not> c_inclusive c then Ok flats
      else if rp_basis (c_policy c) \<noteq> LINE then Err (InclusiveRounding (c_id c))
      else if rd_kind (c_rate c) = Flat \<or> rd_kind (c_rate c) = Specific then Ok (flats @ [c_id c])
      else if rd_kind (c_rate c) = Bracket then Err (InclusiveBracket (c_id c))
      else if b_adjustments (c_base c) \<noteq> [] then Err (InclusiveAdjusted (c_id c))
      else if b_kind (c_base c) \<notin> {LineNet, NetPlusComponents, ComponentSum} then Err (InclusiveBase (c_id c))
      else bindR (foldR (\<lambda>_. check_inclusive_ref cs c) () (b_components (c_base c))) (\<lambda>_. Ok flats))"

fun take_declared :: "comp_id list \<Rightarrow> comp_id list \<Rightarrow> (sched_err, comp_id list) result" where
  "take_declared declared [] = Ok declared"
| "take_declared declared (i # is) =
     (if i \<notin> set declared then Err (NotInSubtraction i) else take_declared (removeAll i declared) is)"

text \<open>
  The leftover identifier the last error names is the first of a randomised map iteration in the
  code; the model's error carries all of them.
\<close>

definition validate_inclusive ::
  "tax_component list \<Rightarrow> rounding_policy option \<Rightarrow> comp_id list \<Rightarrow> (sched_err, comp_id list) result" where
  "validate_inclusive cs extraction subtraction =
     bindR (foldR (inclusive_step cs) [] cs) (\<lambda>flats.
       if list_ex c_inclusive cs \<and> extraction = None then Err NoExtractionPolicy
       else if (case extraction of None \<Rightarrow> False | Some p \<Rightarrow> mode_name (rp_mode p) = []) then Err ExtractionNoMode
       else bindR (no_repeats SubtractionTwice {} subtraction) (\<lambda>_.
         bindR (take_declared subtraction flats) (\<lambda>left.
           if left \<noteq> [] then Err (SubtractionExtra left) else Ok subtraction)))"

section \<open>Compile\<close>

definition compile :: "schedule \<Rightarrow> (sched_err, plan) result" where
  "compile s =
     (let cs = s_components s in
      if cs = [] then Err NoComponents
      else bindR (check_ids {} cs) (\<lambda>_.
        bindR (foldR (\<lambda>_. check_component cs) () cs) (\<lambda>_.
        bindR (validate_coarse_references cs) (\<lambda>_.
        bindR (validate_pool_policies cs) (\<lambda>_.
        bindR (topological_order cs) (\<lambda>order.
        bindR (validate_inclusive cs (s_extraction s) (s_subtraction s)) (\<lambda>flat.
          Ok \<lparr>pl_components = cs, pl_order = order, pl_extraction = s_extraction s,
              pl_inclusive_flat = flat,
              pl_referenced = (\<Union>c \<in> set cs. set (b_components (c_base c)))\<rparr>)))))))"

definition plan_order :: "plan \<Rightarrow> comp_id list" where
  "plan_order p = map (\<lambda>i. c_id (pl_components p ! i)) (pl_order p)"

end
