(* ===== verification/ScheduleFacts.thy ===== *)
theory ScheduleFacts
  imports Schedule
begin

text \<open>
  What the checks of \<open>Compile\<close> guarantee (\<open>schedule.go\<close>): the topological order through the shared
  graph interface, the order over identifiers, where a cycle is reported, pools and inclusive components.
\<close>


section \<open>The component graph\<close>

lemma comp_dependents_count:
  "count_list (comp_dependents cs j) i = (if i < length cs then count_list (comp_refs cs i) j else 0)"
  unfolding comp_dependents_def
  by (subst count_list_concat) (auto simp: count_list_const count_list_filter)

definition comp_key :: "tax_component list \<Rightarrow> nat \<Rightarrow> comp_id" where
  "comp_key cs i = c_id (cs ! i)"

definition any_graph :: "tax_component list \<Rightarrow> bool" where
  "any_graph cs \<longleftrightarrow> True"

lemma by_id_sorted: "sorted (map (comp_key cs) (by_id cs xs))"
  using sorted_sort_key[of "comp_key cs" xs] by (simp add: by_id_def comp_key_def[abs_def])

lemma by_id_mset [simp]: "mset (by_id cs xs) = mset xs" "set (by_id cs xs) = set xs" "distinct (by_id cs xs) = distinct xs"
  by (simp_all add: by_id_def)

interpretation components: kahn_least any_graph "\<lambda>cs. [0..<length cs]" comp_refs comp_dependents
  "\<lambda>_ xs d. xs @ [d]" by_id comp_key
  by unfold_locales (auto simp: comp_dependents_count by_id_sorted by_id_mset)

lemma comp_start:
  fixes cs :: "tax_component list"
  defines "ready \<equiv> by_id cs (filter (\<lambda>i. comp_indegree cs i = 0) [0..<length cs])"
  shows "distinct ready" "set ready = {i \<in> set [0..<length cs]. comp_refs cs i = []}"
    and "sorted (map (comp_key cs) ready)"
    and "comp_indegree cs = (\<lambda>i. if i \<in> set [0..<length cs] then int (length (comp_refs cs i)) else 0)"
  by (auto simp: ready_def by_id_sorted comp_indegree_def)

lemma comp_loop:
  obtains deg order where
    "kahn_loop (\<lambda>xs d. xs @ [d]) (by_id cs) (comp_dependents cs) (length cs) (comp_indegree cs)
       (by_id cs (filter (\<lambda>i. comp_indegree cs i = 0) [0..<length cs])) [] = Some (deg, order)"
    and "components.inv cs deg [] order"
    and "least_first (comp_key cs) (comp_refs cs) {0..<length cs} order"
proof -
  have ok: "any_graph cs" by (simp add: any_graph_def)
  obtain deg order where r: "kahn_loop (\<lambda>xs d. xs @ [d]) (by_id cs) (comp_dependents cs) (length [0..<length cs]) (comp_indegree cs)
       (by_id cs (filter (\<lambda>i. comp_indegree cs i = 0) [0..<length cs])) [] = Some (deg, order)"
    using components.run[OF ok comp_start(1,2,4)] by blast
  note R = components.run_least[OF ok comp_start r]
  show ?thesis using that[of deg order] r R by simp
qed

lemma comp_order:
  assumes "topological_order cs = Ok order"
  shows "distinct order" "set order = {0..<length cs}" "topological (comp_refs cs) order"
    and "least_first (comp_key cs) (comp_refs cs) {0..<length cs} order"
proof -
  have ok: "any_graph cs" by (simp add: any_graph_def)
  obtain deg ord where L: "kahn_loop (\<lambda>xs d. xs @ [d]) (by_id cs) (comp_dependents cs) (length cs) (comp_indegree cs)
       (by_id cs (filter (\<lambda>i. comp_indegree cs i = 0) [0..<length cs])) [] = Some (deg, ord)"
    "components.inv cs deg [] ord" "least_first (comp_key cs) (comp_refs cs) {0..<length cs} ord"
    by (rule comp_loop)
  have eq: "ord = order" "length order = length cs"
    using assms L(1) by (auto simp: topological_order_def Let_def split: if_splits)
  note O = components.result_order[OF ok L(2)]
  show "distinct order" "topological (comp_refs cs) order" using O(1,2) eq by simp_all
  show "set order = {0..<length cs}" using O(4) eq by simp
  show "least_first (comp_key cs) (comp_refs cs) {0..<length cs} order" using L(3) eq by simp
qed

lemma comp_order_fails:
  assumes "topological_order cs = Err e"
  shows "\<not> (\<exists>ys. topological (comp_refs cs) ys \<and> set ys = {0..<length cs})"
    and "\<exists>i ids. e = Cycle (i # ids)"
proof -
  have ok: "any_graph cs" by (simp add: any_graph_def)
  obtain deg ord where L: "kahn_loop (\<lambda>xs d. xs @ [d]) (by_id cs) (comp_dependents cs) (length cs) (comp_indegree cs)
       (by_id cs (filter (\<lambda>i. comp_indegree cs i = 0) [0..<length cs])) [] = Some (deg, ord)"
    "components.inv cs deg [] ord" "least_first (comp_key cs) (comp_refs cs) {0..<length cs} ord"
    by (rule comp_loop)
  let ?stuck = "filter (\<lambda>i. deg i > 0) [0..<length cs]"
  have e: "e = Cycle (sort (map (\<lambda>i. c_id (cs ! i)) ?stuck))" "length ord \<noteq> length cs"
    using assms L(1) by (auto simp: topological_order_def Let_def split: if_splits)
  note O = components.result_order[OF ok L(2)]
  show "\<not> (\<exists>ys. topological (comp_refs cs) ys \<and> set ys = {0..<length cs})"
    using components.complete[OF ok L(2)] O(4) e(2) by auto
  have "set ord \<noteq> {0..<length cs}" using O(4) e(2) by simp
  then have "set ?stuck \<noteq> {}" using O(3,5) by auto
  then have "sort (map (\<lambda>i. c_id (cs ! i)) ?stuck) \<noteq> []" by (metis set_empty set_map set_sort image_is_empty)
  then show "\<exists>i ids. e = Cycle (i # ids)" using e(1) by (cases "sort (map (\<lambda>i. c_id (cs ! i)) ?stuck)") auto
qed


section \<open>What a compiled schedule guarantees\<close>

lemma check_ids_ok: "check_ids seen cs = Ok () \<Longrightarrow>
  distinct (map c_id cs) \<and> c_id ` set cs \<inter> seen = {} \<and> (\<forall>c \<in> set cs. is_ok (validate_id (c_id c)))"
  by (induction seen cs rule: check_ids.induct) (auto split: if_splits)

lemma foldR_unit_Ok: "foldR (\<lambda>_. f) () xs = Ok u \<longleftrightarrow> (\<forall>x \<in> set xs. f x = Ok ())"
  by (induction xs) auto

lemma index_of_mem:
  "i \<in> c_id ` set cs \<Longrightarrow> index_of cs i < length cs \<and> c_id (cs ! index_of cs i) = i"
  by (induction cs) (auto simp: index_of_def)

lemma find_component_mem: "find_component cs i = None \<longleftrightarrow> i \<notin> c_id ` set cs"
  by (auto simp: find_component_def find_None_iff)

lemma find_component_Some: "find_component cs i = Some c \<Longrightarrow> c \<in> set cs \<and> c_id c = i"
  by (auto simp: find_component_def find_Some_iff in_set_conv_nth)

lemma find_component_id:
  assumes "distinct (map c_id cs)" "c \<in> set cs"
  shows "find_component cs (c_id c) = Some c"
proof (cases "find_component cs (c_id c)")
  case None
  then show ?thesis using assms(2) by (auto simp: find_component_mem)
next
  case (Some d)
  then show ?thesis using find_component_Some[OF Some] assms by (auto simp: distinct_map inj_on_def)
qed

text \<open>Every check of Compile, as the success of the whole reports it.\<close>

lemma compile_checks:
  assumes "compile s = Ok p"
  shows "check_ids {} (s_components s) = Ok ()"
    and "\<forall>c \<in> set (s_components s). check_component (s_components s) c = Ok ()"
    and "validate_coarse_references (s_components s) = Ok ()"
    and "validate_pool_policies (s_components s) = Ok ()"
    and "topological_order (s_components s) = Ok (pl_order p)"
    and "validate_inclusive (s_components s) (s_extraction s) (s_subtraction s) = Ok (pl_inclusive_flat p)"
    and "pl_components p = s_components s" "s_components s \<noteq> []"
    and "pl_extraction p = s_extraction s"
  using assms by (auto simp: compile_def Let_def foldR_unit_Ok split: if_splits)

lemma check_component_refs:
  assumes "check_component cs c = Ok ()" "r \<in> set (b_components (c_base c))"
  shows "r \<in> c_id ` set cs" "r \<noteq> c_id c"
  using assms by (auto simp: check_component_def foldR_unit_Ok check_ref_def find_component_mem split: if_splits)

definition id_refs :: "tax_component list \<Rightarrow> comp_id \<Rightarrow> comp_id list" where
  "id_refs cs i = (case find_component cs i of Some c \<Rightarrow> b_components (c_base c) | None \<Rightarrow> [])"

lemma id_refs_nth: "distinct (map c_id cs) \<Longrightarrow> i < length cs \<Longrightarrow> id_refs cs (c_id (cs ! i)) = b_components (c_base (cs ! i))"
  by (simp add: id_refs_def find_component_id)

lemma id_refs_mset:
  assumes "mset cs = mset ds" "distinct (map c_id cs)"
  shows "id_refs cs = id_refs ds"
proof
  fix i
  have d: "distinct (map c_id ds)" using assms by (metis distinct_map mset_eq_imp_distinct_iff mset_eq_setD)
  have s: "set cs = set ds" using assms(1) by (rule mset_eq_setD)
  show "id_refs cs i = id_refs ds i"
  proof (cases "i \<in> c_id ` set cs")
    case True
    then obtain c where "c \<in> set cs" "c_id c = i" by auto
    then show ?thesis using find_component_id[OF assms(2)] find_component_id[OF d] s
      by (auto simp: id_refs_def)
  next
    case False
    then show ?thesis using s by (simp add: id_refs_def find_component_mem[THEN iffD2])
  qed
qed

text \<open>The order over identifiers: the same facts, free of positions.\<close>

lemma take_map_ids: "k \<le> length xs \<Longrightarrow> set (take k (map f xs)) = f ` set (take k xs)"
  by (simp add: take_map)

lemma id_order:
  fixes cs order
  defines "xs \<equiv> map (\<lambda>i. c_id (cs ! i)) order"
  assumes order: "topological_order cs = Ok order" and ids: "distinct (map c_id cs)"
    and refs: "\<And>c r. c \<in> set cs \<Longrightarrow> r \<in> set (b_components (c_base c)) \<Longrightarrow> r \<in> c_id ` set cs"
  shows "distinct xs" "set xs = c_id ` set cs" "topological (id_refs cs) xs"
    and "least_first (\<lambda>i. i) (id_refs cs) (c_id ` set cs) xs"
proof -
  note O = comp_order[OF order]
  have inj: "inj_on (\<lambda>i. c_id (cs ! i)) {0..<length cs}"
  proof (rule inj_onI)
    fix i j assume "i \<in> {0..<length cs}" "j \<in> {0..<length cs}" "c_id (cs ! i) = c_id (cs ! j)"
    then show "i = j" using nth_eq_iff_index_eq[OF ids, of i j] by simp
  qed
  show "distinct xs" using O(1,2) inj by (simp add: xs_def distinct_map)
  have im: "(\<lambda>i. c_id (cs ! i)) ` {0..<length cs} = c_id ` set cs"
  proof -
    have "(!) cs ` {0..<length cs} = set cs" by (metis nth_image atLeast0LessThan order_refl take_all_iff)
    then show ?thesis by (metis image_image)
  qed
  show "set xs = c_id ` set cs" using O(2) im by (simp add: xs_def)
  have idx: "index_of cs (c_id (cs ! i)) = i" if "i < length cs" for i
    using index_of_mem[of "c_id (cs ! i)" cs] inj that by (auto simp: inj_on_def)
  have rset: "set (b_components (c_base (cs ! i))) = (\<lambda>j. c_id (cs ! j)) ` set (comp_refs cs i)"
    if "i < length cs" for i
    using index_of_mem refs[of "cs ! i"] that by (force simp: comp_refs_def image_image)
  have len: "k < length order \<Longrightarrow> order ! k < length cs" for k using O(2) nth_mem by fastforce
  show "topological (id_refs cs) xs"
    using O(3) len by (auto simp: topological_def xs_def id_refs_nth[OF ids] rset take_map_ids)
  have sub: "set (comp_refs cs i) \<subseteq> set (take k order)"
    if i: "i < length cs" and s: "set (b_components (c_base (cs ! i))) \<subseteq> (\<lambda>j. c_id (cs ! j)) ` set (take k order)" for i k
  proof
    fix j assume "j \<in> set (comp_refs cs i)"
    then obtain r where r: "r \<in> set (b_components (c_base (cs ! i)))" "j = index_of cs r"
      by (auto simp: comp_refs_def)
    obtain j' where j': "j' \<in> set (take k order)" "r = c_id (cs ! j')" using s r(1) by auto
    have "j' \<in> set order" using j'(1) by (rule in_set_takeD)
    then have "j' < length cs" using O(2) by auto
    then have "j = j'" using idx r(2) j'(2) by simp
    then show "j \<in> set (take k order)" using j'(1) by simp
  qed
  show "least_first (\<lambda>i. i) (id_refs cs) (c_id ` set cs) xs"
    unfolding least_first_def
  proof (intro allI impI ballI)
    fix k j
    assume k: "k < length xs" and j: "j \<in> c_id ` set cs" "j \<notin> set (take k xs)" "set (id_refs cs j) \<subseteq> set (take k xs)"
    obtain i where i: "i < length cs" "j = c_id (cs ! i)" using j(1) by (auto simp: in_set_conv_nth)
    have "i \<notin> set (take k order)" using j(2) i k by (auto simp: xs_def take_map_ids)
    moreover have "set (comp_refs cs i) \<subseteq> set (take k order)"
      using j(3) i k id_refs_nth[OF ids i(1)] by (intro sub) (auto simp: xs_def take_map_ids)
    ultimately show "xs ! k \<le> j"
      using O(4) k i by (auto simp: least_first_def xs_def comp_key_def)
  qed
qed

lemma compile_id_order:
  assumes "compile s = Ok p"
  shows "distinct (plan_order p)" "set (plan_order p) = c_id ` set (s_components s)"
    and "topological (id_refs (s_components s)) (plan_order p)"
    and "least_first (\<lambda>i. i) (id_refs (s_components s)) (c_id ` set (s_components s)) (plan_order p)"
    and "distinct (map c_id (s_components s))"
proof -
  note C = compile_checks[OF assms]
  have d: "distinct (map c_id (s_components s))" using check_ids_ok[OF C(1)] by simp
  have r: "\<And>c r. c \<in> set (s_components s) \<Longrightarrow> r \<in> set (b_components (c_base c)) \<Longrightarrow> r \<in> c_id ` set (s_components s)"
    using C(2) check_component_refs(1) by blast
  note I = id_order[OF C(5) d r]
  show "distinct (plan_order p)" "set (plan_order p) = c_id ` set (s_components s)"
    "topological (id_refs (s_components s)) (plan_order p)"
    "least_first (\<lambda>i. i) (id_refs (s_components s)) (c_id ` set (s_components s)) (plan_order p)"
    using I C(7) by (simp_all add: plan_order_def)
  show "distinct (map c_id (s_components s))" by fact
qed

section \<open>Where a cycle is reported\<close>

lemma foldR_Err: "foldR f s xs = Err e \<Longrightarrow> \<exists>s x. x \<in> set xs \<and> f s x = Err e"
proof (induction xs arbitrary: s)
  case (Cons a xs)
  then show ?case by (simp add: result_simps) (metis)
qed simp

lemma no_repeats_Err: "no_repeats e seen rs = Err x \<Longrightarrow> \<exists>r. x = e r"
  by (induction e seen rs rule: no_repeats.induct) (auto split: if_splits)

lemma validate_tiers_Err: "validate_tiers i n ts = Err x \<Longrightarrow> (\<exists>m e. x = TierCmp i m e) \<or> (\<exists>m. x = TiersNotAscending i m)"
  by (induction i n ts rule: validate_tiers.induct) (auto split: if_splits result.splits)

lemma validate_rate_not_cycle: "validate_rate c \<noteq> Err (Cycle ids)"
  by (auto simp: validate_rate_def Let_def validate_bracket_def split: if_splits rate_kind.splits option.splits list.splits
      dest!: validate_tiers_Err)

lemma validate_component_not_cycle: "validate_component c \<noteq> Err (Cycle ids)"
  using validate_rate_not_cycle[of c ids]
  by (auto simp: validate_component_def Let_def result_simps validate_adjustment_def
      dest!: foldR_Err no_repeats_Err split: if_splits adj_kind.splits)

lemma check_component_not_cycle: "check_component cs c \<noteq> Err (Cycle ids)"
  using validate_component_not_cycle[of c ids]
  by (auto simp: check_component_def result_simps check_ref_def dest!: foldR_Err split: if_splits)

lemma check_ids_not_cycle: "check_ids seen cs \<noteq> Err (Cycle ids)"
  by (induction seen cs rule: check_ids.induct) (auto simp: result_simps validate_id_def split: if_splits)

lemma coarse_not_cycle: "validate_coarse_references cs \<noteq> Err (Cycle ids)"
  by (auto simp: validate_coarse_references_def check_coarse_ref_def dest!: foldR_Err split: if_splits option.splits)

lemma pools_not_cycle: "validate_pool_policies cs \<noteq> Err (Cycle ids)"
  by (auto simp: validate_pool_policies_def pool_policy_step_def result_simps dest!: foldR_Err split: if_splits option.splits)

lemma take_declared_Err: "take_declared d is = Err x \<Longrightarrow> \<exists>i. x = NotInSubtraction i"
  by (induction d "is" rule: take_declared.induct) (auto split: if_splits)

lemma inclusive_not_cycle: "validate_inclusive cs ex sub \<noteq> Err (Cycle ids)"
  by (auto simp: validate_inclusive_def inclusive_step_def check_inclusive_ref_def result_simps
      dest!: foldR_Err no_repeats_Err take_declared_Err split: if_splits option.splits)

lemma compile_cycle_from:
  assumes "compile s = Err (Cycle ids)"
  shows "check_ids {} (s_components s) = Ok ()"
    and "\<forall>c \<in> set (s_components s). check_component (s_components s) c = Ok ()"
    and "topological_order (s_components s) = Err (Cycle ids)"
  using assms check_component_not_cycle check_ids_not_cycle coarse_not_cycle pools_not_cycle inclusive_not_cycle
  by (auto simp: compile_def Let_def result_simps foldR_unit_Ok split: if_splits dest!: foldR_Err)

lemma ranked_topological:
  assumes ids: "distinct (map c_id cs)"
    and refs: "\<And>c r. c \<in> set cs \<Longrightarrow> r \<in> set (b_components (c_base c)) \<Longrightarrow> r \<in> c_id ` set cs \<and> rank r < (rank (c_id c) :: nat)"
  shows "\<exists>ys. topological (comp_refs cs) ys \<and> set ys = {0..<length cs}"
proof -
  let ?key = "\<lambda>i. rank (c_id (cs ! i))"
  let ?ys = "sort_key ?key [0..<length cs]"
  have "set (comp_refs cs (?ys ! k)) \<subseteq> set (take k ?ys)" if k: "k < length ?ys" for k
  proof
    fix j assume "j \<in> set (comp_refs cs (?ys ! k))"
    then obtain r where r: "r \<in> set (b_components (c_base (cs ! (?ys ! k))))" "j = index_of cs r"
      by (auto simp: comp_refs_def)
    have "?ys ! k \<in> set ?ys" using k by (rule nth_mem)
    then have lt: "?ys ! k < length cs" by simp
    have m: "r \<in> c_id ` set cs" "rank r < ?key (?ys ! k)" using refs[OF nth_mem[OF lt] r(1)] by auto
    have j: "j < length cs" "?key j < ?key (?ys ! k)" using index_of_mem[OF m(1)] m(2) r(2) by auto
    have "j \<in> set ?ys" using j(1) by simp
    then obtain p where p: "p < length ?ys" "?ys ! p = j" by (metis in_set_conv_nth)
    have "p < k"
    proof (rule ccontr)
      assume "\<not> p < k"
      then have "map ?key ?ys ! k \<le> map ?key ?ys ! p"
        using p(1) by (intro sorted_nth_mono) (simp_all add: sorted_sort_key)
      then show False using j(2) p k by simp
    qed
    then have "take k ?ys ! p = j" "p < length (take k ?ys)" using p k by simp_all
    then show "j \<in> set (take k ?ys)" by (metis nth_mem)
  qed
  then have "topological (comp_refs cs) ?ys" by (simp add: topological_def del: length_sort)
  then show ?thesis by (intro exI[of _ ?ys]) simp
qed


section \<open>Pools and the subtraction order\<close>

lemma pool_key_cases:
  "pool_key c = Some k \<Longrightarrow> rp_basis (c_policy c) = TAX_COMPONENT \<and> k = ''component:'' @ c_id c
    \<or> rp_basis (c_policy c) = JURISDICTION_TOTAL \<and> k = ''jurisdiction:'' @ c_jurisdiction c
    \<or> rp_basis (c_policy c) = DOCUMENT \<and> k = ''document''"
  by (auto simp: pool_key_def split: rounding_basis.splits)

text \<open>The pools after a prefix of the loop hold, for every shared key seen, the policy text of all of its components.\<close>

lemma pool_policies_invariant:
  assumes "foldR pool_policy_step pools cs = Ok pools'"
  shows "(\<forall>c \<in> set cs. \<forall>k. pool_key c = Some k \<longrightarrow> rp_basis (c_policy c) \<noteq> TAX_COMPONENT \<longrightarrow>
      (\<exists>q. pools' k = Some q \<and> policy_string q = policy_string (c_policy c)))
    \<and> (\<forall>k q. pools k = Some q \<longrightarrow> (\<exists>q'. pools' k = Some q' \<and> policy_string q' = policy_string q))"
  using assms
proof (induction cs arbitrary: pools)
  case (Cons c cs)
  then obtain mid where m: "pool_policy_step pools c = Ok mid" "foldR pool_policy_step mid cs = Ok pools'" by auto
  note IH = Cons.IH[OF m(2)]
  have keep: "\<exists>q'. mid k = Some q' \<and> policy_string q' = policy_string q" if "pools k = Some q" for k q
    using m(1) that by (auto simp: pool_policy_step_def split: option.splits if_splits)
  have own: "\<exists>q. mid k = Some q \<and> policy_string q = policy_string (c_policy c)"
    if "pool_key c = Some k" "rp_basis (c_policy c) \<noteq> TAX_COMPONENT" for k
    using m(1) that by (auto simp: pool_policy_step_def split: option.splits if_splits)
  show ?case
  proof (intro conjI ballI allI impI)
    fix d k assume d: "d \<in> set (c # cs)" and k: "pool_key d = Some k" "rp_basis (c_policy d) \<noteq> TAX_COMPONENT"
    show "\<exists>q. pools' k = Some q \<and> policy_string q = policy_string (c_policy d)"
    proof (cases "d = c")
      case True
      then show ?thesis using own[of k] k IH by metis
    qed (use IH d k in auto)
  next
    fix k q assume "pools k = Some q"
    then show "\<exists>q'. pools' k = Some q' \<and> policy_string q' = policy_string q" using keep IH by metis
  qed
qed simp

lemma pool_policies_ok:
  assumes "validate_pool_policies cs = Ok ()" "distinct (map c_id cs)"
    and "c \<in> set cs" "d \<in> set cs" "pool_key c = Some k" "pool_key d = Some k"
  shows "policy_string (c_policy c) = policy_string (c_policy d)"
proof -
  obtain pools where p: "foldR pool_policy_step (\<lambda>_. None) cs = Ok pools"
    using assms(1) by (auto simp: validate_pool_policies_def)
  note I = pool_policies_invariant[OF p]
  consider "rp_basis (c_policy c) = TAX_COMPONENT \<and> rp_basis (c_policy d) = TAX_COMPONENT \<and> c_id c = c_id d"
    | "rp_basis (c_policy c) \<noteq> TAX_COMPONENT \<and> rp_basis (c_policy d) \<noteq> TAX_COMPONENT"
    using pool_key_cases[OF assms(5)] pool_key_cases[OF assms(6)] by auto
  then show ?thesis
  proof cases
    case 1
    then have "c = d" using assms(2-4) by (auto simp: distinct_map inj_on_def)
    then show ?thesis by simp
  next
    case 2
    then show ?thesis using I assms(3-6) by (metis option.inject)
  qed
qed

lemma no_repeats_ok: "no_repeats e seen rs = Ok () \<Longrightarrow> distinct rs \<and> set rs \<inter> seen = {}"
  by (induction e seen rs rule: no_repeats.induct) (auto split: if_splits)

lemma take_declared_ok: "take_declared d is = Ok left \<Longrightarrow> set is \<subseteq> set d \<and> set left = set d - set is"
  by (induction d "is" rule: take_declared.induct) (fastforce split: if_splits)+

definition flat_amount :: "tax_component \<Rightarrow> bool" where
  "flat_amount c \<longleftrightarrow> c_inclusive c \<and> (rd_kind (c_rate c) = Flat \<or> rd_kind (c_rate c) = Specific)"

lemma inclusive_step_flats: "inclusive_step cs flats c = Ok flats' \<Longrightarrow>
    flats' = flats @ map c_id (filter flat_amount [c])"
  by (auto simp: inclusive_step_def flat_amount_def split: if_splits)

lemma inclusive_flats: "foldR (inclusive_step cs) flats ds = Ok flats' \<Longrightarrow>
    flats' = flats @ map c_id (filter flat_amount ds)"
proof (induction ds arbitrary: flats)
  case (Cons d ds)
  then obtain mid where m: "inclusive_step cs flats d = Ok mid" "foldR (inclusive_step cs) mid ds = Ok flats'" by auto
  show ?case using Cons.IH[OF m(2)] inclusive_step_flats[OF m(1)] by auto
qed simp

lemma foldR_Ok_each: "foldR f s xs = Ok t \<Longrightarrow> x \<in> set xs \<Longrightarrow> \<exists>s t. f s x = Ok t"
  by (induction xs arbitrary: s) auto

lemma inclusive_each:
  assumes "validate_inclusive cs ex sub = Ok flats" "c \<in> set cs" "c_inclusive c"
  shows "ex \<noteq> None" "rp_basis (c_policy c) = LINE" "flat_amount c \<or> (rd_kind (c_rate c) \<noteq> Bracket \<and> b_adjustments (c_base c) = [] \<and>
      b_kind (c_base c) \<in> {LineNet, NetPlusComponents, ComponentSum} \<and>
      (\<forall>r \<in> set (b_components (c_base c)). \<forall>d. find_component cs r = Some d \<longrightarrow> c_inclusive d \<and> rd_kind (c_rate d) = AdValorem))"
proof -
  obtain fl where f: "foldR (inclusive_step cs) [] cs = Ok fl"
    using assms(1) by (auto simp: validate_inclusive_def)
  obtain a b where s: "inclusive_step cs a c = Ok b" using foldR_Ok_each[OF f assms(2)] by blast
  show "ex \<noteq> None" using assms by (auto simp: validate_inclusive_def list_ex_iff split: if_splits)
  show "rp_basis (c_policy c) = LINE" using s assms(3) by (auto simp: inclusive_step_def split: if_splits)
  show "flat_amount c \<or> (rd_kind (c_rate c) \<noteq> Bracket \<and> b_adjustments (c_base c) = [] \<and>
      b_kind (c_base c) \<in> {LineNet, NetPlusComponents, ComponentSum} \<and>
      (\<forall>r \<in> set (b_components (c_base c)). \<forall>d. find_component cs r = Some d \<longrightarrow> c_inclusive d \<and> rd_kind (c_rate d) = AdValorem))"
    using s assms(3)
    by (auto simp: inclusive_step_def flat_amount_def foldR_unit_Ok check_inclusive_ref_def split: if_splits option.splits)
qed

lemma inclusive_subtraction:
  assumes "validate_inclusive cs ex sub = Ok flats" "distinct (map c_id cs)"
  shows "distinct flats \<and> set flats = c_id ` set (filter flat_amount cs)"
proof -
  obtain fl where f: "foldR (inclusive_step cs) [] cs = Ok fl" and n: "no_repeats SubtractionTwice {} sub = Ok ()"
    and t: "take_declared sub fl = Ok []" and "flats = sub"
    using assms(1) by (auto simp: validate_inclusive_def split: if_splits)
  have "fl = map c_id (filter flat_amount cs)" using inclusive_flats[OF f] by simp
  then show ?thesis using no_repeats_ok[OF n] take_declared_ok[OF t] \<open>flats = sub\<close> by auto
qed

end
