(* ===== verification/Allocate.thy ===== *)
theory Allocate
  imports FiscalFacts
begin

text \<open>
  \<open>backend/internal/domain/fiscal/allocate.go\<close> and \<open>AllocateByFactors\<close> of \<open>exact.go\<close>: a total
  split over weights by largest remainder. The operations come first, then the specification on
  whole units and rational weights (\<open>largest_remainder\<close>) with its own theorems, then the
  refinement of the specification by the operations.
\<close>

section \<open>The operations\<close>

fun check_weights :: "string \<Rightarrow> nat \<Rightarrow> money list \<Rightarrow> (fiscal_err, unit) result" where
  "check_weights cur i [] = Ok ()"
| "check_weights cur i (w # ws) =
     (if m_currency w \<noteq> cur then Err CurrencyMismatch
      else if d_neg (m_amount w) then Err (NegativeWeight i)
      else check_weights cur (Suc i) ws)"

definition residual_units :: "decimal \<Rightarrow> decimal \<Rightarrow> nat \<Rightarrow> (fiscal_err, nat) result" where
  "residual_units units allocated n =
     bindR (fsub units allocated) (\<lambda>residual.
       bindR (map_err (ApdFailed ''residual'') (dec_int64 residual)) (\<lambda>count.
         if count < 0 \<or> count > int n then Err BadResidual else Ok (nat count)))"

definition by_remainder :: "decimal list \<Rightarrow> nat \<Rightarrow> nat \<Rightarrow> bool" where
  "by_remainder rs i j =
     (let c = dec_cmp (rs ! i) (rs ! j) in if c \<noteq> 0 then c > 0 else i < j)"

definition rank_by_remainder :: "decimal list \<Rightarrow> nat \<Rightarrow> nat list" where
  "rank_by_remainder rs n = take n (sort_by (by_remainder rs) [0..<length rs])"

text \<open>The loop of truncated shares: the sum so far, the parts and the remainders.\<close>

definition share_step ::
  "decimal \<Rightarrow> decimal \<Rightarrow> decimal \<times> decimal list \<times> decimal list \<Rightarrow> money \<Rightarrow>
   (fiscal_err, decimal \<times> decimal list \<times> decimal list) result" where
  "share_step units weightSum = (\<lambda>(allocated, parts, rems) w.
     bindR (fmul units (m_amount w)) (\<lambda>share.
     bindR (quo_integer share weightSum) (\<lambda>(part, r).
     bindR (fadd allocated part) (\<lambda>allocated. Ok (allocated, parts @ [part], rems @ [r])))))"

definition add_unit :: "decimal list \<Rightarrow> nat \<Rightarrow> (fiscal_err, decimal list) result" where
  "add_unit parts i = bindR (fadd (parts ! i) (set_finite 1 0)) (\<lambda>d. Ok (parts[i := d]))"

definition finish_part :: "money \<Rightarrow> rounding_policy \<Rightarrow> bool \<Rightarrow> decimal \<Rightarrow> (fiscal_err, money) result" where
  "finish_part t p negative part =
     bindR (fmul part (set_finite 1 (- rp_scale p))) (\<lambda>amount.
     bindR (apply_policy (if negative then dec_neg amount else amount) p) (\<lambda>amount.
       Ok \<lparr>m_amount = amount, m_currency = m_currency t\<rparr>))"

definition integer_parts ::
  "decimal \<Rightarrow> decimal \<Rightarrow> money list \<Rightarrow> (fiscal_err, decimal list) result" where
  "integer_parts units weightSum ws =
     (if dec_is_zero weightSum then
        (if \<not> dec_is_zero units then Err NoWeight else Ok (replicate (length ws) dec0))
      else
        bindR (foldR (share_step units weightSum) (dec0, [], []) ws) (\<lambda>(allocated, parts, rems).
        bindR (residual_units units allocated (length ws)) (\<lambda>residual.
          foldR add_unit parts (rank_by_remainder rems residual))))"

definition allocate :: "money \<Rightarrow> money list \<Rightarrow> rounding_policy \<Rightarrow> (fiscal_err, money list) result" where
  "allocate t weights p =
     bindR (policy_validate p) (\<lambda>_.
       if weights = [] then Err NoWeights
       else
         bindR (check_weights (m_currency t) 0 weights) (\<lambda>_.
         bindR (money_round t p) (\<lambda>rounded.
         bindR (fmul (m_amount rounded) (set_finite 1 (rp_scale p))) (\<lambda>signed_units.
         bindR (foldR fadd dec0 (map m_amount weights)) (\<lambda>weightSum.
         bindR (integer_parts (dec_abs signed_units) weightSum weights) (\<lambda>parts.
           mapR (finish_part t p (d_neg signed_units)) parts))))))"

definition allocate_evenly :: "money \<Rightarrow> int \<Rightarrow> rounding_policy \<Rightarrow> (fiscal_err, money list) result" where
  "allocate_evenly t n p =
     (if n \<le> 0 then Err NoParts
      else allocate t (replicate (nat n) \<lparr>m_amount = set_finite 1 0, m_currency = m_currency t\<rparr>) p)"

definition allocate_by_factors :: "money \<Rightarrow> factor list \<Rightarrow> rounding_policy \<Rightarrow> (fiscal_err, money list) result" where
  "allocate_by_factors t weights p =
     allocate t (map (\<lambda>w. \<lparr>m_amount = f_value w, m_currency = m_currency t\<rparr>) weights) p"

section \<open>The specification: largest remainder on whole units\<close>

text \<open>
  \<open>N\<close> units over rational weights: every part takes the floor of its exact share, and the
  units left over go one each to the largest fractional parts, ties on the ordinal.
\<close>

definition exact_share :: "int \<Rightarrow> rat list \<Rightarrow> nat \<Rightarrow> rat" where
  "exact_share N ws i = of_int N * ws ! i / sum_list ws"

definition lr_before :: "int \<Rightarrow> rat list \<Rightarrow> nat \<Rightarrow> nat \<Rightarrow> bool" where
  "lr_before N ws i j \<longleftrightarrow>
     (let a = frac (exact_share N ws i); b = frac (exact_share N ws j) in
      a > b \<or> (a = b \<and> i < j))"

definition lr_residual :: "int \<Rightarrow> rat list \<Rightarrow> int" where
  "lr_residual N ws = N - (\<Sum>i<length ws. \<lfloor>exact_share N ws i\<rfloor>)"

definition lr_winners :: "int \<Rightarrow> rat list \<Rightarrow> nat list" where
  "lr_winners N ws = take (nat (lr_residual N ws)) (sort_by (lr_before N ws) [0..<length ws])"

definition largest_remainder :: "int \<Rightarrow> rat list \<Rightarrow> int list" where
  "largest_remainder N ws =
     map (\<lambda>i. \<lfloor>exact_share N ws i\<rfloor> + (if i \<in> set (lr_winners N ws) then 1 else 0)) [0..<length ws]"

lemma sum_exact_share:
  assumes "sum_list ws \<noteq> 0"
  shows "(\<Sum>i<length ws. exact_share N ws i) = of_int N"
proof -
  have "(\<Sum>i<length ws. exact_share N ws i) = of_int N * (\<Sum>i<length ws. ws ! i) / sum_list ws"
    by (simp add: exact_share_def sum_distrib_left sum_divide_distrib)
  then show ?thesis using assms by (simp add: sum_list_sum_nth atLeast0LessThan)
qed

lemma lr_residual_frac:
  assumes "sum_list ws \<noteq> 0"
  shows "of_int (lr_residual N ws) = (\<Sum>i<length ws. frac (exact_share N ws i))"
  using sum_exact_share[OF assms, of N]
  by (simp add: lr_residual_def frac_def sum_subtractf)

lemma lr_residual_bounds:
  assumes "sum_list ws \<noteq> 0"
  shows "0 \<le> lr_residual N ws"
    and "lr_residual N ws \<noteq> 0 \<Longrightarrow> lr_residual N ws < int (card {i. i < length ws \<and> frac (exact_share N ws i) \<noteq> 0})"
    and "lr_residual N ws \<le> int (length ws)"
proof -
  let ?f = "\<lambda>i. frac (exact_share N ws i)"
  let ?A = "{i. i < length ws \<and> ?f i \<noteq> 0}"
  note r = lr_residual_frac[OF assms, of N]
  have "(0::rat) \<le> (\<Sum>i<length ws. ?f i)" by (intro sum_nonneg) simp
  then show nn: "0 \<le> lr_residual N ws" using r by linarith
  have eq: "(\<Sum>i<length ws. ?f i) = (\<Sum>i\<in>?A. ?f i)"
    by (rule sum.mono_neutral_right) auto
  have "?A \<noteq> {} \<Longrightarrow> (\<Sum>i\<in>?A. ?f i) < (\<Sum>i\<in>?A. 1)"
    by (rule sum_strict_mono) (auto simp: frac_lt_1)
  then have lt: "?A \<noteq> {} \<Longrightarrow> of_int (lr_residual N ws) < (of_nat (card ?A) :: rat)"
    using r eq by simp
  then have lt': "?A \<noteq> {} \<Longrightarrow> lr_residual N ws < int (card ?A)" by (metis of_int_less_iff of_int_of_nat_eq)
  have zero: "lr_residual N ws = 0" if "?A = {}"
  proof -
    have "of_int (lr_residual N ws) = (\<Sum>i\<in>?A. ?f i)" using r eq by (rule trans)
    also have "\<dots> = 0" unfolding that by simp
    finally show ?thesis by simp
  qed
  show "lr_residual N ws < int (card ?A)" if "lr_residual N ws \<noteq> 0"
    using lt' zero that by blast
  have "card ?A \<le> card {..<length ws}" by (intro card_mono) auto
  then show "lr_residual N ws \<le> int (length ws)"
    using lt' zero by (cases "?A = {}") auto
qed

lemma lr_before_order:
  "lr_before N ws a b \<Longrightarrow> \<not> lr_before N ws b a"
  "\<not> lr_before N ws b a \<Longrightarrow> \<not> lr_before N ws c b \<Longrightarrow> \<not> lr_before N ws c a"
  by (auto simp: lr_before_def Let_def)

lemma lr_winners_distinct: "distinct (lr_winners N ws)"
  by (simp add: lr_winners_def)

lemma lr_winners_set: "set (lr_winners N ws) \<subseteq> {..<length ws}"
  using set_take_subset[of "nat (lr_residual N ws)" "sort_by (lr_before N ws) [0..<length ws]"]
  by (auto simp: lr_winners_def)

lemma largest_remainder_sum:
  assumes "sum_list ws \<noteq> 0"
  shows "sum_list (largest_remainder N ws) = N"
proof -
  let ?n = "length ws" and ?W = "set (lr_winners N ws)"
  have len: "length (lr_winners N ws) = nat (lr_residual N ws)"
    using lr_residual_bounds(1,3)[OF assms, of N] by (auto simp: lr_winners_def min_def)
  have "(\<Sum>i<?n. if i \<in> ?W then 1 else 0 :: int) = int (card ?W)"
  proof -
    have "(\<Sum>i<?n. if i \<in> ?W then 1 else 0 :: int) = (\<Sum>i\<in>{..<?n} \<inter> ?W. 1)"
      by (simp only: sum.inter_restrict[OF finite_lessThan])
    also have "{..<?n} \<inter> ?W = ?W" using lr_winners_set by blast
    finally show ?thesis by simp
  qed
  also have "\<dots> = lr_residual N ws"
    using lr_residual_bounds(1)[OF assms, of N] len distinct_card[OF lr_winners_distinct, of N ws] by simp
  finally have "(\<Sum>i<?n. if i \<in> ?W then 1 else 0 :: int) = lr_residual N ws" .
  then show ?thesis
    by (simp add: largest_remainder_def interv_sum_list_conv_sum_set_nat atLeast0LessThan sum.distrib lr_residual_def)
qed

lemma winner_has_fraction:
  assumes W: "sum_list ws \<noteq> 0" and i: "i \<in> set (lr_winners N ws)"
  shows "frac (exact_share N ws i) \<noteq> 0"
proof
  assume z: "frac (exact_share N ws i) = 0"
  let ?so = "sort_by (lr_before N ws) [0..<length ws]" and ?k = "nat (lr_residual N ws)"
  let ?A = "{i. i < length ws \<and> frac (exact_share N ws i) \<noteq> 0}"
  have sorted: "sorted_wrt (\<lambda>a b. \<not> lr_before N ws b a) ?so"
    by (rule sorted_sort_by) (use lr_before_order in blast)+
  obtain m where m: "m < ?k" "m < length ?so" "?so ! m = i"
    using i by (auto simp: lr_winners_def in_set_conv_nth)
  have pos: "j \<in> set (take m ?so)" if j: "j \<in> ?A" for j
  proof -
    obtain l where l: "l < length ?so" "?so ! l = j" using j by (metis (mono_tags, lifting) atLeastLessThan_iff bot_nat_0.extremum in_set_conv_nth mem_Collect_eq set_sort_by set_upt)
    have "l < m"
    proof (rule ccontr)
      assume "\<not> l < m"
      then consider "l = m" | "m < l" by linarith
      then show False
      proof cases
        case 1
        then show False using l m z j by simp
      next
        case 2
        then have "\<not> lr_before N ws j i"
          using sorted_wrt_nth_less[OF sorted 2 l(1)] l m by simp
        moreover have "0 < frac (exact_share N ws j)" using j by (simp add: less_le)
        ultimately show False using z by (simp add: lr_before_def)
      qed
    qed
    then show ?thesis using l by (auto simp: in_set_conv_nth)
  qed
  then have "card ?A \<le> card (set (take m ?so))" by (intro card_mono) auto
  also have "\<dots> \<le> m" using card_length[of "take m ?so"] by simp
  finally have "card ?A < ?k" using m by simp
  moreover have "lr_residual N ws \<noteq> 0" using m by simp
  ultimately show False using lr_residual_bounds(1,2)[OF W, of N] by simp
qed

lemma largest_remainder_quota:
  assumes "sum_list ws \<noteq> 0" "i < length ws"
  shows "\<bar>of_int (largest_remainder N ws ! i) - exact_share N ws i\<bar> < 1"
proof -
  have f: "of_int \<lfloor>exact_share N ws i\<rfloor> = exact_share N ws i - frac (exact_share N ws i)"
    by (simp add: frac_def)
  have "i \<in> set (lr_winners N ws) \<Longrightarrow> 0 < frac (exact_share N ws i)"
    using winner_has_fraction[OF assms(1), of i N] by (simp add: less_le)
  then show ?thesis
    using assms(2) frac_lt_1[of "exact_share N ws i"] frac_ge_0[of "exact_share N ws i"]
    by (auto simp: largest_remainder_def f)
qed


lemma exp_below:
  assumes "wf_dec d" "d_coeff d \<noteq> 0" "\<bar>dec_val d\<bar> < 10 powi U"
  shows "d_exp d < U"
proof -
  have "0 < d_coeff d" using assms by (simp add: wf_dec_def)
  then have "10 powi (num_digits d + d_exp d - 1) \<le> mag d" by (simp add: mag_def magnitude_bounds)
  moreover have "mag d = \<bar>dec_val d\<bar>" using \<open>0 < d_coeff d\<close> by (simp add: dec_val_mag mag_def abs_mult)
  ultimately have "(10::rat) powi (num_digits d + d_exp d - 1) < 10 powi U" using assms(3) by simp
  then have "num_digits d + d_exp d - 1 < U" by (metis linorder_not_less powi10_mono)
  then show ?thesis using num_digits_pos[of d] by linarith
qed

lemma val_below: "wf_dec d \<Longrightarrow> \<bar>dec_val d\<bar> < 10 powi (num_digits d + d_exp d)"
proof (cases "d_coeff d = 0")
  case False
  assume "wf_dec d"
  with False have "0 < d_coeff d" by (simp add: wf_dec_def)
  then show ?thesis using magnitude_bounds(2)[of d] by (simp add: dec_val_mag mag_def abs_mult)
qed (simp add: dec_val_def)

lemma zero_coeff_iff: "wf_dec d \<Longrightarrow> d_coeff d = 0 \<longleftrightarrow> dec_val d = 0"
  by (simp add: dec_val_def)

lemma fadd_exp:
  assumes "wf_dec x" "wf_dec y" "fadd x y = Ok z" "\<bar>dec_val x + dec_val y\<bar> < 10 powi U"
  shows "min (d_exp x) (d_exp y) \<le> d_exp z" and "d_exp z \<le> max U (min (d_exp x) (d_exp y))"
proof -
  obtain f where "ctx_add_gen exact_ctx x y False = Ok (z, f)"
    using assms(3) by (auto simp: fadd_def wrap_def ctx_add_def)
  note e = ctx_add_gen_exact[OF _ _ _ assms(1,2) this, simplified]
  then show "min (d_exp x) (d_exp y) \<le> d_exp z" by simp
  show "d_exp z \<le> max U (min (d_exp x) (d_exp y))"
  proof (cases "d_coeff z = 0")
    case True
    then have "dec_val (raw_add exact_ctx x y False) = 0"
      using e raw_add_props(2)[OF assms(1,2), of exact_ctx False] zero_coeff_iff[of z] by simp
    then have "d_coeff (raw_add exact_ctx x y False) = 0"
      using raw_add_props(1)[OF assms(1,2)] zero_coeff_iff by blast
    then have "z = raw_add exact_ctx x y False" using e by (simp add: num_digits_def)
    then show ?thesis using raw_add_props(3)[OF assms(1,2)] by simp
  next
    case False
    then show ?thesis using exp_below[of z U] e assms(4) by simp
  qed
qed

lemma fmul_exp:
  assumes "wf_dec x" "wf_dec y" "fmul x y = Ok z" "\<bar>dec_val x * dec_val y\<bar> < 10 powi U"
  shows "d_exp x + d_exp y \<le> d_exp z" and "d_exp z \<le> max U (d_exp x + d_exp y)"
    and "d_coeff z = 0 \<Longrightarrow> z = raw_mul x y"
proof -
  obtain f where "ctx_mul exact_ctx x y = Ok (z, f)"
    using assms(3) by (auto simp: fmul_def wrap_def)
  note e = ctx_mul_exact[OF _ _ _ assms(1,2) this, simplified]
  then show "d_exp x + d_exp y \<le> d_exp z" by simp
  show z: "z = raw_mul x y" if "d_coeff z = 0"
  proof -
    have "dec_val (raw_mul x y) = 0"
      using that e raw_mul_props(2)[OF assms(1,2)] zero_coeff_iff[of z] by simp
    then have "d_coeff (raw_mul x y) = 0"
      using raw_mul_props(1)[OF assms(1,2)] zero_coeff_iff by blast
    then show ?thesis using e by (simp add: num_digits_def)
  qed
  show "d_exp z \<le> max U (d_exp x + d_exp y)"
  proof (cases "d_coeff z = 0")
    case True
    then show ?thesis unfolding z[OF True] exp_raw_mul by simp
  next
    case False
    then show ?thesis using exp_below[of z U] e assms(4) by simp
  qed
qed

lemma pos_not_neg: "wf_dec d \<Longrightarrow> 0 < dec_val d \<Longrightarrow> \<not> d_neg d"
proof
  assume "wf_dec d" "0 < dec_val d" "d_neg d"
  moreover have "(0::rat) \<le> of_int (d_coeff d) * 10 powi d_exp d"
    using \<open>wf_dec d\<close> by (intro mult_nonneg_nonneg) (simp_all add: wf_dec_def less_imp_le)
  ultimately show False by (simp add: dec_val_def)
qed

lemma dec_int64_value:
  assumes "wf_dec d" "dec_int64 d = Ok v"
  shows "of_int v = dec_val d"
proof -
  obtain i f where m: "modf d = (i, f)" by fastforce
  have fz: "dec_is_zero f" and v: "v = (if d_neg d then - (d_coeff i * exp10 (d_exp i)) else d_coeff i * exp10 (d_exp i))"
    using assms(2) m by (auto simp: dec_int64_def Let_def wf_dec_def split: if_splits)
  consider (big) "d_exp d > 0" | (small) "d_exp d \<le> 0" "- d_exp d > num_digits d"
    | (split) "d_exp d \<le> 0" "- d_exp d \<le> num_digits d" by linarith
  then show ?thesis
  proof cases
    case big
    then have "i = d" using m by (simp add: modf_def)
    then show ?thesis using v big by (simp add: dec_val_def of_int_exp10)
  next
    case small
    then have "i = dec0\<lparr>d_neg := d_neg d\<rparr>" "f = d" using m by (auto simp: modf_def Let_def)
    then show ?thesis using v fz assms(1) by (simp add: dec_is_zero_coeff dec_val_def dec0_def)
  next
    case split
    let ?E = "exp10 (- d_exp d)"
    have i: "i = dec0\<lparr>d_neg := d_neg d, d_coeff := d_coeff d div ?E\<rparr>" and f: "f = dec0\<lparr>d_neg := d_neg d, d_exp := d_exp d, d_coeff := d_coeff d mod ?E\<rparr>"
      using m split assms(1) by (simp_all add: modf_def Let_def sdiv_nonneg smod_nonneg wf_dec_def)
    have "wf_dec f" using f by (simp add: wf_dec_def dec0_def)
    then have "d_coeff d mod ?E = 0" using fz f by (simp add: dec_is_zero_coeff)
    then have "d_coeff d = d_coeff i * ?E" using i by auto
    then have "of_int (d_coeff d) = (of_int (d_coeff i) :: rat) * of_int ?E" by (metis of_int_mult)
    also have "of_int ?E = (10::rat) powi (- d_exp d)" using split by (simp add: of_int_exp10)
    finally have "of_int (d_coeff d) * 10 powi d_exp d = (of_int (d_coeff i) :: rat)"
      by (simp add: power_int_minus)
    then show ?thesis using v i by (simp add: dec_val_def dec0_def)
  qed
qed

text \<open>The decimals the package handles: finite, within its precision, with a moderate exponent.\<close>

definition small_dec :: "decimal \<Rightarrow> bool" where
  "small_dec d \<longleftrightarrow> wf_dec d \<and> num_digits d \<le> 34 \<and> - 1000 \<le> d_exp d \<and> d_exp d \<le> 1000"

lemma small_dec_props:
  assumes "small_dec d"
  shows "wf_dec d" "moderate d" "num_digits d \<le> 34" "num_digits d \<le> 1000" "\<bar>dec_val d\<bar> < 10 powi 1034"
proof -
  show "wf_dec d" "moderate d" "num_digits d \<le> 34" "num_digits d \<le> 1000"
    using assms by (auto simp: small_dec_def moderate_def)
  have "(10::rat) powi (num_digits d + d_exp d) \<le> 10 powi 1034"
    using assms by (intro powi10_mono) (simp add: small_dec_def)
  then show "\<bar>dec_val d\<bar> < 10 powi 1034" using val_below[OF \<open>wf_dec d\<close>] by linarith
qed

section \<open>Whole units as decimals\<close>

definition idec :: "int \<Rightarrow> decimal" where
  "idec q = \<lparr>d_form = Finite, d_neg = False, d_exp = 0, d_coeff = q\<rparr>"

lemma idec_simps [simp]:
  "d_form (idec q) = Finite" "\<not> d_neg (idec q)" "d_exp (idec q) = 0" "d_coeff (idec q) = q"
  "dec_val (idec q) = of_int q" "wf_dec (idec q) \<longleftrightarrow> 0 \<le> q" "num_digits (idec q) = num_digits_int q"
  by (auto simp: idec_def dec_val_def wf_dec_def num_digits_def)

lemma num_digits_34: "0 \<le> q \<Longrightarrow> num_digits_int q \<le> 34 \<longleftrightarrow> q < 10 ^ 34"
  using num_digits_int_le_iff[of q 34] by simp

lemma quo_rem_value:
  assumes wf: "wf_dec x" "wf_dec y" "0 < dec_val y" "\<not> d_neg x" and md: "moderate x" "moderate y"
    and nd: "num_digits x \<le> 34" "num_digits y \<le> 34"
    and ok: "quo_integer x y = Ok (q, r)"
    and bound: "dec_val x / dec_val y < 10 ^ 34"
  shows "q = idec \<lfloor>dec_val x / dec_val y\<rfloor>" and "wf_dec r" and "dec_val r = dec_val y * frac (dec_val x / dec_val y)"
proof -
  define s where "s = min (d_exp x) (d_exp y)"
  define a where "a = d_coeff x * exp10 (d_exp x - s)"
  define b where "b = d_coeff y * exp10 (d_exp y - s)"
  have ny: "\<not> d_neg y" using pos_not_neg wf by blast
  have a: "of_int a * 10 powi s = dec_val x"
    using scaled_val[of s x] wf(4) by (simp add: a_def s_def dec_val_def)
  have b: "of_int b * 10 powi s = dec_val y"
    using scaled_val[of s y] ny by (simp add: b_def s_def dec_val_def)
  have y0: "d_coeff y \<noteq> 0" using wf(2,3) zero_coeff_iff[of y] by auto
  have pos: "0 \<le> a" "0 < b" using wf y0 by (auto simp: a_def b_def wf_dec_def less_imp_le intro!: mult_nonneg_nonneg mult_pos_pos)
  have ratio: "dec_val x / dec_val y = of_int a / of_int b"
    using pos by (simp add: a[symmetric] b[symmetric])
  have fl: "\<lfloor>dec_val x / dec_val y\<rfloor> = a div b" unfolding ratio by (rule floor_divide_of_int_eq)
  have "of_int (a div b) \<le> dec_val x / dec_val y" unfolding fl[symmetric] by simp
  then have "of_int (a div b) < (of_int (10 ^ 34) :: rat)" using bound by simp
  then have lt: "a div b < 10 ^ 34" by (simp only: of_int_less_iff)
  have fit1: "num_digits_int (a div b) \<le> 34"
    using pos lt by (subst num_digits_34) (auto simp: pos_imp_zdiv_nonneg_iff)
  have fit2: "num_digits_int (a mod b) \<le> 34"
  proof (cases "d_exp x \<le> d_exp y")
    case True
    then have "a mod b \<le> d_coeff x" using pos by (simp add: a_def s_def zmod_le_nonneg_dividend)
    moreover have "d_coeff x < 10 ^ 34" using nd wf num_digits_34[of "d_coeff x"] by (simp add: num_digits_def wf_dec_def)
    ultimately show ?thesis using pos by (subst num_digits_34) auto
  next
    case False
    then have "b = d_coeff y" by (simp add: b_def s_def)
    then have "a mod b < d_coeff y" using pos by (metis pos_mod_bound)
    moreover have "d_coeff y < 10 ^ 34" using nd wf num_digits_34[of "d_coeff y"] by (simp add: num_digits_def wf_dec_def)
    ultimately show ?thesis using pos by (subst num_digits_34) auto
  qed
  note Q = quo_integer_ok[OF wf(1,2) y0 md nd ok s_def a_def b_def fit1 fit2]
  show "q = idec \<lfloor>dec_val x / dec_val y\<rfloor>" using Q(1) wf(4) ny by (simp add: fl idec_def)
  show "wf_dec r" using Q(2) pos by (simp add: wf_dec_def)
  have "dec_val r = of_int (a mod b) * 10 powi s" using Q(2) wf(4) by (simp add: dec_val_def)
  also have "of_int (a mod b) = (of_int a - of_int b * of_int (a div b) :: rat)"
    by (metis minus_div_mult_eq_mod of_int_diff of_int_mult mult.commute)
  also have "(\<dots>) * 10 powi s = dec_val x - dec_val y * of_int (a div b)"
    by (simp add: left_diff_distrib a[symmetric] b[symmetric])
  finally show "dec_val r = dec_val y * frac (dec_val x / dec_val y)"
    using wf(3) by (simp add: frac_def fl right_diff_distrib)
qed


text \<open>One truncated share.\<close>

lemma share_step_ok:
  assumes N: "0 \<le> N" "N < 10 ^ 34"
    and W: "wf_dec W" "moderate W" "num_digits W \<le> 34" "0 < dec_val W"
    and w: "small_dec (m_amount w)" "\<not> d_neg (m_amount w)" "dec_val (m_amount w) \<le> dec_val W"
    and step: "share_step (idec N) W (al, ps, rs) w = Ok (al', ps', rs')"
  defines "sh \<equiv> of_int N * dec_val (m_amount w) / dec_val W"
  shows "ps' = ps @ [idec \<lfloor>sh\<rfloor>]" and "\<exists>r. rs' = rs @ [r] \<and> wf_dec r \<and> dec_val r = dec_val W * frac sh"
    and "fadd al (idec \<lfloor>sh\<rfloor>) = Ok al'" and "0 \<le> sh" "sh \<le> of_int N"
proof -
  let ?w = "m_amount w"
  note sw = small_dec_props[OF w(1)]
  obtain share part r where sh: "fmul (idec N) ?w = Ok share" and q: "quo_integer share W = Ok (part, r)"
    and al: "fadd al part = Ok al'" and out: "ps' = ps @ [part]" "rs' = rs @ [r]"
    using step by (auto simp: share_step_def)
  have w0: "0 \<le> dec_val ?w" using w(2) sw(1) by (simp add: dec_val_def wf_dec_def)
  have ex: "wf_dec share" "dec_val share = of_int N * dec_val ?w" "num_digits share \<le> 34"
    using fmul_exact[OF _ sw(1) sh] N by auto
  have "(of_int N :: rat) < of_int (10 ^ 34)" unfolding of_int_less_iff by (rule N(2))
  then have N34: "(of_int N :: rat) < 10 powi 34" by (simp add: power_int_def)
  define U :: int where "U = 1034"
  have "of_int N * dec_val ?w < 10 powi 34 * (10::rat) powi U"
    using N34 N(1) w0 sw(5)[folded U_def] by (intro mult_strict_mono) simp_all
  also have "\<dots> = (10::rat) powi (34 + U)" by (simp only: powi_split)
  finally have b: "\<bar>dec_val (idec N) * dec_val ?w\<bar> < 10 powi (34 + U)" using w0 N by simp
  have mod: "moderate share"
    using fmul_exp(1,2)[OF _ sw(1) sh b] N w(1) by (auto simp: moderate_def small_dec_def U_def)
  have nn: "\<not> d_neg share"
  proof (cases "d_coeff share = 0")
    case True
    then have "share = raw_mul (idec N) ?w" using fmul_exp(3)[OF _ sw(1) sh b] N by simp
    then show ?thesis using w(2) by (simp add: raw_mul_def)
  next
    case False
    then have "0 < dec_val share"
      using ex zero_coeff_iff[of share] w0 N by (auto simp: less_le)
    then show ?thesis using pos_not_neg ex(1) by blast
  qed
  have s: "dec_val share / dec_val W = sh" by (simp add: ex sh_def)
  show le: "sh \<le> of_int N"
    using mult_left_mono[OF w(3), of "of_int N"] N W(4) by (simp add: sh_def pos_divide_le_eq)
  show "0 \<le> sh" using N w0 W(4) by (simp add: sh_def)
  have "dec_val share / dec_val W < 10 ^ 34" unfolding s using le N34 by (simp add: power_int_def)
  note Q = quo_rem_value[OF ex(1) W(1,4) nn mod W(2) ex(3) W(3) q this, unfolded s]
  show "ps' = ps @ [idec \<lfloor>sh\<rfloor>]" using out Q(1) by simp
  show "\<exists>r. rs' = rs @ [r] \<and> wf_dec r \<and> dec_val r = dec_val W * frac sh" using out Q(2,3) by blast
  show "fadd al (idec \<lfloor>sh\<rfloor>) = Ok al'" using al Q(1) by simp
qed

lemma share_loop_ok:
  assumes N: "0 \<le> N" "N < 10 ^ 34"
    and W: "wf_dec W" "moderate W" "num_digits W \<le> 34" "0 < dec_val W"
    and ws: "\<forall>w \<in> set ws. small_dec (m_amount w) \<and> \<not> d_neg (m_amount w) \<and> dec_val (m_amount w) \<le> dec_val W"
    and al: "wf_dec al"
    and run: "foldR (share_step (idec N) W) (al, ps, rs) ws = Ok (al', ps', rs')"
  defines "sh \<equiv> \<lambda>w. of_int N * dec_val (m_amount w) / dec_val W"
  shows "ps' = ps @ map (\<lambda>w. idec \<lfloor>sh w\<rfloor>) ws
    \<and> (\<exists>rs2. rs' = rs @ rs2 \<and> list_all2 (\<lambda>w r. wf_dec r \<and> dec_val r = dec_val W * frac (sh w)) ws rs2)
    \<and> wf_dec al' \<and> dec_val al' = dec_val al + of_int (\<Sum>w\<leftarrow>ws. \<lfloor>sh w\<rfloor>)"
  using ws al run
proof (induction ws arbitrary: al ps rs)
  case (Cons w ws)
  obtain a1 p1 r1 where st: "share_step (idec N) W (al, ps, rs) w = Ok (a1, p1, r1)"
    and rest: "foldR (share_step (idec N) W) (a1, p1, r1) ws = Ok (al', ps', rs')"
    using Cons.prems(3) by auto
  have w: "small_dec (m_amount w)" "\<not> d_neg (m_amount w)" "dec_val (m_amount w) \<le> dec_val W"
    using Cons.prems(1) by auto
  have S': "p1 = ps @ [idec \<lfloor>sh w\<rfloor>]" "\<exists>r. r1 = rs @ [r] \<and> wf_dec r \<and> dec_val r = dec_val W * frac (sh w)"
    "fadd al (idec \<lfloor>sh w\<rfloor>) = Ok a1" "0 \<le> sh w"
    using share_step_ok[OF N W w st] unfolding sh_def by blast+
  have a1: "wf_dec a1" "dec_val a1 = dec_val al + of_int \<lfloor>sh w\<rfloor>"
    using fadd_exact[OF Cons.prems(2) _ S'(3)] S'(4) by auto
  obtain r where r: "r1 = rs @ [r]" "wf_dec r" "dec_val r = dec_val W * frac (sh w)" using S'(2) by blast
  have ws: "\<forall>w \<in> set ws. small_dec (m_amount w) \<and> \<not> d_neg (m_amount w) \<and> dec_val (m_amount w) \<le> dec_val W"
    using Cons.prems(1) by simp
  from Cons.IH[OF ws a1(1) rest] obtain rs2 where
    "ps' = p1 @ map (\<lambda>w. idec \<lfloor>sh w\<rfloor>) ws" "rs' = r1 @ rs2"
    "list_all2 (\<lambda>w r. wf_dec r \<and> dec_val r = dec_val W * frac (sh w)) ws rs2"
    "wf_dec al'" "dec_val al' = dec_val a1 + of_int (\<Sum>w\<leftarrow>ws. \<lfloor>sh w\<rfloor>)"
    by blast
  then show ?case using S'(1) r a1(2) by auto
qed simp

text \<open>Ranking the remainders ranks the fractional parts of the exact shares.\<close>

lemma sort_by_cong:
  "(\<And>a b. a \<in> set xs \<Longrightarrow> b \<in> set xs \<Longrightarrow> f a b = g a b) \<Longrightarrow> sort_by f xs = sort_by g xs"
proof -
  have ins: "(\<And>b. b \<in> set ys \<Longrightarrow> f b a = g b a) \<Longrightarrow> ins_by f a ys = ins_by g a ys" for a ys
    by (induction ys) auto
  show "(\<And>a b. a \<in> set xs \<Longrightarrow> b \<in> set xs \<Longrightarrow> f a b = g a b) \<Longrightarrow> sort_by f xs = sort_by g xs"
  proof (induction xs)
    case (Cons x xs)
    then have IH: "sort_by f xs = sort_by g xs" by simp
    have "set (sort_by g xs) = set xs" by simp
    then have "ins_by f x (sort_by g xs) = ins_by g x (sort_by g xs)"
      using Cons.prems by (intro ins) auto
    then show ?case using IH by (simp add: sort_by_def)
  qed (simp add: sort_by_def)
qed

lemma by_remainder_iff:
  assumes W: "0 < W" and i: "i < length rs" "j < length rs"
    and rs: "\<And>i. i < length rs \<Longrightarrow> wf_dec (rs ! i) \<and> dec_val (rs ! i) = W * frac (exact_share N ws i)"
  shows "by_remainder rs i j = lr_before N ws i j"
proof -
  have "by_remainder rs i j = (let c = rat_cmp (W * frac (exact_share N ws i)) (W * frac (exact_share N ws j))
      in if c \<noteq> 0 then c > 0 else i < j)"
    using rs[OF i(1)] rs[OF i(2)] by (simp add: by_remainder_def dec_cmp_correct)
  also have "\<dots> = lr_before N ws i j"
    using W by (auto simp: rat_cmp_def lr_before_def Let_def)
  finally show ?thesis .
qed

lemma rank_by_remainder_eq:
  assumes W: "0 < W" and len: "length rs = length ws"
    and rs: "\<And>i. i < length rs \<Longrightarrow> wf_dec (rs ! i) \<and> dec_val (rs ! i) = W * frac (exact_share N ws i)"
    and k: "int k = lr_residual N ws"
  shows "rank_by_remainder rs k = lr_winners N ws"
proof -
  have "sort_by (by_remainder rs) [0..<length ws] = sort_by (lr_before N ws) [0..<length ws]"
    using len by (intro sort_by_cong by_remainder_iff[OF W _ _ rs]) auto
  moreover have "k = nat (lr_residual N ws)" using k by simp
  ultimately show ?thesis by (simp add: rank_by_remainder_def lr_winners_def len)
qed

text \<open>Handing out the residual units.\<close>

definition unit_dec :: "decimal \<Rightarrow> int \<Rightarrow> bool" where
  "unit_dec d q \<longleftrightarrow> wf_dec d \<and> dec_val d = of_int q \<and> num_digits d \<le> 34 \<and> 0 \<le> d_exp d \<and> d_exp d \<le> 40"

lemma unit_dec_idec: "0 \<le> q \<Longrightarrow> q < 10 ^ 34 \<Longrightarrow> unit_dec (idec q) q"
  using num_digits_34[of q] by (simp add: unit_dec_def)

lemma set_finite_1: "set_finite 1 e = (idec 1)\<lparr>d_exp := e\<rparr>"
  by (simp add: set_finite_def idec_def)

lemma dec_val_one: "dec_val (set_finite 1 e) = 10 powi e" "wf_dec (set_finite 1 e)" "num_digits (set_finite 1 e) = 1"
  by (simp_all add: set_finite_def dec_val_def wf_dec_def num_digits_def num_digits_int_def ndig.simps)

lemma unit_dec_succ:
  assumes d: "unit_dec d q" and q: "0 \<le> q" "q < 10 ^ 34" and add: "fadd d (set_finite 1 0) = Ok d'"
  shows "unit_dec d' (q + 1)"
proof -
  have "(of_int (q + 1) :: rat) < of_int (10 ^ 35)" unfolding of_int_less_iff using q(2) by simp
  moreover have "(10::rat) ^ 35 = 10 powi 35" by (simp add: power_int_def)
  ultimately have b: "\<bar>dec_val d + dec_val (set_finite 1 0)\<bar> < 10 powi 35"
    using d q by (simp add: unit_dec_def dec_val_one)
  have wf: "wf_dec d" using d by (simp add: unit_dec_def)
  show ?thesis
    using fadd_exact[OF wf dec_val_one(2) add] fadd_exp[OF wf dec_val_one(2) add b] d
    by (auto simp: unit_dec_def dec_val_one) (simp_all add: set_finite_def)
qed

lemma add_units_ok:
  assumes "foldR add_unit ps is = Ok ps'" "distinct is" "set is \<subseteq> {..<length ps}"
    and "\<forall>i < length ps. unit_dec (ps ! i) (qs i)" "\<forall>i \<in> set is. 0 \<le> qs i \<and> qs i < 10 ^ 34"
  shows "length ps' = length ps \<and>
    (\<forall>i < length ps. unit_dec (ps' ! i) (qs i + (if i \<in> set is then 1 else 0)))"
  using assms
proof (induction "is" arbitrary: ps qs)
  case (Cons k ks)
  obtain d where d: "fadd (ps ! k) (set_finite 1 0) = Ok d" and rest: "foldR add_unit (ps[k := d]) ks = Ok ps'"
    using Cons.prems(1) by (auto simp: add_unit_def[of ps k])
  have k: "k < length ps" "k \<notin> set ks" using Cons.prems by auto
  have ud: "unit_dec d (qs k + 1)"
    using unit_dec_succ[OF _ _ _ d] Cons.prems(4,5) k(1) by simp
  let ?qs = "qs(k := qs k + 1)"
  have "length ps' = length (ps[k := d]) \<and>
    (\<forall>i < length (ps[k := d]). unit_dec (ps' ! i) (?qs i + (if i \<in> set ks then 1 else 0)))"
    using Cons.prems k ud rest by (intro Cons.IH) (auto simp: nth_list_update)
  then have len: "length ps' = length ps"
    and u: "\<And>i. i < length ps \<Longrightarrow> unit_dec (ps' ! i) (?qs i + (if i \<in> set ks then 1 else 0))"
    by auto
  have "unit_dec (ps' ! i) (qs i + (if i \<in> set (k # ks) then 1 else 0))" if "i < length ps" for i
    using u[OF that] k by (cases "i = k") auto
  then show ?case using len by blast
qed simp


text \<open>The sum of the weights.\<close>

lemma weight_sum_ok:
  assumes "foldR fadd s ds = Ok t" "\<forall>d \<in> set ds. small_dec d \<and> \<not> d_neg d"
    and "wf_dec s" "num_digits s \<le> 34" "- 1000 \<le> d_exp s" "d_exp s \<le> 1100" "0 \<le> dec_val s"
    and "dec_val s + of_nat (length ds) * 10 powi U \<le> 10 powi V" "U = (1034::int)" "V = (1099::int)"
  shows "wf_dec t \<and> num_digits t \<le> 34 \<and> - 1000 \<le> d_exp t \<and> d_exp t \<le> 1100
    \<and> dec_val t = dec_val s + (\<Sum>d\<leftarrow>ds. dec_val d)"
  using assms(1-8)
proof (induction ds arbitrary: s)
  case (Cons d ds)
  obtain u where u: "fadd s d = Ok u" and rest: "foldR fadd u ds = Ok t" using Cons.prems(1) by auto
  have d: "small_dec d" "\<not> d_neg d" using Cons.prems(2) by auto
  note sd = small_dec_props[OF d(1), folded assms(9)]
  have d0: "0 \<le> dec_val d" using d(2) sd(1) by (simp add: dec_val_def wf_dec_def)
  have len: "dec_val s + 10 powi U + of_nat (length ds) * 10 powi U \<le> 10 powi V"
    using Cons.prems(8) by (simp add: algebra_simps)
  have dU: "dec_val d < 10 powi U" using sd(5) d0 by simp
  have nn: "0 \<le> of_nat (length ds) * (10::rat) powi U" by simp
  have b0: "dec_val s + dec_val d < 10 powi V" using len dU nn by linarith
  then have b: "\<bar>dec_val s + dec_val d\<bar> < 10 powi V" using Cons.prems(7) d0 by simp
  have ex: "wf_dec u" "dec_val u = dec_val s + dec_val d" "num_digits u \<le> 34"
    using fadd_exact[OF Cons.prems(3) sd(1) u] by auto
  have e: "- 1000 \<le> d_exp u" "d_exp u \<le> 1100"
    using fadd_exp[OF Cons.prems(3) sd(1) u b] Cons.prems(5,6) d(1) by (auto simp: small_dec_def assms(10))
  have "dec_val u + of_nat (length ds) * 10 powi U \<le> 10 powi V"
    unfolding ex(2) using len dU by linarith
  then show ?case
    using Cons.IH[OF rest _ ex(1,3) e] Cons.prems(2,7) d0 ex(2) by (simp add: add.assoc)
qed simp

lemma weight_total_ok:
  assumes run: "foldR fadd dec0 ds = Ok t" and ds: "\<forall>d \<in> set ds. small_dec d \<and> \<not> d_neg d"
    and len: "length ds < 2 ^ 63"
  shows "wf_dec t" "num_digits t \<le> 34" "moderate t" "dec_val t = (\<Sum>d\<leftarrow>ds. dec_val d)"
proof -
  have "(of_nat (length ds) :: rat) < of_nat (2 ^ 63)" unfolding of_nat_less_iff by (rule len)
  then have "of_nat (length ds) \<le> (10::rat) powi 20" by simp
  then have "of_nat (length ds) * (10::rat) powi 1034 \<le> 10 powi 20 * 10 powi 1034"
    by (rule mult_right_mono) (simp only: less_imp_le powi10_pos)
  also have "\<dots> = 10 powi (20 + 1034)" by (simp only: powi_split)
  also have "\<dots> \<le> (10::rat) powi 1099" by (rule powi10_mono) simp
  finally have b: "dec_val dec0 + of_nat (length ds) * (10::rat) powi 1034 \<le> 10 powi 1099"
    by (simp only: dec0_def dec_val_def decimal.simps of_int_0 mult_zero_left mult_zero_right add_0)
  have z: "wf_dec dec0" "num_digits dec0 \<le> 34" "- 1000 \<le> d_exp dec0" "d_exp dec0 \<le> 1100" "0 \<le> dec_val dec0"
    "dec_val dec0 = 0"
    by (simp_all add: dec0_def wf_dec_def num_digits_def dec_val_def)
  from weight_sum_ok[OF run ds z(1-5) b refl refl]
  show "wf_dec t" "num_digits t \<le> 34" "moderate t" "dec_val t = (\<Sum>d\<leftarrow>ds. dec_val d)"
    by (auto simp: moderate_def z)
qed

text \<open>Back from units to an amount at the policy's scale.\<close>

lemma scoeff_signed: "scoeff d = signed (d_neg d) (d_coeff d)"
  by (simp add: scoeff_def signed_def)

lemma finish_part_ok:
  assumes p: "valid_policy p" and u: "unit_dec d q" "0 \<le> q" "q \<le> 10 ^ 34" and ok: "finish_part t p neg d = Ok m"
  shows "m_currency m = m_currency t \<and> wf_dec (m_amount m) \<and> d_exp (m_amount m) = - rp_scale p
    \<and> num_digits (m_amount m) \<le> 34 \<and> scoeff (m_amount m) = signed neg q"
proof -
  obtain a b where a: "fmul d (set_finite 1 (- rp_scale p)) = Ok a"
    and b: "apply_policy (if neg then dec_neg a else a) p = Ok b"
    and m: "m = \<lparr>m_amount = b, m_currency = m_currency t\<rparr>"
    using ok by (auto simp: finish_part_def)
  let ?a = "if neg then dec_neg a else a"
  have d: "wf_dec d" "dec_val d = of_int q" "0 \<le> d_exp d" "d_exp d \<le> 40" using u by (simp_all add: unit_dec_def)
  note sc = valid_policy_scale[OF p]
  have ex: "wf_dec a" "dec_val a = of_int q * 10 powi (- rp_scale p)" "num_digits a \<le> 34"
    using fmul_exact[OF d(1) dec_val_one(2) a] d by (auto simp: dec_val_one)
  have "(of_int q :: rat) \<le> of_int (10 ^ 34)" unfolding of_int_le_iff by (rule u(3))
  then have q: "(of_int q :: rat) < 10 powi 35" by (simp add: power_int_def)
  have "of_int q * (10::rat) powi (- rp_scale p) < 10 powi 35 * 10 powi (- rp_scale p)"
    using q by (intro mult_strict_right_mono) simp_all
  also have "\<dots> = 10 powi (35 - rp_scale p)" by (simp only: powi_split[symmetric]) simp
  finally have b1: "\<bar>dec_val d * dec_val (set_finite 1 (- rp_scale p))\<bar> < 10 powi (35 - rp_scale p)"
    using u(2) d by (simp add: dec_val_one abs_mult)
  have mod: "moderate a"
    using fmul_exp(1,2)[OF d(1) dec_val_one(2) a b1] d sc by (auto simp: moderate_def set_finite_def)
  have A: "wf_dec ?a" "moderate ?a" "num_digits ?a \<le> 1000"
    using ex mod dec_neg_props[OF ex(1)]
    by (auto simp: dec_neg_def moderate_def num_digits_def)
  have v: "dec_val ?a = of_int (signed neg q) * 10 powi (- rp_scale p)"
    using ex dec_neg_props[OF ex(1)] by (simp add: signed_def)
  have md: "mode_valid (rp_mode p)" using p by (simp add: valid_policy_iff)
  note V = apply_policy_value[OF p A b, unfolded policy_result_on_grid[OF A(1) md v]]
  from V have "signed (d_neg b) (d_coeff b) = signed neg q" by blast
  then have "scoeff b = signed neg q" by (simp only: scoeff_signed)
  then show ?thesis using V m by simp
qed

lemma finish_parts_ok:
  assumes "valid_policy p" "mapR (finish_part t p neg) ds = Ok ms" "length qs = length ds"
    and "\<And>i. i < length ds \<Longrightarrow> unit_dec (ds ! i) (qs ! i) \<and> 0 \<le> qs ! i \<and> qs ! i \<le> 10 ^ 34"
  shows "map (scoeff \<circ> m_amount) ms = map (signed neg) qs"
    and "\<forall>m \<in> set ms. m_currency m = m_currency t \<and> wf_dec (m_amount m) \<and> num_digits (m_amount m) \<le> 34
      \<and> d_exp (m_amount m) = - rp_scale p"
proof -
  have len: "length ms = length ds" using mapR_length assms(2) by blast
  have F: "m_currency (ms ! i) = m_currency t \<and> wf_dec (m_amount (ms ! i)) \<and> d_exp (m_amount (ms ! i)) = - rp_scale p
    \<and> num_digits (m_amount (ms ! i)) \<le> 34 \<and> scoeff (m_amount (ms ! i)) = signed neg (qs ! i)" if "i < length ms" for i
    using finish_part_ok[OF assms(1) _ _ _ mapR_nth[OF assms(2)]] assms(4) that len by auto
  show "map (scoeff \<circ> m_amount) ms = map (signed neg) qs"
    using F len assms(3) by (intro nth_equalityI) auto
  show "\<forall>m \<in> set ms. m_currency m = m_currency t \<and> wf_dec (m_amount m) \<and> num_digits (m_amount m) \<le> 34
      \<and> d_exp (m_amount m) = - rp_scale p"
    using F by (auto simp: all_set_conv_all_nth)
qed

section \<open>The refinement\<close>

definition weight_vals :: "money list \<Rightarrow> rat list" where
  "weight_vals ws = map (\<lambda>w. dec_val (m_amount w)) ws"

lemma length_weight_vals [simp]: "length (weight_vals ws) = length ws"
  by (simp add: weight_vals_def)

definition unit_parts :: "int \<Rightarrow> rat list \<Rightarrow> int list" where
  "unit_parts N ws = (if sum_list ws = 0 then replicate (length ws) 0 else largest_remainder N ws)"

lemma unit_parts_nth:
  "sum_list vs \<noteq> 0 \<Longrightarrow> i < length vs \<Longrightarrow>
    unit_parts N vs ! i = \<lfloor>exact_share N vs i\<rfloor> + (if i \<in> set (lr_winners N vs) then 1 else 0)"
  by (simp add: unit_parts_def largest_remainder_def)

lemma length_unit_parts [simp]: "length (unit_parts N vs) = length vs"
  by (simp add: unit_parts_def largest_remainder_def)

lemma check_weights_ok:
  "check_weights cur i ws = Ok () \<longleftrightarrow> (\<forall>w \<in> set ws. m_currency w = cur \<and> \<not> d_neg (m_amount w))"
  by (induction ws arbitrary: i) auto

lemma integer_parts_ok:
  assumes N: "0 \<le> N" "N < 10 ^ 34"
    and ws: "\<forall>w \<in> set ws. small_dec (m_amount w) \<and> \<not> d_neg (m_amount w)"
    and W: "wf_dec W" "moderate W" "num_digits W \<le> 34" "dec_val W = sum_list (weight_vals ws)"
    and ok: "integer_parts (idec N) W ws = Ok ds"
  shows "length ds = length ws"
    and "length (unit_parts N (weight_vals ws)) = length ws"
    and "\<And>i. i < length ws \<Longrightarrow> unit_dec (ds ! i) (unit_parts N (weight_vals ws) ! i)
      \<and> 0 \<le> unit_parts N (weight_vals ws) ! i \<and> unit_parts N (weight_vals ws) ! i \<le> 10 ^ 34"
    and "sum_list (unit_parts N (weight_vals ws)) = N"
proof -
  let ?vs = "weight_vals ws"
  let ?goal = "length ds = length ws \<and> length (unit_parts N ?vs) = length ws \<and>
    (\<forall>i < length ws. unit_dec (ds ! i) (unit_parts N ?vs ! i) \<and> 0 \<le> unit_parts N ?vs ! i \<and> unit_parts N ?vs ! i \<le> 10 ^ 34) \<and>
    sum_list (unit_parts N ?vs) = N"
  have ?goal
  proof (cases "dec_is_zero W")
    case True
    then have z: "sum_list ?vs = 0" using W(1,4) by (simp add: dec_is_zero_iff)
    have "N = 0" and ds: "ds = replicate (length ws) dec0"
      using ok True N(1) by (auto simp: integer_parts_def dec_is_zero_iff split: if_splits)
    moreover have "unit_dec dec0 0" by (simp add: unit_dec_def dec0_def wf_dec_def dec_val_def num_digits_def)
    ultimately show ?thesis using z by (simp add: unit_parts_def weight_vals_def sum_list_replicate)
  next
    case False
    then have nz: "sum_list ?vs \<noteq> 0" using W(1,4) by (simp add: dec_is_zero_iff)
    have v0: "\<forall>w \<in> set ws. 0 \<le> dec_val (m_amount w)"
      using ws by (auto simp: small_dec_def wf_dec_def dec_val_def)
    then have "0 \<le> sum_list ?vs" by (auto simp: weight_vals_def intro!: sum_list_nonneg)
    then have Wp: "0 < dec_val W" using nz W(4) by simp
    have le: "\<forall>w \<in> set ws. dec_val (m_amount w) \<le> dec_val W"
      using v0 unfolding W(4) weight_vals_def by (auto intro!: member_le_sum_list)
    define sh :: "money \<Rightarrow> rat" where "sh w = of_int N * dec_val (m_amount w) / dec_val W" for w
    obtain al ps rs k where loop: "foldR (share_step (idec N) W) (dec0, [], []) ws = Ok (al, ps, rs)"
      and k: "residual_units (idec N) al (length ws) = Ok k"
      and fin: "foldR add_unit ps (rank_by_remainder rs k) = Ok ds"
      using ok False by (auto simp: integer_parts_def)
    have wf0: "wf_dec dec0" by (simp add: wf_dec_def dec0_def)
    have ws': "\<forall>w \<in> set ws. small_dec (m_amount w) \<and> \<not> d_neg (m_amount w) \<and> dec_val (m_amount w) \<le> dec_val W"
      using ws le by blast
    have L: "ps = map (\<lambda>w. idec \<lfloor>sh w\<rfloor>) ws"
      "list_all2 (\<lambda>w r. wf_dec r \<and> dec_val r = dec_val W * frac (sh w)) ws rs"
      "wf_dec al" "dec_val al = of_int (\<Sum>w\<leftarrow>ws. \<lfloor>sh w\<rfloor>)"
      using share_loop_ok[OF N W(1-3) Wp ws' wf0 loop] unfolding sh_def by (auto simp: dec0_def dec_val_def)
    have es: "exact_share N ?vs i = sh (ws ! i)" if "i < length ws" for i
      using that by (simp add: exact_share_def sh_def W(4) weight_vals_def)
    have len: "length ps = length ws" "length rs = length ws" using L(1,2) by (auto dest: list_all2_lengthD)
    have "(\<Sum>w\<leftarrow>ws. \<lfloor>sh w\<rfloor>) = (\<Sum>i<length ws. \<lfloor>exact_share N ?vs i\<rfloor>)"
      by (simp add: sum_list_sum_nth atLeast0LessThan es)
    then have res: "of_int (lr_residual N ?vs) = of_int N - dec_val al"
      by (simp add: lr_residual_def L(4) weight_vals_def)
    obtain rd c where c: "fsub (idec N) al = Ok rd" "dec_int64 rd = Ok c" "k = nat c" "0 \<le> c"
      using k by (auto simp: residual_units_def split: if_splits)
    have "of_int c = dec_val rd" using dec_int64_value c(2) fsub_exact[OF _ L(3) c(1)] N(1) by auto
    then have "of_int c = (of_int (lr_residual N ?vs) :: rat)"
      unfolding res using fsub_exact[OF _ L(3) c(1)] N(1) by simp
    then have kr: "int k = lr_residual N ?vs" using c by simp
    have rs: "wf_dec (rs ! i) \<and> dec_val (rs ! i) = dec_val W * frac (exact_share N ?vs i)" if "i < length rs" for i
      using L(2) that es len by (auto simp: list_all2_conv_all_nth)
    have rank: "rank_by_remainder rs k = lr_winners N ?vs"
      by (rule rank_by_remainder_eq[OF Wp _ rs kr]) (simp_all add: len weight_vals_def)
    have bnd: "0 \<le> \<lfloor>exact_share N ?vs i\<rfloor> \<and> \<lfloor>exact_share N ?vs i\<rfloor> \<le> N" if "i < length ws" for i
    proof -
      let ?w = "dec_val (m_amount (ws ! i))"
      have w: "0 \<le> ?w" "?w \<le> dec_val W" using that v0 le by auto
      have "0 \<le> sh (ws ! i)" using w N Wp by (simp add: sh_def)
      moreover have "sh (ws ! i) \<le> of_int N"
        using mult_left_mono[OF w(2), of "of_int N"] N Wp by (simp add: sh_def pos_divide_le_eq)
      ultimately show ?thesis using es[OF that] by (simp add: floor_le_iff)
    qed
    have lt: "\<lfloor>exact_share N ?vs i\<rfloor> < 10 ^ 34" if "i < length ws" for i
      using bnd[OF that] N(2) by linarith
    have ps: "\<forall>i < length ps. unit_dec (ps ! i) \<lfloor>exact_share N ?vs i\<rfloor>"
    proof (intro allI impI)
      fix i assume "i < length ps"
      then have i: "i < length ws" by (simp only: len)
      have "ps ! i = idec \<lfloor>exact_share N ?vs i\<rfloor>" using i by (simp only: L(1) nth_map es[OF i])
      then show "unit_dec (ps ! i) \<lfloor>exact_share N ?vs i\<rfloor>"
        using unit_dec_idec bnd[OF i] lt[OF i] by simp
    qed
    have sub: "set (lr_winners N ?vs) \<subseteq> {..<length ps}"
      using lr_winners_set[of N ?vs] unfolding len length_weight_vals .
    have fits: "\<forall>i \<in> set (lr_winners N ?vs). 0 \<le> \<lfloor>exact_share N ?vs i\<rfloor> \<and> \<lfloor>exact_share N ?vs i\<rfloor> < 10 ^ 34"
    proof
      fix i assume "i \<in> set (lr_winners N ?vs)"
      then have "i < length ps" using sub by (simp add: subset_eq)
      then have i: "i < length ws" by (simp only: len)
      show "0 \<le> \<lfloor>exact_share N ?vs i\<rfloor> \<and> \<lfloor>exact_share N ?vs i\<rfloor> < 10 ^ 34"
        using bnd[OF i] lt[OF i] by (rule conjI[OF conjunct1])
    qed
    have A: "length ds = length ps \<and> (\<forall>i < length ps. unit_dec (ds ! i)
        (\<lfloor>exact_share N ?vs i\<rfloor> + (if i \<in> set (lr_winners N ?vs) then 1 else 0)))"
      by (rule add_units_ok[OF fin[unfolded rank] lr_winners_distinct sub ps fits])
    have "sum_list (unit_parts N ?vs) = N" using nz largest_remainder_sum[OF nz] by (simp add: unit_parts_def)
    moreover have "unit_dec (ds ! i) (unit_parts N ?vs ! i) \<and> 0 \<le> unit_parts N ?vs ! i \<and> unit_parts N ?vs ! i \<le> 10 ^ 34"
      if i: "i < length ws" for i
    proof -
      have u: "unit_parts N ?vs ! i = \<lfloor>exact_share N ?vs i\<rfloor> + (if i \<in> set (lr_winners N ?vs) then 1 else 0)"
        by (rule unit_parts_nth[OF nz]) (simp only: length_weight_vals i)
      have "unit_dec (ds ! i) (unit_parts N ?vs ! i)" unfolding u
        by (rule A[THEN conjunct2, rule_format]) (simp only: len(1) i)
      moreover have "0 \<le> unit_parts N ?vs ! i" "unit_parts N ?vs ! i \<le> N + 1"
        unfolding u using bnd[OF i] by simp_all
      ultimately show ?thesis using N(2) by simp
    qed
    ultimately show ?thesis using A len(1) by (metis length_unit_parts length_weight_vals)
  qed
  then show "length ds = length ws" "length (unit_parts N ?vs) = length ws" "sum_list (unit_parts N ?vs) = N"
    "\<And>i. i < length ws \<Longrightarrow> unit_dec (ds ! i) (unit_parts N ?vs ! i)
      \<and> 0 \<le> unit_parts N ?vs ! i \<and> unit_parts N ?vs ! i \<le> 10 ^ 34"
    by blast+
qed

lemmas allocate_eval = fiscal_eval share_step_def add_unit_def finish_part_def integer_parts_def
  residual_units_def by_remainder_def rank_by_remainder_def sort_by_def allocate_def


text \<open>The amounts Allocate is given, and what it returns on success.\<close>

definition alloc_input :: "money \<Rightarrow> money list \<Rightarrow> bool" where
  "alloc_input t ws \<longleftrightarrow>
     small_dec (m_amount t) \<and> (\<forall>w \<in> set ws. small_dec (m_amount w)) \<and> length ws < 2 ^ 63"

lemma money_round_ok:
  assumes "valid_policy p" "small_dec (m_amount t)" "money_round t p = Ok r"
  shows "m_currency r = m_currency t" "wf_dec (m_amount r)" "num_digits (m_amount r) \<le> 34"
    "d_exp (m_amount r) = - rp_scale p" "scoeff (m_amount r) = policy_result (m_amount t) p"
    "dec_val (m_amount r) = of_int (policy_result (m_amount t) p) * 10 powi (- rp_scale p)"
    "d_neg (m_amount r) = d_neg (m_amount t)"
proof -
  obtain d where d: "apply_policy (m_amount t) p = Ok d" "r = \<lparr>m_amount = d, m_currency = m_currency t\<rparr>"
    using assms(3) by (auto simp: money_round_def)
  note s = small_dec_props[OF assms(2)]
  show "m_currency r = m_currency t" "wf_dec (m_amount r)" "num_digits (m_amount r) \<le> 34"
    "d_exp (m_amount r) = - rp_scale p" "scoeff (m_amount r) = policy_result (m_amount t) p"
    "dec_val (m_amount r) = of_int (policy_result (m_amount t) p) * 10 powi (- rp_scale p)"
    "d_neg (m_amount r) = d_neg (m_amount t)"
    using apply_policy_value[OF assms(1) s(1,2,4) d(1)] unfolding d(2) money.simps scoeff_signed by blast+
qed

lemma allocate_ok:
  assumes ok: "allocate t ws p = Ok parts" and inp: "alloc_input t ws"
  shows "valid_policy p" "length parts = length ws"
    and "map (scoeff \<circ> m_amount) parts =
      map (signed (d_neg (m_amount t))) (unit_parts \<bar>policy_result (m_amount t) p\<bar> (weight_vals ws))"
    and "sum_list (unit_parts \<bar>policy_result (m_amount t) p\<bar> (weight_vals ws)) = \<bar>policy_result (m_amount t) p\<bar>"
    and "policy_result (m_amount t) p = signed (d_neg (m_amount t)) \<bar>policy_result (m_amount t) p\<bar>"
    and "\<forall>m \<in> set parts. m_currency m = m_currency t \<and> wf_dec (m_amount m) \<and> num_digits (m_amount m) \<le> 34
      \<and> d_exp (m_amount m) = - rp_scale p"
proof -
  obtain r u W ds where p: "valid_policy p" and chk: "check_weights (m_currency t) 0 ws = Ok ()"
    and r: "money_round t p = Ok r" and u: "fmul (m_amount r) (set_finite 1 (rp_scale p)) = Ok u"
    and W: "foldR fadd dec0 (map m_amount ws) = Ok W" and ds: "integer_parts (dec_abs u) W ws = Ok ds"
    and out: "mapR (finish_part t p (d_neg u)) ds = Ok parts"
    using ok by (auto simp: allocate_def valid_policy_def split: if_splits)
  have t: "small_dec (m_amount t)" and sw: "\<forall>w \<in> set ws. small_dec (m_amount w)" and len: "length ws < 2 ^ 63"
    using inp by (simp_all add: alloc_input_def)
  note R = money_round_ok[OF p t r]
  have nn: "\<forall>w \<in> set ws. small_dec (m_amount w) \<and> \<not> d_neg (m_amount w)"
    using chk sw by (auto simp: check_weights_ok)
  note sc = valid_policy_scale[OF p]
  have c1: "d_coeff (set_finite 1 (rp_scale p)) = 1" by (simp add: set_finite_def)
  have e1: "d_exp (set_finite 1 (rp_scale p)) = rp_scale p" by (simp add: set_finite_def)
  have "fmul (m_amount r) (set_finite 1 (rp_scale p)) = Ok (raw_mul (m_amount r) (set_finite 1 (rp_scale p)))"
    using R(2-4) sc c1 dec_val_one(2) e1
    by (intro fmul_fits) (auto simp: moderate_def raw_mul_def num_digits_def)
  then have ud: "u = \<lparr>d_form = Finite, d_neg = d_neg (m_amount t), d_exp = 0, d_coeff = d_coeff (m_amount r)\<rparr>"
    using u R(4,7) by (simp add: raw_mul_def set_finite_def)
  define N where "N = d_coeff (m_amount r)"
  have N0: "0 \<le> N" using R(2) by (simp add: N_def wf_dec_def)
  have N1: "N < 10 ^ 34" using num_digits_34[OF N0] R(3) by (simp add: N_def num_digits_def)
  have ua: "dec_abs u = idec N" by (simp add: ud dec_abs_def idec_def N_def)
  have pr: "policy_result (m_amount t) p = signed (d_neg (m_amount t)) N"
    using R(5,7) by (simp add: scoeff_signed N_def)
  have aN: "\<bar>policy_result (m_amount t) p\<bar> = N" using N0 by (simp add: pr signed_def)
  have ds0: "\<forall>d \<in> set (map m_amount ws). small_dec d \<and> \<not> d_neg d" using nn by auto
  note WT = weight_total_ok[OF W ds0]
  have W': "wf_dec W" "moderate W" "num_digits W \<le> 34" "dec_val W = sum_list (weight_vals ws)"
    using WT len by (simp_all add: weight_vals_def comp_def)
  note I = integer_parts_ok[OF N0 N1 nn W' ds[unfolded ua]]
  have dsl: "length (unit_parts N (weight_vals ws)) = length ds" using I(1) by simp
  note F = finish_parts_ok[OF p out dsl]
  have I': "\<And>i. i < length ds \<Longrightarrow> unit_dec (ds ! i) (unit_parts N (weight_vals ws) ! i)
      \<and> 0 \<le> unit_parts N (weight_vals ws) ! i \<and> unit_parts N (weight_vals ws) ! i \<le> 10 ^ 34"
    using I(1,3) by simp
  show "valid_policy p" by (rule p)
  show "length parts = length ws" using mapR_length[OF out] I(1) by simp
  show "map (scoeff \<circ> m_amount) parts =
      map (signed (d_neg (m_amount t))) (unit_parts \<bar>policy_result (m_amount t) p\<bar> (weight_vals ws))"
    using F(1)[OF I'] by (simp add: aN ud)
  show "sum_list (unit_parts \<bar>policy_result (m_amount t) p\<bar> (weight_vals ws)) = \<bar>policy_result (m_amount t) p\<bar>"
    using I(4) by (simp add: aN)
  show "policy_result (m_amount t) p = signed (d_neg (m_amount t)) \<bar>policy_result (m_amount t) p\<bar>"
    unfolding aN by (rule pr)
  show "\<forall>m \<in> set parts. m_currency m = m_currency t \<and> wf_dec (m_amount m) \<and> num_digits (m_amount m) \<le> 34
      \<and> d_exp (m_amount m) = - rp_scale p"
    by (rule F(2)[OF I'])
qed

lemma sum_list_signed: "sum_list (map (signed n) xs) = signed n (sum_list (xs :: int list))"
  by (induction xs) (simp_all add: signed_def)

text \<open>The parts of an allocation sum to the rounded total.\<close>

lemma allocate_sum:
  assumes "allocate t ws p = Ok parts" "alloc_input t ws"
  obtains rounded where "money_round t p = Ok rounded" "(\<Sum>m\<leftarrow>parts. dec_val (m_amount m)) = dec_val (m_amount rounded)"
proof -
  note A = allocate_ok[OF assms(1,2)]
  have t: "small_dec (m_amount t)" using assms(2) by (simp add: alloc_input_def)
  obtain rounded where r: "money_round t p = Ok rounded"
    using assms(1) by (auto simp: allocate_def split: if_splits)
  have "dec_val (m_amount m) = of_int (scoeff (m_amount m)) * 10 powi (- rp_scale p)" if "m \<in> set parts" for m
    using A(6) that by (simp add: dec_val_scoeff)
  then have "(\<Sum>m\<leftarrow>parts. dec_val (m_amount m)) = (\<Sum>m\<leftarrow>parts. of_int (scoeff (m_amount m)) * 10 powi (- rp_scale p))"
    by (intro arg_cong[where f = sum_list]) simp
  also have "\<dots> = of_int (sum_list (map (scoeff \<circ> m_amount) parts)) * 10 powi (- rp_scale p)"
    by (induction parts) (simp_all add: algebra_simps)
  also have "sum_list (map (scoeff \<circ> m_amount) parts) = policy_result (m_amount t) p"
    unfolding A(3) sum_list_signed A(4) by (rule A(5)[symmetric])
  also have "of_int (policy_result (m_amount t) p) * 10 powi (- rp_scale p) = dec_val (m_amount rounded)"
    using money_round_ok(6)[OF A(1) t r] by simp
  finally show thesis using that r by blast
qed

end
