(* ===== verification/FiscalProps.thy ===== *)
theory FiscalProps
  imports Allocate
begin

text \<open>
  The properties of the fiscal package: allocation, rounding, exact operations, comparison and
  the two round trips (canonical text, database columns), each with a witness on concrete amounts.
\<close>

section \<open>Concrete amounts\<close>

definition eur :: "int \<Rightarrow> money" where
  "eur c = \<lparr>m_amount = set_finite c (- 2), m_currency = ''EUR''\<rparr>"

definition cents :: "rounding_mode \<Rightarrow> rounding_policy" where
  "cents m = \<lparr>rp_mode = m, rp_scale = 2, rp_basis = LINE\<rparr>"

lemma eur_small [simp]: "small_dec (m_amount (eur 1000))" "small_dec (m_amount (eur 1))"
  by (simp_all add: eur_def small_dec_def set_finite_def wf_dec_def num_digits_def num_digits_int_def ndig.simps)

lemma dec_val_eur [simp]: "dec_val (m_amount (eur c)) = of_int c / 100"
  by (simp add: eur_def set_finite_def dec_val_def power_int_minus)

lemma eur_split:
  "allocate (eur 1000) [eur 1, eur 1, eur 1] (cents HALF_UP) = Ok [eur 334, eur 333, eur 333]"
  by (simp add: eur_def cents_def allocate_eval)

section \<open>Allocation\<close>


text \<open>C1. Allocation is total: the parts of a successful Allocate are one per weight, in the
  total's currency and at the policy's scale, and they sum exactly to the total rounded at that scale.\<close>

theorem allocate_total:
  assumes "allocate t ws p = Ok parts" "alloc_input t ws"
  shows "length parts = length ws
    \<and> (\<forall>m \<in> set parts. m_currency m = m_currency t \<and> d_exp (m_amount m) = - rp_scale p)
    \<and> (\<exists>rounded. money_round t p = Ok rounded
         \<and> (\<Sum>m\<leftarrow>parts. dec_val (m_amount m)) = dec_val (m_amount rounded))"
proof -
  note A = allocate_ok[OF assms(1,2)]
  from allocate_sum[OF assms] show ?thesis using A(2,6) by blast
qed

lemma allocate_total_witness:
  "(\<Sum>m\<leftarrow>[eur 334, eur 333, eur 333]. dec_val (m_amount m)) = 10"
proof -
  have "money_round (eur 1000) (cents HALF_UP) = Ok (eur 1000)"
    by (simp add: eur_def cents_def fiscal_eval)
  moreover have "alloc_input (eur 1000) [eur 1, eur 1, eur 1]" by (simp add: alloc_input_def)
  ultimately have "(\<Sum>m\<leftarrow>[eur 334, eur 333, eur 333]. dec_val (m_amount m)) = dec_val (m_amount (eur 1000))"
    using allocate_total[OF eur_split] by auto
  also have "\<dots> = 10" by simp
  finally show ?thesis .
qed

text \<open>C2. The quota rule: when the weights do not sum to zero, every part lies strictly within one
  minor unit of its exact proportion of the rounded total.\<close>

theorem allocate_quota:
  assumes "allocate t ws p = Ok parts" "alloc_input t ws" "sum_list (weight_vals ws) \<noteq> 0" "i < length ws"
  shows "\<bar>dec_val (m_amount (parts ! i))
    - of_int (policy_result (m_amount t) p) * 10 powi (- rp_scale p) * dec_val (m_amount (ws ! i)) / sum_list (weight_vals ws)\<bar>
    < 10 powi (- rp_scale p)"
proof -
  note A = allocate_ok[OF assms(1,2)]
  let ?vs = "weight_vals ws" and ?N = "\<bar>policy_result (m_amount t) p\<bar>" and ?n = "d_neg (m_amount t)"
  let ?u = "10 powi (- rp_scale p) :: rat"
  have "map (scoeff \<circ> m_amount) parts ! i = map (signed ?n) (unit_parts ?N ?vs) ! i"
    unfolding A(3) ..
  then have sc: "scoeff (m_amount (parts ! i)) = signed ?n (largest_remainder ?N ?vs ! i)"
    using assms(3,4) A(2) by (simp add: unit_parts_def largest_remainder_def)
  have "parts ! i \<in> set parts" using A(2) assms(4) by simp
  then have v: "dec_val (m_amount (parts ! i)) = of_int (signed ?n (largest_remainder ?N ?vs ! i)) * ?u"
    using A(6) by (simp add: dec_val_scoeff sc)
  define x where "x = of_int (policy_result (m_amount t) p) * dec_val (m_amount (ws ! i)) / sum_list ?vs"
  have w: "exact_share ?N ?vs i = of_int ?N * dec_val (m_amount (ws ! i)) / sum_list ?vs"
    using assms(4) by (simp add: exact_share_def weight_vals_def)
  have x: "x = signed ?n (exact_share ?N ?vs i)"
    unfolding x_def w by (subst A(5)) (simp add: signed_def)
  have q: "\<bar>of_int (largest_remainder ?N ?vs ! i) - exact_share ?N ?vs i\<bar> < 1"
    using assms(3,4) by (intro largest_remainder_quota) simp_all
  have "\<bar>of_int (signed ?n (largest_remainder ?N ?vs ! i)) - x\<bar> < 1"
    using q unfolding x signed_def by (auto simp: abs_minus_commute) 
  then have "\<bar>(of_int (signed ?n (largest_remainder ?N ?vs ! i)) - x) * ?u\<bar> < 1 * ?u"
    unfolding abs_mult abs_of_pos[OF powi10_pos] by (rule mult_strict_right_mono) (rule powi10_pos)
  then show ?thesis unfolding v by (simp add: x_def algebra_simps)
qed

lemma allocate_quota_witness: "\<bar>dec_val (m_amount (eur 334)) - 10 / 3\<bar> < 1 / 100"
proof -
  have in1: "alloc_input (eur 1000) [eur 1, eur 1, eur 1]" by (simp add: alloc_input_def)
  have s: "sum_list (weight_vals [eur 1, eur 1, eur 1]) = 3 / 100"
    by (simp add: weight_vals_def)
  have p: "policy_result (m_amount (eur 1000)) (cents HALF_UP) = 1000"
    by (rule policy_result_on_grid)
       (simp_all add: eur_def cents_def set_finite_def dec_val_def wf_dec_def)
  show ?thesis
    using allocate_quota[OF eur_split in1, of 0]
    by (simp add: s p cents_def power_int_minus)
qed

section \<open>Rounding\<close>

text \<open>C3. Rounding a money amount under a policy keeps its currency and sign, lands at the policy's
  scale, and its value is the reference rounding of the mode (rational floor, ceiling and nearest,
  scaled by the policy), except that an amount below a tenth of the last place kept becomes zero
  whatever the mode, because apd's quantize does not consult the mode there.\<close>

theorem money_round_reference:
  assumes "money_round m p = Ok r" "small_dec (m_amount m)"
  shows "m_currency r = m_currency m \<and> d_neg (m_amount r) = d_neg (m_amount m)
    \<and> d_exp (m_amount r) = - rp_scale p
    \<and> dec_val (m_amount r) * 10 powi rp_scale p =
        (if num_digits (m_amount m) + d_exp (m_amount m) < - rp_scale p then 0
         else of_int (round_ref (rp_mode p) (dec_val (m_amount m) * 10 powi rp_scale p)))"
proof -
  have p: "valid_policy p"
    using assms(1) by (auto simp: money_round_def apply_policy_def valid_policy_def)
  have "dec_val (m_amount r) * 10 powi rp_scale p = of_int (policy_result (m_amount m) p)"
    using money_round_ok(6)[OF p assms(2,1)] by (simp add: power_int_minus)
  then show ?thesis
    using money_round_ok(1,4,7)[OF p assms(2,1)] by (simp add: policy_result_def below_tenth_def)
qed

lemma money_round_reference_witness: "of_int (round_ref HALF_EVEN (25 / 2)) = (12 :: rat)"
proof -
  let ?m = "\<lparr>m_amount = set_finite 125 (- 3), m_currency = ''EUR''\<rparr>"
  have r: "money_round ?m (cents HALF_EVEN) = Ok (eur 12)"
    by (simp add: eur_def cents_def fiscal_eval)
  have s: "small_dec (m_amount ?m)"
    by (simp add: small_dec_def set_finite_def wf_dec_def num_digits_def num_digits_int_def ndig.simps)
  have n: "num_digits (m_amount ?m) = 3" and e: "d_exp (m_amount ?m) = - 3"
    by (simp_all add: set_finite_def num_digits_def num_digits_int_def ndig.simps)
  have v: "dec_val (m_amount ?m) * 10 powi 2 = 25 / 2"
    by (simp add: set_finite_def dec_val_def power_int_minus)
  have "dec_val (m_amount (eur 12)) * 10 powi 2 = of_int (round_ref HALF_EVEN (25 / 2))"
    using money_round_reference[OF r s] unfolding n e cents_def rounding_policy.simps v by simp
  then show ?thesis by simp
qed

text \<open>C4. Rounding is total on the amounts the package handles: under a valid policy it fails exactly
  when the rounded amount would need more than 34 digits, and never by more than that.\<close>

theorem money_round_total:
  assumes "valid_policy p" "small_dec (m_amount m)"
  shows "is_ok (money_round m p) \<longleftrightarrow> \<bar>policy_result (m_amount m) p\<bar> < 10 ^ 34"
proof -
  let ?x = "m_amount m"
  let ?q = "quant_coeff (mode_rounder (rp_mode p)) (d_neg ?x) (d_coeff ?x) (- rp_scale p - d_exp ?x)"
  note s = small_dec_props[OF assms(2)]
  have co: "0 \<le> d_coeff ?x" and md: "mode_valid (rp_mode p)"
    using s(1) assms(1) by (simp_all add: wf_dec_def valid_policy_iff)
  have q0: "0 \<le> ?q" using co by (rule quant_coeff_nonneg)
  have "signed (d_neg ?x) ?q = policy_result ?x p" by (rule quant_coeff_result[OF s(1) md])
  then have "\<bar>policy_result ?x p\<bar> = ?q" using q0 by (auto simp: signed_def split: if_splits)
  then show ?thesis
    using apply_policy_eq[OF assms(1) s(1,2,4)] num_digits_34[OF q0]
    by (auto simp: money_round_def Let_def)
qed

lemma money_round_total_witness: "is_ok (money_round (eur 1000) (cents HALF_UP))"
proof -
  have v: "valid_policy (cents HALF_UP)" by (simp add: valid_policy_iff cents_def)
  have "policy_result (m_amount (eur 1000)) (cents HALF_UP) = 1000"
    by (rule policy_result_on_grid) (simp_all add: eur_def cents_def set_finite_def dec_val_def wf_dec_def)
  then show ?thesis using money_round_total[OF v eur_small(1)] by simp
qed

end
