(* ===== verification/ScheduleProps.thy ===== *)
theory ScheduleProps
  imports ScheduleFacts FiscalProps
begin

text \<open>
  The properties of schedule compilation, with concrete schedules as witnesses.
\<close>


section \<open>A concrete schedule\<close>

definition percent :: "int \<Rightarrow> rate" where
  "percent n = \<lparr>r_value = set_finite n (- 2), r_basis = NET\<rparr>"

definition half_up_line :: rounding_policy where
  "half_up_line = \<lparr>rp_mode = HALF_UP, rp_scale = 2, rp_basis = LINE\<rparr>"

definition ad_valorem :: "int \<Rightarrow> rate_decl" where
  "ad_valorem n = \<lparr>rd_kind = AdValorem, rd_proportion = Some (percent n), rd_per_unit = None, rd_flat = None, rd_bracket = None\<rparr>"

definition tax_on :: "comp_id \<Rightarrow> base_kind \<Rightarrow> comp_id list \<Rightarrow> int \<Rightarrow> tax_component" where
  "tax_on i k refs n = \<lparr>c_id = i, c_jurisdiction = ''J'', c_tax_type = ''T'',
     c_base = \<lparr>b_kind = k, b_components = refs, b_adjustments = [], b_allow_negative = False\<rparr>,
     c_rate = ad_valorem n, c_policy = half_up_line, c_inclusive = False\<rparr>"

text \<open>A provincial tax on the net and a federal tax on the net plus the provincial one, declared backwards.\<close>

definition compound_schedule :: schedule where
  "compound_schedule = \<lparr>s_components = [tax_on ''fed'' NetPlusComponents [''prov''] 5, tax_on ''prov'' LineNet [] 8],
     s_extraction = None, s_subtraction = []\<rparr>"

definition forward_schedule :: schedule where
  "forward_schedule = compound_schedule\<lparr>s_components := rev (s_components compound_schedule)\<rparr>"

definition cyclic_schedule :: schedule where
  "cyclic_schedule = \<lparr>s_components = [tax_on ''a'' ComponentSum [''b''] 5, tax_on ''b'' ComponentSum [''a''] 8],
     s_extraction = None, s_subtraction = []\<rparr>"

text \<open>An inclusive VAT with an inclusive flat levy subtracted first.\<close>

definition inclusive_schedule :: schedule where
  "inclusive_schedule = \<lparr>s_components =
     [(tax_on ''vat'' LineNet [] 20)\<lparr>c_inclusive := True\<rparr>,
      (tax_on ''levy'' LineNet [] 0)\<lparr>c_inclusive := True, c_rate := \<lparr>rd_kind = Flat, rd_proportion = None, rd_per_unit = None,
        rd_flat = Some (eur 50), rd_bracket = None\<rparr>\<rparr>],
     s_extraction = Some half_up_line, s_subtraction = [''levy'']\<rparr>"

text \<open>Two taxes of one jurisdiction, rounded on its total.\<close>

definition pooled_schedule :: schedule where
  "pooled_schedule = \<lparr>s_components =
     map (\<lambda>(i, n). (tax_on i LineNet [] n)\<lparr>c_policy := half_up_line\<lparr>rp_basis := JURISDICTION_TOTAL\<rparr>\<rparr>) [(''city'', 3), (''state'', 7)],
     s_extraction = None, s_subtraction = []\<rparr>"

lemma inclusive_schedule_compiles: "is_ok (compile inclusive_schedule)"
  by code_simp

lemma pooled_schedule_compiles: "is_ok (compile pooled_schedule)"
  by code_simp

lemma compound_schedule_order:
  "case compile compound_schedule of Ok p \<Rightarrow> plan_order p = [''prov'', ''fed''] | Err e \<Rightarrow> False"
  by code_simp

lemma forward_schedule_compiles: "is_ok (compile forward_schedule)"
  by code_simp

lemma cyclic_schedule_fails:
  "case compile cyclic_schedule of Ok p \<Rightarrow> False | Err e \<Rightarrow> e = Cycle [''a'', ''b'']"
  by code_simp

section \<open>Properties\<close>

text \<open>C5. A compiled plan evaluates every component exactly once, and after every component its base
  reads: the order is a permutation of the declared identifiers, and the references of the component
  at any place all stand before it.\<close>

theorem compile_order:
  assumes "compile s = Ok p"
  shows "distinct (plan_order p) \<and> set (plan_order p) = c_id ` set (s_components s)
    \<and> (\<forall>k < length (plan_order p). \<forall>c \<in> set (s_components s). c_id c = plan_order p ! k \<longrightarrow>
         set (b_components (c_base c)) \<subseteq> set (take k (plan_order p)))"
proof -
  note I = compile_id_order[OF assms]
  have "id_refs (s_components s) (c_id c) = b_components (c_base c)" if "c \<in> set (s_components s)" for c
    using find_component_id[OF I(5) that] by (simp add: id_refs_def)
  then show ?thesis using I(1,2,3) unfolding topological_def by metis
qed

lemma compile_order_witness:
  "\<exists>p. compile compound_schedule = Ok p \<and> distinct (plan_order p) \<and> set (plan_order p) = {''fed'', ''prov''}"
proof -
  obtain p where p: "compile compound_schedule = Ok p"
    using compound_schedule_order by (auto split: result.splits)
  show ?thesis using compile_order[OF p] p by (auto simp: compound_schedule_def tax_on_def)
qed

text \<open>C6. The evaluation order is canonical: two schedules that declare the same components in any
  order compile to plans that evaluate the same identifiers in the same order.\<close>

theorem compile_order_canonical:
  assumes "compile s = Ok p" "compile t = Ok q" "mset (s_components s) = mset (s_components t)"
  shows "plan_order p = plan_order q"
proof -
  note S = compile_id_order[OF assms(1)] and T = compile_id_order[OF assms(2)]
  have s: "set (s_components t) = set (s_components s)" using assms(3) by (metis mset_eq_setD)
  have r: "id_refs (s_components t) = id_refs (s_components s)" using id_refs_mset[OF assms(3) S(5)] by simp
  have len: "length (plan_order p) = length (plan_order q)"
    using S(1,2) T(1,2) s by (metis distinct_card)
  show ?thesis
    by (rule least_first_unique[OF S(4) _ S(3) _ S(1) T(1) _ _ _ len]) (use S(2) T(2,3,4) r s in auto)
qed

lemma compile_order_canonical_witness: "\<exists>p. compile forward_schedule = Ok p \<and> plan_order p = [''prov'', ''fed'']"
proof -
  obtain p where p: "compile forward_schedule = Ok p"
    using forward_schedule_compiles by (auto simp: is_ok_iff)
  obtain q where q: "compile compound_schedule = Ok q" "plan_order q = [''prov'', ''fed'']"
    using compound_schedule_order by (auto split: result.splits)
  have "mset (s_components forward_schedule) = mset (s_components compound_schedule)"
    by (simp add: forward_schedule_def)
  with compile_order_canonical[OF p q(1)] q(2) p show ?thesis by simp
qed

text \<open>The cycle error is exact in the direction that matters: Compile reports a cycle only when
  no ranking of the components puts every base reference strictly below its reader, and it always
  names at least one component, each of them declared.\<close>

theorem compile_cycle:
  assumes "compile s = Err (Cycle ids)"
  shows "ids \<noteq> [] \<and> set ids \<subseteq> c_id ` set (s_components s)
    \<and> \<not> (\<exists>rank :: comp_id \<Rightarrow> nat. \<forall>c \<in> set (s_components s). \<forall>r \<in> set (b_components (c_base c)). rank r < rank (c_id c))"
proof -
  let ?cs = "s_components s"
  note F = compile_cycle_from[OF assms]
  have d: "distinct (map c_id ?cs)" using check_ids_ok[OF F(1)] by simp
  have r: "r \<in> c_id ` set ?cs" if "c \<in> set ?cs" "r \<in> set (b_components (c_base c))" for c r
    using F(2) check_component_refs(1) that by blast
  have "\<not> (\<forall>c \<in> set ?cs. \<forall>r \<in> set (b_components (c_base c)). rank r < rank (c_id c))" for rank :: "comp_id \<Rightarrow> nat"
    using ranked_topological[OF d] r comp_order_fails(1)[OF F(3)] by blast
  moreover have "ids \<noteq> []" using comp_order_fails(2)[OF F(3)] by auto
  moreover have "set ids \<subseteq> c_id ` set ?cs"
    using F(3) by (auto simp: topological_order_def Let_def split: if_splits option.splits)
  ultimately show ?thesis by blast
qed

lemma compile_cycle_witness: "compile cyclic_schedule = Err (Cycle [''a'', ''b'']) \<and>
  \<not> (\<exists>rank :: comp_id \<Rightarrow> nat. rank ''b'' < rank ''a'' \<and> rank ''a'' < rank ''b'')"
proof -
  have c: "compile cyclic_schedule = Err (Cycle [''a'', ''b''])"
    using cyclic_schedule_fails by (auto split: result.splits)
  show ?thesis using compile_cycle[OF c] c by (auto simp: cyclic_schedule_def tax_on_def)
qed

lemma component_wellformed:
  assumes "compile s = Ok p" "c \<in> set (s_components s)"
  shows "distinct (map c_id (s_components s))
    \<and> (compounding (b_kind (c_base c)) \<longleftrightarrow> b_components (c_base c) \<noteq> [])
    \<and> (\<forall>r \<in> set (b_components (c_base c)). r \<noteq> c_id c \<and>
         (\<exists>d \<in> set (s_components s). c_id d = r \<and> rp_basis (c_policy d) = LINE))
    \<and> (c_inclusive c \<longrightarrow> rp_basis (c_policy c) = LINE \<and> rd_kind (c_rate c) \<noteq> Bracket \<and> s_extraction s \<noteq> None)"
proof -
  note C = compile_checks[OF assms(1)]
  have d: "distinct (map c_id (s_components s))" using check_ids_ok[OF C(1)] by simp
  have c: "check_component (s_components s) c = Ok ()" using C(2) assms(2) by blast
  have "compounding (b_kind (c_base c)) \<longleftrightarrow> b_components (c_base c) \<noteq> []"
    using c by (auto simp: check_component_def validate_component_def Let_def split: if_splits)
  moreover have "r \<noteq> c_id c \<and> (\<exists>d \<in> set (s_components s). c_id d = r \<and> rp_basis (c_policy d) = LINE)"
    if r: "r \<in> set (b_components (c_base c))" for r
  proof -
    obtain e where e: "e \<in> set (s_components s)" "c_id e = r" using check_component_refs(1)[OF c r] by auto
    have "check_coarse_ref (s_components s) c r = Ok ()"
      using C(3) assms(2) r by (auto simp: validate_coarse_references_def foldR_unit_Ok)
    then have "rp_basis (c_policy e) = LINE"
      using find_component_id[OF d e(1)] e(2) by (auto simp: check_coarse_ref_def coarse_def split: if_splits)
    then show ?thesis using e check_component_refs(2)[OF c r] by blast
  qed
  moreover have "rp_basis (c_policy c) = LINE \<and> rd_kind (c_rate c) \<noteq> Bracket \<and> s_extraction s \<noteq> None" if "c_inclusive c"
    using inclusive_each[OF C(6) assms(2) that] by (auto simp: flat_amount_def)
  ultimately show ?thesis using d by blast
qed

lemma subtraction_each:
  assumes "compile s = Ok p"
  shows "mset (pl_inclusive_flat p) = mset (map c_id (filter flat_amount (s_components s)))"
proof -
  note C = compile_checks[OF assms]
  have d: "distinct (map c_id (s_components s))" using check_ids_ok[OF C(1)] by simp
  then have "distinct (map c_id (filter flat_amount (s_components s)))" by (rule distinct_map_filter)
  then show ?thesis using inclusive_subtraction[OF C(6) d] by (subst set_eq_iff_mset_eq_distinct[symmetric]) simp_all
qed

lemma pools_share:
  assumes "compile s = Ok p" "c \<in> set (s_components s)" "d \<in> set (s_components s)"
    and "pool_key c = Some k" "pool_key d = Some k"
  shows "policy_string (c_policy c) = policy_string (c_policy d)"
proof -
  note C = compile_checks[OF assms(1)]
  have "distinct (map c_id (s_components s))" using check_ids_ok[OF C(1)] by simp
  then show ?thesis by (rule pool_policies_ok[OF C(4) _ assms(2-5)])
qed

text \<open>C7. An accepted schedule is well formed: identifiers are distinct, a component names base
  components exactly when its base compounds, each of them another declared component rounded per
  line, and an inclusive component rounds per line, charges no bracket and has an extraction policy. The
  subtraction order names every inclusive flat and specific component exactly once and nothing else, so
  extraction takes out each fixed amount exactly once; and components that share a rounding pool round
  under one policy, which is what lets the pool be rounded once.\<close>

theorem compile_wellformed:
  assumes "compile s = Ok p"
  shows "distinct (map c_id (s_components s))
    \<and> (\<forall>c \<in> set (s_components s).
         (compounding (b_kind (c_base c)) \<longleftrightarrow> b_components (c_base c) \<noteq> [])
       \<and> (\<forall>r \<in> set (b_components (c_base c)). r \<noteq> c_id c \<and>
           (\<exists>d \<in> set (s_components s). c_id d = r \<and> rp_basis (c_policy d) = LINE))
       \<and> (c_inclusive c \<longrightarrow> rp_basis (c_policy c) = LINE \<and> rd_kind (c_rate c) \<noteq> Bracket \<and> s_extraction s \<noteq> None))
    \<and> mset (pl_inclusive_flat p) = mset (map c_id (filter flat_amount (s_components s)))
    \<and> (\<forall>c \<in> set (s_components s). \<forall>d \<in> set (s_components s). pool_key c \<noteq> None \<and> pool_key c = pool_key d \<longrightarrow>
         policy_string (c_policy c) = policy_string (c_policy d))"
proof -
  have "distinct (map c_id (s_components s))" using check_ids_ok[OF compile_checks(1)[OF assms]] by simp
  moreover have "policy_string (c_policy c) = policy_string (c_policy d)"
    if "c \<in> set (s_components s)" "d \<in> set (s_components s)" "pool_key c \<noteq> None \<and> pool_key c = pool_key d" for c d
    using pools_share[OF assms that(1,2)] that(3) by (metis option.exhaust)
  ultimately show ?thesis using component_wellformed[OF assms] subtraction_each[OF assms] by blast
qed

lemma compile_wellformed_witness:
  "\<exists>p. compile inclusive_schedule = Ok p \<and> mset (pl_inclusive_flat p) = {#''levy''#}"
proof -
  obtain p where p: "compile inclusive_schedule = Ok p" using inclusive_schedule_compiles by (auto simp: is_ok_iff)
  show ?thesis using compile_wellformed[OF p] p
    by (simp add: inclusive_schedule_def tax_on_def flat_amount_def ad_valorem_def)
qed

end
