(* ===== verification/RuleProps.thy ===== *)
theory RuleProps
  imports RuleFacts ScheduleProps
begin

text \<open>
  The properties of rule bundles and their evaluation, with concrete bundles as witnesses.
\<close>


section \<open>A concrete bundle\<close>

definition plain_node :: "node_id \<Rightarrow> op \<Rightarrow> vtype \<Rightarrow> node_id list \<Rightarrow> node" where
  "plain_node i x t args = \<lparr>nd_id = i, nd_op = x, nd_type = t, nd_args = args, nd_const = [], nd_field = [],
     nd_cmp = CmpEq, nd_policy = None, nd_emit = [], nd_reason = [], nd_rule_version = ''v1'', nd_semantic_id = ''s''\<rparr>"

definition charge_nodes :: "node list" where
  "charge_nodes =
     [(plain_node ''out'' OpEmit TMoney [''tax''])\<lparr>nd_emit := ''vat''\<rparr>,
      (plain_node ''tax'' OpApplyRate TMoney [''net'', ''rate''])\<lparr>nd_policy := Some half_up_line\<rparr>,
      (plain_node ''rate'' OpConst TRate [])\<lparr>nd_const := ''standard''\<rparr>,
      (plain_node ''net'' OpInput TMoney [])\<lparr>nd_field := ''net''\<rparr>]"

definition charge_manifest :: "node list \<Rightarrow> unit manifest" where
  "charge_manifest ns = \<lparr>mf_id = ''b'', mf_digest = ''d'', mf_ir_version = 1, mf_nodes = ns, mf_roots = [''out''],
     mf_constants = [\<lparr>k_name = ''standard'', k_type = TRate, k_value = ''0.20'', k_currency = [], k_unit = [], k_basis = ''NET''\<rparr>],
     mf_fiscal = None, mf_taxation = None\<rparr>"

definition charge_load :: "registration list \<Rightarrow> node list \<Rightarrow> (rule_err, unit rule_bundle) result" where
  "charge_load regs ns = load regs (\<lambda>_. Err []) (\<lambda>_. []) (charge_manifest ns)"

definition charge_frame :: frame where
  "charge_frame = \<lparr>fr_decision_time = 0, fr_event_time = 0, fr_money = [''net'' \<mapsto> eur 1000], fr_rates = (\<lambda>_. None),
     fr_quantities = (\<lambda>_. None), fr_flags = (\<lambda>_. None), fr_strings = (\<lambda>_. None), fr_accumulators = (\<lambda>_. None)\<rparr>"

definition blocked_reg :: registration where
  "blocked_reg = hd (estate_codes)"

definition refuse_nodes :: "node list" where
  "refuse_nodes = (plain_node ''block'' OpRefuse TReason [])\<lparr>nd_reason := g_code blocked_reg\<rparr> # charge_nodes"

lemma charge_loads: "is_ok (charge_load [] charge_nodes)" by code_simp
lemma charge_loads_rev: "is_ok (charge_load [] (rev charge_nodes))" by code_simp
lemma refuse_loads: "is_ok (charge_load estate_codes refuse_nodes)" by code_simp

lemma charge_bundle:
  "case charge_load [] charge_nodes of Err e \<Rightarrow> False
   | Ok b \<Rightarrow> bd_order b = [''net'', ''rate'', ''tax'', ''out''] \<and> bd_nodes b = charge_nodes
       \<and> cp_rate (bd_consts b) ''standard'' = Some (percent 20)"
  by code_simp

lemmas walk_eval = eval_bundle_def find_node_def eval_node_def get_or_def input_value_def constant_value_def
  rate_charge_def with_policy_def rfisc_def money_val_def val0_def value_step_def plain_node_def

lemma charge_tax: "money_apply_rate (eur 1000) (percent 20) half_up_line = Ok (eur 200)"
  by (simp add: money_apply_rate_def eur_def percent_def half_up_line_def fiscal_eval)

lemma charge_evaluates:
  assumes "charge_load [] charge_nodes = Ok b"
  shows "\<exists>r. eval_bundle (Some b) charge_frame = Ok r \<and> \<not> er_refused r \<and> map_option v_money (er_emitted r ''vat'') = Some (eur 200)"
  using charge_bundle assms charge_tax
  by (simp add: walk_eval charge_nodes_def charge_frame_def)

lemma refuse_evaluates:
  "case charge_load estate_codes refuse_nodes of Err e \<Rightarrow> False
   | Ok b \<Rightarrow> is_ok (eval_bundle (Some b) charge_frame)"
  by code_simp

text \<open>A REFUSE node the order puts last: the result is marked refused and carries the tax emitted before it.\<close>

definition late_refusal :: "node list" where
  "late_refusal = (plain_node ''zz'' OpRefuse TReason [])\<lparr>nd_reason := g_code blocked_reg\<rparr> # charge_nodes"

lemma late_refusal_order:
  "case charge_load estate_codes late_refusal of Err e \<Rightarrow> False
   | Ok b \<Rightarrow> bd_order b = [''net'', ''rate'', ''tax'', ''out'', ''zz''] \<and> bd_nodes b = late_refusal
       \<and> cp_rate (bd_consts b) ''standard'' = Some (percent 20)"
  by code_simp

lemma refusal_keeps_figures:
  "\<exists>b r. charge_load estate_codes late_refusal = Ok b \<and> eval_bundle (Some b) charge_frame = Ok r \<and> er_refused r
    \<and> map_option v_money (er_emitted r ''vat'') = Some (eur 200)"
  using late_refusal_order charge_tax
  by (cases "charge_load estate_codes late_refusal") (simp_all add: walk_eval late_refusal_def charge_nodes_def charge_frame_def)

section \<open>Evaluation from an empty store\<close>

lemma eval_walked:
  assumes L: "load regs tax slots m = Ok b" and E: "eval_bundle (Some b) f = Ok res"
  shows "if er_refused res
    then \<exists>k n vals res'. k < length (bd_order b) \<and> n \<in> set (bd_nodes b) \<and> nd_id n = bd_order b ! k \<and> nd_op n = OpRefuse
      \<and> walked (bd_nodes b) (bd_consts b) f (take k (bd_order b)) vals res' \<and> res = refused_at n res'
    else \<exists>vals. walked (bd_nodes b) (bd_consts b) f (bd_order b) vals res"
proof -
  define res0 where "res0 = \<lparr>er_emitted = (\<lambda>_. None), er_trace = [], er_refused = False, er_reason = []\<rparr>"
  have w: "walk (bd_nodes b) (bd_consts b) f (\<lambda>_. None) res0 (bd_order b) = Ok res"
    using E by (simp add: eval_bundle_def res0_def)
  have W: "walked (bd_nodes b) (bd_consts b) f [] (\<lambda>_. None) res0" by (simp add: walked_def res0_def)
  have t: "topological (node_args (bd_nodes b)) ([] @ bd_order b)" using load_order(3)[OF L] by simp
  have a: "arity (nd_op n) = Some (length (nd_args n))" if "n \<in> set (bd_nodes b)" for n
    using load_op_valid(2)[OF L that] load_arity[OF L that] by auto
  show ?thesis
    using walk_ok[OF w W t load_ok(2)[OF L] a] find_node_Some by (auto split: if_splits) metis
qed

text \<open>A walk that completes has evaluated every node of the bundle.\<close>

lemma eval_each:
  assumes L: "load regs tax slots m = Ok b" and E: "eval_bundle (Some b) f = Ok res" and "\<not> er_refused res"
    and n: "n \<in> set (bd_nodes b)"
  shows "\<exists>vals v. nd_op n \<noteq> OpRefuse \<and> eval_node (bd_consts b) f n vals = Ok v"
proof -
  obtain vals where W: "walked (bd_nodes b) (bd_consts b) f (bd_order b) vals res"
    using eval_walked[OF L E] assms(3) by auto
  have "nd_id n \<in> dom vals" using W n load_order(2)[OF L] by (simp add: walked_def)
  then obtain v where "vals (nd_id n) = Some v" by blast
  then have "means (bd_nodes b) (bd_consts b) f (nd_id n) v" using W unfolding walked_def by blast
  moreover have "find_node (bd_nodes b) (nd_id n) = Some n"
    using find_node_id load_ok(2)[OF L] n by (simp add: any_ids_def)
  ultimately show ?thesis by (elim meansE) (simp, blast)
qed

section \<open>Properties\<close>

text \<open>C8. A loaded bundle is evaluated against its meaning: when evaluation completes without
  refusing, every emitted slot holds the meaning of a node that emits it, every emitting node's slot
  is filled, and the trace has one step per node, in the order Load fixed, arguments first.\<close>

theorem eval_means:
  assumes "load regs tax slots m = Ok b" "eval_bundle (Some b) f = Ok res" "\<not> er_refused res"
  shows "(\<forall>s v. er_emitted res s = Some v \<longrightarrow>
      (\<exists>n \<in> set (bd_nodes b). nd_op n = OpEmit \<and> nd_emit n = s \<and> means (bd_nodes b) (bd_consts b) f (nd_id n) v))
    \<and> (\<forall>n \<in> set (bd_nodes b). nd_op n = OpEmit \<longrightarrow> er_emitted res (nd_emit n) \<noteq> None)
    \<and> map rs_node (er_trace res) = bd_order b
    \<and> distinct (bd_order b) \<and> set (bd_order b) = nd_id ` set (bd_nodes b)
    \<and> topological (node_args (bd_nodes b)) (bd_order b)"
proof -
  obtain vals where "walked (bd_nodes b) (bd_consts b) f (bd_order b) vals res"
    using eval_walked[OF assms(1,2)] assms(3) by auto
  then show ?thesis using load_order(1,2,3)[OF assms(1)] by (auto simp: walked_def)
qed

lemma eval_means_witness:
  "\<exists>b r v. charge_load [] charge_nodes = Ok b \<and> eval_bundle (Some b) charge_frame = Ok r
    \<and> v_money v = eur 200 \<and> means charge_nodes (bd_consts b) charge_frame ''out'' v"
proof -
  obtain b where b: "charge_load [] charge_nodes = Ok b" using charge_loads by (auto simp: is_ok_iff)
  obtain r v where r: "eval_bundle (Some b) charge_frame = Ok r" "\<not> er_refused r"
    "er_emitted r ''vat'' = Some v" "v_money v = eur 200"
    using charge_evaluates[OF b] by auto
  have n: "bd_nodes b = charge_nodes" using charge_bundle b by simp
  have "\<exists>n \<in> set (bd_nodes b). nd_op n = OpEmit \<and> nd_emit n = ''vat'' \<and> means (bd_nodes b) (bd_consts b) charge_frame (nd_id n) v"
    using eval_means[OF b[unfolded charge_load_def] r(1,2)] r(3) by blast
  then have "means charge_nodes (bd_consts b) charge_frame ''out'' v"
    unfolding n by (auto simp: charge_nodes_def plain_node_def)
  then show ?thesis using b r by blast
qed

text \<open>C9. The meaning of a node is unique, so what a bundle emits is a function of its nodes,
  constants and frame alone: manifests that list the same nodes in any order load to bundles that
  evaluate alike on every frame, errors and trace included.\<close>

theorem eval_order_free:
  assumes "load regs tax slots m = Ok b" "load regs tax' slots' m' = Ok b'"
    and "mset (mf_nodes m) = mset (mf_nodes m')" "mf_constants m = mf_constants m'"
  shows "bd_order b = bd_order b' \<and> eval_bundle (Some b) f = eval_bundle (Some b') f"
proof -
  note B = load_ok[OF assms(1)] and B' = load_ok[OF assms(2)]
  note R = load_order[OF assms(1)] and R' = load_order[OF assms(2)]
  have m: "mset (bd_nodes b) = mset (bd_nodes b')" using B(1) B'(1) assms(3) by simp
  have fn: "find_node (bd_nodes b) = find_node (bd_nodes b')" by (rule find_node_mset[OF m B(2)])
  then have args: "node_args (bd_nodes b) = node_args (bd_nodes b')" by (simp add: node_args_def fun_eq_iff)
  have s: "nd_id ` set (bd_nodes b) = nd_id ` set (bd_nodes b')" using m by (metis mset_eq_setD)
  have len: "length (bd_order b) = length (bd_order b')" using R(1,2) R'(1,2) s by (metis distinct_card)
  have o: "bd_order b = bd_order b'"
    by (rule least_first_unique[OF R(4) _ R(3) _ R(1) R'(1) _ _ _ len]) (use R(2) R'(2,3,4) s args in auto)
  have c: "bd_consts b = bd_consts b'"
    using assms(1,2,4) by (auto simp: load_def split: if_splits)
  have "walk (bd_nodes b) p f vals res is = walk (bd_nodes b') p f vals res is" for p vals res "is"
  proof (induction "is" arbitrary: vals res)
    case (Cons i rest)
    show ?case by (simp only: walk.simps fn Cons)
  qed simp
  then show ?thesis using o c by (simp add: eval_bundle_def)
qed

lemma eval_order_free_witness:
  "\<exists>b. charge_load [] (rev charge_nodes) = Ok b \<and> is_ok (eval_bundle (Some b) charge_frame)"
proof -
  obtain b where b: "charge_load [] charge_nodes = Ok b" using charge_loads by (auto simp: is_ok_iff)
  obtain b' where b': "charge_load [] (rev charge_nodes) = Ok b'" using charge_loads_rev by (auto simp: is_ok_iff)
  have "eval_bundle (Some b) charge_frame = eval_bundle (Some b') charge_frame"
    using eval_order_free[OF b[unfolded charge_load_def] b'[unfolded charge_load_def]]
    by (simp add: charge_manifest_def)
  then show ?thesis using charge_evaluates[OF b] b' by (auto simp: is_ok_iff)
qed

text \<open>C10. A bundle that contains a REFUSE node never completes unmarked: every evaluation of it errors or is
  marked refused. The walk stops at the first REFUSE node of the order, whose registered reason the result
  takes; the trace holds the nodes up to it. What the bundle emits behind that node is withheld, while the
  slots of the EMIT nodes before it stay in the result, each with the meaning of such a node.\<close>

theorem eval_refuses:
  assumes "load regs tax slots m = Ok b" "n \<in> set (bd_nodes b)" "nd_op n = OpRefuse"
    and "eval_bundle (Some b) f = Ok res"
  shows "er_refused res \<and> registered regs (er_reason res)
    \<and> (\<exists>k r. k < length (bd_order b) \<and> r \<in> set (bd_nodes b) \<and> nd_id r = bd_order b ! k \<and> nd_op r = OpRefuse
         \<and> nd_reason r = er_reason res \<and> map rs_node (er_trace res) = take (Suc k) (bd_order b)
         \<and> (\<forall>q \<in> set (bd_nodes b). nd_id q \<in> set (take k (bd_order b)) \<longrightarrow> nd_op q \<noteq> OpRefuse)
         \<and> dom (er_emitted res) = nd_emit ` {q \<in> set (bd_nodes b). nd_op q = OpEmit \<and> nd_id q \<in> set (take k (bd_order b))}
         \<and> (\<forall>s v. er_emitted res s = Some v \<longrightarrow> (\<exists>q \<in> set (bd_nodes b). nd_op q = OpEmit \<and> nd_emit q = s
              \<and> nd_id q \<in> set (take k (bd_order b)) \<and> means (bd_nodes b) (bd_consts b) f (nd_id q) v)))"
proof -
  have r: "er_refused res" using eval_each[OF assms(1,4) _ assms(2)] assms(3) by auto
  then obtain k n vals res' where k: "k < length (bd_order b)" "n \<in> set (bd_nodes b)" "nd_id n = bd_order b ! k" "nd_op n = OpRefuse"
    and w: "walked (bd_nodes b) (bd_consts b) f (take k (bd_order b)) vals res'" and res: "res = refused_at n res'"
    using eval_walked[OF assms(1,4)] by auto
  have t: "map rs_node (er_trace res) = take (Suc k) (bd_order b)"
    using w k(1,3) by (simp add: res refused_at_def refusal_step_def walked_def take_Suc_conv_app_nth)
  note first = walked_evaluates[OF w load_ok(2)[OF assms(1)]]
  show ?thesis using r k t first walked_emitted[OF w] load_reason[OF assms(1) k(2,4)]
    by (intro conjI exI[of _ k] exI[of _ n]) (simp_all add: res refused_at_def)
qed

lemma eval_refuses_witness:
  "\<exists>b r. charge_load estate_codes refuse_nodes = Ok b \<and> eval_bundle (Some b) charge_frame = Ok r \<and> er_refused r"
proof -
  obtain b where b: "charge_load estate_codes refuse_nodes = Ok b" using refuse_loads by (auto simp: is_ok_iff)
  obtain r where r: "eval_bundle (Some b) charge_frame = Ok r" using refuse_evaluates b by (auto simp: is_ok_iff)
  have n: "bd_nodes b = refuse_nodes" using load_ok(1)[OF b[unfolded charge_load_def]] by (simp add: charge_manifest_def)
  have "hd refuse_nodes \<in> set (bd_nodes b)" "nd_op (hd refuse_nodes) = OpRefuse"
    unfolding n by (simp_all add: refuse_nodes_def plain_node_def)
  from eval_refuses[OF b[unfolded charge_load_def] this r] b r show ?thesis by blast
qed

text \<open>C11. Evaluation fails closed: it completes without refusing only when every accumulator the
  bundle reads and every typed input it names is present in the frame, and the bundle has no MUL or
  QUO, which the interpreter never evaluates.\<close>

theorem eval_fails_closed:
  assumes "load regs tax slots m = Ok b" "eval_bundle (Some b) f = Ok res" "\<not> er_refused res" "n \<in> set (bd_nodes b)"
  shows "nd_op n \<notin> {OpMul, OpQuo, OpRefuse}
    \<and> (nd_op n = OpAccumulator \<longrightarrow> nd_field n \<in> dom (fr_accumulators f))
    \<and> (nd_op n = OpInput \<longrightarrow> nd_type n = TMoney \<and> nd_field n \<in> dom (fr_money f)
         \<or> nd_type n = TRate \<and> nd_field n \<in> dom (fr_rates f)
         \<or> nd_type n = TQuantity \<and> nd_field n \<in> dom (fr_quantities f)
         \<or> nd_type n = TBool \<and> nd_field n \<in> dom (fr_flags f)
         \<or> nd_type n = TString \<and> nd_field n \<in> dom (fr_strings f))"
proof -
  obtain vals v where "nd_op n \<noteq> OpRefuse" "eval_node (bd_consts b) f n vals = Ok v"
    using eval_each[OF assms] by blast
  then show ?thesis
    by (cases "nd_op n"; cases "nd_type n") (auto simp: eval_node_def Let_def input_value_def split: option.splits)
qed

lemma eval_fails_closed_witness: "''net'' \<in> dom (fr_money charge_frame)"
proof -
  obtain b where b: "charge_load [] charge_nodes = Ok b" using charge_loads by (auto simp: is_ok_iff)
  obtain r where r: "eval_bundle (Some b) charge_frame = Ok r" "\<not> er_refused r"
    using charge_evaluates[OF b] by auto
  have n: "bd_nodes b = charge_nodes" using charge_bundle b by simp
  have "charge_nodes ! 3 \<in> set (bd_nodes b)" unfolding n by (simp add: charge_nodes_def)
  from eval_fails_closed[OF b[unfolded charge_load_def] r this] show ?thesis
    by (simp add: charge_nodes_def plain_node_def)
qed

end
