(* ===== verification/Accum.thy ===== *)
theory Accum
  imports FiscalFacts
begin

text \<open>
  \<open>backend/internal/domain/accumulator\<close>: running totals with thresholds (\<open>accumulator.go\<close>,
  \<open>threshold.go\<close>), the commit step and its replay (\<open>apply.go\<close>) and the lock order
  (\<open>lockorder.go\<close>). An instant is an integer whose zero is Go's zero \<open>time.Time\<close>; a decision
  identifier is the integer of its UUID, zero being the nil UUID.
\<close>

datatype acc_err =
    AcInvalid string string | AcIntegrity string | AcInternal | AcFiscal fiscal_err

section \<open>Keys and references (accumulator.go)\<close>

definition MaxKeyLength :: nat where "MaxKeyLength = 256"

definition printable_ascii :: "string \<Rightarrow> bool" where
  "printable_ascii s \<longleftrightarrow> list_all (\<lambda>c. (33 :: nat) \<le> of_char c \<and> (of_char c :: nat) \<le> 126) s"

definition parse_key :: "string \<Rightarrow> (acc_err, string) result" where
  "parse_key s =
     (if s = [] then Err (AcInvalid ''accumulator_key'' ''MISSING_FIELD'')
      else if length s > MaxKeyLength then Err (AcInvalid ''accumulator_key'' ''INVALID_VALUE'')
      else if \<not> printable_ascii s then Err (AcInvalid ''accumulator_key'' ''INVALID_VALUE'')
      else Ok s)"

definition validate_key :: "string \<Rightarrow> (acc_err, unit) result" where
  "validate_key k = bindR (parse_key k) (\<lambda>_. Ok ())"

record acc_ref =
  f_key :: string
  f_currency :: string

definition validate_ref :: "acc_ref \<Rightarrow> (acc_err, unit) result" where
  "validate_ref r =
     bindR (validate_key (f_key r)) (\<lambda>_.
       if f_currency r = [] then Err (AcInvalid ''currency'' ''MISSING_FIELD'') else Ok ())"

record contribution =
  n_key :: string
  n_decision :: nat
  n_amount :: money
  n_event_time :: int
  n_recorded_at :: int

definition validate_contribution :: "contribution \<Rightarrow> (acc_err, unit) result" where
  "validate_contribution c =
     bindR (validate_key (n_key c)) (\<lambda>_.
       if n_decision c = 0 then Err (AcInvalid ''source_decision_id'' ''MISSING_FIELD'')
       else if m_currency (n_amount c) = [] then Err (AcInvalid ''amount'' ''MISSING_FIELD'')
       else if n_event_time c = 0 then Err (AcInvalid ''event_time'' ''MISSING_FIELD'')
       else if n_recorded_at c = 0 then Err (AcInvalid ''recorded_at'' ''MISSING_FIELD'')
       else Ok ())"

record acc_event = contribution +
  e_seq :: int

section \<open>Thresholds (threshold.go)\<close>

definition MaxThresholdIDLength :: nat where "MaxThresholdIDLength = 128"

definition validate_threshold_id :: "string \<Rightarrow> (acc_err, unit) result" where
  "validate_threshold_id t =
     (if t = [] then Err (AcInvalid ''threshold_id'' ''MISSING_FIELD'')
      else if length t > MaxThresholdIDLength then Err (AcInvalid ''threshold_id'' ''INVALID_VALUE'')
      else if \<not> printable_ascii t then Err (AcInvalid ''threshold_id'' ''INVALID_VALUE'')
      else Ok ())"

datatype acc_comparison = AtOrAbove | Above | ComparisonOther string

fun comparison_valid :: "acc_comparison \<Rightarrow> bool" where
  "comparison_valid (ComparisonOther s) = False"
| "comparison_valid c = True"

record threshold =
  h_id :: string
  h_limit :: money
  h_comparison :: acc_comparison

definition validate_threshold :: "threshold \<Rightarrow> (acc_err, unit) result" where
  "validate_threshold t =
     bindR (validate_threshold_id (h_id t)) (\<lambda>_.
       if m_currency (h_limit t) = [] then Err (AcInvalid ''threshold.limit'' ''MISSING_FIELD'')
       else if \<not> comparison_valid (h_comparison t) then Err (AcInvalid ''threshold.comparison'' ''INVALID_VALUE'')
       else Ok ())"

definition acc_fisc :: "(fiscal_err, 'a) result \<Rightarrow> (acc_err, 'a) result" where
  "acc_fisc r = map_err AcFiscal r"

text \<open>\<open>compare\<close>: the sign of the exact difference, read off its numeric parts.\<close>

definition acc_compare :: "money \<Rightarrow> money \<Rightarrow> (acc_err, int) result" where
  "acc_compare a b =
     (if m_currency a \<noteq> m_currency b then Err (AcInvalid ''currency'' ''CURRENCY_MISMATCH'')
      else bindR (acc_fisc (money_sub a b)) (\<lambda>d.
        if money_is_zero d then Ok 0
        else bindR (acc_fisc (numeric_parts (m_amount d))) (\<lambda>p. Ok (if np_neg p then - 1 else 1))))"

definition reached :: "threshold \<Rightarrow> money \<Rightarrow> (acc_err, bool) result" where
  "reached t x =
     bindR (acc_compare x (h_limit t)) (\<lambda>c.
       case h_comparison t of
         AtOrAbove \<Rightarrow> Ok (c \<ge> 0)
       | Above \<Rightarrow> Ok (c > 0)
       | ComparisonOther s \<Rightarrow> bindR (validate_threshold t) (\<lambda>_. Ok False))"

record crossing =
  x_key :: string
  x_threshold :: threshold
  x_seq :: int
  x_decision :: nat
  x_before :: money
  x_after :: money
  x_recorded_at :: int

section \<open>Snapshots (accumulator.go)\<close>

record snapshot =
  s_key :: string
  s_total :: money
  s_last_seq :: int
  s_crossed :: "string list"
  s_updated_at :: int

definition empty_snapshot :: "acc_ref \<Rightarrow> (acc_err, snapshot) result" where
  "empty_snapshot r =
     bindR (validate_ref r) (\<lambda>_.
     bindR (acc_fisc (parse_money ''0'' (f_currency r))) (\<lambda>zero.
       Ok \<lparr>s_key = f_key r, s_total = zero, s_last_seq = 0, s_crossed = [], s_updated_at = 0\<rparr>))"

fun validate_crossed :: "string \<Rightarrow> string option \<Rightarrow> string list \<Rightarrow> (acc_err, unit) result" where
  "validate_crossed key prev [] = Ok ()"
| "validate_crossed key prev (t # ts) =
     bindR (validate_threshold_id t) (\<lambda>_.
       if (case prev of None \<Rightarrow> False | Some u \<Rightarrow> u \<ge> t) then Err (AcIntegrity key)
       else validate_crossed key (Some t) ts)"

definition validate_snapshot :: "snapshot \<Rightarrow> (acc_err, unit) result" where
  "validate_snapshot s =
     bindR (validate_key (s_key s)) (\<lambda>_.
       if m_currency (s_total s) = [] then Err (AcIntegrity (s_key s))
       else if s_last_seq s < 0 then Err (AcIntegrity (s_key s))
       else if (s_last_seq s = 0) \<noteq> (s_updated_at s = 0) then Err (AcIntegrity (s_key s))
       else validate_crossed (s_key s) None (s_crossed s))"

text \<open>
  \<open>slices.BinarySearch\<close> over \<open>[lo, hi)\<close>: the first position not below the target. The fuel
  is the length of the interval, which halving never exhausts.
\<close>

fun search_from :: "string list \<Rightarrow> string \<Rightarrow> nat \<Rightarrow> nat \<Rightarrow> nat \<Rightarrow> nat" where
  "search_from xs t 0 lo hi = lo"
| "search_from xs t (Suc fuel) lo hi =
     (if lo < hi then
        let h = (lo + hi) div 2 in
        if xs ! h < t then search_from xs t fuel (h + 1) hi else search_from xs t fuel lo h
      else lo)"

definition binary_search :: "string list \<Rightarrow> string \<Rightarrow> nat \<times> bool" where
  "binary_search xs t =
     (let i = search_from xs t (length xs) 0 (length xs) in (i, i < length xs \<and> xs ! i = t))"

definition has_crossed :: "snapshot \<Rightarrow> string \<Rightarrow> bool" where
  "has_crossed s t = snd (binary_search (s_crossed s) t)"

definition insert_at :: "nat \<Rightarrow> 'a \<Rightarrow> 'a list \<Rightarrow> 'a list" where
  "insert_at i x xs = take i xs @ x # drop i xs"

definition snapshot_ref :: "snapshot \<Rightarrow> acc_ref" where
  "snapshot_ref s = \<lparr>f_key = s_key s, f_currency = m_currency (s_total s)\<rparr>"

record observation =
  o_key :: string
  o_total :: money
  o_observed_seq :: int

definition authoritative :: "observation \<Rightarrow> bool" where
  "authoritative o1 = False"

section \<open>The commit step (apply.go)\<close>

definition MaxInt64 :: int where "MaxInt64 = 9223372036854775807"

fun check_ordered :: "acc_ref \<Rightarrow> string option \<Rightarrow> threshold list \<Rightarrow> (acc_err, unit) result" where
  "check_ordered r prev [] = Ok ()"
| "check_ordered r prev (t # ts) =
     bindR (validate_threshold t) (\<lambda>_.
       if m_currency (h_limit t) \<noteq> f_currency r then Err (AcInvalid ''currency'' ''CURRENCY_MISMATCH'')
       else if prev = Some (h_id t) then Err (AcInvalid ''thresholds'' ''INVALID_VALUE'')
       else check_ordered r (Some (h_id t)) ts)"

definition check_thresholds :: "acc_ref \<Rightarrow> threshold list \<Rightarrow> (acc_err, threshold list) result" where
  "check_thresholds r ts =
     (let ordered = sort_key h_id ts in bindR (check_ordered r None ordered) (\<lambda>_. Ok ordered))"

text \<open>One threshold of the loop: the crossed set and the crossings so far.\<close>

definition cross_step ::
  "snapshot \<Rightarrow> contribution \<Rightarrow> money \<Rightarrow> string list \<times> crossing list \<Rightarrow> threshold \<Rightarrow>
   (acc_err, string list \<times> crossing list) result" where
  "cross_step s c after = (\<lambda>(crossed, out) t.
     if has_crossed s (h_id t) then Ok (crossed, out)
     else bindR (reached t after) (\<lambda>hit.
       if \<not> hit then Ok (crossed, out)
       else Ok (insert_at (fst (binary_search crossed (h_id t))) (h_id t) crossed,
                out @ [\<lparr>x_key = s_key s, x_threshold = t, x_seq = s_last_seq s + 1,
                        x_decision = n_decision c, x_before = s_total s, x_after = after,
                        x_recorded_at = n_recorded_at c\<rparr>])))"

definition apply_contribution ::
  "snapshot \<Rightarrow> contribution \<Rightarrow> threshold list \<Rightarrow> (acc_err, snapshot \<times> crossing list) result" where
  "apply_contribution s c thresholds =
     bindR (validate_snapshot s) (\<lambda>_.
     bindR (validate_contribution c) (\<lambda>_.
       if n_key c \<noteq> s_key s then Err AcInternal
       else if m_currency (n_amount c) \<noteq> m_currency (s_total s) then Err (AcInvalid ''currency'' ''CURRENCY_MISMATCH'')
       else if s_last_seq s = MaxInt64 then Err (AcIntegrity (s_key s))
       else
         bindR (check_thresholds (snapshot_ref s) thresholds) (\<lambda>ordered.
         bindR (acc_fisc (money_add (s_total s) (n_amount c))) (\<lambda>after.
         bindR (foldR (cross_step s c after) (s_crossed s, []) ordered) (\<lambda>(crossed, crossings).
           Ok (\<lparr>s_key = s_key s, s_total = after, s_last_seq = s_last_seq s + 1,
                s_crossed = crossed, s_updated_at = n_recorded_at c\<rparr>, crossings))))))"

section \<open>Replay and rebuild\<close>

definition replay_step ::
  "acc_ref \<Rightarrow> threshold list \<Rightarrow> snapshot \<times> nat list \<times> crossing list \<Rightarrow> acc_event \<Rightarrow>
   (acc_err, snapshot \<times> nat list \<times> crossing list) result" where
  "replay_step r thresholds = (\<lambda>(s, seen, out) e.
     if e_seq e \<noteq> s_last_seq s + 1 then Err (AcIntegrity (f_key r))
     else if n_decision e \<in> set seen then Err (AcIntegrity (f_key r))
     else bindR (apply_contribution s (contribution.truncate e) thresholds) (\<lambda>(next, crossed).
       Ok (next, seen @ [n_decision e], out @ crossed)))"

definition replay ::
  "acc_ref \<Rightarrow> acc_event list \<Rightarrow> threshold list \<Rightarrow> (acc_err, snapshot \<times> crossing list) result" where
  "replay r events thresholds =
     bindR (empty_snapshot r) (\<lambda>s.
     bindR (foldR (replay_step r thresholds) (s, [], []) events) (\<lambda>(s, seen, out). Ok (s, out)))"

definition rebuild_step :: "acc_ref \<Rightarrow> snapshot \<Rightarrow> string list \<Rightarrow> crossing \<Rightarrow> (acc_err, string list) result" where
  "rebuild_step r s out c =
     (if x_key c \<noteq> f_key r then Err (AcIntegrity (f_key r))
      else if x_seq c < 1 \<or> x_seq c > s_last_seq s then Err (AcIntegrity (f_key r))
      else bindR (validate_threshold_id (h_id (x_threshold c))) (\<lambda>_. Ok (out @ [h_id (x_threshold c)])))"

fun compact :: "string list \<Rightarrow> string list" where
  "compact (x # y # ys) = (if x = y then compact (y # ys) else x # compact (y # ys))"
| "compact xs = xs"

definition rebuild :: "acc_ref \<Rightarrow> acc_event list \<Rightarrow> crossing list \<Rightarrow> (acc_err, snapshot) result" where
  "rebuild r events crossings =
     bindR (replay r events []) (\<lambda>(s, _).
     bindR (foldR (rebuild_step r s) [] crossings) (\<lambda>crossed.
       let crossed = sort crossed in
       if length (compact crossed) \<noteq> length crossed then Err (AcIntegrity (f_key r))
       else Ok (s\<lparr>s_crossed := crossed\<rparr>)))"

section \<open>The lock order (lockorder.go)\<close>

definition lock_order :: "string list \<Rightarrow> string list" where
  "lock_order keys = compact (sort keys)"

end
