(* ===== verification/ExactSum.thy ===== *)
theory ExactSum
  imports FiscalFacts
begin

text \<open>
  The interface of every running total: an addition that is exact or fails, with the facts about loops over
  it, interpreted on the additions of the fiscal package.
\<close>


section \<open>The interface\<close>

text \<open>
  An addition that is exact or fails: what every running total in the repository relies on. The
  value of a sum is the sum of the values, and a loop that adds up a list ends at the exact total.
\<close>

locale exact_sum =
  fixes add :: "'a \<Rightarrow> 'a \<Rightarrow> ('e, 'a) result" and val :: "'a \<Rightarrow> rat" and wf :: "'a \<Rightarrow> bool"
  assumes add_wf: "wf x \<Longrightarrow> wf y \<Longrightarrow> add x y = Ok z \<Longrightarrow> wf z"
    and add_val: "wf x \<Longrightarrow> wf y \<Longrightarrow> add x y = Ok z \<Longrightarrow> val z = val x + val y"
begin

lemma total:
  assumes "foldR add z xs = Ok s" "wf z" "\<forall>x \<in> set xs. wf x"
  shows "wf s \<and> val s = val z + (\<Sum>x\<leftarrow>xs. val x)"
  using assms
proof (induction xs arbitrary: z)
  case (Cons x xs)
  then obtain y where y: "add z x = Ok y" "foldR add y xs = Ok s" by auto
  have "wf y" "val y = val z + val x" using add_wf[OF _ _ y(1)] add_val[OF _ _ y(1)] Cons.prems by auto
  then show ?case using Cons.IH[OF y(2)] Cons.prems by simp
qed simp

text \<open>A loop that adds something computed from each element.\<close>

lemma total_of:
  assumes "foldR (\<lambda>s x. bindR (f x) (add s)) z xs = Ok s" "wf z"
    and "\<And>x y. x \<in> set xs \<Longrightarrow> f x = Ok y \<Longrightarrow> wf y \<and> val y = g x"
  shows "wf s \<and> val s = val z + (\<Sum>x\<leftarrow>xs. g x)"
  using assms
proof (induction xs arbitrary: z)
  case (Cons x xs)
  from Cons.prems(1) obtain d y where y: "f x = Ok d" "add z d = Ok y" "foldR (\<lambda>s x. bindR (f x) (add s)) y xs = Ok s"
    by auto
  have d: "wf d" "val d = g x" using Cons.prems(3)[OF _ y(1)] by auto
  have "wf y" "val y = val z + g x" using add_wf[OF _ d(1) y(2)] add_val[OF _ d(1) y(2)] Cons.prems(2) d(2) by auto
  moreover have "wf s \<and> val s = val y + (\<Sum>x\<leftarrow>xs. g x)"
    by (rule Cons.IH[OF y(3)]) (use calculation Cons.prems(3) in auto)
  ultimately show ?case by simp
qed simp

end

section \<open>The repository's additions\<close>

definition wf_money :: "money \<Rightarrow> bool" where
  "wf_money m \<longleftrightarrow> wf_dec (m_amount m)"

definition amount_of :: "money \<Rightarrow> rat" where
  "amount_of m = dec_val (m_amount m)"

interpretation decimals: exact_sum fadd dec_val wf_dec
  by unfold_locales (use fadd_exact in blast)+

interpretation moneys: exact_sum money_add amount_of wf_money
  by unfold_locales (auto simp: money_add_def amount_of_def wf_money_def dest: fadd_exact split: if_splits)

interpretation quantities: exact_sum quantity_add "\<lambda>q. dec_val (q_amount q)" "\<lambda>q. wf_dec (q_amount q)"
  by unfold_locales (auto simp: quantity_add_def dest: fadd_exact split: if_splits)

interpretation factors: exact_sum factor_add "\<lambda>f. dec_val (f_value f)" "\<lambda>f. wf_dec (f_value f)"
  by unfold_locales (auto simp: factor_add_def dest: fadd_exact)

lemma parse_zero: "parse_decimal ''0'' = Ok dec0"
  by code_simp

lemma parse_money_zero:
  "parse_money ''0'' cur = Ok z \<Longrightarrow> wf_money z \<and> amount_of z = 0 \<and> m_currency z = cur"
  by (auto simp: parse_money_def parse_zero wf_money_def amount_of_def wf_dec_def dec0_def dec_val_def split: if_splits)

lemma money_add_props:
  assumes "money_add x y = Ok z"
  shows "m_currency z = m_currency x" "m_currency y = m_currency x"
  using assms by (auto simp: money_add_def split: if_splits)

lemma money_sub_props:
  assumes "money_sub x y = Ok z" 
  shows "m_currency z = m_currency x" "m_currency y = m_currency x"
    "wf_money x \<Longrightarrow> wf_money y \<Longrightarrow> wf_money z \<and> amount_of z = amount_of x - amount_of y"
  using assms by (auto simp: money_sub_def wf_money_def amount_of_def dest: fsub_exact split: if_splits)

end
