(* ===== verification/AccumFacts.thy ===== *)
theory AccumFacts
  imports Accum ExactSum
begin

text \<open>
  The accumulator's operations against their specification: the binary search, well-formed snapshots, the
  threshold loop of a commit, replay, rebuild, the lock order.
\<close>


section \<open>Binary search\<close>

lemma search_from_ok:
  assumes "sorted_wrt (<) xs" "lo \<le> hi" "hi \<le> length xs" "hi - lo \<le> fuel"
    and "\<forall>i < lo. xs ! i < t" "\<forall>i. hi \<le> i \<longrightarrow> i < length xs \<longrightarrow> t \<le> xs ! i"
  shows "search_from xs t fuel lo hi \<le> length xs
    \<and> (\<forall>i < search_from xs t fuel lo hi. xs ! i < t)
    \<and> (\<forall>i. search_from xs t fuel lo hi \<le> i \<longrightarrow> i < length xs \<longrightarrow> t \<le> xs ! i)"
  using assms
proof (induction fuel arbitrary: lo hi)
  case (Suc fuel)
  define h where "h = (lo + hi) div 2"
  show ?case
  proof (cases "lo < hi")
    case True
    have h: "lo \<le> h" "h < hi" using True by (auto simp: h_def)
    have mono: "xs ! i \<le> xs ! j" if "i \<le> j" "j < length xs" for i j
      using Suc.prems(1) that by (cases "i = j") (auto simp: sorted_wrt_iff_nth_less less_imp_le)
    have step: "search_from xs t (Suc fuel) lo hi =
        (if xs ! h < t then search_from xs t fuel (Suc h) hi else search_from xs t fuel lo h)"
      using True by (simp add: h_def Let_def)
    show ?thesis
    proof (cases "xs ! h < t")
      case lt: True
      have "xs ! i \<le> xs ! h" if "i < Suc h" for i
        using that h Suc.prems(3) by (intro mono) auto
      then have "\<forall>i < Suc h. xs ! i < t" using lt by (blast intro: le_less_trans)
      moreover have "Suc h \<le> hi" "hi - Suc h \<le> fuel" using h Suc.prems(4) by auto
      ultimately show ?thesis
        unfolding step if_P[OF lt] using Suc.IH[of "Suc h" hi] Suc.prems(1,3,6) by blast
    next
      case ge: False
      have "xs ! h \<le> xs ! i" if "h \<le> i" "i < length xs" for i
        using that by (intro mono) auto
      then have "\<forall>i. h \<le> i \<longrightarrow> i < length xs \<longrightarrow> t \<le> xs ! i" using ge by (meson not_le order_trans)
      moreover have "h \<le> length xs" "h - lo \<le> fuel" using h Suc.prems(3,4) by auto
      ultimately show ?thesis
        unfolding step if_not_P[OF ge] using Suc.IH[of lo h] Suc.prems(1,5) h(1) by blast
    qed
  next
    case False
    then show ?thesis using Suc.prems by auto
  qed
qed auto

lemma binary_search_ok:
  assumes "sorted_wrt (<) xs"
  shows "snd (binary_search xs t) \<longleftrightarrow> t \<in> set xs"
    and "fst (binary_search xs t) \<le> length xs"
    and "\<forall>x \<in> set (take (fst (binary_search xs t)) xs). x < t"
    and "\<forall>x \<in> set (drop (fst (binary_search xs t)) xs). t \<le> x"
proof -
  let ?i = "search_from xs t (length xs) 0 (length xs)"
  have S: "?i \<le> length xs \<and> (\<forall>i < ?i. xs ! i < t) \<and> (\<forall>i. ?i \<le> i \<longrightarrow> i < length xs \<longrightarrow> t \<le> xs ! i)"
    by (rule search_from_ok[OF assms]) simp_all
  show "fst (binary_search xs t) \<le> length xs" using S by (simp add: binary_search_def Let_def)
  show "\<forall>x \<in> set (take (fst (binary_search xs t)) xs). x < t"
    using S by (auto simp: binary_search_def Let_def in_set_conv_nth)
  show "\<forall>x \<in> set (drop (fst (binary_search xs t)) xs). t \<le> x"
    using S by (auto simp: binary_search_def Let_def in_set_conv_nth)
  have "t \<in> set xs \<longleftrightarrow> ?i < length xs \<and> xs ! ?i = t"
  proof
    assume "t \<in> set xs"
    then obtain j where j: "j < length xs" "xs ! j = t" by (auto simp: in_set_conv_nth)
    have "?i \<le> j" using S j by (meson less_irrefl not_le)
    then have "?i < length xs" "t \<le> xs ! ?i" using S j(1) by auto
    moreover have "xs ! ?i \<le> xs ! j"
      using \<open>?i \<le> j\<close> j(1) assms by (cases "?i = j") (auto simp: sorted_wrt_iff_nth_less less_imp_le)
    ultimately show "?i < length xs \<and> xs ! ?i = t" using j(2) by auto
  next
    assume "?i < length xs \<and> xs ! ?i = t"
    then show "t \<in> set xs" by (elim conjE) (metis nth_mem)
  qed
  then show "snd (binary_search xs t) \<longleftrightarrow> t \<in> set xs" unfolding binary_search_def Let_def snd_conv by (rule sym)
qed

lemma insert_at_ok:
  assumes "sorted_wrt (<) xs" "t \<notin> set xs"
  defines "ys \<equiv> insert_at (fst (binary_search xs t)) t xs"
  shows "sorted_wrt (<) ys" "set ys = insert t (set xs)"
proof -
  let ?i = "fst (binary_search xs t)"
  note B = binary_search_ok[OF assms(1), of t]
  have sp: "xs = take ?i xs @ drop ?i xs" by simp
  have "\<forall>x \<in> set (drop ?i xs). t < x" using B(4) assms(2) by (metis in_set_dropD order_le_less)
  moreover have "sorted_wrt (<) (take ?i xs)" "sorted_wrt (<) (drop ?i xs)"
    "\<forall>x \<in> set (take ?i xs). \<forall>y \<in> set (drop ?i xs). x < y"
    using assms(1) sp by (metis sorted_wrt_append)+
  ultimately show "sorted_wrt (<) ys"
    using B(3) by (simp add: ys_def insert_at_def sorted_wrt_append)
  have "set ys = insert t (set (take ?i xs) \<union> set (drop ?i xs))" by (simp add: ys_def insert_at_def)
  then show "set ys = insert t (set xs)" by (metis sp set_append)
qed

section \<open>Well-formed snapshots\<close>

lemma validate_crossed_iff:
  "validate_crossed key prev ts = Ok () \<longleftrightarrow>
     (\<forall>t \<in> set ts. validate_threshold_id t = Ok ()) \<and> sorted_wrt (<) ts
     \<and> (case prev of None \<Rightarrow> True | Some u \<Rightarrow> \<forall>t \<in> set ts. u < t)"
proof (induction key prev ts rule: validate_crossed.induct)
  case (2 key prev t ts)
  show ?case
  proof (cases prev)
    case None
    then show ?thesis using 2 by auto
  next
    case (Some u)
    have "u < t \<and> (\<forall>x \<in> set ts. t < x) \<Longrightarrow> \<forall>x \<in> set ts. u < x" by (auto intro: less_trans)
    then show ?thesis using 2 Some by (auto simp: not_le)
  qed
qed (auto split: option.splits)

lemma validate_snapshot_iff:
  "validate_snapshot s = Ok () \<longleftrightarrow>
     validate_key (s_key s) = Ok () \<and> m_currency (s_total s) \<noteq> [] \<and> 0 \<le> s_last_seq s
     \<and> (s_last_seq s = 0 \<longleftrightarrow> s_updated_at s = 0)
     \<and> (\<forall>t \<in> set (s_crossed s). validate_threshold_id t = Ok ()) \<and> sorted_wrt (<) (s_crossed s)"
  by (auto simp: validate_snapshot_def validate_crossed_iff)

lemma has_crossed_iff: "validate_snapshot s = Ok () \<Longrightarrow> has_crossed s t \<longleftrightarrow> t \<in> set (s_crossed s)"
  by (simp add: has_crossed_def binary_search_ok validate_snapshot_iff)

section \<open>Comparison and thresholds\<close>

lemma acc_compare_ok:
  assumes "acc_compare a b = Ok c" "wf_money a" "wf_money b"
  shows "m_currency a = m_currency b" "c = rat_cmp (amount_of a) (amount_of b)"
proof -
  obtain d where cur: "m_currency a = m_currency b" and d: "money_sub a b = Ok d"
    and c: "c = (if money_is_zero d then 0 else if d_neg (m_amount d) then - 1 else 1)"
    using assms(1) by (auto simp: acc_compare_def acc_fisc_def numeric_parts_def split: if_splits)
  show "m_currency a = m_currency b" by fact
  have v: "wf_dec (m_amount d)" "dec_val (m_amount d) = amount_of a - amount_of b"
    using money_sub_props(3)[OF d assms(2,3)] by (simp_all add: wf_money_def amount_of_def)
  have z: "money_is_zero d \<longleftrightarrow> amount_of a = amount_of b"
    using v by (simp add: money_is_zero_def dec_is_zero_iff)
  have "dec_sign (m_amount d) = (if d_neg (m_amount d) then - 1 else 1)" if "\<not> money_is_zero d"
    using that by (simp add: money_is_zero_def dec_is_zero_def dec_sign_def split: if_splits)
  then show "c = rat_cmp (amount_of a) (amount_of b)"
    using c z v(2) dec_val_sign[OF v(1)] by (auto simp: rat_cmp_def split: if_splits)
qed

text \<open>A threshold is reached exactly when the total is at or above, or above, its limit.\<close>

definition over :: "threshold \<Rightarrow> rat \<Rightarrow> bool" where
  "over t x \<longleftrightarrow> (if h_comparison t = AtOrAbove then amount_of (h_limit t) \<le> x else amount_of (h_limit t) < x)"

lemma reached_ok:
  assumes "reached t x = Ok b" "wf_money x" "wf_money (h_limit t)" "validate_threshold t = Ok ()"
  shows "b \<longleftrightarrow> over t (amount_of x)"
proof -
  obtain c where c: "acc_compare x (h_limit t) = Ok c" using assms(1) by (auto simp: reached_def)
  have v: "comparison_valid (h_comparison t)" using assms(4) by (auto simp: validate_threshold_def split: if_splits)
  show ?thesis
    using assms(1) v c acc_compare_ok(2)[OF c assms(2,3)]
    by (cases "h_comparison t") (auto simp: reached_def over_def rat_cmp_def split: if_splits)
qed

lemma check_ordered_ok:
  "check_ordered r prev ts = Ok () \<Longrightarrow> sorted (map h_id ts) \<Longrightarrow> (\<forall>u. prev = Some u \<longrightarrow> (\<forall>t \<in> set ts. u \<le> h_id t)) \<Longrightarrow>
    (\<forall>t \<in> set ts. validate_threshold t = Ok () \<and> m_currency (h_limit t) = f_currency r)
    \<and> sorted_wrt (<) (map h_id ts) \<and> (\<forall>u. prev = Some u \<longrightarrow> (\<forall>t \<in> set ts. u < h_id t))"
proof (induction r prev ts rule: check_ordered.induct)
  case (2 r prev t ts)
  then have v: "validate_threshold t = Ok ()" "m_currency (h_limit t) = f_currency r" "prev \<noteq> Some (h_id t)"
    and r: "check_ordered r (Some (h_id t)) ts = Ok ()"
    by (auto split: if_splits)
  have IH: "(\<forall>t \<in> set ts. validate_threshold t = Ok () \<and> m_currency (h_limit t) = f_currency r)
    \<and> sorted_wrt (<) (map h_id ts) \<and> (\<forall>u. Some (h_id t) = Some u \<longrightarrow> (\<forall>t \<in> set ts. u < h_id t))"
    by (rule "2.IH") (use 2 v r in auto)
  moreover have "\<forall>u. prev = Some u \<longrightarrow> u < h_id t" using "2.prems"(3) v(3) by (auto simp: order.strict_iff_order)
  ultimately show ?case using v by (auto dest: less_trans)
qed simp

lemma check_thresholds_ok:
  assumes "check_thresholds r ts = Ok ordered"
  shows "mset ordered = mset ts" "sorted_wrt (<) (map h_id ordered)"
    and "\<forall>t \<in> set ts. validate_threshold t = Ok () \<and> m_currency (h_limit t) = f_currency r"
  using assms check_ordered_ok[of r None "sort_key h_id ts"] sorted_sort_key[of h_id ts]
  by (auto simp: check_thresholds_def Let_def)

section \<open>The threshold loop\<close>

text \<open>
  After a prefix of the thresholds: the crossed set is the prior one with the newly reached
  identifiers, still strictly ordered, and the crossings are exactly those, in order.
\<close>

lemma cross_loop:
  assumes "foldR (cross_step s c after) (crossed, out) ts = Ok (crossed', out')"
    and s: "validate_snapshot s = Ok ()" and after: "wf_money after"
    and ts: "\<forall>t \<in> set ts. validate_threshold t = Ok () \<and> wf_money (h_limit t)" "sorted_wrt (<) (map h_id ts)"
    and C: "sorted_wrt (<) crossed" "set (s_crossed s) \<subseteq> set crossed"
      "\<forall>t \<in> set ts. h_id t \<notin> set crossed - set (s_crossed s)"
  shows "sorted_wrt (<) crossed' \<and>
    set crossed' = set crossed \<union> h_id ` {t \<in> set ts. h_id t \<notin> set (s_crossed s) \<and> over t (amount_of after)} \<and>
    map x_threshold out' = map x_threshold out @ filter (\<lambda>t. h_id t \<notin> set (s_crossed s) \<and> over t (amount_of after)) ts \<and>
    (\<forall>x \<in> set out' - set out. x_key x = s_key s \<and> x_seq x = s_last_seq s + 1 \<and> x_decision x = n_decision c
       \<and> x_before x = s_total s \<and> x_after x = after)"
  using assms(1) ts C
proof (induction ts arbitrary: crossed out)
  case (Cons t ts)
  from Cons.prems(1) obtain mid where m: "cross_step s c after (crossed, out) t = Ok mid"
    "foldR (cross_step s c after) mid ts = Ok (crossed', out')" by auto
  obtain cr o1 where mid: "mid = (cr, o1)" by (cases mid)
  show ?case
  proof (cases "h_id t \<in> set (s_crossed s)")
    case True
    then have e: "mid = (crossed, out)" using m(1) has_crossed_iff[OF s] by (simp add: cross_step_def)
    show ?thesis using Cons.IH[OF m(2)[unfolded e]] Cons.prems True by auto
  next
    case False
    then obtain hit where r: "reached t after = Ok hit" using m(1) has_crossed_iff[OF s] by (auto simp: cross_step_def)
    have h: "hit \<longleftrightarrow> over t (amount_of after)" using reached_ok[OF r after] Cons.prems(2) by simp
    show ?thesis
    proof (cases hit)
      case no: False
      then have e: "mid = (crossed, out)" using m(1) has_crossed_iff[OF s] False r by (simp add: cross_step_def)
      show ?thesis using Cons.IH[OF m(2)[unfolded e]] Cons.prems False h no by auto
    next
      case yes: True
      have new: "h_id t \<notin> set crossed" using Cons.prems(6) False by auto
      note I = insert_at_ok[OF Cons.prems(4) new]
      have e: "cr = insert_at (fst (binary_search crossed (h_id t))) (h_id t) crossed"
        and o1: "map x_threshold o1 = map x_threshold out @ [t]"
          "\<forall>x \<in> set o1 - set out. x_key x = s_key s \<and> x_seq x = s_last_seq s + 1 \<and> x_decision x = n_decision c
            \<and> x_before x = s_total s \<and> x_after x = after" "set out \<subseteq> set o1"
      proof -
        have "mid = (insert_at (fst (binary_search crossed (h_id t))) (h_id t) crossed,
            out @ [\<lparr>x_key = s_key s, x_threshold = t, x_seq = s_last_seq s + 1, x_decision = n_decision c,
              x_before = s_total s, x_after = after, x_recorded_at = n_recorded_at c\<rparr>])"
          using m(1) has_crossed_iff[OF s] False r yes by (simp add: cross_step_def)
        then show "cr = insert_at (fst (binary_search crossed (h_id t))) (h_id t) crossed"
          "map x_threshold o1 = map x_threshold out @ [t]"
          "\<forall>x \<in> set o1 - set out. x_key x = s_key s \<and> x_seq x = s_last_seq s + 1 \<and> x_decision x = n_decision c
            \<and> x_before x = s_total s \<and> x_after x = after" "set out \<subseteq> set o1"
          using mid by auto
      qed
      have crs: "set cr = insert (h_id t) (set crossed)" using I(2) e by simp
      have "\<forall>u \<in> set ts. h_id u \<noteq> h_id t" using Cons.prems(3) by auto
      then have "\<forall>u \<in> set ts. h_id u \<notin> set cr - set (s_crossed s)" using crs Cons.prems(6) by auto
      moreover have "sorted_wrt (<) cr" "set (s_crossed s) \<subseteq> set cr" using I e crs Cons.prems(5) by auto
      ultimately have "sorted_wrt (<) cr" "set (s_crossed s) \<subseteq> set cr" "\<forall>u \<in> set ts. h_id u \<notin> set cr - set (s_crossed s)"
        by blast+
      then have IH: "sorted_wrt (<) crossed' \<and>
        set crossed' = set cr \<union> h_id ` {t \<in> set ts. h_id t \<notin> set (s_crossed s) \<and> over t (amount_of after)} \<and>
        map x_threshold out' = map x_threshold o1 @ filter (\<lambda>t. h_id t \<notin> set (s_crossed s) \<and> over t (amount_of after)) ts \<and>
        (\<forall>x \<in> set out' - set o1. x_key x = s_key s \<and> x_seq x = s_last_seq s + 1 \<and> x_decision x = n_decision c
           \<and> x_before x = s_total s \<and> x_after x = after)"
        using Cons.IH[OF m(2)[unfolded mid]] Cons.prems(2,3) by simp
      have "set out' - set out \<subseteq> (set out' - set o1) \<union> (set o1 - set out)" by blast
      then have "\<forall>x \<in> set out' - set out. x_key x = s_key s \<and> x_seq x = s_last_seq s + 1 \<and> x_decision x = n_decision c
        \<and> x_before x = s_total s \<and> x_after x = after"
        using IH o1(2) by blast
      moreover have "map x_threshold out' = map x_threshold out @ filter (\<lambda>t. h_id t \<notin> set (s_crossed s) \<and> over t (amount_of after)) (t # ts)"
        using IH o1(1) False h yes by simp
      moreover have "{u \<in> set (t # ts). h_id u \<notin> set (s_crossed s) \<and> over u (amount_of after)} =
          insert t {u \<in> set ts. h_id u \<notin> set (s_crossed s) \<and> over u (amount_of after)}"
        using False h yes by auto
      ultimately show ?thesis using IH crs by simp
    qed
  qed
qed simp


section \<open>One commit\<close>

definition wf_thresholds :: "threshold list \<Rightarrow> bool" where
  "wf_thresholds ts \<longleftrightarrow> (\<forall>t \<in> set ts. wf_money (h_limit t))"

lemma apply_ok:
  assumes A: "apply_contribution s c ts = Ok (s', xs)"
    and wf: "wf_money (s_total s)" "wf_money (n_amount c)" "wf_thresholds ts"
  shows "validate_snapshot s = Ok ()" "validate_snapshot s' = Ok ()" "s_key s' = s_key s" "n_key c = s_key s"
    and "s_last_seq s' = s_last_seq s + 1" "s_last_seq s \<noteq> MaxInt64"
    and "wf_money (s_total s')" "amount_of (s_total s') = amount_of (s_total s) + amount_of (n_amount c)"
    and "m_currency (s_total s') = m_currency (s_total s)"
    and "set (s_crossed s') = set (s_crossed s) \<union> h_id ` {t \<in> set ts. h_id t \<notin> set (s_crossed s) \<and> over t (amount_of (s_total s'))}"
    and "mset (map x_threshold xs) = mset (filter (\<lambda>t. h_id t \<notin> set (s_crossed s) \<and> over t (amount_of (s_total s'))) ts)"
    and "distinct (map (h_id \<circ> x_threshold) xs)" "distinct (map h_id ts)"
    and "\<forall>x \<in> set xs. x_key x = s_key s \<and> x_seq x = s_last_seq s + 1 \<and> x_decision x = n_decision c
       \<and> x_before x = s_total s \<and> x_after x = s_total s'"
    and "\<forall>t \<in> set ts. validate_threshold t = Ok ()"
proof -
  obtain after ordered where v: "validate_snapshot s = Ok ()" "validate_contribution c = Ok ()"
    and k: "n_key c = s_key s" "s_last_seq s \<noteq> MaxInt64"
    and o: "check_thresholds (snapshot_ref s) ts = Ok ordered"
    and a: "money_add (s_total s) (n_amount c) = Ok after"
    and l: "foldR (cross_step s c after) (s_crossed s, []) ordered = Ok (s_crossed s', xs)"
    and s': "s' = \<lparr>s_key = s_key s, s_total = after, s_last_seq = s_last_seq s + 1,
                s_crossed = s_crossed s', s_updated_at = n_recorded_at c\<rparr>"
    using A by (auto simp: apply_contribution_def acc_fisc_def split: if_splits prod.splits)
  have t: "s_total s' = after" "s_last_seq s' = s_last_seq s + 1" "s_key s' = s_key s" "s_updated_at s' = n_recorded_at c"
    by (subst s', simp)+
  note O = check_thresholds_ok[OF o]
  have so: "set ordered = set ts" using O(1) by (rule mset_eq_setD)
  have wa: "wf_money after" "amount_of after = amount_of (s_total s) + amount_of (n_amount c)"
    using moneys.add_wf[OF wf(1,2) a] moneys.add_val[OF wf(1,2) a] .
  note S = v(1)[unfolded validate_snapshot_iff]
  have L: "sorted_wrt (<) (s_crossed s') \<and>
    set (s_crossed s') = set (s_crossed s) \<union> h_id ` {t \<in> set ordered. h_id t \<notin> set (s_crossed s) \<and> over t (amount_of after)} \<and>
    map x_threshold xs = map x_threshold ([] :: crossing list) @ filter (\<lambda>t. h_id t \<notin> set (s_crossed s) \<and> over t (amount_of after)) ordered \<and>
    (\<forall>x \<in> set xs - set []. x_key x = s_key s \<and> x_seq x = s_last_seq s + 1 \<and> x_decision x = n_decision c
       \<and> x_before x = s_total s \<and> x_after x = after)"
    by (rule cross_loop[OF l v(1) wa(1)]) (use O(2,3) so wf(3) S in \<open>auto simp: wf_thresholds_def\<close>)
  show "validate_snapshot s = Ok ()" "n_key c = s_key s" "s_last_seq s \<noteq> MaxInt64" by fact+
  show "s_key s' = s_key s" "s_last_seq s' = s_last_seq s + 1" by (rule t)+
  show "wf_money (s_total s')" "amount_of (s_total s') = amount_of (s_total s) + amount_of (n_amount c)"
    using wa t(1) by simp_all
  show "m_currency (s_total s') = m_currency (s_total s)" using money_add_props(1)[OF a] t(1) by simp
  show C: "set (s_crossed s') = set (s_crossed s) \<union> h_id ` {t \<in> set ts. h_id t \<notin> set (s_crossed s) \<and> over t (amount_of (s_total s'))}"
    using L so t(1) by simp
  show "mset (map x_threshold xs) = mset (filter (\<lambda>t. h_id t \<notin> set (s_crossed s) \<and> over t (amount_of (s_total s'))) ts)"
    using L O(1) t(1) by (simp add: mset_filter)
  have d: "distinct (map h_id ordered)" using O(2) by (simp add: strict_sorted_iff)
  have "map (h_id \<circ> x_threshold) xs = map h_id (map x_threshold xs)" by simp
  also have "\<dots> = map h_id (filter (\<lambda>t. h_id t \<notin> set (s_crossed s) \<and> over t (amount_of after)) ordered)" using L by simp
  finally show "distinct (map (h_id \<circ> x_threshold) xs)" using d by (simp add: distinct_map_filter)
  show "distinct (map h_id ts)" using d O(1) by (metis mset_eq_imp_distinct_iff mset_map)
  show "\<forall>x \<in> set xs. x_key x = s_key s \<and> x_seq x = s_last_seq s + 1 \<and> x_decision x = n_decision c
       \<and> x_before x = s_total s \<and> x_after x = s_total s'" using L t(1) by simp
  show vt: "\<forall>t \<in> set ts. validate_threshold t = Ok ()" using O(3) by blast
  have "\<forall>t \<in> set ts. validate_threshold_id (h_id t) = Ok ()" using vt by (auto simp: validate_threshold_def)
  then have "\<forall>i \<in> set (s_crossed s'). validate_threshold_id i = Ok ()" using C S by auto
  moreover have "n_recorded_at c \<noteq> 0" using v(2) by (auto simp: validate_contribution_def split: if_splits)
  moreover have "m_currency (s_total s') \<noteq> []" using S money_add_props(1)[OF a] t(1) by simp
  ultimately show "validate_snapshot s' = Ok ()"
    using S L t by (simp add: validate_snapshot_iff)
qed

section \<open>Replay\<close>

definition running :: "acc_event list \<Rightarrow> nat \<Rightarrow> rat" where
  "running es k = (\<Sum>e\<leftarrow>take k es. amount_of (n_amount e))"

text \<open>The first event at which the running total is over a threshold.\<close>

definition first_over :: "threshold \<Rightarrow> acc_event list \<Rightarrow> nat \<Rightarrow> bool" where
  "first_over t es k \<longleftrightarrow> 1 \<le> k \<and> k \<le> length es \<and> over t (running es k) \<and> (\<forall>j. 1 \<le> j \<longrightarrow> j < k \<longrightarrow> \<not> over t (running es j))"

definition replayed :: "acc_ref \<Rightarrow> threshold list \<Rightarrow> acc_event list \<Rightarrow> snapshot \<times> nat list \<times> crossing list \<Rightarrow> bool" where
  "replayed r ts es = (\<lambda>(s, seen, out).
     s_key s = f_key r \<and> validate_snapshot s = Ok () \<and> wf_money (s_total s) \<and> m_currency (s_total s) = f_currency r
     \<and> amount_of (s_total s) = running es (length es) \<and> s_last_seq s = int (length es)
     \<and> map e_seq es = map int [1..<Suc (length es)]
     \<and> seen = map n_decision es \<and> distinct seen
     \<and> (\<forall>e \<in> set es. n_key e = f_key r)
     \<and> set (s_crossed s) = (h_id \<circ> x_threshold) ` set out \<and> distinct (map (h_id \<circ> x_threshold) out)
     \<and> (\<forall>x \<in> set out. x_key x = f_key r \<and> x_threshold x \<in> set ts \<and> validate_threshold (x_threshold x) = Ok ()
          \<and> (\<exists>k. x_seq x = int k \<and> first_over (x_threshold x) es k))
     \<and> (\<forall>t \<in> set ts. \<forall>k. first_over t es k \<longrightarrow> (\<exists>x \<in> set out. x_threshold x = t)))"

lemma running_snoc: "k \<le> length es \<Longrightarrow> running (es @ [e]) k = running es k"
  by (simp add: running_def)

lemma first_over_snoc:
  "first_over t (es @ [e]) k \<longleftrightarrow> (if k \<le> length es then first_over t es k
     else k = Suc (length es) \<and> over t (running (es @ [e]) k) \<and> (\<forall>j. \<not> first_over t es j))"
proof -
  have r: "running (es @ [e]) j = running es j" if "j \<le> length es" for j using running_snoc[OF that] .
  have least: "(\<forall>j. \<not> first_over t es j) \<longleftrightarrow> (\<forall>j. 1 \<le> j \<longrightarrow> j \<le> length es \<longrightarrow> \<not> over t (running es j))"
  proof
    assume n: "\<forall>j. \<not> first_over t es j"
    show "\<forall>j. 1 \<le> j \<longrightarrow> j \<le> length es \<longrightarrow> \<not> over t (running es j)"
    proof (intro allI)
      fix j show "1 \<le> j \<longrightarrow> j \<le> length es \<longrightarrow> \<not> over t (running es j)"
        using n by (induction j rule: less_induct) (meson first_over_def less_imp_le_nat order_trans)
    qed
  qed (auto simp: first_over_def)
  show ?thesis
  proof (cases "k \<le> length es")
    case True
    then show ?thesis using r by (auto simp: first_over_def)
  next
    case False
    then show ?thesis unfolding least using r by (auto simp: first_over_def less_Suc_eq_le not_le)
  qed
qed

lemma empty_snapshot_ok:
  assumes "empty_snapshot r = Ok s"
  shows "s = \<lparr>s_key = f_key r, s_total = \<lparr>m_amount = dec0, m_currency = f_currency r\<rparr>, s_last_seq = 0,
      s_crossed = [], s_updated_at = 0\<rparr>"
    and "replayed r ts [] (s, [], [])"
proof -
  show e: "s = \<lparr>s_key = f_key r, s_total = \<lparr>m_amount = dec0, m_currency = f_currency r\<rparr>, s_last_seq = 0,
      s_crossed = [], s_updated_at = 0\<rparr>"
    using assms by (auto simp: empty_snapshot_def acc_fisc_def parse_money_def parse_zero split: if_splits)
  have "validate_ref r = Ok ()" using assms by (auto simp: empty_snapshot_def)
  then have "validate_key (f_key r) = Ok () \<and> f_currency r \<noteq> []" by (auto simp: validate_ref_def split: if_splits)
  then show "replayed r ts [] (s, [], [])"
    using e by (simp add: replayed_def validate_snapshot_iff wf_money_def wf_dec_def dec0_def amount_of_def running_def
        first_over_def dec_val_def)
qed

lemma image_disjoint: "\<forall>x \<in> B. g x \<notin> g ` A \<Longrightarrow> g ` A \<inter> g ` B = {}"
  by (auto simp: disjoint_iff) (metis imageI)

lemma replay_step_ok:
  assumes st: "replay_step r ts (s, seen, out) e = Ok (s', seen', out')"
    and R: "replayed r ts es (s, seen, out)" and wf: "wf_thresholds ts" "wf_money (n_amount e)"
  shows "replayed r ts (es @ [e]) (s', seen', out')"
proof -
  obtain xs where sq: "e_seq e = s_last_seq s + 1" and nd: "n_decision e \<notin> set seen"
    and A: "apply_contribution s (contribution.truncate e) ts = Ok (s', xs)"
    and n: "seen' = seen @ [n_decision e]" "out' = out @ xs"
    using st by (auto simp: replay_step_def split: if_splits prod.splits)
  have tr: "n_amount (contribution.truncate e) = n_amount e" "n_key (contribution.truncate e) = n_key e"
    "n_decision (contribution.truncate e) = n_decision e" by (simp_all add: contribution.truncate_def)
  note P = R[unfolded replayed_def prod.case]
  have wt: "wf_money (s_total s)" using P by blast
  note K = apply_ok[OF A wt, unfolded tr, OF wf(2,1)]
  let ?n = "length es" and ?es = "es @ [e]"
  have tot: "amount_of (s_total s') = running ?es (Suc ?n)" using P K(8) by (simp add: running_def)
  have crossed: "h_id t \<in> set (s_crossed s) \<longleftrightarrow> (\<exists>k. first_over t es k)" if t: "t \<in> set ts" for t
  proof
    assume "h_id t \<in> set (s_crossed s)"
    then obtain x where x: "x \<in> set out" "h_id (x_threshold x) = h_id t" using P by auto
    have "x_threshold x \<in> set ts" using P x(1) by blast
    then have "x_threshold x = t" using x(2) t K(13) by (auto simp: distinct_map inj_on_def)
    then show "\<exists>k. first_over t es k" using P x(1) by blast
  next
    assume "\<exists>k. first_over t es k"
    then obtain x where "x \<in> set out" "x_threshold x = t" using P t by blast
    then show "h_id t \<in> set (s_crossed s)" using P by auto
  qed
  have new: "first_over t ?es (Suc ?n) \<longleftrightarrow> h_id t \<notin> set (s_crossed s) \<and> over t (amount_of (s_total s'))" if "t \<in> set ts" for t
    unfolding first_over_snoc using crossed[OF that] tot by auto
  have old: "first_over t ?es k \<longleftrightarrow> first_over t es k" if "k \<le> ?n" for t k
    unfolding first_over_snoc using that by simp
  have xs: "x_threshold ` set xs = {t \<in> set ts. first_over t ?es (Suc ?n)}"
  proof -
    have "set (map x_threshold xs) = {t \<in> set ts. h_id t \<notin> set (s_crossed s) \<and> over t (amount_of (s_total s'))}"
      using arg_cong[OF K(11), of set_mset] by auto
    then show ?thesis using new by auto
  qed
  have a12: "\<forall>x \<in> set out'. x_key x = f_key r \<and> x_threshold x \<in> set ts \<and> validate_threshold (x_threshold x) = Ok ()
      \<and> (\<exists>k. x_seq x = int k \<and> first_over (x_threshold x) ?es k)"
  proof
    fix x assume "x \<in> set out'"
    then consider "x \<in> set out" | "x \<in> set xs" using n(2) by auto
    then show "x_key x = f_key r \<and> x_threshold x \<in> set ts \<and> validate_threshold (x_threshold x) = Ok ()
      \<and> (\<exists>k. x_seq x = int k \<and> first_over (x_threshold x) ?es k)"
    proof cases
      case 1
      then obtain k where "x_seq x = int k" "first_over (x_threshold x) es k" and
        "x_key x = f_key r" "x_threshold x \<in> set ts" "validate_threshold (x_threshold x) = Ok ()" using P by blast
      moreover have "k \<le> ?n" using calculation(2) by (simp add: first_over_def)
      ultimately show ?thesis using old by auto
    next
      case 2
      then have "x_threshold x \<in> set ts" "first_over (x_threshold x) ?es (Suc ?n)" using xs by auto
      moreover have "x_seq x = int (Suc ?n)" "x_key x = f_key r" using K(14) 2 P by auto
      ultimately show ?thesis using K(15) by blast
    qed
  qed
  have a13: "\<forall>t \<in> set ts. \<forall>k. first_over t ?es k \<longrightarrow> (\<exists>x \<in> set out'. x_threshold x = t)"
  proof (intro ballI allI impI)
    fix t k assume t: "t \<in> set ts" and f: "first_over t ?es k"
    show "\<exists>x \<in> set out'. x_threshold x = t"
    proof (cases "k \<le> ?n")
      case True
      then have "first_over t es k" using f old by simp
      then show ?thesis using P t n(2) by fastforce
    next
      case False
      then have "k = Suc ?n" using f by (simp add: first_over_def)
      then have "t \<in> x_threshold ` set xs" using xs t f by simp
      then show ?thesis using n(2) by auto
    qed
  qed
  have a10: "set (s_crossed s') = (h_id \<circ> x_threshold) ` set out'"
  proof -
    have "h_id ` {t \<in> set ts. h_id t \<notin> set (s_crossed s) \<and> over t (amount_of (s_total s'))} = h_id ` x_threshold ` set xs"
      using xs new by auto
    then show ?thesis using K(10) P n(2) by (simp add: image_comp image_Un)
  qed
  have a11: "distinct (map (h_id \<circ> x_threshold) out')"
  proof -
    have "\<forall>x \<in> set xs. h_id (x_threshold x) \<notin> set (s_crossed s)"
      using xs new by auto
    moreover have "set (s_crossed s) = (h_id \<circ> x_threshold) ` set out" using P by blast
    ultimately have none: "\<forall>x \<in> set xs. (h_id \<circ> x_threshold) x \<notin> (h_id \<circ> x_threshold) ` set out"
      by (simp only: o_apply)
    have "(h_id \<circ> x_threshold) ` set out \<inter> (h_id \<circ> x_threshold) ` set xs = {}" using none by (rule image_disjoint)
    moreover have "distinct (map (h_id \<circ> x_threshold) out)" using P by blast
    ultimately show ?thesis using K(12) n(2) by (simp only: map_append distinct_append set_map)
  qed
  have a1: "s_key s' = f_key r" "validate_snapshot s' = Ok ()" "wf_money (s_total s')" "m_currency (s_total s') = f_currency r"
    using P K(2,3,7,9) by auto
  have a5: "amount_of (s_total s') = running ?es (length ?es)" "s_last_seq s' = int (length ?es)"
    using P K(5) tot by auto
  have a7: "map e_seq ?es = map int [1..<Suc (length ?es)]" using P sq by simp
  have a8: "seen' = map n_decision ?es" "distinct seen'" "\<forall>e \<in> set ?es. n_key e = f_key r"
    using P K(4) n nd by auto
  show ?thesis
    unfolding replayed_def prod.case by (intro conjI a1 a5 a7 a8 a10 a11 a12 a13)
qed

lemma replay_loop:
  assumes "foldR (replay_step r ts) acc es = Ok res" "replayed r ts done acc"
    and "wf_thresholds ts" "\<forall>e \<in> set es. wf_money (n_amount e)"
  shows "replayed r ts (done @ es) res"
  using assms(1,2,4)
proof (induction es arbitrary: acc "done")
  case (Cons e es)
  obtain s seen out where acc: "acc = (s, seen, out)" by (cases acc)
  from Cons.prems(1) obtain mid where m: "replay_step r ts acc e = Ok mid" "foldR (replay_step r ts) mid es = Ok res" by auto
  obtain s' seen' out' where mid: "mid = (s', seen', out')" by (cases mid)
  have "replayed r ts (done @ [e]) mid"
    using replay_step_ok[OF _ _ assms(3)] m(1) Cons.prems(2,3) unfolding acc mid by auto
  then show ?case using Cons.IH[OF m(2)] Cons.prems(3) by force
qed simp

lemma replay_ok:
  assumes "replay r es ts = Ok (s, out)" "wf_thresholds ts" "\<forall>e \<in> set es. wf_money (n_amount e)"
  shows "\<exists>seen. replayed r ts es (s, seen, out)"
proof -
  obtain s0 seen where e: "empty_snapshot r = Ok s0" and f: "foldR (replay_step r ts) (s0, [], []) es = Ok (s, seen, out)"
    using assms(1) by (auto simp: replay_def)
  show ?thesis using replay_loop[OF f empty_snapshot_ok(2)[OF e] assms(2,3)] by auto
qed


section \<open>Rebuild\<close>

lemma compact_set [simp]: "set (compact xs) = set xs"
  by (induction xs rule: compact.induct) auto

lemma compact_sorted: "sorted xs \<Longrightarrow> sorted_wrt (<) (compact xs)"
  by (induction xs rule: compact.induct) (auto simp: order.strict_iff_order intro: order_trans antisym)

lemma compact_distinct: "distinct xs \<Longrightarrow> compact xs = xs"
  by (induction xs rule: compact.induct) auto

lemma apply_without_thresholds:
  assumes "apply_contribution s c ts = Ok (s', xs)"
  shows "apply_contribution (s\<lparr>s_crossed := []\<rparr>) c [] = Ok (s'\<lparr>s_crossed := []\<rparr>, [])"
  using assms
  by (auto simp: apply_contribution_def acc_fisc_def validate_snapshot_iff snapshot_ref_def check_thresholds_def
      split: if_splits prod.splits)

lemma replay_without_thresholds:
  assumes "foldR (replay_step r ts) (s, seen, out) es = Ok (s', seen', out')"
  shows "foldR (replay_step r []) (s\<lparr>s_crossed := []\<rparr>, seen, []) es = Ok (s'\<lparr>s_crossed := []\<rparr>, seen', [])"
  using assms
proof (induction es arbitrary: s seen out)
  case (Cons e es)
  from Cons.prems obtain mid where m: "replay_step r ts (s, seen, out) e = Ok mid" "foldR (replay_step r ts) mid es = Ok (s', seen', out')"
    by auto
  obtain s1 xs where a: "apply_contribution s (contribution.truncate e) ts = Ok (s1, xs)"
    "mid = (s1, seen @ [n_decision e], out @ xs)" "e_seq e = s_last_seq s + 1" "n_decision e \<notin> set seen"
    using m(1) by (auto simp: replay_step_def split: if_splits prod.splits)
  have "replay_step r [] (s\<lparr>s_crossed := []\<rparr>, seen, []) e = Ok (s1\<lparr>s_crossed := []\<rparr>, seen @ [n_decision e], [])"
    using a apply_without_thresholds[OF a(1)] by (simp add: replay_step_def)
  then show ?case using Cons.IH m(2) a(2) by simp
qed simp

lemma rebuild_loop:
  assumes "\<forall>x \<in> set xs. x_key x = f_key r \<and> 1 \<le> x_seq x \<and> x_seq x \<le> s_last_seq s \<and> validate_threshold_id (h_id (x_threshold x)) = Ok ()"
  shows "foldR (rebuild_step r s) acc xs = Ok (acc @ map (h_id \<circ> x_threshold) xs)"
  using assms by (induction xs arbitrary: acc) (auto simp: rebuild_step_def)

lemma rebuild_ok:
  assumes "replay r es ts = Ok (s, out)" "wf_thresholds ts" "\<forall>e \<in> set es. wf_money (n_amount e)" "mset out = mset xs"
  shows "rebuild r es xs = Ok s"
proof -
  obtain s0 seen where e: "empty_snapshot r = Ok s0" and f: "foldR (replay_step r ts) (s0, [], []) es = Ok (s, seen, out)"
    using assms(1) by (auto simp: replay_def)
  have c0: "s0\<lparr>s_crossed := []\<rparr> = s0" using empty_snapshot_ok(1)[OF e] by simp
  have r: "replay r es [] = Ok (s\<lparr>s_crossed := []\<rparr>, [])"
    using replay_without_thresholds[OF f] e by (simp add: replay_def c0)
  obtain seen' where "replayed r ts es (s, seen', out)" using replay_ok[OF assms(1-3)] by blast
  note P = this[unfolded replayed_def prod.case]
  have s: "set xs = set out" using assms(4) by (metis mset_eq_setD)
  have "foldR (rebuild_step r (s\<lparr>s_crossed := []\<rparr>)) [] xs = Ok ([] @ map (h_id \<circ> x_threshold) xs)"
  proof (rule rebuild_loop, intro ballI)
    fix x assume "x \<in> set xs"
    then have "x \<in> set out" using s by simp
    then obtain k where "x_key x = f_key r" "validate_threshold (x_threshold x) = Ok ()" "x_seq x = int k"
      "first_over (x_threshold x) es k" using P by blast
    moreover have "s_last_seq s = int (length es)" using P by blast
    ultimately show "x_key x = f_key r \<and> 1 \<le> x_seq x \<and> x_seq x \<le> s_last_seq (s\<lparr>s_crossed := []\<rparr>)
        \<and> validate_threshold_id (h_id (x_threshold x)) = Ok ()"
      by (auto simp: first_over_def validate_threshold_def split: if_splits)
  qed
  moreover have "distinct (map (h_id \<circ> x_threshold) xs)"
    using P assms(4) by (metis mset_eq_imp_distinct_iff mset_map)
  moreover have "sort (map (h_id \<circ> x_threshold) xs) = s_crossed s"
  proof (rule sorted_distinct_set_unique)
    have "sorted_wrt (<) (s_crossed s)" using P by (auto simp: validate_snapshot_iff)
    then show "sorted (s_crossed s)" "distinct (s_crossed s)" by (simp_all add: strict_sorted_iff)
    show "set (sort (map (h_id \<circ> x_threshold) xs)) = set (s_crossed s)" using P s by auto
  qed (use calculation in simp_all)
  moreover have "compact (s_crossed s) = s_crossed s"
    using P by (auto simp: validate_snapshot_iff strict_sorted_iff compact_distinct)
  ultimately show ?thesis
    unfolding rebuild_def r by (simp add: Let_def del: map_map) (metis length_map length_sort)
qed

lemma lock_order_set: "set (lock_order ks) = set ks" "sorted_wrt (<) (lock_order ks)"
  by (simp_all add: lock_order_def compact_sorted)

end
