(* ===== verification/Locks.thy ===== *)
theory Locks
  imports AccumFacts
begin

text \<open>
  Commits that take accumulator locks in \<open>LockOrder\<close> as a step relation: the invariant that each climbs, and
  progress.
\<close>


text \<open>
  The commits that take accumulator locks: each holds some locks and still wants a list of them.
  A commit takes the next lock it wants when no other holds it, and releases everything it holds
  when it wants nothing more.
\<close>

type_synonym commits = "(string list \<times> string list) list"

inductive lock_step :: "commits \<Rightarrow> commits \<Rightarrow> bool" where
  Acquire: "\<lbrakk> i < length ps; ps ! i = (held, k # wants); \<forall>j < length ps. k \<notin> set (fst (ps ! j)) \<rbrakk>
    \<Longrightarrow> lock_step ps (ps[i := (held @ [k], wants)])"
| Release: "\<lbrakk> i < length ps; ps ! i = (held, []); held \<noteq> [] \<rbrakk> \<Longrightarrow> lock_step ps (ps[i := ([], [])])"

inductive_cases lock_stepE: "lock_step ps qs"

inductive lock_run :: "commits \<Rightarrow> commits \<Rightarrow> bool" where
  Start: "lock_run ps ps"
| Step: "lock_run ps qs \<Longrightarrow> lock_step qs rs \<Longrightarrow> lock_run ps rs"

definition waiting :: "string list list \<Rightarrow> commits" where
  "waiting requests = map (\<lambda>ks. ([], lock_order ks)) requests"

definition finished :: "commits \<Rightarrow> bool" where
  "finished ps \<longleftrightarrow> (\<forall>p \<in> set ps. p = ([], []))"

definition climbing :: "commits \<Rightarrow> bool" where
  "climbing ps \<longleftrightarrow> (\<forall>p \<in> set ps. sorted_wrt (<) (fst p @ snd p))"

lemma climbing_step: "lock_step ps qs \<Longrightarrow> climbing ps \<Longrightarrow> climbing qs"
proof (induction rule: lock_step.induct)
  case (Acquire i ps held k wants)
  then have "(held, k # wants) \<in> set ps" by (metis nth_mem)
  then have "sorted_wrt (<) ((held @ [k]) @ wants)" using Acquire.prems by (auto simp: climbing_def)
  then show ?case using Acquire.prems by (auto simp: climbing_def dest!: set_update_subset_insert[THEN subsetD])
qed (auto simp: climbing_def dest!: set_update_subset_insert[THEN subsetD])

lemma climbing_run: "lock_run ps qs \<Longrightarrow> climbing ps \<Longrightarrow> climbing qs"
  by (induction rule: lock_run.induct) (auto intro: climbing_step)

lemma waiting_climbing: "climbing (waiting requests)"
  using lock_order_set(2) by (auto simp: climbing_def waiting_def)

text \<open>No cycle of waiting: the commit that waits for the greatest lock can always go on.\<close>

lemma climbing_progress:
  assumes "climbing ps" "\<not> finished ps"
  shows "\<exists>qs. lock_step ps qs"
proof (cases "\<exists>i < length ps. \<exists>held. ps ! i = (held, []) \<and> held \<noteq> []")
  case True
  then show ?thesis by (auto intro: lock_step.Release)
next
  case False
  then have idle: "held = []" if "i < length ps" "ps ! i = (held, [])" for i held using that by blast
  let ?next = "{k. \<exists>i < length ps. \<exists>held wants. ps ! i = (held, k # wants)}"
  have "?next \<subseteq> (\<Union>p \<in> set ps. set (snd p))"
    by auto (metis list.set_intros(1) nth_mem snd_conv)
  then have fin: "finite ?next" by (rule finite_subset) simp
  obtain p where p: "p \<in> set ps" "p \<noteq> ([], [])" using assms(2) by (auto simp: finished_def)
  then obtain i where i: "i < length ps" "ps ! i = p" by (auto simp: in_set_conv_nth)
  obtain held0 wants0 where p0: "p = (held0, wants0)" by (cases p)
  then have pi: "ps ! i = (held0, wants0)" using i(2) by simp
  have "wants0 \<noteq> []" using idle[OF i(1)] pi p0 p(2) by auto
  then obtain k0 rest0 where "wants0 = k0 # rest0" by (meson neq_Nil_conv)
  then have "ps ! i = (held0, k0 # rest0)" using pi by simp
  then have "k0 \<in> ?next" using i(1) by blast
  then have ne: "?next \<noteq> {}" by blast
  define k where "k = Max ?next"
  have "k \<in> ?next" unfolding k_def using fin ne by (rule Max_in)
  then obtain j held wants where j: "j < length ps" "ps ! j = (held, k # wants)" by auto
  have "k \<notin> set (fst (ps ! l))" if l: "l < length ps" for l
  proof
    assume h: "k \<in> set (fst (ps ! l))"
    obtain hl wl where pl: "ps ! l = (hl, wl)" by (cases "ps ! l")
    have "wl \<noteq> []" using idle[OF l] h pl by auto
    then obtain m wm where w: "wl = m # wm" by (meson neq_Nil_conv)
    have "(hl, m # wm) \<in> set ps" using l pl w nth_mem by metis
    then have "sorted_wrt (<) (hl @ m # wm)" using assms(1) by (auto simp: climbing_def)
    then have "k < m" using h pl by (auto simp: sorted_wrt_append)
    moreover have "m \<in> ?next" using l pl w by auto
    then have "m \<le> k" unfolding k_def by (rule Max_ge[OF fin])
    ultimately show False by simp
  qed
  then show ?thesis using j by (blast intro: lock_step.Acquire)
qed

text \<open>Every step uses up a lock wanted or a hold, so no run is infinite.\<close>

definition work :: "commits \<Rightarrow> nat" where
  "work ps = (\<Sum>p\<leftarrow>ps. length (fst p) + 2 * length (snd p))"

lemma work_update:
  "i < length ps \<Longrightarrow> length (fst q) + 2 * length (snd q) < length (fst (ps ! i)) + 2 * length (snd (ps ! i)) \<Longrightarrow>
    work (ps[i := q]) < work ps"
proof (induction ps arbitrary: i)
  case (Cons p ps)
  then show ?case by (cases i) (auto simp: work_def)
qed simp

lemma lock_step_work: "lock_step ps qs \<Longrightarrow> work qs < work ps"
  by (erule lock_stepE) (auto intro!: work_update)

lemma climbing_finishes: "climbing ps \<Longrightarrow> lock_run start ps \<Longrightarrow> \<exists>qs. lock_run start qs \<and> finished qs"
proof (induction "work ps" arbitrary: ps rule: less_induct)
  case less
  show ?case
  proof (cases "finished ps")
    case False
    then obtain qs where q: "lock_step ps qs" using climbing_progress[OF less.prems(1)] by blast
    show ?thesis
      by (rule less.hyps[OF lock_step_work[OF q] climbing_step[OF q less.prems(1)] lock_run.Step[OF less.prems(2) q]])
  qed (use less.prems in blast)
qed

end
