(* ===== verification/AccumProps.thy ===== *)
theory AccumProps
  imports Locks FiscalProps
begin

text \<open>
  The properties of the accumulator, with a concrete threshold and history as witnesses.
\<close>


section \<open>A concrete accumulator\<close>

definition vat_threshold :: threshold where
  "vat_threshold = \<lparr>h_id = ''registration'', h_limit = eur 1000, h_comparison = AtOrAbove\<rparr>"

definition sale :: "int \<Rightarrow> nat \<Rightarrow> int \<Rightarrow> acc_event" where
  "sale n d c = \<lparr>n_key = ''turnover'', n_decision = d, n_amount = eur c, n_event_time = 1, n_recorded_at = n, e_seq = n\<rparr>"

definition turnover :: acc_ref where "turnover = \<lparr>f_key = ''turnover'', f_currency = ''EUR''\<rparr>"

definition three_sales :: "acc_event list" where
  "three_sales = [sale 1 7 400, sale 2 8 700, sale 3 9 100]"

lemma eur_wf [simp]: "wf_money (eur c)"
  by (simp add: wf_money_def eur_def set_finite_def wf_dec_def)

lemma amount_of_eur [simp]: "amount_of (eur c) = of_int c / 100"
  by (simp add: amount_of_def)

lemma three_sales_wf: "wf_thresholds [vat_threshold]" "\<forall>e \<in> set three_sales. wf_money (n_amount e)"
  by (simp_all add: wf_thresholds_def vat_threshold_def three_sales_def sale_def)

lemma three_sales_replay:
  "case replay turnover three_sales [vat_threshold] of Err e \<Rightarrow> False
   | Ok (s, out) \<Rightarrow> map (\<lambda>x. (h_id (x_threshold x), x_seq x)) out = [(''registration'', 2)]"
  by code_simp

lemma first_over_unique: "first_over t es j \<Longrightarrow> first_over t es k \<Longrightarrow> j = k"
  by (metis first_over_def linorder_neqE_nat)

section \<open>Properties\<close>

text \<open>C12. A commit keeps the snapshot well formed and exact: the new snapshot passes Validate, the
  total grows by exactly the contribution, the sequence by one without overflow, and the crossed set
  gains exactly the thresholds the new total is over that had not been crossed, each reported once.\<close>

theorem apply_sound:
  assumes "apply_contribution s c ts = Ok (s', xs)" "wf_money (s_total s)" "wf_money (n_amount c)" "wf_thresholds ts"
  shows "validate_snapshot s' = Ok () \<and> s_key s' = s_key s \<and> m_currency (s_total s') = m_currency (s_total s)
    \<and> amount_of (s_total s') = amount_of (s_total s) + amount_of (n_amount c)
    \<and> s_last_seq s' = s_last_seq s + 1 \<and> s_last_seq s \<noteq> MaxInt64
    \<and> mset (map x_threshold xs) = mset (filter (\<lambda>t. h_id t \<notin> set (s_crossed s) \<and> over t (amount_of (s_total s'))) ts)
    \<and> set (s_crossed s') = set (s_crossed s) \<union> (h_id \<circ> x_threshold) ` set xs"
proof -
  note K = apply_ok[OF assms]
  have "x_threshold ` set xs = {t \<in> set ts. h_id t \<notin> set (s_crossed s) \<and> over t (amount_of (s_total s'))}"
    using arg_cong[OF K(11), of set_mset] by auto
  then have "h_id ` {t \<in> set ts. h_id t \<notin> set (s_crossed s) \<and> over t (amount_of (s_total s'))} = (h_id \<circ> x_threshold) ` set xs"
    by (metis image_comp)
  then have "set (s_crossed s') = set (s_crossed s) \<union> (h_id \<circ> x_threshold) ` set xs"
    unfolding K(10) by (rule arg_cong)
  then show ?thesis using K by blast
qed

lemma apply_sound_witness:
  "\<exists>s' xs. apply_contribution \<lparr>s_key = ''turnover'', s_total = eur 600, s_last_seq = 4, s_crossed = [], s_updated_at = 1\<rparr>
      (contribution.truncate (sale 5 9 700)) [vat_threshold] = Ok (s', xs)
    \<and> amount_of (s_total s') = 13 \<and> set (s_crossed s') = (h_id \<circ> x_threshold) ` set xs"
proof -
  let ?s = "\<lparr>s_key = ''turnover'', s_total = eur 600, s_last_seq = 4, s_crossed = [], s_updated_at = 1\<rparr>"
  let ?c = "contribution.truncate (sale 5 9 700)"
  have "is_ok (apply_contribution ?s ?c [vat_threshold])" by code_simp
  then obtain s' xs where a: "apply_contribution ?s ?c [vat_threshold] = Ok (s', xs)" by (auto simp: is_ok_iff)
  have w: "wf_money (s_total ?s)" "wf_money (n_amount ?c)"
    by (simp_all add: sale_def contribution.truncate_def)
  show ?thesis using apply_sound[OF a w three_sales_wf(1)] a
    by (auto simp: sale_def contribution.truncate_def)
qed

text \<open>C13. Replay crosses exactly once and at the right place: over a whole history, each threshold
  that the running total ever gets over is crossed once, at the first event that takes the total
  over it, and no other crossing is reported. The replayed total is the exact sum.\<close>

theorem replay_crossings:
  assumes "replay r es ts = Ok (s, out)" "wf_thresholds ts" "\<forall>e \<in> set es. wf_money (n_amount e)"
  shows "amount_of (s_total s) = (\<Sum>e\<leftarrow>es. amount_of (n_amount e)) \<and> s_last_seq s = int (length es)
    \<and> map e_seq es = map int [1..<Suc (length es)] \<and> distinct (map n_decision es)
    \<and> distinct (map (h_id \<circ> x_threshold) out) \<and> set (s_crossed s) = (h_id \<circ> x_threshold) ` set out
    \<and> (\<forall>x \<in> set out. x_threshold x \<in> set ts \<and> first_over (x_threshold x) es (nat (x_seq x)))
    \<and> (\<forall>t \<in> set ts. \<forall>k. first_over t es k \<longrightarrow> (\<exists>x \<in> set out. x_threshold x = t \<and> x_seq x = int k))"
proof -
  obtain seen where R: "replayed r ts es (s, seen, out)" using replay_ok[OF assms] by blast
  note P = R[unfolded replayed_def prod.case]
  have each: "\<forall>x \<in> set out. x_threshold x \<in> set ts \<and> (\<exists>k. x_seq x = int k \<and> first_over (x_threshold x) es k)"
    and all: "\<forall>t \<in> set ts. \<forall>k. first_over t es k \<longrightarrow> (\<exists>x \<in> set out. x_threshold x = t)"
    using P by blast+
  have "\<exists>x \<in> set out. x_threshold x = t \<and> x_seq x = int k" if t: "t \<in> set ts" "first_over t es k" for t k
  proof -
    obtain x where x: "x \<in> set out" "x_threshold x = t" using all t by blast
    then obtain j where j: "x_seq x = int j" "first_over t es j" using each by blast
    then show ?thesis using first_over_unique[OF j(2) t(2)] x by blast
  qed
  moreover have "x_threshold x \<in> set ts \<and> first_over (x_threshold x) es (nat (x_seq x))" if "x \<in> set out" for x
    using bspec[OF each that] by auto
  moreover have "amount_of (s_total s) = (\<Sum>e\<leftarrow>es. amount_of (n_amount e))" using P by (simp add: running_def)
  moreover have "s_last_seq s = int (length es)" "map e_seq es = map int [1..<Suc (length es)]" "distinct (map n_decision es)"
    "distinct (map (h_id \<circ> x_threshold) out)" "set (s_crossed s) = (h_id \<circ> x_threshold) ` set out"
    using P by auto
  ultimately show ?thesis by blast
qed

lemma replay_crossings_witness:
  "\<exists>s out. replay turnover three_sales [vat_threshold] = Ok (s, out) \<and> amount_of (s_total s) = 12 \<and> out \<noteq> []"
proof -
  obtain s out where r: "replay turnover three_sales [vat_threshold] = Ok (s, out)"
    and x: "map (\<lambda>x. (h_id (x_threshold x), x_seq x)) out = [(''registration'', 2)]"
    using three_sales_replay by (auto split: result.splits)
  have "out \<noteq> []" using x by auto
  moreover have "amount_of (s_total s) = 12"
    using replay_crossings[OF r three_sales_wf] by (simp add: three_sales_def sale_def)
  ultimately show ?thesis using r by blast
qed

text \<open>C14. Rebuild inverts Replay: from a history and the crossings its replay recorded, listed in any
  order, Rebuild recovers exactly the snapshot Replay reached.\<close>

theorem rebuild_replay:
  assumes "replay r es ts = Ok (s, out)" "wf_thresholds ts" "\<forall>e \<in> set es. wf_money (n_amount e)" "mset out = mset xs"
  shows "rebuild r es xs = Ok s"
  by (rule rebuild_ok[OF assms])

lemma rebuild_replay_witness: "\<exists>s out. rebuild turnover three_sales (rev out) = Ok s \<and> s_crossed s = [''registration'']"
proof -
  obtain s out where r: "replay turnover three_sales [vat_threshold] = Ok (s, out)"
    and x: "map (\<lambda>x. (h_id (x_threshold x), x_seq x)) out = [(''registration'', 2)]"
    using three_sales_replay by (auto split: result.splits)
  have "\<exists>o1. out = [o1] \<and> h_id (x_threshold o1) = ''registration''" using x by auto
  then have "set (s_crossed s) = {''registration''}" "distinct (s_crossed s)"
    using replay_ok[OF r three_sales_wf] by (auto simp: replayed_def validate_snapshot_iff strict_sorted_iff)
  then have "s_crossed s = [''registration'']"
    by (metis distinct.simps(2) empty_set insert_iff list.set_intros(1) list.set_intros(2) neq_Nil_conv singletonD)
  moreover have "rebuild turnover three_sales (rev out) = Ok s" by (rule rebuild_replay[OF r three_sales_wf]) simp
  ultimately show ?thesis by blast
qed

text \<open>C15. The lock order prevents deadlock: commits that ask for their locks in LockOrder can, from
  every state they reach in any interleaving, take a step unless all are done, and can be run to the
  end.\<close>

theorem lock_order_no_deadlock:
  assumes "lock_run (waiting requests) ps"
  shows "(finished ps \<or> (\<exists>qs. lock_step ps qs)) \<and> (\<exists>qs. lock_run ps qs \<and> finished qs)"
  using climbing_progress climbing_run[OF assms waiting_climbing] climbing_finishes[OF _ lock_run.Start] by blast

lemma lock_order_no_deadlock_witness:
  "\<exists>qs. lock_run [([''a''], [''b'']), ([], [''a'', ''b''])] qs \<and> finished qs"
proof -
  have w: "waiting [[''b'', ''a'', ''b''], [''a'', ''b'']] = [([], [''a'', ''b'']), ([], [''a'', ''b''])]"
    unfolding waiting_def by code_simp
  have "lock_step [([], [''a'', ''b'']), ([], [''a'', ''b''])] ([([], [''a'', ''b'']), ([], [''a'', ''b''])][0 := ([] @ [''a''], [''b''])])"
    by (rule lock_step.Acquire) (auto simp: less_Suc_eq)
  then have "lock_run (waiting [[''b'', ''a'', ''b''], [''a'', ''b'']]) [([''a''], [''b'']), ([], [''a'', ''b''])]"
    unfolding w by (intro lock_run.Step[OF lock_run.Start]) simp
  from lock_order_no_deadlock[OF this] show ?thesis by blast
qed

end
