(* ===== verification/Evaluate.thy ===== *)
theory Evaluate
  imports Schedule Allocate
begin

text \<open>
  \<open>backend/internal/domain/determination/evaluate.go\<close>: a document determined under a plan.
  The evaluation's trace is threaded through every step; a line's state is a record, and a pool
  member names its line by position where the code keeps a pointer. \<open>EvPanic\<close> is a nil
  dereference of the code or an index past the end of a list of parts; a pool member whose position is no
  line's counts as nil.
\<close>

section \<open>Documents and determinations\<close>

datatype eval_err = EvInvalid string string | EvFiscal fiscal_err | EvBaseKind base_kind | EvPanic

record doc_line =
  l_key :: string
  l_amount :: money
  l_quantity :: "quantity option"
  l_applicable :: "comp_id list"

record doc =
  d_currency :: string
  d_lines :: "doc_line list"

record comp_result =
  r_component :: comp_id
  r_jurisdiction :: string
  r_tax_type :: string
  r_inclusive :: bool
  r_base :: "money option"
  r_raw :: money
  r_amount :: money

record line_result =
  lr_key :: string
  lr_net :: money
  lr_components :: "comp_result list"

record trace_step =
  ts_line :: string
  ts_component :: comp_id
  ts_step :: string
  ts_detail :: string

record determination =
  dn_currency :: string
  dn_lines :: "line_result list"
  dn_trace :: "trace_step list"

record line_state =
  ls_line :: doc_line
  ls_applies :: "comp_id set"
  ls_net :: money
  ls_gross :: money
  ls_amounts :: "comp_id \<rightharpoonup> money"
  ls_results :: "comp_id \<rightharpoonup> comp_result"

type_synonym trace = "trace_step list"

definition money0 :: money where "money0 = \<lparr>m_amount = dec0, m_currency = []\<rparr>"

definition fisc :: "(fiscal_err, 'a) result \<Rightarrow> (eval_err, 'a) result" where
  "fisc r = map_err EvFiscal r"

definition step :: "string \<Rightarrow> comp_id \<Rightarrow> string \<Rightarrow> string \<Rightarrow> trace \<Rightarrow> trace" where
  "step line c kind detail tr =
     tr @ [\<lparr>ts_line = line, ts_component = c, ts_step = kind, ts_detail = detail\<rparr>]"

definition line_tax :: "line_result \<Rightarrow> string \<Rightarrow> (fiscal_err, money) result" where
  "line_tax l currency =
     bindR (parse_money ''0'' currency) (\<lambda>total.
       foldR money_add total (map r_amount (lr_components l)))"

section \<open>Lines\<close>

definition new_line :: "plan \<Rightarrow> doc \<Rightarrow> doc_line \<Rightarrow> (eval_err, line_state) result" where
  "new_line p d l =
     (if l_key l = [] then Err (EvInvalid ''lines.key'' ''MISSING_FIELD'')
      else if m_currency (l_amount l) \<noteq> d_currency d then Err (EvInvalid ''lines.amount'' ''CURRENCY_MISMATCH'')
      else if \<not> list_all (\<lambda>i. find_component (pl_components p) i \<noteq> None) (l_applicable l)
        then Err (EvInvalid ''lines.applicable'' ''INVALID_VALUE'')
      else Ok \<lparr>ls_line = l, ls_applies = set (l_applicable l), ls_net = money0, ls_gross = money0,
               ls_amounts = (\<lambda>_. None), ls_results = (\<lambda>_. None)\<rparr>)"

definition same_currency :: "doc \<Rightarrow> money \<Rightarrow> (eval_err, unit) result" where
  "same_currency d m =
     (if m_currency m \<noteq> d_currency d then Err (EvInvalid ''currency'' ''CURRENCY_MISMATCH'') else Ok ())"

section \<open>Brackets\<close>

text \<open>Cliff: the rate of the last tier the base reaches, the loop stopping at the first it does not.\<close>

fun cliff_rate :: "money \<Rightarrow> rate \<Rightarrow> tier list \<Rightarrow> (eval_err, rate) result" where
  "cliff_rate base r [] = Ok r"
| "cliff_rate base r (t # ts) =
     bindR (fisc (money_cmp base (t_from t))) (\<lambda>reached.
       if reached < 0 then Ok r else cliff_rate base (t_rate t) ts)"

text \<open>Marginal: each tier's rate on the portion within the tier.\<close>

fun marginal_sum :: "money \<Rightarrow> money \<Rightarrow> tier list \<Rightarrow> (eval_err, money) result" where
  "marginal_sum base acc [] = Ok acc"
| "marginal_sum base acc (t # ts) =
     bindR (case ts of [] \<Rightarrow> Ok base | u # us \<Rightarrow> fisc (money_min base (t_from u))) (\<lambda>upper.
     bindR (fisc (money_sub upper (t_from t))) (\<lambda>portion.
       if money_sign portion \<le> 0 then Ok acc
       else
         bindR (fisc (money_times portion (t_rate t))) (\<lambda>part.
         bindR (fisc (money_add acc part)) (\<lambda>acc. marginal_sum base acc ts))))"

definition apply_bracket :: "doc \<Rightarrow> bracket \<Rightarrow> money \<Rightarrow> (eval_err, money) result" where
  "apply_bracket d b base =
     (case k_tiers b of
        [] \<Rightarrow> Err EvPanic
      | t # ts \<Rightarrow>
        bindR (same_currency d (t_from t)) (\<lambda>_.
          if money_sign base < 0 then Err (EvInvalid ''base'' ''INVALID_VALUE'')
          else case k_mode b of
            Cliff \<Rightarrow> bindR (cliff_rate base (t_rate t) ts) (\<lambda>r. fisc (money_times base r))
          | Marginal \<Rightarrow> marginal_sum base (money_zero base) (t # ts)
          | BracketOther s \<Rightarrow> marginal_sum base (money_zero base) (t # ts)))"

section \<open>Rates\<close>

definition component_rate ::
  "doc \<Rightarrow> line_state \<Rightarrow> tax_component \<Rightarrow> money option \<Rightarrow> trace \<Rightarrow> (eval_err, money \<times> trace) result" where
  "component_rate d st c base tr =
     (let r = c_rate c in
      bindR
       (case rd_kind r of
          AdValorem \<Rightarrow>
            (case (base, rd_proportion r) of
               (Some b, Some q) \<Rightarrow> fisc (money_times b q)
             | _ \<Rightarrow> Err EvPanic)
        | Specific \<Rightarrow>
            (case l_quantity (ls_line st) of
               None \<Rightarrow> Err (EvInvalid ''lines.quantity'' ''MISSING_FIELD'')
             | Some q \<Rightarrow>
               (case rd_per_unit r of
                  None \<Rightarrow> Err EvPanic
                | Some u \<Rightarrow> bindR (same_currency d u) (\<lambda>_. fisc (money_times_quantity u q))))
        | Flat \<Rightarrow>
            (case rd_flat r of
               None \<Rightarrow> Err EvPanic
             | Some f \<Rightarrow> bindR (same_currency d f) (\<lambda>_. Ok f))
        | Bracket \<Rightarrow>
            (case (rd_bracket r, base) of
               (Some k, Some b) \<Rightarrow> apply_bracket d k b
             | _ \<Rightarrow> Err EvPanic)
        | RateOther s \<Rightarrow> Ok money0)
       (\<lambda>raw. Ok (raw, step (l_key (ls_line st)) (c_id c) ''RATE''
          (rate_kind_name (rd_kind r) @ '' = '' @ money_canonical raw) tr)))"

section \<open>Bases\<close>

definition adjust_step ::
  "string \<Rightarrow> tax_component \<Rightarrow> money \<times> trace \<Rightarrow> base_adjustment \<Rightarrow> (eval_err, money \<times> trace) result" where
  "adjust_step key c = (\<lambda>(base, tr) a.
     bindR
      (case a_kind a of
         SubtractAmount \<Rightarrow>
           (case a_amount a of None \<Rightarrow> Err EvPanic | Some m \<Rightarrow> fisc (money_sub base m))
       | SubtractProportion \<Rightarrow>
           (case a_proportion a of
              None \<Rightarrow> Err EvPanic
            | Some q \<Rightarrow> bindR (fisc (money_times base q)) (\<lambda>cut. fisc (money_sub base cut)))
       | AdjOther s \<Rightarrow> Ok base)
      (\<lambda>base. Ok (base, step key (c_id c) ''ADJUST''
         (adj_kind_name (a_kind a) @ '' '' @ a_name a @ '' -> '' @ money_canonical base) tr)))"

definition adjust_base ::
  "string \<Rightarrow> tax_component \<Rightarrow> money \<Rightarrow> trace \<Rightarrow> (eval_err, money \<times> trace) result" where
  "adjust_base key c base tr =
     (if b_adjustments (c_base c) = [] then Ok (base, tr)
      else
        bindR (foldR (adjust_step key c) (base, tr) (b_adjustments (c_base c))) (\<lambda>(adjusted, tr).
          if money_sign base \<ge> 0 \<and> money_sign adjusted < 0 \<and> \<not> b_allow_negative (c_base c)
          then Ok (money_zero adjusted, step key (c_id c) ''FLOOR''
            (''adjusted base '' @ money_canonical adjusted @ '' floors at zero'') tr)
          else Ok (adjusted, tr)))"

definition sum_inclusive :: "plan \<Rightarrow> line_state \<Rightarrow> money \<Rightarrow> nat \<Rightarrow> (eval_err, money) result" where
  "sum_inclusive p st base i =
     (let ic = pl_components p ! i in
      if c_inclusive ic then
        (case ls_amounts st (c_id ic) of None \<Rightarrow> Ok base | Some amt \<Rightarrow> fisc (money_add base amt))
      else Ok base)"

definition sum_ref ::
  "line_state \<Rightarrow> tax_component \<Rightarrow> money \<times> trace \<Rightarrow> comp_id \<Rightarrow> (eval_err, money \<times> trace) result" where
  "sum_ref st c = (\<lambda>(base, tr) ref.
     (case ls_amounts st ref of
        None \<Rightarrow> Ok (base, step (l_key (ls_line st)) (c_id c) ''ZERO_SUBSTITUTED''
                  (ref @ '' did not apply; zero is used for it'') tr)
      | Some amt \<Rightarrow> bindR (fisc (money_add base amt)) (\<lambda>base. Ok (base, tr))))"

definition resolve_base ::
  "plan \<Rightarrow> line_state \<Rightarrow> tax_component \<Rightarrow> trace \<Rightarrow> (eval_err, money option \<times> trace) result" where
  "resolve_base p st c tr =
     (let k = b_kind (c_base c) in
      if k = BaseQuantity then Ok (None, tr)
      else
        bindR
         (case k of
            LineNet \<Rightarrow> Ok (ls_net st, tr)
          | LineGross \<Rightarrow>
              bindR (foldR (sum_inclusive p st) (ls_net st) (pl_order p)) (\<lambda>base. Ok (base, tr))
          | NetPlusComponents \<Rightarrow> foldR (sum_ref st c) (ls_net st, tr) (b_components (c_base c))
          | ComponentSum \<Rightarrow> foldR (sum_ref st c) (money_zero (ls_net st), tr) (b_components (c_base c))
          | _ \<Rightarrow> Err (EvBaseKind k))
         (\<lambda>(base, tr).
           bindR (adjust_base (l_key (ls_line st)) c base
              (step (l_key (ls_line st)) (c_id c) ''BASE'' (base_kind_name k @ '' '' @ money_canonical base) tr))
            (\<lambda>(base, tr). Ok (Some base, tr))))"

section \<open>Inclusive extraction\<close>

definition inclusive_result :: "tax_component \<Rightarrow> money \<Rightarrow> money \<Rightarrow> comp_result" where
  "inclusive_result c raw amount =
     \<lparr>r_component = c_id c, r_jurisdiction = c_jurisdiction c, r_tax_type = c_tax_type c,
      r_inclusive = True, r_base = None, r_raw = raw, r_amount = amount\<rparr>"

definition record_amount :: "tax_component \<Rightarrow> money \<Rightarrow> money \<Rightarrow> line_state \<Rightarrow> line_state" where
  "record_amount c raw amount st =
     st\<lparr>ls_amounts := (ls_amounts st)(c_id c \<mapsto> amount),
        ls_results := (ls_results st)(c_id c \<mapsto> inclusive_result c raw amount)\<rparr>"

text \<open>Step 1: one inclusive flat or specific amount leaves the gross.\<close>

definition subtract_inclusive ::
  "plan \<Rightarrow> doc \<Rightarrow> line_state \<times> money \<times> trace \<Rightarrow> comp_id \<Rightarrow> (eval_err, line_state \<times> money \<times> trace) result" where
  "subtract_inclusive p d = (\<lambda>(st, g, tr) i.
     if i \<notin> ls_applies st then Ok (st, g, tr)
     else case find_component (pl_components p) i of
       None \<Rightarrow> Err EvPanic
     | Some c \<Rightarrow>
       bindR (component_rate d st c None tr) (\<lambda>(raw, tr).
       bindR (fisc (money_round raw (c_policy c))) (\<lambda>amount.
       bindR (fisc (money_sub g amount)) (\<lambda>g.
         Ok (record_amount c raw amount st, g,
             step (l_key (ls_line st)) i ''SUBTRACT_INCLUSIVE''
               (money_canonical amount @ '' leaves the gross; '' @ money_canonical g @ '' remains'') tr)))))"

text \<open>Step 2: the multiplier on net of one proportional component.\<close>

definition multiplier_ref ::
  "string \<Rightarrow> tax_component \<Rightarrow> (comp_id \<rightharpoonup> factor) \<Rightarrow> factor \<times> trace \<Rightarrow> comp_id \<Rightarrow> (eval_err, factor \<times> trace) result" where
  "multiplier_ref key c m = (\<lambda>(inner, tr) ref.
     (case m ref of
        None \<Rightarrow> Ok (inner, step key (c_id c) ''ZERO_SUBSTITUTED''
                  (ref @ '' did not apply; its multiplier is zero'') tr)
      | Some mj \<Rightarrow> bindR (fisc (factor_add inner mj)) (\<lambda>inner. Ok (inner, tr))))"

definition multiplier_step ::
  "string \<Rightarrow> (comp_id \<rightharpoonup> factor) \<times> factor \<times> trace \<Rightarrow> tax_component \<Rightarrow>
   (eval_err, (comp_id \<rightharpoonup> factor) \<times> factor \<times> trace) result" where
  "multiplier_step key = (\<lambda>(m, total, tr) c.
     (case rd_proportion (c_rate c) of
        None \<Rightarrow> Err EvPanic
      | Some q \<Rightarrow>
        let r = factor_of q; k = b_kind (c_base c) in
        bindR
          (if k = LineNet then Ok (r, tr)
           else if compounding k then
             bindR (foldR (multiplier_ref key c m)
                 ((if k = NetPlusComponents then factor_one else factor_zero), tr) (b_components (c_base c)))
               (\<lambda>(inner, tr). bindR (fisc (factor_mul r inner)) (\<lambda>mi. Ok (mi, tr)))
           else Ok (factor_zero, tr))
          (\<lambda>(mi, tr).
            bindR (fisc (factor_add total mi)) (\<lambda>total.
              Ok (m(c_id c \<mapsto> mi), total,
                  step key (c_id c) ''MULTIPLIER'' (''m = '' @ factor_string mi) tr)))))"

text \<open>Step 5: one allocated part.\<close>

definition record_part :: "plan \<Rightarrow> line_state \<times> trace \<Rightarrow> comp_id \<times> money \<Rightarrow> (eval_err, line_state \<times> trace) result" where
  "record_part p = (\<lambda>(st, tr) (i, part).
     (case find_component (pl_components p) i of
        None \<Rightarrow> Err EvPanic
      | Some c \<Rightarrow>
        Ok (record_amount c part part st,
            step (l_key (ls_line st)) i ''ALLOCATE_EXTRACTED''
              (money_canonical part @ '' by largest remainder on m'') tr)))"

definition applied_inclusive :: "plan \<Rightarrow> line_state \<Rightarrow> tax_component list" where
  "applied_inclusive p st =
     filter (\<lambda>c. c_inclusive c \<and> c_id c \<in> ls_applies st) (map (\<lambda>i. pl_components p ! i) (pl_order p))"

text \<open>Steps 2 to 5, from the gross left after step 1.\<close>

definition extract_proportional ::
  "plan \<Rightarrow> tax_component list \<Rightarrow> line_state \<Rightarrow> money \<Rightarrow> trace \<Rightarrow> (eval_err, line_state \<times> trace) result" where
  "extract_proportional p proportional st g tr =
     (let key = l_key (ls_line st) in
      bindR (foldR (multiplier_step key) ((\<lambda>_. None), factor_zero, tr) proportional) (\<lambda>(m, sumM, tr).
      bindR (fisc (factor_add factor_one sumM)) (\<lambda>bigM.
      case pl_extraction p of
        None \<Rightarrow> Err EvPanic
      | Some pol \<Rightarrow>
        bindR (fisc (div_factor g bigM pol)) (\<lambda>n.
        bindR (fisc (money_sub g n)) (\<lambda>t.
          let tr = step key [] ''EXTRACT''
                (''G '' @ money_canonical g @ '' / M '' @ factor_string bigM @ '' = N '' @ money_canonical n
                  @ '' under '' @ policy_string pol @ ''; T = '' @ money_canonical t) tr;
              ids = sort (map c_id proportional) in
          bindR (case allocate_by_factors t (map (\<lambda>i. case m i of Some f \<Rightarrow> f | None \<Rightarrow> factor_zero) ids) pol of
                   Err e \<Rightarrow> Err (if e = NoWeight then EvInvalid [] ''INVALID_VALUE'' else EvFiscal e)
                 | Ok parts \<Rightarrow> Ok parts) (\<lambda>parts.
          bindR (if length parts < length ids then Err EvPanic else foldR (record_part p) (st, tr) (zip ids parts)) (\<lambda>(st, tr).
            Ok (st\<lparr>ls_net := n\<rparr>, tr))))))))"

definition extract_inclusive :: "plan \<Rightarrow> doc \<Rightarrow> line_state \<Rightarrow> trace \<Rightarrow> (eval_err, line_state \<times> trace) result" where
  "extract_inclusive p d st tr =
     (let inclusive = applied_inclusive p st;
          proportional = filter (\<lambda>c. rd_kind (c_rate c) = AdValorem) inclusive in
      if inclusive = [] then Ok (st, tr)
      else
        bindR (foldR (subtract_inclusive p d) (st, l_amount (ls_line st), tr) (pl_inclusive_flat p)) (\<lambda>(st, g, tr).
          if proportional = [] then Ok (st\<lparr>ls_net := g\<rparr>, tr)
          else extract_proportional p proportional st g tr))"

section \<open>One line\<close>

definition component_step ::
  "plan \<Rightarrow> doc \<Rightarrow> line_state \<times> trace \<Rightarrow> nat \<Rightarrow> (eval_err, line_state \<times> trace) result" where
  "component_step p d = (\<lambda>(st, tr) i.
     (let c = pl_components p ! i in
      if c_inclusive c \<or> c_id c \<notin> ls_applies st \<or> b_kind (c_base c) = DocumentNet then Ok (st, tr)
      else
        bindR (resolve_base p st c tr) (\<lambda>(base, tr).
        bindR (component_rate d st c base tr) (\<lambda>(raw, tr).
          let res = \<lparr>r_component = c_id c, r_jurisdiction = c_jurisdiction c, r_tax_type = c_tax_type c,
                r_inclusive = False, r_base = base, r_raw = raw, r_amount = money0\<rparr> in
          if coarse (c_policy c) then Ok (st\<lparr>ls_results := (ls_results st)(c_id c \<mapsto> res)\<rparr>, tr)
          else
            bindR (fisc (money_round raw (c_policy c))) (\<lambda>amount.
              Ok (st\<lparr>ls_results := (ls_results st)(c_id c \<mapsto> res\<lparr>r_amount := amount\<rparr>),
                     ls_amounts := (ls_amounts st)(c_id c \<mapsto> amount)\<rparr>,
                  step (l_key (ls_line st)) (c_id c) ''ROUND''
                    (money_canonical raw @ '' -> '' @ money_canonical amount @ '' under '' @ policy_string (c_policy c)) tr))))))"

definition evaluate_line :: "plan \<Rightarrow> doc \<Rightarrow> line_state \<Rightarrow> trace \<Rightarrow> (eval_err, line_state \<times> trace) result" where
  "evaluate_line p d st tr =
     (let st = st\<lparr>ls_net := l_amount (ls_line st), ls_gross := l_amount (ls_line st)\<rparr> in
      bindR (extract_inclusive p d st tr) (\<lambda>(st, tr). foldR (component_step p d) (st, tr) (pl_order p)))"

section \<open>Rounding points above the line\<close>

record pool =
  po_key :: string
  po_policy :: rounding_policy
  po_total :: money
  po_members :: "(nat \<times> comp_id \<times> money) list"

text \<open>\<open>get\<close>: the component's pool, created empty at the end of the key list when absent.\<close>

definition ensure_pool :: "doc \<Rightarrow> tax_component \<Rightarrow> pool list \<Rightarrow> pool list" where
  "ensure_pool d c pools =
     (let k = (case pool_key c of Some k \<Rightarrow> k | None \<Rightarrow> []) in
      if k \<in> po_key ` set pools then pools
      else pools @ [\<lparr>po_key = k, po_policy = c_policy c,
             po_total = (case parse_money ''0'' (d_currency d) of Ok z \<Rightarrow> z | Err e \<Rightarrow> money0),
             po_members = []\<rparr>])"

definition update_pool :: "string \<Rightarrow> (pool \<Rightarrow> (eval_err, pool) result) \<Rightarrow> pool list \<Rightarrow> (eval_err, pool list) result" where
  "update_pool k f pools = mapR (\<lambda>q. if po_key q = k then f q else Ok q) pools"

definition enrol ::
  "tax_component \<Rightarrow> doc \<Rightarrow> pool list \<Rightarrow> nat \<times> line_state \<Rightarrow> (eval_err, pool list) result" where
  "enrol c d pools = (\<lambda>(n, st).
     (case ls_results st (c_id c) of
        None \<Rightarrow> Ok pools
      | Some res \<Rightarrow>
        update_pool (case pool_key c of Some k \<Rightarrow> k | None \<Rightarrow> [])
          (\<lambda>q. bindR (fisc (money_add (po_total q) (r_raw res))) (\<lambda>total.
             Ok (q\<lparr>po_total := total, po_members := po_members q @ [(n, c_id c, r_raw res)]\<rparr>)))
          (ensure_pool d c pools)))"

definition doc_net_step ::
  "tax_component \<Rightarrow> money \<Rightarrow> line_state \<Rightarrow> (eval_err, money) result" where
  "doc_net_step c base st = (if c_id c \<notin> ls_applies st then Ok base else fisc (money_add base (ls_net st)))"

definition document_component ::
  "doc \<Rightarrow> tax_component \<Rightarrow> line_state list \<Rightarrow> pool list \<Rightarrow> trace \<Rightarrow>
   (eval_err, line_state list \<times> pool list \<times> trace) result" where
  "document_component d c states pools tr =
     (let pools = ensure_pool d c pools in
      bindR (fisc (parse_money ''0'' (d_currency d))) (\<lambda>base.
      bindR (foldR (doc_net_step c) base states) (\<lambda>base.
        if \<not> list_ex (\<lambda>st. c_id c \<in> ls_applies st) states then Ok (states, pools, tr)
        else
          bindR (adjust_base [] c base
              (step [] (c_id c) ''BASE'' (base_kind_name DocumentNet @ '' '' @ money_canonical base) tr))
            (\<lambda>(adjusted, tr).
          let doc_state = \<lparr>ls_line = \<lparr>l_key = [], l_amount = money0, l_quantity = None, l_applicable = []\<rparr>,
                ls_applies = {}, ls_net = money0, ls_gross = money0,
                ls_amounts = (\<lambda>_. None), ls_results = (\<lambda>_. None)\<rparr> in
          bindR (component_rate d doc_state c (Some adjusted) tr) (\<lambda>(raw, tr).
          let res = \<lparr>r_component = c_id c, r_jurisdiction = c_jurisdiction c, r_tax_type = c_tax_type c,
                r_inclusive = False, r_base = Some adjusted, r_raw = raw, r_amount = money0\<rparr>;
              members = map (\<lambda>(n, st). (n, c_id c, ls_net st))
                (filter (\<lambda>(n, st). c_id c \<in> ls_applies st) (List.enumerate 0 states)) in
          bindR (update_pool (case pool_key c of Some k \<Rightarrow> k | None \<Rightarrow> [])
              (\<lambda>q. Ok (q\<lparr>po_total := raw, po_members := po_members q @ members\<rparr>)) pools) (\<lambda>pools.
            Ok (map (\<lambda>st. if c_id c \<in> ls_applies st
                     then st\<lparr>ls_results := (ls_results st)(c_id c \<mapsto> res)\<rparr> else st) states,
                pools, tr)))))))"

definition collect_step ::
  "plan \<Rightarrow> doc \<Rightarrow> line_state list \<times> pool list \<times> trace \<Rightarrow> nat \<Rightarrow>
   (eval_err, line_state list \<times> pool list \<times> trace) result" where
  "collect_step p d = (\<lambda>(states, pools, tr) i.
     (let c = pl_components p ! i in
      if \<not> coarse (c_policy c) then Ok (states, pools, tr)
      else if b_kind (c_base c) = DocumentNet then document_component d c states pools tr
      else bindR (foldR (enrol c d) pools (List.enumerate 0 states)) (\<lambda>pools. Ok (states, pools, tr))))"

text \<open>\<open>magnitudes\<close>: the weights without their common sign; mixed signs are refused.\<close>

fun magnitudes :: "int \<Rightarrow> money list \<Rightarrow> (eval_err, money list) result" where
  "magnitudes sign [] = Ok []"
| "magnitudes sign (w # ws) =
     (let s = money_sign w in
      if s \<noteq> 0 \<and> sign \<noteq> 0 \<and> s \<noteq> sign then Err (EvInvalid ''lines'' ''INVALID_VALUE'')
      else bindR (magnitudes (if s \<noteq> 0 then s else sign) ws) (\<lambda>out.
        Ok ((if s < 0 then money_neg w else w) # out)))"

text \<open>One part goes back to the member that contributed: into the result the line holds for the component, which
  the code dereferences, and into the line's amounts.\<close>

definition allocate_back ::
  "pool \<Rightarrow> line_state list \<times> trace \<Rightarrow> (nat \<times> comp_id \<times> money) \<times> money \<Rightarrow>
   (eval_err, line_state list \<times> trace) result" where
  "allocate_back q = (\<lambda>(states, tr) ((n, i, w), part).
     if length states \<le> n then Err EvPanic
     else
       let st = states ! n in
       case ls_results st i of
         None \<Rightarrow> Err EvPanic
       | Some res \<Rightarrow>
         Ok (states[n := st\<lparr>ls_results := (ls_results st)(i \<mapsto> res\<lparr>r_amount := part\<rparr>),
                          ls_amounts := (ls_amounts st)(i \<mapsto> part)\<rparr>],
             step (l_key (ls_line st)) i ''ALLOCATE_BACK'' (money_canonical part @ '' of '' @ po_key q) tr))"

definition round_pool :: "line_state list \<times> trace \<Rightarrow> pool \<Rightarrow> (eval_err, line_state list \<times> trace) result" where
  "round_pool = (\<lambda>(states, tr) q.
     if po_members q = [] then Ok (states, tr)
     else
       bindR (fisc (money_round (po_total q) (po_policy q))) (\<lambda>rounded.
       let tr = step [] [] ''COARSE_ROUND''
             (po_key q @ '': '' @ money_canonical (po_total q) @ '' -> '' @ money_canonical rounded
               @ '' under '' @ policy_string (po_policy q)) tr in
       bindR (magnitudes 0 (map (snd \<circ> snd) (po_members q))) (\<lambda>weights.
       bindR (fisc (allocate (po_total q) weights (po_policy q))) (\<lambda>parts.
         if length parts < length (po_members q) then Err EvPanic
         else foldR (allocate_back q) (states, tr) (zip (po_members q) parts)))))"

definition round_coarse ::
  "plan \<Rightarrow> doc \<Rightarrow> line_state list \<Rightarrow> trace \<Rightarrow> (eval_err, line_state list \<times> trace) result" where
  "round_coarse p d states tr =
     bindR (foldR (collect_step p d) (states, [], tr) (pl_order p)) (\<lambda>(states, pools, tr).
       foldR round_pool (states, tr) pools)"

section \<open>The document\<close>

definition line_result_of :: "plan \<Rightarrow> line_state \<Rightarrow> line_result" where
  "line_result_of p st =
     \<lparr>lr_key = l_key (ls_line st), lr_net = ls_net st,
      lr_components = List.map_filter (\<lambda>i. ls_results st (c_id (pl_components p ! i))) (pl_order p)\<rparr>"

definition eval_lines_step ::
  "plan \<Rightarrow> doc \<Rightarrow> line_state list \<times> trace \<Rightarrow> line_state \<Rightarrow> (eval_err, line_state list \<times> trace) result" where
  "eval_lines_step p d = (\<lambda>(out, tr) st.
     bindR (evaluate_line p d st tr) (\<lambda>(st, tr). Ok (out @ [st], tr)))"

definition evaluate :: "plan \<Rightarrow> doc \<Rightarrow> (eval_err, determination) result" where
  "evaluate p d =
     (if d_currency d = [] then Err (EvInvalid ''currency'' ''MISSING_FIELD'')
      else if d_lines d = [] then Err (EvInvalid ''lines'' ''MISSING_FIELD'')
      else
        bindR (mapR (new_line p d) (d_lines d)) (\<lambda>states.
        bindR (foldR (eval_lines_step p d) ([], []) states) (\<lambda>(states, tr).
        bindR (round_coarse p d states tr) (\<lambda>(states, tr).
          Ok \<lparr>dn_currency = d_currency d, dn_lines = map (line_result_of p) states, dn_trace = tr\<rparr>))))"

end
