(* ===== verification/EvalSafety.thy ===== *)
theory EvalSafety
  imports ScheduleFacts Evaluate
begin

text \<open>
  Where \<open>evaluate.go\<close> can dereference nil, and the plans under which it cannot: what a plan must satisfy
  (\<open>sound_plan\<close>), that \<open>Evaluate\<close> under such a plan never panics, and that \<open>Compile\<close> produces such plans,
  a bracket on a quantity base excepted.
\<close>


section \<open>Where a nil dereference can come from\<close>

named_theorems no_panic \<open>operations that never dereference nil\<close>

lemma fisc_no_panic [no_panic]: "fisc r \<noteq> Err EvPanic"
  by (cases r) (simp_all add: fisc_def)

lemma foldR_panic:
  assumes "foldR f s xs = Err e" "P s"
    and "\<And>s x s'. x \<in> set xs \<Longrightarrow> P s \<Longrightarrow> f s x = Ok s' \<Longrightarrow> P s'"
  shows "\<exists>s x. x \<in> set xs \<and> P s \<and> f s x = Err e"
  using assms
proof (induction xs arbitrary: s)
  case (Cons x xs)
  show ?case
  proof (cases "f s x")
    case (Err e')
    then show ?thesis using Cons.prems by auto
  next
    case (Ok s')
    then have "foldR f s' xs = Err e" "P s'" using Cons.prems by auto
    from Cons.IH[OF this] Cons.prems(3) show ?thesis by (metis list.set_intros(2))
  qed
qed simp

lemma foldR_no_panic:
  assumes "\<And>s x. x \<in> set xs \<Longrightarrow> f s x \<noteq> Err EvPanic"
  shows "foldR f s xs \<noteq> Err EvPanic"
  using foldR_panic[of f s xs EvPanic "\<lambda>_. True"] assms by blast

lemma mapR_no_panic: "(\<And>x. x \<in> set xs \<Longrightarrow> f x \<noteq> Err EvPanic) \<Longrightarrow> mapR f xs \<noteq> Err EvPanic"
  by (induction xs) (auto simp: result_simps)

lemma bindR_panic: "bindR m f = Err EvPanic \<Longrightarrow> m \<noteq> Err EvPanic \<Longrightarrow> (\<exists>x. m = Ok x \<and> f x = Err EvPanic)"
  by (auto simp: result_simps)

text \<open>A component whose rate can be charged: the value its kind needs is there, and a bracket has tiers.\<close>

definition chargeable :: "tax_component \<Rightarrow> bool" where
  "chargeable c \<longleftrightarrow> (case rd_kind (c_rate c) of
       AdValorem \<Rightarrow> rd_proportion (c_rate c) \<noteq> None
     | Specific \<Rightarrow> rd_per_unit (c_rate c) \<noteq> None
     | Flat \<Rightarrow> rd_flat (c_rate c) \<noteq> None
     | Bracket \<Rightarrow> (\<exists>b. rd_bracket (c_rate c) = Some b \<and> k_tiers b \<noteq> [])
     | RateOther s \<Rightarrow> True)"

definition needs_base :: "tax_component \<Rightarrow> bool" where
  "needs_base c \<longleftrightarrow> rd_kind (c_rate c) = AdValorem \<or> rd_kind (c_rate c) = Bracket"

definition adjustable :: "tax_component \<Rightarrow> bool" where
  "adjustable c \<longleftrightarrow> (\<forall>a \<in> set (b_adjustments (c_base c)).
     (a_kind a = SubtractAmount \<longrightarrow> a_amount a \<noteq> None) \<and> (a_kind a = SubtractProportion \<longrightarrow> a_proportion a \<noteq> None))"

lemma cliff_no_panic [no_panic]: "cliff_rate b r ts \<noteq> Err EvPanic"
  by (induction b r ts rule: cliff_rate.induct) (auto simp: result_simps no_panic)

lemma marginal_no_panic [no_panic]: "marginal_sum b acc ts \<noteq> Err EvPanic"
  by (induction b acc ts rule: marginal_sum.induct) (auto simp: result_simps no_panic split: list.splits if_splits)

lemma same_currency_no_panic [no_panic]: "same_currency d m \<noteq> Err EvPanic"
  by (simp add: same_currency_def)

lemma bracket_no_panic: "k_tiers b \<noteq> [] \<Longrightarrow> apply_bracket d b base \<noteq> Err EvPanic"
  by (auto simp: apply_bracket_def result_simps no_panic split: list.splits bracket_mode.splits if_splits)

lemma rate_no_panic:
  assumes "chargeable c" "needs_base c \<longrightarrow> base \<noteq> None"
  shows "component_rate d st c base tr \<noteq> Err EvPanic"
  using assms bracket_no_panic
  by (auto simp: component_rate_def Let_def result_simps no_panic chargeable_def needs_base_def
      split: rate_kind.splits option.splits if_splits)

lemma adjust_no_panic:
  assumes "adjustable c"
  shows "adjust_base key c base tr \<noteq> Err EvPanic"
proof -
  have "foldR (adjust_step key c) (base, tr) (b_adjustments (c_base c)) \<noteq> Err EvPanic"
    using assms
    by (intro foldR_no_panic)
       (auto simp: adjust_step_def result_simps no_panic adjustable_def split: adj_kind.splits option.splits)
  then show ?thesis by (auto simp: adjust_base_def result_simps split: if_splits prod.splits)
qed

lemma resolve_no_panic:
  assumes "adjustable c"
  shows "resolve_base p st c tr \<noteq> Err EvPanic"
proof -
  have "foldR (sum_inclusive p st) m is \<noteq> Err EvPanic" for m "is"
    by (intro foldR_no_panic) (auto simp: sum_inclusive_def Let_def no_panic split: option.splits)
  moreover have "foldR (sum_ref st c) a rs \<noteq> Err EvPanic" for a rs
    by (intro foldR_no_panic) (auto simp: sum_ref_def result_simps no_panic split: option.splits)
  ultimately show ?thesis using adjust_no_panic[OF assms]
    by (auto simp: resolve_base_def Let_def result_simps split: base_kind.splits if_splits)
qed

lemma resolve_base_some:
  "resolve_base p st c tr = Ok (b, tr') \<Longrightarrow> b = None \<longleftrightarrow> b_kind (c_base c) = BaseQuantity"
  by (auto simp: resolve_base_def Let_def split: if_splits)


text \<open>Whatever the amounts, an allocation has one part for every weight.\<close>

lemma add_unit_length: "foldR add_unit ps is = Ok ps' \<Longrightarrow> length ps' = length ps"
  by (induction "is" arbitrary: ps) (auto simp: add_unit_def)

lemma share_step_length:
  "foldR (share_step u W) acc ws = Ok (a, ps, rs) \<Longrightarrow> length ps = length (fst (snd acc)) + length ws"
proof (induction ws arbitrary: acc)
  case (Cons w ws)
  then show ?case by (cases acc) (fastforce simp: share_step_def)
qed simp

lemma allocate_length: "allocate t ws p = Ok parts \<Longrightarrow> length parts = length ws"
  by (auto simp: allocate_def integer_parts_def dest!: mapR_length add_unit_length share_step_length split: if_splits)

lemma magnitudes_length: "magnitudes s ws = Ok out \<Longrightarrow> length out = length ws"
  by (induction s ws arbitrary: out rule: magnitudes.induct) (auto simp: Let_def split: if_splits)

lemma factors_length: "allocate_by_factors t ws p = Ok parts \<Longrightarrow> length parts = length ws"
  by (auto simp: allocate_by_factors_def dest: allocate_length)

section \<open>Plans that cannot dereference nil\<close>

definition sound_plan :: "plan \<Rightarrow> bool" where
  "sound_plan p \<longleftrightarrow>
     (\<forall>i \<in> set (pl_order p). i < length (pl_components p))
     \<and> (\<forall>c \<in> set (pl_components p). chargeable c \<and> adjustable c \<and> (needs_base c \<longrightarrow> b_kind (c_base c) \<noteq> BaseQuantity))
     \<and> (\<forall>i \<in> set (pl_inclusive_flat p). \<exists>c. find_component (pl_components p) i = Some c \<and> chargeable c \<and> \<not> needs_base c)
     \<and> ((\<exists>c \<in> set (pl_components p). c_inclusive c) \<longrightarrow> pl_extraction p \<noteq> None)"

lemma subtract_no_panic:
  assumes "sound_plan p" "i \<in> set (pl_inclusive_flat p)"
  shows "subtract_inclusive p d (st, g, tr) i \<noteq> Err EvPanic"
proof -
  obtain c where c: "find_component (pl_components p) i = Some c" "chargeable c" "\<not> needs_base c"
    using assms by (auto simp: sound_plan_def)
  show ?thesis using c rate_no_panic[OF c(2), of None d st tr]
    by (auto simp: subtract_inclusive_def result_simps no_panic split: prod.splits)
qed

lemma multiplier_no_panic:
  assumes "rd_proportion (c_rate c) \<noteq> None"
  shows "multiplier_step key acc c \<noteq> Err EvPanic"
proof -
  obtain m total tr where acc: "acc = (m, total, tr)" by (cases acc)
  have "foldR (multiplier_ref key c m) a rs \<noteq> Err EvPanic" for a rs
    by (intro foldR_no_panic) (auto simp: multiplier_ref_def result_simps no_panic split: option.splits prod.splits)
  then show ?thesis using assms
    by (auto simp: acc multiplier_step_def Let_def result_simps no_panic split: option.splits if_splits prod.splits)
qed

lemma proportional_no_panic:
  assumes "\<forall>c \<in> set cs. rd_proportion (c_rate c) \<noteq> None \<and> find_component (pl_components p) (c_id c) \<noteq> None"
    and "pl_extraction p \<noteq> None"
  shows "extract_proportional p cs st g tr \<noteq> Err EvPanic"
proof -
  have m: "foldR (multiplier_step key) acc cs \<noteq> Err EvPanic" for key acc
    by (intro foldR_no_panic multiplier_no_panic) (use assms(1) in blast)
  have ids: "find_component (pl_components p) i \<noteq> None" if "(i, part) \<in> set (zip (sort (map c_id cs)) parts)" for i part parts
    using set_zip_leftD[OF that] assms(1) by auto
  have r: "foldR (record_part p) acc (zip (sort (map c_id cs)) parts) \<noteq> Err EvPanic" for acc parts
  proof (intro foldR_no_panic)
    fix a x assume x: "x \<in> set (zip (sort (map c_id cs)) parts)"
    obtain i part where "x = (i, part)" by (cases x)
    then show "record_part p a x \<noteq> Err EvPanic"
      using ids[of i part parts] x by (cases a) (auto simp: record_part_def)
  qed
  show ?thesis using m r assms(2)
    by (auto simp: extract_proportional_def Let_def result_simps no_panic dest: factors_length
        split: option.splits prod.splits result.splits if_splits)
qed

lemma extract_no_panic:
  assumes "sound_plan p"
  shows "extract_inclusive p d st tr \<noteq> Err EvPanic"
proof -
  have comp: "c \<in> set (pl_components p) \<and> c_inclusive c" if "c \<in> set (applied_inclusive p st)" for c
    using that assms by (auto simp: applied_inclusive_def sound_plan_def)
  have s: "foldR (subtract_inclusive p d) acc (pl_inclusive_flat p) \<noteq> Err EvPanic" for acc
    by (intro foldR_no_panic) (metis prod_cases3 subtract_no_panic[OF assms])
  have e: "extract_proportional p (filter (\<lambda>c. rd_kind (c_rate c) = AdValorem) (applied_inclusive p st)) st' g tr' \<noteq> Err EvPanic"
    if "applied_inclusive p st \<noteq> []" for st' g tr'
  proof (rule proportional_no_panic)
    show "pl_extraction p \<noteq> None"
      using comp[OF hd_in_set[OF that]] assms by (auto simp: sound_plan_def)
    show "\<forall>c \<in> set (filter (\<lambda>c. rd_kind (c_rate c) = AdValorem) (applied_inclusive p st)).
        rd_proportion (c_rate c) \<noteq> None \<and> find_component (pl_components p) (c_id c) \<noteq> None"
    proof
      fix c assume "c \<in> set (filter (\<lambda>c. rd_kind (c_rate c) = AdValorem) (applied_inclusive p st))"
      then have c: "c \<in> set (pl_components p)" "rd_kind (c_rate c) = AdValorem" using comp by auto
      then have "chargeable c" using assms by (simp add: sound_plan_def)
      then show "rd_proportion (c_rate c) \<noteq> None \<and> find_component (pl_components p) (c_id c) \<noteq> None"
        using c by (simp add: chargeable_def find_component_mem)
    qed
  qed
  show ?thesis using s e
    by (auto simp: extract_inclusive_def Let_def result_simps split: prod.splits if_splits)
qed

lemma component_no_panic:
  assumes "sound_plan p" "i \<in> set (pl_order p)"
  shows "component_step p d (st, tr) i \<noteq> Err EvPanic"
proof -
  let ?c = "pl_components p ! i"
  have c: "chargeable ?c" "adjustable ?c" "needs_base ?c \<longrightarrow> b_kind (c_base ?c) \<noteq> BaseQuantity"
    using assms nth_mem by (auto simp: sound_plan_def)
  have r: "component_rate d st ?c b tr'' \<noteq> Err EvPanic" if "resolve_base p st ?c tr' = Ok (b, tr'')" for b tr' tr''
    using resolve_base_some[OF that] c by (intro rate_no_panic) auto
  show ?thesis using r resolve_no_panic[OF c(2)]
    by (auto simp: component_step_def Let_def result_simps no_panic split: if_splits prod.splits)
qed

lemma line_no_panic:
  assumes "sound_plan p"
  shows "evaluate_line p d st tr \<noteq> Err EvPanic"
proof -
  have "foldR (component_step p d) acc (pl_order p) \<noteq> Err EvPanic" for acc
    by (intro foldR_no_panic) (metis surj_pair component_no_panic[OF assms])
  then show ?thesis using extract_no_panic[OF assms]
    by (auto simp: evaluate_line_def Let_def result_simps split: prod.splits)
qed

lemma update_pool_no_panic: "(\<And>q. f q \<noteq> Err EvPanic) \<Longrightarrow> update_pool k f pools \<noteq> Err EvPanic"
  by (auto simp: update_pool_def intro!: mapR_no_panic split: if_splits)

lemma enrol_no_panic: "enrol c d pools x \<noteq> Err EvPanic"
proof -
  have "update_pool k (\<lambda>q. bindR (fisc (money_add (po_total q) (r_raw res))) (\<lambda>total.
             Ok (q\<lparr>po_total := total, po_members := po_members q @ m\<rparr>))) ps \<noteq> Err EvPanic" for k res m ps
    by (rule update_pool_no_panic) (auto simp: result_simps no_panic)
  then show ?thesis by (auto simp: enrol_def split: option.splits prod.splits)
qed

lemma document_no_panic:
  assumes "chargeable c" "adjustable c"
  shows "document_component d c states pools tr \<noteq> Err EvPanic"
proof -
  have f: "foldR (doc_net_step c) b states \<noteq> Err EvPanic" for b
    by (intro foldR_no_panic) (auto simp: doc_net_step_def no_panic)
  have u: "update_pool k (\<lambda>q. Ok (g q)) ps \<noteq> Err EvPanic" for k g ps
    by (rule update_pool_no_panic) simp
  have r: "component_rate d st c (Some b) tr' \<noteq> Err EvPanic" for st b tr'
    using assms(1) by (intro rate_no_panic) simp_all
  show ?thesis using f u r adjust_no_panic[OF assms(2)]
    by (auto simp: document_component_def Let_def result_simps no_panic split: if_splits prod.splits)
qed

lemma magnitudes_no_panic [no_panic]: "magnitudes s ws \<noteq> Err EvPanic"
  by (induction s ws rule: magnitudes.induct) (auto simp: Let_def result_simps split: if_splits)

text \<open>A member of a pool is backed when its line holds a result for its component: what allocating back
  dereferences. Collecting the pools backs every member it adds, and nothing removes a result.\<close>

definition backed :: "line_state list \<Rightarrow> nat \<times> comp_id \<times> money \<Rightarrow> bool" where
  "backed states = (\<lambda>(n, i, w). n < length states \<and> ls_results (states ! n) i \<noteq> None)"

definition pool_backed :: "line_state list \<Rightarrow> pool \<Rightarrow> bool" where
  "pool_backed states q \<longleftrightarrow> (\<forall>m \<in> set (po_members q). backed states m)"

definition keeps_results :: "line_state list \<Rightarrow> line_state list \<Rightarrow> bool" where
  "keeps_results = list_all2 (\<lambda>st st'. dom (ls_results st) \<subseteq> dom (ls_results st'))"

lemma keeps_results_refl [simp]: "keeps_results states states"
  by (simp add: keeps_results_def list_all2_same)

lemma keeps_results_trans: "keeps_results a b \<Longrightarrow> keeps_results b c \<Longrightarrow> keeps_results a c"
  unfolding keeps_results_def by (erule (1) list_all2_trans[rotated]) blast

lemma backed_keeps: "backed states m \<Longrightarrow> keeps_results states states' \<Longrightarrow> backed states' m"
  by (cases m) (fastforce simp: backed_def keeps_results_def list_all2_conv_all_nth)

lemma pool_backed_keeps: "pool_backed states q \<Longrightarrow> keeps_results states states' \<Longrightarrow> pool_backed states' q"
  by (auto simp: pool_backed_def dest: backed_keeps)

lemma ensure_pool_backed: "\<forall>q \<in> set pools. pool_backed states q \<Longrightarrow> \<forall>q \<in> set (ensure_pool d c pools). pool_backed states q"
  by (auto simp: ensure_pool_def Let_def pool_backed_def)

lemma update_pool_backed:
  assumes "update_pool k f pools = Ok pools'" "\<forall>q \<in> set pools. pool_backed states q"
    and "\<And>q q'. f q = Ok q' \<Longrightarrow> set (po_members q') \<subseteq> set (po_members q) \<union> {m. backed states m}"
  shows "\<forall>q \<in> set pools'. pool_backed states q"
proof
  fix q' assume "q' \<in> set pools'"
  then obtain q where q: "q \<in> set pools" "(if po_key q = k then f q else Ok q) = Ok q'"
    using mapR_set[OF assms(1)[unfolded update_pool_def]] by blast
  then show "pool_backed states q'"
    using assms(2) assms(3)[of q q'] unfolding pool_backed_def by (cases "po_key q = k") auto
qed

lemma enrol_backed:
  assumes "enrol c d pools (n, st) = Ok pools'" "\<forall>q \<in> set pools. pool_backed states q" "n < length states" "states ! n = st"
  shows "\<forall>q \<in> set pools'. pool_backed states q"
proof (cases "ls_results st (c_id c)")
  case None
  then show ?thesis using assms(1,2) by (simp add: enrol_def)
next
  case (Some res)
  then show ?thesis using assms(1,3,4)
    by (auto simp: enrol_def backed_def elim!: update_pool_backed[OF _ ensure_pool_backed[OF assms(2)]])
qed

lemma document_backed:
  assumes "document_component d c states pools tr = Ok (states', pools', tr')" "\<forall>q \<in> set pools. pool_backed states q"
  shows "keeps_results states states' \<and> (\<forall>q \<in> set pools'. pool_backed states' q)"
proof (cases "list_ex (\<lambda>st. c_id c \<in> ls_applies st) states")
  case False
  then have "states' = states" "pools' = ensure_pool d c pools"
    using assms(1) by (auto simp: document_component_def Let_def)
  then show ?thesis using ensure_pool_backed[OF assms(2)] by simp
next
  case True
  let ?on = "\<lambda>st. c_id c \<in> ls_applies st"
  let ?ms = "map (\<lambda>(n, st). (n, c_id c, ls_net st)) (filter (\<lambda>(n, st). ?on st) (List.enumerate 0 states))"
  obtain k raw res where s: "states' = map (\<lambda>st. if ?on st then st\<lparr>ls_results := (ls_results st)(c_id c \<mapsto> res)\<rparr> else st) states"
    and u: "update_pool k (\<lambda>q. Ok (q\<lparr>po_total := raw, po_members := po_members q @ ?ms\<rparr>)) (ensure_pool d c pools) = Ok pools'"
    using assms(1) True by (auto simp: document_component_def Let_def)
  have k: "keeps_results states states'" by (auto simp: s keeps_results_def list_all2_conv_all_nth)
  have "backed states' m" if "m \<in> set ?ms" for m
    using that by (auto simp: s backed_def in_set_enumerate_eq)
  then have "\<forall>q \<in> set pools'. pool_backed states' q"
    using assms(2) k
    by (intro update_pool_backed[OF u ensure_pool_backed]) (auto intro: pool_backed_keeps)
  then show ?thesis using k by simp
qed

lemma collect_backed:
  assumes "collect_step p d (states, pools, tr) i = Ok (states', pools', tr')" "\<forall>q \<in> set pools. pool_backed states q"
  shows "keeps_results states states' \<and> (\<forall>q \<in> set pools'. pool_backed states' q)"
proof -
  let ?c = "pl_components p ! i"
  consider "\<not> coarse (c_policy ?c)" | "coarse (c_policy ?c)" "b_kind (c_base ?c) = DocumentNet"
    | "coarse (c_policy ?c)" "b_kind (c_base ?c) \<noteq> DocumentNet" by blast
  then show ?thesis
  proof cases
    case 1
    then show ?thesis using assms by (simp add: collect_step_def Let_def)
  next
    case 2
    then show ?thesis using document_backed[OF _ assms(2)] assms(1) by (auto simp: collect_step_def Let_def)
  next
    case 3
    then have e: "states' = states" "foldR (enrol ?c d) pools (List.enumerate 0 states) = Ok pools'"
      using assms(1) by (auto simp: collect_step_def Let_def)
    have "\<forall>q \<in> set pools'. pool_backed states q"
      by (rule foldR_invariant[OF e(2), where P = "\<lambda>ps. \<forall>q \<in> set ps. pool_backed states q"])
         (use assms(2) in \<open>auto simp: in_set_enumerate_eq dest!: enrol_backed[where states = states]\<close>)
    then show ?thesis using e(1) by simp
  qed
qed

lemma allocate_back_total:
  assumes "backed (fst acc) (fst z)"
  shows "\<exists>acc'. allocate_back q acc z = Ok acc'"
  using assms by (cases acc; cases z) (auto simp: allocate_back_def backed_def Let_def)

lemma allocate_back_keeps: "allocate_back q acc z = Ok acc' \<Longrightarrow> keeps_results (fst acc) (fst acc')"
  by (cases acc; cases z)
     (auto simp: allocate_back_def Let_def keeps_results_def list_all2_conv_all_nth nth_list_update split: if_splits option.splits)

lemma round_pool_keeps: "round_pool acc q = Ok acc' \<Longrightarrow> keeps_results (fst acc) (fst acc')"
proof -
  assume r: "round_pool acc q = Ok acc'"
  have f: "foldR (allocate_back q) a zs = Ok a' \<Longrightarrow> keeps_results (fst a) (fst a')" for a zs a'
    by (erule foldR_invariant) (auto intro: keeps_results_trans dest: allocate_back_keeps)
  show ?thesis
  proof (cases "po_members q = []")
    case True
    then show ?thesis using r by (cases acc) (simp add: round_pool_def)
  next
    case False
    then obtain tr zs where "foldR (allocate_back q) (fst acc, tr) zs = Ok acc'"
      using r by (cases acc) (auto simp: round_pool_def Let_def split: if_splits)
    from f[OF this] show ?thesis by simp
  qed
qed

lemma round_pool_no_panic:
  assumes "pool_backed (fst acc) q"
  shows "round_pool acc q \<noteq> Err EvPanic"
proof -
  have b: "foldR (allocate_back q) (fst acc, tr) (zip (po_members q) parts) \<noteq> Err EvPanic" for tr parts
  proof
    assume e: "foldR (allocate_back q) (fst acc, tr) (zip (po_members q) parts) = Err EvPanic"
    have "\<exists>a z. z \<in> set (zip (po_members q) parts) \<and> keeps_results (fst acc) (fst a) \<and> allocate_back q a z = Err EvPanic"
      by (rule foldR_panic[OF e]) (simp, blast intro: keeps_results_trans allocate_back_keeps)
    then obtain a z where z: "z \<in> set (zip (po_members q) parts)" "keeps_results (fst acc) (fst a)" "allocate_back q a z = Err EvPanic"
      by blast
    have "fst z \<in> set (po_members q)" using z(1) by (metis in_set_zipE prod.collapse)
    then have "backed (fst a) (fst z)" using assms backed_keeps[OF _ z(2)] by (simp add: pool_backed_def)
    from allocate_back_total[OF this, of q] z(3) show False by auto
  qed
  obtain states tr where acc: "acc = (states, tr)" by (cases acc)
  have "length parts = length (po_members q)"
    if "magnitudes 0 (map (snd \<circ> snd) (po_members q)) = Ok weights" "fisc (allocate (po_total q) weights (po_policy q)) = Ok parts"
    for weights parts
    using that by (auto simp: fisc_def dest!: magnitudes_length allocate_length)
  then show ?thesis using b unfolding acc
    by (auto simp: round_pool_def Let_def result_simps no_panic split: if_splits)
qed

lemma coarse_no_panic:
  assumes "sound_plan p"
  shows "round_coarse p d states tr \<noteq> Err EvPanic"
proof -
  have c: "collect_step p d acc i \<noteq> Err EvPanic" if "i \<in> set (pl_order p)" for acc i
  proof -
    obtain ss pools tr' where acc: "acc = (ss, pools, tr')" by (cases acc)
    have "chargeable (pl_components p ! i)" "adjustable (pl_components p ! i)"
      using assms that nth_mem by (auto simp: sound_plan_def)
    moreover have "foldR (enrol k d) ps xs \<noteq> Err EvPanic" for k ps xs
      by (intro foldR_no_panic enrol_no_panic)
    ultimately show ?thesis using document_no_panic
      by (auto simp: acc collect_step_def Let_def result_simps split: if_splits)
  qed
  have r: "foldR round_pool (ss, tr') pools \<noteq> Err EvPanic" if q: "\<forall>q \<in> set pools. pool_backed ss q" for ss tr' pools
  proof
    assume e: "foldR round_pool (ss, tr') pools = Err EvPanic"
    have "\<exists>a q'. q' \<in> set pools \<and> keeps_results ss (fst a) \<and> round_pool a q' = Err EvPanic"
      by (rule foldR_panic[OF e]) (simp, blast intro: keeps_results_trans round_pool_keeps)
    then obtain a q' where "q' \<in> set pools" "keeps_results ss (fst a)" "round_pool a q' = Err EvPanic"
      by blast
    then show False using round_pool_no_panic[of a q'] pool_backed_keeps q by blast
  qed
  have i: "\<forall>q \<in> set pools. pool_backed ss q" if "foldR (collect_step p d) (states, [], tr) (pl_order p) = Ok (ss, pools, tr')"
    for ss pools tr'
    using foldR_invariant[OF that, where P = "\<lambda>(ss, pools, tr). \<forall>q \<in> set pools. pool_backed ss q"] collect_backed by fastforce
  have "foldR (collect_step p d) acc (pl_order p) \<noteq> Err EvPanic" for acc
    by (intro foldR_no_panic c)
  then show ?thesis using r i by (auto simp: round_coarse_def result_simps split: prod.splits)
qed

lemma evaluate_sound_plan:
  assumes "sound_plan p"
  shows "evaluate p d \<noteq> Err EvPanic"
proof -
  have "mapR (new_line p d) (d_lines d) \<noteq> Err EvPanic"
    by (intro mapR_no_panic) (auto simp: new_line_def)
  moreover have "foldR (eval_lines_step p d) acc states \<noteq> Err EvPanic" for acc states
    by (intro foldR_no_panic) (use line_no_panic[OF assms] in \<open>auto simp: eval_lines_step_def result_simps split: prod.splits\<close>)
  ultimately show ?thesis using coarse_no_panic[OF assms]
    by (auto simp: evaluate_def result_simps split: if_splits prod.splits)
qed

section \<open>Compiled plans are sound\<close>

lemma check_component_sound:
  assumes "check_component cs c = Ok ()" "rd_kind (c_rate c) = Bracket \<longrightarrow> b_kind (c_base c) \<noteq> BaseQuantity"
  shows "chargeable c" "adjustable c" "needs_base c \<longrightarrow> b_kind (c_base c) \<noteq> BaseQuantity"
proof -
  have v: "validate_rate c = Ok ()" if "\<not> (b_kind (c_base c) = DocumentNet \<and> c_inclusive c)" 
    using assms(1) by (auto simp: check_component_def validate_component_def Let_def split: if_splits)
  have n: "\<not> (b_kind (c_base c) = DocumentNet \<and> c_inclusive c)"
    using assms(1) by (auto simp: check_component_def validate_component_def Let_def split: if_splits)
  note V = v[OF n]
  show "chargeable c" using V
    by (auto simp: validate_rate_def Let_def chargeable_def validate_bracket_def split: if_splits rate_kind.splits option.splits list.splits)
  show "needs_base c \<longrightarrow> b_kind (c_base c) \<noteq> BaseQuantity" using V assms(2)
    by (auto simp: validate_rate_def Let_def needs_base_def split: if_splits)
  have "foldR (\<lambda>_. validate_adjustment (c_id c)) () (List.enumerate 0 (b_adjustments (c_base c))) = Ok ()"
    using assms(1) by (auto simp: check_component_def validate_component_def Let_def split: if_splits)
  then have a: "validate_adjustment (c_id c) (n, a) = Ok ()" if "(n, a) \<in> set (List.enumerate 0 (b_adjustments (c_base c)))" for n a
    using that by (auto simp: foldR_unit_Ok)
  show "adjustable c"
    unfolding adjustable_def
  proof
    fix a assume "a \<in> set (b_adjustments (c_base c))"
    then obtain n where "n < length (b_adjustments (c_base c))" "b_adjustments (c_base c) ! n = a"
      by (auto simp: in_set_conv_nth)
    then have "(n, a) \<in> set (List.enumerate 0 (b_adjustments (c_base c)))"
      by (simp add: in_set_enumerate_eq)
    from a[OF this] show "(a_kind a = SubtractAmount \<longrightarrow> a_amount a \<noteq> None) \<and> (a_kind a = SubtractProportion \<longrightarrow> a_proportion a \<noteq> None)"
      by (auto simp: validate_adjustment_def split: if_splits)
  qed
qed

lemma compile_sound_plan:
  assumes "compile s = Ok p"
    and q: "\<forall>c \<in> set (s_components s). rd_kind (c_rate c) = Bracket \<longrightarrow> b_kind (c_base c) \<noteq> BaseQuantity"
  shows "sound_plan p"
proof -
  note C = compile_checks[OF assms(1)]
  have d: "distinct (map c_id (s_components s))" using check_ids_ok[OF C(1)] by simp
  have each: "chargeable c \<and> adjustable c \<and> (needs_base c \<longrightarrow> b_kind (c_base c) \<noteq> BaseQuantity)"
    if "c \<in> set (s_components s)" for c
    using check_component_sound[of "s_components s" c] C(2) q that by blast
  have flat: "\<exists>c. find_component (s_components s) i = Some c \<and> chargeable c \<and> \<not> needs_base c"
    if "i \<in> set (pl_inclusive_flat p)" for i
  proof -
    obtain c where c: "c \<in> set (s_components s)" "c_id c = i" "flat_amount c"
      using inclusive_subtraction[OF C(6) d] \<open>i \<in> set (pl_inclusive_flat p)\<close> by auto
    then show ?thesis using find_component_id[OF d c(1)] each[OF c(1)] by (auto simp: flat_amount_def needs_base_def)
  qed
  have "\<exists>c \<in> set (s_components s). c_inclusive c \<Longrightarrow> s_extraction s \<noteq> None"
    using inclusive_each(1)[OF C(6)] by blast
  then show ?thesis
    using comp_order(2)[OF C(5)] each flat C(7,9) by (auto simp: sound_plan_def)
qed

end
