(* ===== verification/Brackets.thy ===== *)
theory Brackets
  imports ScheduleFacts ExactSum Evaluate
begin

text \<open>
  Money comparison and products as exact arithmetic, and the bracket rates of \<open>evaluate.go\<close> against the
  tax a marginal and a cliff schedule are specified to levy.
\<close>


section \<open>Money comparison and products\<close>

lemma money_cmp_ok:
  "money_cmp a b = Ok c \<Longrightarrow> wf_money a \<Longrightarrow> wf_money b \<Longrightarrow>
    m_currency a = m_currency b \<and> c = rat_cmp (amount_of a) (amount_of b)"
  by (auto simp: money_cmp_def wf_money_def amount_of_def dec_cmp_correct split: if_splits)

lemma rat_cmp_less [simp]: "rat_cmp a b < 0 \<longleftrightarrow> a < b" "rat_cmp a b \<le> 0 \<longleftrightarrow> a \<le> b" "0 < rat_cmp a b \<longleftrightarrow> b < a"
  by (auto simp: rat_cmp_def)

lemma money_min_ok:
  "money_min a b = Ok m \<Longrightarrow> wf_money a \<Longrightarrow> wf_money b \<Longrightarrow>
    wf_money m \<and> amount_of m = min (amount_of a) (amount_of b) \<and> m_currency m = m_currency a"
  by (auto simp: money_min_def min_def dest: money_cmp_ok split: if_splits)

lemma money_sign_ok: "wf_money m \<Longrightarrow> money_sign m = rat_cmp (amount_of m) 0"
  by (simp add: money_sign_def wf_money_def amount_of_def dec_val_sign rat_cmp_def)

lemma money_times_ok:
  "money_times m r = Ok x \<Longrightarrow> wf_money m \<Longrightarrow> wf_dec (r_value r) \<Longrightarrow>
    wf_money x \<and> amount_of x = amount_of m * dec_val (r_value r) \<and> m_currency x = m_currency m"
  by (auto simp: money_times_def wf_money_def amount_of_def dest: fmul_exact)

lemma money_zero_ok [simp]: "wf_money (money_zero m)" "amount_of (money_zero m) = 0" "m_currency (money_zero m) = m_currency m"
  by (simp_all add: money_zero_def wf_money_def amount_of_def set_finite_def wf_dec_def dec_val_def)

lemma money_neg_ok: "wf_money m \<Longrightarrow> wf_money (money_neg m) \<and> amount_of (money_neg m) = - amount_of m"
  by (simp add: wf_money_def amount_of_def money_neg_def dec_neg_props)

lemma money_neg_currency [simp]: "m_currency (money_neg m) = m_currency m"
  by (simp add: money_neg_def)

section \<open>Brackets against their specification\<close>

definition from_of :: "tier \<Rightarrow> rat" where "from_of t = amount_of (t_from t)"
definition rate_of :: "tier \<Rightarrow> rat" where "rate_of t = dec_val (r_value (t_rate t))"

text \<open>The tax of a marginal schedule: each tier's rate on what of the base lies within the tier.\<close>

fun marginal_tax :: "rat \<Rightarrow> tier list \<Rightarrow> rat" where
  "marginal_tax b [] = 0"
| "marginal_tax b [t] = rate_of t * max 0 (b - from_of t)"
| "marginal_tax b (t # u # ts) = rate_of t * max 0 (min b (from_of u) - from_of t) + marginal_tax b (u # ts)"

text \<open>The rate of a cliff schedule: that of the last tier the base reaches.\<close>

definition cliff_tax :: "rat \<Rightarrow> tier list \<Rightarrow> rat" where
  "cliff_tax b ts = b * rate_of (last (filter (\<lambda>t. from_of t \<le> b) ts))"

definition wf_tiers :: "tier list \<Rightarrow> bool" where
  "wf_tiers ts \<longleftrightarrow> (\<forall>t \<in> set ts. wf_money (t_from t) \<and> wf_dec (r_value (t_rate t)))"

lemma validate_tiers_sorted:
  "validate_tiers i n ts = Ok () \<Longrightarrow> wf_tiers ts \<Longrightarrow> sorted_wrt (<) (map from_of ts)"
proof (induction i n ts rule: validate_tiers.induct)
  case (1 i n t u ts)
  from "1.prems"(1) obtain c where c: "money_cmp (t_from u) (t_from t) = Ok c" "\<not> c \<le> 0"
    "validate_tiers i (Suc n) (u # ts) = Ok ()"
    by (auto split: result.splits if_splits)
  have "from_of t < from_of u" using c(1,2) money_cmp_ok[OF c(1)] "1.prems"(2) by (auto simp: wf_tiers_def from_of_def)
  moreover have "sorted_wrt (<) (map from_of (u # ts))" using "1.IH"[OF c(1,2,3)] "1.prems"(2) by (simp add: wf_tiers_def)
  ultimately show ?case by auto
qed auto

lemma marginal_above: "sorted_wrt (<) (map from_of (t # ts)) \<Longrightarrow> b \<le> from_of t \<Longrightarrow> marginal_tax b (t # ts) = 0"
proof (induction ts arbitrary: t)
  case (Cons u ts)
  then have "b \<le> from_of u" by auto
  then show ?case using Cons by simp
qed simp

lemma marginal_sum_ok:
  assumes "marginal_sum base acc ts = Ok tax" "wf_money base" "wf_money acc" "wf_tiers ts"
    and "sorted_wrt (<) (map from_of ts)"
  shows "wf_money tax \<and> m_currency tax = m_currency acc \<and> amount_of tax = amount_of acc + marginal_tax (amount_of base) ts"
  using assms
proof (induction base acc ts rule: marginal_sum.induct)
  case (2 base acc t ts)
  from "2.prems"(1) obtain upper portion where
    u: "(case ts of [] \<Rightarrow> Ok base | v # vs \<Rightarrow> fisc (money_min base (t_from v))) = Ok upper"
    and p: "money_sub upper (t_from t) = Ok portion"
    and rest: "(if money_sign portion \<le> 0 then Ok acc
       else bindR (fisc (money_times portion (t_rate t))) (\<lambda>part.
         bindR (fisc (money_add acc part)) (\<lambda>acc. marginal_sum base acc ts))) = Ok tax"
    by (auto simp: fisc_def split: if_splits)
  have t: "wf_money (t_from t)" "wf_dec (r_value (t_rate t))" "wf_tiers ts" "sorted_wrt (<) (map from_of ts)"
    using "2.prems"(4,5) by (auto simp: wf_tiers_def)
  define up where "up = (case ts of [] \<Rightarrow> amount_of base | v # vs \<Rightarrow> min (amount_of base) (from_of v))"
  have upper: "wf_money upper \<and> amount_of upper = up"
  proof (cases ts)
    case Nil
    then show ?thesis using u "2.prems"(2) by (simp add: up_def)
  next
    case (Cons v vs)
    then have "money_min base (t_from v) = Ok upper" using u by (simp add: fisc_def)
    then show ?thesis using money_min_ok[of base "t_from v" upper] "2.prems"(2) t(3) Cons
      by (simp add: up_def from_of_def wf_tiers_def)
  qed
  have por: "wf_money portion \<and> amount_of portion = up - from_of t"
    using money_sub_props(3)[OF p] upper t(1) by (simp add: from_of_def)
  show ?case
  proof (cases "money_sign portion \<le> 0")
    case True
    then have le: "up \<le> from_of t" using por by (simp add: money_sign_ok)
    have "amount_of base \<le> from_of t"
      using le "2.prems"(5) by (cases ts) (auto simp: up_def min_def split: if_splits)
    then have "marginal_tax (amount_of base) (t # ts) = 0" using "2.prems"(5) by (rule marginal_above[rotated])
    then show ?thesis using rest True "2.prems"(3) by simp
  next
    case False
    then obtain part acc' where x: "money_times portion (t_rate t) = Ok part" "money_add acc part = Ok acc'"
      "marginal_sum base acc' ts = Ok tax"
      using rest by (auto simp: fisc_def)
    have part: "wf_money part" "amount_of part = (up - from_of t) * rate_of t"
      using money_times_ok[OF x(1)] por t(2) by (simp_all add: rate_of_def)
    have a: "wf_money acc'" "amount_of acc' = amount_of acc + (up - from_of t) * rate_of t"
      using moneys.add_wf[OF "2.prems"(3) part(1) x(2)] moneys.add_val[OF "2.prems"(3) part(1) x(2)] part(2) by simp_all
    have IH: "wf_money tax \<and> m_currency tax = m_currency acc' \<and> amount_of tax = amount_of acc' + marginal_tax (amount_of base) ts"
      by (rule "2.IH"[of upper portion part acc'])
         (use False x u p a(1) "2.prems"(2) t(3,4) in \<open>auto simp: fisc_def\<close>)
    have gt: "0 < up - from_of t" using False por by (simp add: money_sign_ok)
    have "marginal_tax (amount_of base) (t # ts) = rate_of t * (up - from_of t) + marginal_tax (amount_of base) ts"
      using gt by (cases ts) (simp_all add: up_def)
    then show ?thesis using IH a(2) money_add_props(1)[OF x(2)] by (simp add: algebra_simps)
  qed
qed simp

lemma cliff_rate_ok:
  assumes "cliff_rate base r ts = Ok q" "wf_money base" "wf_tiers ts" "sorted_wrt (<) (map from_of ts)"
  shows "q = (case filter (\<lambda>t. from_of t \<le> amount_of base) ts of [] \<Rightarrow> r | us \<Rightarrow> t_rate (last us))"
  using assms
proof (induction base r ts rule: cliff_rate.induct)
  case (2 base r t ts)
  from "2.prems"(1) obtain c where c: "money_cmp base (t_from t) = Ok c" and q: "(if c < 0 then Ok r else cliff_rate base (t_rate t) ts) = Ok q"
    by (auto simp: fisc_def)
  have cv: "c = rat_cmp (amount_of base) (from_of t)"
    using money_cmp_ok[OF c] "2.prems"(2,3) by (simp add: wf_tiers_def from_of_def)
  show ?case
  proof (cases "c < 0")
    case True
    then have lt: "amount_of base < from_of t" using cv by simp
    then have "filter (\<lambda>t. from_of t \<le> amount_of base) (t # ts) = []"
      using "2.prems"(4) by (auto simp: filter_empty_conv)
    then show ?thesis using q True by simp
  next
    case False
    have IH: "q = (case filter (\<lambda>t. from_of t \<le> amount_of base) ts of [] \<Rightarrow> t_rate t | us \<Rightarrow> t_rate (last us))"
      by (rule "2.IH"[of c]) (use False c q "2.prems" in \<open>auto simp: fisc_def wf_tiers_def\<close>)
    have "from_of t \<le> amount_of base" using False cv by auto
    then show ?thesis using IH by (cases "filter (\<lambda>t. from_of t \<le> amount_of base) ts") auto
  qed
qed simp

lemma apply_bracket_ok:
  assumes "apply_bracket d b base = Ok tax" "validate_bracket i b = Ok ()" "wf_money base" "wf_tiers (k_tiers b)"
  shows "0 \<le> amount_of base" "wf_money tax" "m_currency tax = m_currency base"
    and "k_mode b = Marginal \<Longrightarrow> amount_of tax = marginal_tax (amount_of base) (k_tiers b)"
    and "k_mode b = Cliff \<Longrightarrow> amount_of tax = cliff_tax (amount_of base) (k_tiers b)"
proof -
  obtain t ts where k: "k_tiers b = t # ts" using assms(1) by (cases "k_tiers b") (auto simp: apply_bracket_def)
  have m: "k_mode b = Marginal \<or> k_mode b = Cliff" and z: "money_sign (t_from t) = 0"
    and v: "validate_tiers i 1 (t # ts) = Ok ()"
    using assms(2) k by (auto simp: validate_bracket_def split: if_splits)
  have wf: "wf_tiers (t # ts)" using assms(4) k by simp
  have s: "sorted_wrt (<) (map from_of (t # ts))" by (rule validate_tiers_sorted[OF v wf])
  have f0: "from_of t = 0" using z wf by (auto simp: money_sign_ok wf_tiers_def from_of_def rat_cmp_def split: if_splits)
  have pos: "\<not> money_sign base < 0" using assms(1) k by (auto simp: apply_bracket_def same_currency_def split: if_splits)
  then show b0: "0 \<le> amount_of base" using money_sign_ok[OF assms(3)] by (simp add: rat_cmp_def split: if_splits)
  have M: "wf_money tax \<and> m_currency tax = m_currency base \<and> amount_of tax = marginal_tax (amount_of base) (t # ts)" if "k_mode b = Marginal"
  proof -
    have "marginal_sum base (money_zero base) (t # ts) = Ok tax"
      using assms(1) k pos that by (auto simp: apply_bracket_def same_currency_def split: if_splits)
    from marginal_sum_ok[OF this assms(3) _ wf s] show ?thesis by simp
  qed
  have C: "wf_money tax \<and> m_currency tax = m_currency base \<and> amount_of tax = cliff_tax (amount_of base) (t # ts)" if cl: "k_mode b = Cliff"
  proof -
    obtain q where q: "cliff_rate base (t_rate t) ts = Ok q" "money_times base q = Ok tax"
      using assms(1) k pos cl by (auto simp: apply_bracket_def same_currency_def fisc_def split: if_splits)
    have wts: "wf_tiers ts" "sorted_wrt (<) (map from_of ts)" using wf s by (auto simp: wf_tiers_def)
    have "q = t_rate (last (filter (\<lambda>t. from_of t \<le> amount_of base) (t # ts)))"
      using cliff_rate_ok[OF q(1) assms(3) wts] f0 b0 by (auto split: list.splits)
    moreover have "last (filter (\<lambda>t. from_of t \<le> amount_of base) (t # ts)) \<in> set (t # ts)"
      using f0 b0 last_in_set[of "filter (\<lambda>t. from_of t \<le> amount_of base) (t # ts)"] by (auto split: if_splits)
    ultimately show ?thesis
      using money_times_ok[OF q(2) assms(3)] wf by (simp only: wf_tiers_def cliff_tax_def rate_of_def)
  qed
  show "wf_money tax" "m_currency tax = m_currency base" using m M C by auto
  show "k_mode b = Marginal \<Longrightarrow> amount_of tax = marginal_tax (amount_of base) (k_tiers b)"
    "k_mode b = Cliff \<Longrightarrow> amount_of tax = cliff_tax (amount_of base) (k_tiers b)"
    using M C k by auto
qed

end
