(* ===== verification/Adjust.thy ===== *)
theory Adjust
  imports Evaluate
begin

text \<open>
  \<open>backend/internal/domain/determination/adjust.go\<close>: reversal, partial credit and the net
  position of an adjustment chain.
\<close>

datatype adjustment_kind = FullReversal | PartialCredit | Correction | Refund | AdjustmentOther string

fun adjustment_kind_name :: "adjustment_kind \<Rightarrow> string" where
  "adjustment_kind_name FullReversal = ''FULL_REVERSAL''"
| "adjustment_kind_name PartialCredit = ''PARTIAL_CREDIT''"
| "adjustment_kind_name Correction = ''CORRECTION''"
| "adjustment_kind_name Refund = ''REFUND''"
| "adjustment_kind_name (AdjustmentOther s) = s"

fun adjustment_kind_valid :: "adjustment_kind \<Rightarrow> bool" where
  "adjustment_kind_valid (AdjustmentOther s) = False"
| "adjustment_kind_valid k = True"

section \<open>Reversal\<close>

definition reverse_component :: "comp_result \<Rightarrow> comp_result" where
  "reverse_component c =
     c\<lparr>r_raw := money_neg (r_raw c), r_amount := money_neg (r_amount c),
       r_base := map_option money_neg (r_base c)\<rparr>"

definition reverse_step :: "string \<Rightarrow> comp_result \<Rightarrow> trace_step" where
  "reverse_step key c =
     \<lparr>ts_line = key, ts_component = r_component c, ts_step = adjustment_kind_name FullReversal,
      ts_detail = money_canonical (r_amount c) @ '' -> '' @ money_canonical (r_amount (reverse_component c))\<rparr>"

definition reverse_line :: "line_result \<Rightarrow> line_result" where
  "reverse_line l =
     \<lparr>lr_key = lr_key l, lr_net = money_neg (lr_net l),
      lr_components = map reverse_component (lr_components l)\<rparr>"

definition reverse :: "determination \<Rightarrow> determination" where
  "reverse d =
     \<lparr>dn_currency = dn_currency d, dn_lines = map reverse_line (dn_lines d),
      dn_trace = concat (map (\<lambda>l. map (reverse_step (lr_key l)) (lr_components l)) (dn_lines d))\<rparr>"

section \<open>Partial credit\<close>

text \<open>The slots in line and evaluation order, and the running total of the original's tax.\<close>

definition credit_slots :: "determination \<Rightarrow> (nat \<times> comp_result) list" where
  "credit_slots d =
     concat (map (\<lambda>(i, l). map (\<lambda>c. (i, c)) (lr_components l)) (List.enumerate 0 (dn_lines d)))"

definition credit_total_step :: "money \<Rightarrow> nat \<times> comp_result \<Rightarrow> (eval_err, money) result" where
  "credit_total_step acc = (\<lambda>(i, c).
     if money_sign (r_amount c) < 0 then Err (EvInvalid ''original'' ''INVALID_VALUE'')
     else fisc (money_add acc (r_amount c)))"

definition credit_result :: "comp_result \<Rightarrow> money \<Rightarrow> comp_result" where
  "credit_result orig part =
     \<lparr>r_component = r_component orig, r_jurisdiction = r_jurisdiction orig, r_tax_type = r_tax_type orig,
      r_inclusive = r_inclusive orig, r_base = None, r_raw = part, r_amount = part\<rparr>"

definition credit_line :: "((nat \<times> comp_result) \<times> money) list \<Rightarrow> nat \<times> line_result \<Rightarrow> line_result" where
  "credit_line parts = (\<lambda>(i, l).
     \<lparr>lr_key = lr_key l, lr_net = money_zero (lr_net l),
      lr_components = map (\<lambda>((j, c), part). credit_result c part) (filter (\<lambda>((j, c), part). j = i) parts)\<rparr>)"

definition credit_step :: "determination \<Rightarrow> money \<Rightarrow> (nat \<times> comp_result) \<times> money \<Rightarrow> trace_step" where
  "credit_step d credit = (\<lambda>((i, c), part).
     \<lparr>ts_line = lr_key (dn_lines d ! i), ts_component = r_component c,
      ts_step = adjustment_kind_name PartialCredit,
      ts_detail = money_canonical part @ '' of '' @ money_canonical credit @ '', weighted by ''
        @ money_canonical (r_amount c)\<rparr>)"

definition partial_credit ::
  "determination \<Rightarrow> money \<Rightarrow> rounding_policy \<Rightarrow> (eval_err, determination) result" where
  "partial_credit d credit p =
     (if m_currency credit \<noteq> dn_currency d then Err (EvInvalid ''credit'' ''CURRENCY_MISMATCH'')
      else if money_sign credit \<le> 0 then Err (EvInvalid ''credit'' ''INVALID_VALUE'')
      else
        let slots = credit_slots d in
        bindR (fisc (parse_money ''0'' (dn_currency d))) (\<lambda>zero.
        bindR (foldR credit_total_step zero slots) (\<lambda>total.
          if slots = [] then Err (EvInvalid ''original'' ''INVALID_VALUE'')
          else
            bindR (fisc (money_cmp credit total)) (\<lambda>over.
              if over > 0 then Err (EvInvalid ''credit'' ''INVALID_VALUE'')
              else
                bindR (fisc (allocate (money_neg credit) (map (\<lambda>(i, c). r_amount c) slots) p)) (\<lambda>parts.
                  let filled = zip slots parts in
                  Ok \<lparr>dn_currency = dn_currency d,
                      dn_lines = map (credit_line filled) (List.enumerate 0 (dn_lines d)),
                      dn_trace = map (credit_step d credit) filled\<rparr>)))))"

section \<open>Net position\<close>

type_synonym position = "string \<times> comp_id \<rightharpoonup> money"

definition position_step :: "string \<Rightarrow> position \<Rightarrow> comp_result \<Rightarrow> (eval_err, position) result" where
  "position_step key out c =
     (let k = (key, r_component c) in
      case out k of
        None \<Rightarrow> Ok (out(k \<mapsto> r_amount c))
      | Some prior \<Rightarrow> bindR (fisc (money_add prior (r_amount c))) (\<lambda>s. Ok (out(k \<mapsto> s))))"

definition position_line :: "position \<Rightarrow> line_result \<Rightarrow> (eval_err, position) result" where
  "position_line out l = foldR (position_step (lr_key l)) out (lr_components l)"

definition position_of :: "string \<Rightarrow> position \<Rightarrow> determination \<Rightarrow> (eval_err, position) result" where
  "position_of currency out d =
     (if dn_currency d \<noteq> currency then Err (EvInvalid ''chain'' ''CURRENCY_MISMATCH'')
      else foldR position_line out (dn_lines d))"

definition net_position :: "determination list \<Rightarrow> (eval_err, position) result" where
  "net_position chain =
     (case chain of
        [] \<Rightarrow> Ok (\<lambda>_. None)
      | d # ds \<Rightarrow> foldR (position_of (dn_currency d)) (\<lambda>_. None) chain)"

end
