(* ===== verification/Corrections.thy ===== *)
theory Corrections
  imports Brackets Allocate Adjust
begin

text \<open>
  The corrections of \<open>adjust.go\<close> and the rounding pools of \<open>evaluate.go\<close> as sums: a position is the sum
  of a chain's entries, a reversal negates them, a partial credit divides one amount over them, and a
  pool divides its rounded total over its members.
\<close>


section \<open>Positions as sums\<close>

type_synonym entry = "(string \<times> comp_id) \<times> money"

definition entries :: "determination \<Rightarrow> entry list" where
  "entries d = concat (map (\<lambda>l. map (\<lambda>c. ((lr_key l, r_component c), r_amount c)) (lr_components l)) (dn_lines d))"

definition entry_sum :: "string \<times> comp_id \<Rightarrow> entry list \<Rightarrow> rat" where
  "entry_sum k es = (\<Sum>e\<leftarrow>es. if fst e = k then amount_of (snd e) else 0)"

definition post_entry :: "position \<Rightarrow> entry \<Rightarrow> (eval_err, position) result" where
  "post_entry out = (\<lambda>(k, m).
     (case out k of
        None \<Rightarrow> Ok (out(k \<mapsto> m))
      | Some prior \<Rightarrow> bindR (fisc (money_add prior m)) (\<lambda>s. Ok (out(k \<mapsto> s)))))"

lemma foldR_concat: "foldR f s (concat (map g xs)) = foldR (\<lambda>s x. foldR f s (g x)) s xs"
proof (induction xs arbitrary: s)
  case (Cons x xs)
  then show ?case by (simp add: foldR_append)
qed simp

lemma foldR_map: "foldR f s (map g xs) = foldR (\<lambda>s x. f s (g x)) s xs"
proof (induction xs arbitrary: s)
  case (Cons x xs)
  then show ?case by (cases "f s (g x)") auto
qed simp

lemma position_line_entries:
  "position_line out l = foldR post_entry out (map (\<lambda>c. ((lr_key l, r_component c), r_amount c)) (lr_components l))"
  by (simp add: position_line_def foldR_map position_step_def[abs_def] post_entry_def Let_def)

lemma position_of_entries:
  "position_of cur out d = Ok out' \<Longrightarrow> foldR post_entry out (entries d) = Ok out' \<and> dn_currency d = cur"
  by (simp add: position_of_def entries_def foldR_concat position_line_entries[abs_def] split: if_splits)

lemma chain_entries:
  "foldR (position_of cur) out ds = Ok out' \<Longrightarrow>
    foldR post_entry out (concat (map entries ds)) = Ok out' \<and> (\<forall>d \<in> set ds. dn_currency d = cur)"
proof (induction ds arbitrary: out)
  case (Cons d ds)
  then obtain mid where m: "position_of cur out d = Ok mid" "foldR (position_of cur) mid ds = Ok out'" by auto
  then show ?case using position_of_entries[OF m(1)] Cons.IH[OF m(2)] by (simp add: foldR_append)
qed simp

lemma post_entries_sum:
  assumes "foldR post_entry out es = Ok out'" "\<forall>e \<in> set es. wf_money (snd e)" "\<forall>m \<in> ran out. wf_money m"
  shows "dom out' = dom out \<union> fst ` set es \<and> (\<forall>m \<in> ran out'. wf_money m)
    \<and> (\<forall>k. (case out' k of None \<Rightarrow> 0 | Some m \<Rightarrow> amount_of m) = (case out k of None \<Rightarrow> 0 | Some m \<Rightarrow> amount_of m) + entry_sum k es)"
  using assms
proof (induction es arbitrary: out)
  case Nil
  then show ?case by (simp add: entry_sum_def)
next
  case (Cons e es)
  obtain k m where e: "e = (k, m)" by (cases e)
  from Cons.prems(1) obtain mid where p: "post_entry out e = Ok mid" "foldR post_entry mid es = Ok out'" by auto
  have wm: "wf_money m" using Cons.prems(2) e by simp
  obtain s where s: "mid = out(k \<mapsto> s)" "wf_money s"
    "amount_of s = (case out k of None \<Rightarrow> 0 | Some p \<Rightarrow> amount_of p) + amount_of m"
  proof (cases "out k")
    case None
    then have "mid = out(k \<mapsto> m)" using p(1) e by (simp add: post_entry_def)
    then show ?thesis using that[of m] wm None by simp
  next
    case (Some prior)
    then obtain s where s: "money_add prior m = Ok s" "mid = out(k \<mapsto> s)" using p(1) e by (auto simp: post_entry_def fisc_def)
    have "wf_money prior" using Cons.prems(3) Some by (auto intro: ranI)
    then show ?thesis using that[OF s(2)] moneys.add_wf[OF _ wm s(1)] moneys.add_val[OF _ wm s(1)] Some by simp
  qed
  have "\<forall>m \<in> ran mid. wf_money m" using Cons.prems(3) s by (auto simp: ran_def split: if_splits)
  then have IH: "dom out' = dom mid \<union> fst ` set es \<and> (\<forall>m \<in> ran out'. wf_money m)
    \<and> (\<forall>k. (case out' k of None \<Rightarrow> 0 | Some m \<Rightarrow> amount_of m) = (case mid k of None \<Rightarrow> 0 | Some m \<Rightarrow> amount_of m) + entry_sum k es)"
    by (intro Cons.IH[OF p(2)]) (use Cons.prems(2) in simp_all)
  then show ?case using s e by (auto simp: entry_sum_def)
qed

lemma net_position_ok:
  assumes "net_position chain = Ok out" "\<forall>d \<in> set chain. \<forall>e \<in> set (entries d). wf_money (snd e)"
  shows "dom out = fst ` set (concat (map entries chain))"
    and "\<And>k m. out k = Some m \<Longrightarrow> wf_money m \<and> amount_of m = (\<Sum>d\<leftarrow>chain. entry_sum k (entries d))"
    and "\<And>d e. d \<in> set chain \<Longrightarrow> e \<in> set chain \<Longrightarrow> dn_currency d = dn_currency e"
proof -
  have f: "foldR post_entry (\<lambda>_. None) (concat (map entries chain)) = Ok out \<and>
      (\<forall>d \<in> set chain. dn_currency d = dn_currency (hd chain))"
  proof (cases chain)
    case Nil
    then show ?thesis using assms(1) by (simp add: net_position_def)
  next
    case (Cons d ds)
    then have "foldR (position_of (dn_currency d)) (\<lambda>_. None) chain = Ok out" using assms(1) by (simp add: net_position_def)
    from chain_entries[OF this] show ?thesis using Cons by simp
  qed
  then show "\<And>d e. d \<in> set chain \<Longrightarrow> e \<in> set chain \<Longrightarrow> dn_currency d = dn_currency e" by simp
  have wf: "\<forall>e \<in> set (concat (map entries chain)). wf_money (snd e)" using assms(2) by auto
  have P: "dom out = dom (\<lambda>_. None :: money option) \<union> fst ` set (concat (map entries chain)) \<and> (\<forall>m \<in> ran out. wf_money m)
    \<and> (\<forall>k. (case out k of None \<Rightarrow> 0 | Some m \<Rightarrow> amount_of m) =
          (case None of None \<Rightarrow> 0 | Some m \<Rightarrow> amount_of m) + entry_sum k (concat (map entries chain)))"
    by (rule post_entries_sum[OF conjunct1[OF f] wf]) (simp add: ran_def)
  have sum: "entry_sum k (concat (map entries chain)) = (\<Sum>d\<leftarrow>chain. entry_sum k (entries d))" for k
    by (induction chain) (simp_all add: entry_sum_def)
  show "dom out = fst ` set (concat (map entries chain))" using P by simp
  show "wf_money m \<and> amount_of m = (\<Sum>d\<leftarrow>chain. entry_sum k (entries d))" if "out k = Some m" for k m
  proof
    have "m \<in> ran out" using that by (rule ranI)
    then show "wf_money m" using P by blast
    have "(case out k of None \<Rightarrow> 0 | Some m \<Rightarrow> amount_of m) =
        (case None of None \<Rightarrow> 0 | Some m \<Rightarrow> amount_of m) + entry_sum k (concat (map entries chain))" using P by blast
    then show "amount_of m = (\<Sum>d\<leftarrow>chain. entry_sum k (entries d))" using that sum[of k] by simp
  qed
qed

section \<open>Reversal\<close>

lemma reverse_entries: "entries (reverse d) = map (\<lambda>(k, m). (k, money_neg m)) (entries d)"
  by (simp add: entries_def reverse_def map_concat comp_def reverse_line_def reverse_component_def)

lemma reverse_sum:
  assumes "\<forall>e \<in> set (entries d). wf_money (snd e)"
  shows "entry_sum k (entries (reverse d)) = - entry_sum k (entries d)"
proof -
  have "\<forall>e \<in> set es. wf_money (snd e) \<Longrightarrow>
      entry_sum k (map (\<lambda>(k, m). (k, money_neg m)) es) = - entry_sum k es" for es
    by (induction es) (auto simp: entry_sum_def money_neg_ok)
  then show ?thesis using assms by (simp add: reverse_entries)
qed

section \<open>Partial credit\<close>

lemma zip_filter_fst: "length xs = length ys \<Longrightarrow>
  map fst (filter (\<lambda>(x, y). P x) (zip xs ys)) = filter P xs"
  by (induction xs ys rule: list_induct2) auto

lemma sum_by_index:
  fixes g :: "'a \<Rightarrow> rat"
  assumes "\<forall>x \<in> set xs. h x < n"
  shows "(\<Sum>i\<leftarrow>[0..<n]. \<Sum>x\<leftarrow>filter (\<lambda>x. h x = i) xs. g x) = (\<Sum>x\<leftarrow>xs. g x)"
  using assms
proof (induction xs)
  case (Cons x xs)
  have "(\<Sum>i\<leftarrow>[0..<n]. \<Sum>x\<leftarrow>filter (\<lambda>y. h y = i) (x # xs). g x) =
      (\<Sum>i\<leftarrow>[0..<n]. (if h x = i then g x else 0) + (\<Sum>x\<leftarrow>filter (\<lambda>y. h y = i) xs. g x))"
    by (intro arg_cong[where f = sum_list] map_cong) auto
  also have "\<dots> = (\<Sum>i\<leftarrow>[0..<n]. if h x = i then g x else 0) + (\<Sum>i\<leftarrow>[0..<n]. \<Sum>x\<leftarrow>filter (\<lambda>y. h y = i) xs. g x)"
    by (rule sum_list_addf)
  also have "(\<Sum>i\<leftarrow>[0..<n]. if h x = i then g x else 0) = g x"
    using Cons.prems by (simp add: sum_list_sum_nth sum.delta atLeast0LessThan) 
  finally show ?case using Cons by simp
qed simp

definition total_tax :: "determination \<Rightarrow> rat" where
  "total_tax d = (\<Sum>l\<leftarrow>dn_lines d. \<Sum>c\<leftarrow>lr_components l. amount_of (r_amount c))"

lemma credit_slots_index: "x \<in> set (credit_slots d) \<Longrightarrow> fst x < length (dn_lines d)"
  by (auto simp: credit_slots_def in_set_enumerate_eq)

lemma partial_credit_parts:
  assumes "partial_credit d credit p = Ok d'"
  shows "\<exists>parts. allocate (money_neg credit) (map (\<lambda>(i, c). r_amount c) (credit_slots d)) p = Ok parts
    \<and> dn_currency d' = dn_currency d \<and> m_currency credit = dn_currency d
    \<and> dn_lines d' = map (credit_line (zip (credit_slots d) parts)) (List.enumerate 0 (dn_lines d))"
  using assms by (auto simp: partial_credit_def Let_def fisc_def split: if_splits)

lemma credit_total:
  assumes "dn_lines d' = map (credit_line (zip (credit_slots d) parts)) (List.enumerate 0 (dn_lines d))"
    and "length parts = length (credit_slots d)"
  shows "total_tax d' = (\<Sum>m\<leftarrow>parts. amount_of m)"
proof -
  let ?zs = "zip (credit_slots d) parts" and ?n = "length (dn_lines d)"
  have line: "(\<Sum>c\<leftarrow>lr_components (credit_line zs x). amount_of (r_amount c)) =
      (\<Sum>z\<leftarrow>filter (\<lambda>z. fst (fst z) = fst x) zs. amount_of (snd z))" for zs x
    by (simp add: credit_line_def comp_def case_prod_unfold credit_result_def)
  have "total_tax d' = (\<Sum>x\<leftarrow>List.enumerate 0 (dn_lines d). \<Sum>z\<leftarrow>filter (\<lambda>z. fst (fst z) = fst x) ?zs. amount_of (snd z))"
    unfolding total_tax_def assms(1) map_map comp_def line by (rule refl)
  also have "\<dots> = (\<Sum>i\<leftarrow>map fst (List.enumerate 0 (dn_lines d)). \<Sum>z\<leftarrow>filter (\<lambda>z. fst (fst z) = i) ?zs. amount_of (snd z))"
    by (simp only: map_map comp_def)
  also have "map fst (List.enumerate 0 (dn_lines d)) = [0..<?n]" by simp
  also have "(\<Sum>i\<leftarrow>[0..<?n]. \<Sum>z\<leftarrow>filter (\<lambda>z. fst (fst z) = i) ?zs. amount_of (snd z)) = (\<Sum>z\<leftarrow>?zs. amount_of (snd z))"
    by (rule sum_by_index) (metis credit_slots_index in_set_zipE prod.collapse)
  also have "\<dots> = (\<Sum>m\<leftarrow>map snd ?zs. amount_of m)" by (simp only: map_map comp_def)
  also have "map snd ?zs = parts" using assms(2) by simp
  finally show ?thesis .
qed

section \<open>Rounding pools\<close>

text \<open>What a line holds for a pool's member: the amount later components read, and the amount of the result
  the determination is built from.\<close>

definition slot_of :: "line_state list \<Rightarrow> nat \<Rightarrow> comp_id \<Rightarrow> money option \<times> money option" where
  "slot_of states n i = (ls_amounts (states ! n) i, map_option r_amount (ls_results (states ! n) i))"

definition value_of :: "money option \<Rightarrow> rat" where
  "value_of a = (case a of None \<Rightarrow> 0 | Some m \<Rightarrow> amount_of m)"

definition recorded :: "line_state list \<Rightarrow> nat \<times> comp_id \<times> money \<Rightarrow> rat" where
  "recorded states m = value_of (fst (slot_of states (fst m) (fst (snd m))))"

definition charged :: "line_state list \<Rightarrow> nat \<times> comp_id \<times> money \<Rightarrow> rat" where
  "charged states m = value_of (snd (slot_of states (fst m) (fst (snd m))))"

definition member_line :: "nat \<times> comp_id \<times> money \<Rightarrow> nat \<times> comp_id" where
  "member_line m = (fst m, fst (snd m))"

lemma allocate_back_other:
  assumes "allocate_back q (ss, tr) z = Ok (ss', tr')" "(n, i) \<noteq> member_line (fst z)"
  shows "slot_of ss' n i = slot_of ss n i"
proof -
  obtain k j w part where z: "z = ((k, j, w), part)" by (cases z) auto
  show ?thesis using assms
    by (cases "n = k") (auto simp: z allocate_back_def Let_def slot_of_def member_line_def split: if_splits option.splits)
qed

lemma allocate_back_own:
  assumes "allocate_back q (ss, tr) z = Ok (ss', tr')"
  shows "slot_of ss' (fst (fst z)) (fst (snd (fst z))) = (Some (snd z), Some (snd z))"
proof -
  obtain k j w part where z: "z = ((k, j, w), part)" by (cases z) auto
  show ?thesis using assms
    by (auto simp: z allocate_back_def Let_def slot_of_def split: if_splits option.splits)
qed

lemma allocate_back_all:
  assumes "foldR (allocate_back q) (ss, tr) zs = Ok (ss', tr')" "distinct (map (member_line \<circ> fst) zs)"
  shows "(\<forall>z \<in> set zs. slot_of ss' (fst (fst z)) (fst (snd (fst z))) = (Some (snd z), Some (snd z)))
    \<and> (\<forall>n i. (n, i) \<notin> member_line ` fst ` set zs \<longrightarrow> slot_of ss' n i = slot_of ss n i)"
  using assms
proof (induction zs arbitrary: ss tr)
  case (Cons z zs)
  then obtain s1 t1 where z: "allocate_back q (ss, tr) z = Ok (s1, t1)" "foldR (allocate_back q) (s1, t1) zs = Ok (ss', tr')"
    by auto
  have IH: "\<forall>z \<in> set zs. slot_of ss' (fst (fst z)) (fst (snd (fst z))) = (Some (snd z), Some (snd z))"
    "\<forall>n i. (n, i) \<notin> member_line ` fst ` set zs \<longrightarrow> slot_of ss' n i = slot_of s1 n i"
    using Cons.IH[OF z(2)] Cons.prems(2) by simp_all
  have "member_line (fst z) \<notin> member_line ` fst ` set zs" using Cons.prems(2) by (auto simp: image_image)
  then have "slot_of ss' (fst (fst z)) (fst (snd (fst z))) = (Some (snd z), Some (snd z))"
    using IH(2) allocate_back_own[OF z(1)] by (simp add: member_line_def)
  moreover have "slot_of ss' n i = slot_of ss n i" if "(n, i) \<notin> member_line ` fst ` set (z # zs)" for n i
    using that IH(2) allocate_back_other[OF z(1), of n i] by simp
  ultimately show ?case using IH(1) by simp
qed simp

end
