(* ===== verification/QuoFacts.thy ===== *)
theory QuoFacts
  imports FiscalFacts Allocate
begin

text \<open>
  The quotient of a policy context (\<open>apd\<close>'s \<open>Context.Quo\<close> at 34 digits): its result is well formed, has
  at most 35 digits before the context rounds it, and an exponent the later steps can handle.
\<close>


section \<open>The quotient of a policy context\<close>

lemma num_digits_scale:
  assumes "0 < b" "0 \<le> k"
  shows "num_digits_int (b * exp10 k) = num_digits_int b + k"
proof -
  let ?n = "num_digits_int b"
  have n: "0 < ?n" by (rule num_digits_int_pos)
  have bk: "0 \<le> b * exp10 k" using assms(1) by (intro mult_nonneg_nonneg less_imp_le[OF exp10_pos]) simp
  have e: "exp10 k = 10 ^ nat k" using assms(2) by (simp add: exp10_def)
  have lo: "10 ^ nat (?n - 1) \<le> b" using assms(1) by (rule num_digits_int_lower)
  have hi: "b < 10 ^ nat ?n" using assms(1) by (intro num_digits_int_upper) simp
  have "b * exp10 k < 10 ^ nat ?n * 10 ^ nat k" unfolding e using hi by simp
  then have "b * exp10 k < 10 ^ (nat ?n + nat k)" by (simp add: power_add)
  then have "num_digits_int (b * exp10 k) \<le> int (nat ?n + nat k)"
    using assms n bk by (subst num_digits_int_le_iff) auto
  then have up: "num_digits_int (b * exp10 k) \<le> ?n + k" using n assms(2) by simp
  have "10 ^ (nat (?n - 1) + nat k) \<le> b * exp10 k" unfolding e using lo by (simp add: power_add)
  then have "\<not> num_digits_int (b * exp10 k) \<le> int (nat (?n - 1) + nat k)" if "0 < nat (?n - 1) + nat k"
    using bk that by (subst num_digits_int_le_iff) auto
  then have "?n + k \<le> num_digits_int (b * exp10 k)"
    using n assms(2) num_digits_int_pos[of "b * exp10 k"] by (cases "0 < nat (?n - 1) + nat k") auto
  then show ?thesis using up by simp
qed

lemma same_digits_less:
  assumes "0 < a" "0 < b" "num_digits_int a \<le> num_digits_int b"
  shows "a < 10 * b"
proof -
  let ?n = "num_digits_int b"
  have "a < 10 ^ nat (num_digits_int a)" using assms(1) by (intro num_digits_int_upper) simp
  also have "\<dots> \<le> 10 ^ nat ?n" using assms(3) by (intro power_increasing) auto
  also have "(10 :: int) ^ nat ?n = 10 * 10 ^ nat (?n - 1)"
  proof -
    have "nat ?n = Suc (nat (?n - 1))" using num_digits_int_pos[of b] by linarith
    then show ?thesis by simp
  qed
  also have "\<dots> \<le> 10 * b" using num_digits_int_lower[OF assms(2)] by simp
  finally show ?thesis .
qed

lemma go_error_Ok: "go_error c d f = Ok (d', f') \<Longrightarrow> d' = d \<and> f' = f \<and> f \<inter> sys_flags = {}"
  by (auto simp: go_error_def split: if_splits)

lemma ctx_quo_ok:
  assumes c: "policy_like c" "c_prec c = 34" and x: "small_dec x" and y: "small_dec y" "d_coeff y \<noteq> 0"
    and ok: "ctx_quo c x y = Ok (d, f)"
  shows "wf_dec d \<and> num_digits d \<le> 35 \<and> moderate d"
proof -
  have em: "c_emax c = 100000" "c_emin c = - 100000" using c(1) by (simp_all add: policy_like_def std_ctx_def)
  have X: "wf_dec x" "num_digits x \<le> 34" "- 1000 \<le> d_exp x" "d_exp x \<le> 1000" using x by (simp_all add: small_dec_def)
  have Y: "wf_dec y" "num_digits y \<le> 34" "- 1000 \<le> d_exp y" "d_exp y \<le> 1000" using y by (simp_all add: small_dec_def)
  have z: "\<not> dec_is_zero y" using Y(1) y(2) by (simp add: dec_is_zero_coeff)
  have sp: "quo_specials c x y True = None"
    using X(1) Y(1) z c(2) by (simp add: quo_specials_def should_set_as_nan_def is_nan_form_def wf_dec_def)
  have sh: "i32 (d_exp x - d_exp y) = d_exp x - d_exp y" using X Y by simp
  show ?thesis
  proof (cases "dec_is_zero x")
    case True
    obtain e r where s: "set_exponent c (dec0\<lparr>d_neg := d_neg x \<noteq> d_neg y\<rparr>) unknownNumDigits {} [d_exp x - d_exp y] = (e, r)"
      by fastforce
    then have g: "go_error c e r = Ok (d, f)" using ok True by (simp add: ctx_quo_def sp Let_def sh)
    have "d = e" "r \<inter> sys_flags = {}" using go_error_Ok[OF g] by auto
    then have "d = dec0\<lparr>d_neg := d_neg x \<noteq> d_neg y, d_exp := i32 (d_exp x - d_exp y)\<rparr>"
      using set_exponent_flags[OF em s] by simp
    then show ?thesis using sh X Y by (simp add: wf_dec_def dec0_def num_digits_def moderate_def)
  next
    case False
    define a where "a = d_coeff x"
    define b where "b = d_coeff y"
    have ab: "0 < a" "0 < b" using X(1) Y(1) y(2) False by (auto simp: a_def b_def wf_dec_def dec_is_zero_coeff order.strict_iff_order)
    define nd where "nd = num_digits_int a - num_digits_int b"
    have ndb: "- 34 \<le> nd" "nd \<le> 34"
      using X(2) Y(2) num_digits_int_pos[of a] num_digits_int_pos[of b] by (auto simp: nd_def a_def b_def num_digits_def)
    define a1 where "a1 = (if nd < 0 then a * exp10 (- nd) else a)"
    define b1 where "b1 = (if 0 < nd then b * exp10 nd else b)"
    have p1: "0 < a1" "0 < b1" using ab by (simp_all add: a1_def b1_def)
    have dig: "num_digits_int a1 = num_digits_int b1"
      using ab by (auto simp: a1_def b1_def nd_def num_digits_scale)
    define a2 where "a2 = (if a1 < b1 then a1 * 10 else a1)"
    define k where "k = (if a1 < b1 then - nd + 1 else - nd)"
    have a2: "0 < a2" "a2 < 10 * b1" using p1 same_digits_less[OF p1] dig by (auto simp: a2_def)
    define co where "co = a2 * exp10 33 div b1"
    have e33: "exp10 33 = 10 ^ 33" by (simp add: exp10_def)
    have num0: "0 \<le> a2 * exp10 33" using a2(1) by (intro mult_nonneg_nonneg less_imp_le[OF exp10_pos]) simp
    have co0: "0 \<le> co" using num0 p1 by (simp add: co_def pos_imp_zdiv_nonneg_iff)
    have colt: "co < 10 ^ 34"
    proof (rule ccontr)
      assume "\<not> co < 10 ^ 34"
      then have "10 ^ 34 * b1 \<le> co * b1" using p1(2) by (intro mult_right_mono) auto
      also have "co * b1 \<le> a2 * exp10 33"
        using pos_mod_sign[OF p1(2), of "a2 * exp10 33"] div_mult_mod_eq[of "a2 * exp10 33" b1] unfolding co_def by linarith
      also have "a2 * exp10 33 < 10 * b1 * exp10 33" using a2(2) by simp
      finally show False unfolding e33 by simp
    qed
    have dg: "num_digits_int co \<le> 35" "num_digits_int (co + 1) \<le> 35"
      using co0 colt num_digits_int_le_iff[of co 35] num_digits_int_le_iff[of "co + 1" 35] by auto
    let ?neg = "d_neg x \<noteq> d_neg y"
    have kb: "- 35 \<le> k" "k \<le> 35" using ndb by (auto simp: k_def)
    have abs: "\<bar>d_coeff x\<bar> = a" "\<bar>d_coeff y\<bar> = b" using ab by (simp_all add: a_def b_def)
    have sd: "a2 * exp10 33 sdiv b1 = co" using num0 p1 by (simp add: co_def sdiv_nonneg)
    define T where "T = (if a2 * exp10 33 smod b1 \<noteq> 0 \<and> d_exp x - d_exp y + (- k) + (- 33) + num_digits_int co - 1 \<ge> c_emin c
        then (if should_add_one (c_rounding c) co ?neg (big_cmp (a2 * exp10 33 smod b1 * 2) b1)
              then (co + 1, unknownNumDigits, {Inexact, Rounded})
              else (co, num_digits_int co, {Inexact, Rounded}))
        else (co, num_digits_int co, {}))"
    obtain co' n' res where T: "T = (co', n', res)" by (cases T)
    have co': "co' = co \<or> co' = co + 1" using T by (auto simp: T_def split: if_splits)
    have q: "ctx_quo c x y =
        (case set_exponent c \<lparr>d_form = Finite, d_neg = ?neg, d_exp = 0, d_coeff = co'\<rparr> n' res
            [d_exp x - d_exp y, - k, - 33] of (d, fl) \<Rightarrow> go_error c d (res \<union> fl))"
    proof -
      have pair: "(if a1 < b1 then (a1 * 10, - nd + 1) else (a1, - nd)) = (a2, k)" by (simp add: a2_def k_def)
      have pr: "c_prec c - 1 = 33" using c(2) by simp
      show ?thesis
        unfolding ctx_quo_def sp option.case Let_def if_not_P[OF False] sh abs nd_def[symmetric] a1_def[symmetric]
          b1_def[symmetric] pair prod.case pr sd T_def[symmetric] T by (rule refl)
    qed
    let ?d0 = "\<lparr>d_form = Finite, d_neg = ?neg, d_exp = 0, d_coeff = co'\<rparr>"
    obtain e r where s: "set_exponent c ?d0 n' res [d_exp x - d_exp y, - k, - 33] = (e, r)" by fastforce
    then have g: "go_error c e (res \<union> r) = Ok (d, f)" using ok unfolding q s prod.case by simp
    have d: "d = e" "r \<inter> sys_flags = {}" using go_error_Ok[OF g] by auto
    have "d = ?d0\<lparr>d_exp := i32 (sum_list [d_exp x - d_exp y, - k, - 33])\<rparr>"
      using set_exponent_flags[OF em s d(2)] d(1) by blast
    then have "d = ?d0\<lparr>d_exp := d_exp x - d_exp y - k - 33\<rparr>" using X Y kb by simp
    then show ?thesis using co' co0 dg X Y kb by (auto simp: wf_dec_def num_digits_def moderate_def)
  qed
qed

end
