(* ===== verification/InclusiveTax.thy ===== *)
theory InclusiveTax
  imports Corrections QuoFacts
begin

text \<open>
  Inclusive extraction (\<open>extractInclusive\<close> of \<open>evaluate.go\<close>): the fixed amounts leave the gross one by one,
  the rest is divided by the sum of the multipliers, and the parts recorded add up to what was taken
  out, so that net and tax make the gross again.
\<close>


section \<open>Amounts on the grid of a scale\<close>

definition on_grid :: "int \<Rightarrow> rat \<Rightarrow> bool" where
  "on_grid e v \<longleftrightarrow> (\<exists>k :: int. v = of_int k * 10 powi (- e))"

lemma on_grid_diff: "on_grid e v \<Longrightarrow> on_grid e w \<Longrightarrow> on_grid e (v - w)"
  unfolding on_grid_def by (metis left_diff_distrib of_int_diff)

lemma on_grid_finer:
  assumes "on_grid s v" "s \<le> e"
  shows "on_grid e v"
proof -
  obtain k where k: "v = of_int k * 10 powi (- s)" using assms(1) by (auto simp: on_grid_def)
  have "(10 :: rat) powi (- s) = 10 powi (e - s) * 10 powi (- e)" by (simp add: powi_split[symmetric])
  also have "(10 :: rat) powi (e - s) = of_int (10 ^ nat (e - s))" using assms(2) by (simp add: power_int_def)
  finally have "v = of_int (k * 10 ^ nat (e - s)) * 10 powi (- e)" using k by simp
  then show ?thesis unfolding on_grid_def by blast
qed

lemma scale_on_grid: "d_exp (m_amount m) = - e \<Longrightarrow> on_grid e (amount_of m)"
  by (auto simp: on_grid_def amount_of_def dec_val_scoeff)

text \<open>On the grid of its own policy, an allocation loses nothing.\<close>

lemma allocate_on_grid:
  assumes "allocate t ws p = Ok parts" "alloc_input t ws" "on_grid (rp_scale p) (amount_of t)"
  shows "(\<Sum>m\<leftarrow>parts. amount_of m) = amount_of t" "\<forall>m \<in> set parts. wf_money m \<and> m_currency m = m_currency t"
    "length parts = length ws"
proof -
  note A = allocate_ok[OF assms(1,2)]
  have t: "wf_dec (m_amount t)" "mode_valid (rp_mode p)" using assms(2) A(1) by (auto simp: alloc_input_def small_dec_def valid_policy_iff)
  obtain k where k: "dec_val (m_amount t) = of_int k * 10 powi (- rp_scale p)" using assms(3) by (auto simp: on_grid_def amount_of_def)
  have pr: "policy_result (m_amount t) p = k" by (rule policy_result_on_grid[OF t k])
  have "(\<Sum>m\<leftarrow>parts. amount_of m) = (\<Sum>m\<leftarrow>parts. of_int (scoeff (m_amount m)) * 10 powi (- rp_scale p))"
    using A(6) by (intro arg_cong[where f = sum_list] map_cong) (auto simp: amount_of_def dec_val_scoeff)
  also have "\<dots> = of_int (sum_list (map (scoeff \<circ> m_amount) parts)) * 10 powi (- rp_scale p)"
    by (induction parts) (simp_all add: algebra_simps)
  also have "sum_list (map (scoeff \<circ> m_amount) parts) = k"
    unfolding A(3) sum_list_signed A(4) A(5)[symmetric] by (rule pr)
  finally show "(\<Sum>m\<leftarrow>parts. amount_of m) = amount_of t" using k by (simp add: amount_of_def)
  show "\<forall>m \<in> set parts. wf_money m \<and> m_currency m = m_currency t" "length parts = length ws"
    using A(2,6) by (auto simp: wf_money_def)
qed

lemma div_factor_ok:
  assumes "div_factor m f p = Ok n" "small_dec (m_amount m)" "small_dec (f_value f)"
  shows "wf_money n" "d_exp (m_amount n) = - rp_scale p" "num_digits (m_amount n) \<le> 34" "m_currency n = m_currency m" "valid_policy p"
proof -
  obtain d where z: "\<not> dec_is_zero (f_value f)" and q: "fquo (m_amount m) (f_value f) p = Ok d"
    and n: "n = \<lparr>m_amount = d, m_currency = m_currency m\<rparr>"
    using assms(1) by (auto simp: div_factor_def split: if_splits)
  obtain x fl where v: "policy_validate p = Ok ()" and x: "ctx_quo (policy_ctx p) (m_amount m) (f_value f) = Ok (x, fl)"
    and d: "apply_policy x p = Ok d"
    using q by (auto simp: fquo_def wrap_def)
  have "d_coeff (f_value f) \<noteq> 0" using z assms(3) by (simp add: dec_is_zero_coeff small_dec_def)
  then have X: "wf_dec x \<and> num_digits x \<le> 35 \<and> moderate x" using ctx_quo_ok[OF _ _ assms(2,3) _ x] by simp
  show p: "valid_policy p" using v by (simp add: valid_policy_def)
  show "wf_money n" "d_exp (m_amount n) = - rp_scale p" "num_digits (m_amount n) \<le> 34" "m_currency n = m_currency m"
    using apply_policy_value[OF p _ _ _ d] X n by (auto simp: wf_money_def)
qed

section \<open>Recording parts\<close>

lemma record_parts:
  assumes "foldR (record_part p) (st, tr) (zip ids parts) = Ok (st', tr')" "length ids = length parts" "distinct ids"
  shows "ls_amounts st' = ls_amounts st ++ map_of (zip ids parts)" "ls_applies st' = ls_applies st" "ls_line st' = ls_line st"
    "ls_net st' = ls_net st"
proof -
  have "ls_amounts st' = ls_amounts st ++ map_of (zip ids parts) \<and> ls_applies st' = ls_applies st \<and> ls_line st' = ls_line st
      \<and> ls_net st' = ls_net st"
    using assms(2,1,3)
  proof (induction ids parts arbitrary: st tr rule: list_induct2)
    case (Cons i ids x parts)
    from Cons.prems(1) obtain mid where m: "record_part p (st, tr) (i, x) = Ok mid" "foldR (record_part p) mid (zip ids parts) = Ok (st', tr')"
      by auto
    obtain c where c: "find_component (pl_components p) i = Some c" using m(1) by (auto simp: record_part_def split: option.splits)
    have ci: "c_id c = i" using find_component_Some[OF c] by simp
    obtain st1 tr1 where mid: "mid = (st1, tr1)" by (cases mid)
    have st1: "st1 = record_amount c x x st" using m(1) c mid by (simp add: record_part_def)
    have f: "ls_amounts st1 = (ls_amounts st)(i \<mapsto> x)" "ls_applies st1 = ls_applies st" "ls_line st1 = ls_line st" "ls_net st1 = ls_net st"
      by (simp_all add: st1 record_amount_def ci)
    have "i \<notin> dom (map_of (zip ids parts))" using Cons.prems(2) Cons.hyps by (simp add: dom_map_of_zip)
    then have "((ls_amounts st)(i \<mapsto> x)) ++ map_of (zip ids parts) = ls_amounts st ++ map_of (zip (i # ids) (x # parts))"
      by (simp add: map_add_upd_left)
    then show ?case using Cons.IH[of st1 tr1] m(2) mid Cons.prems(2) f by (simp del: fun_upd_apply)
  qed simp
  then show "ls_amounts st' = ls_amounts st ++ map_of (zip ids parts)" "ls_applies st' = ls_applies st" "ls_line st' = ls_line st"
    "ls_net st' = ls_net st" by blast+
qed

lemma zip_amounts:
  assumes "length ids = length parts" "distinct ids"
  shows "(\<Sum>i\<leftarrow>ids. amount_of (the ((a ++ map_of (zip ids parts)) i))) = (\<Sum>m\<leftarrow>parts. amount_of m)"
proof -
  have "map (\<lambda>i. the ((a ++ map_of (zip ids parts)) i)) ids = parts"
    using assms by (intro nth_equalityI) (simp_all add: map_of_zip_nth map_add_Some_iff[THEN iffD2])
  then have "map amount_of (map (\<lambda>i. the ((a ++ map_of (zip ids parts)) i)) ids) = map amount_of parts" by simp
  then show ?thesis by (simp add: comp_def)
qed

lemma sum_list_perm: "mset xs = mset ys \<Longrightarrow> (\<Sum>x\<leftarrow>xs. (f x :: rat)) = (\<Sum>x\<leftarrow>ys. f x)"
  by (metis mset_map sum_mset_sum_list)

section \<open>The proportional part\<close>

text \<open>The multipliers extraction computes, and when they are small enough to weigh an allocation.\<close>

definition small_multipliers :: "string \<Rightarrow> tax_component list \<Rightarrow> bool" where
  "small_multipliers key cs \<longleftrightarrow>
     (\<forall>tr m total tr'. foldR (multiplier_step key) ((\<lambda>_. None), factor_zero, tr) cs = Ok (m, total, tr') \<longrightarrow>
        (\<forall>f \<in> ran m. small_dec (f_value f)) \<and> (\<forall>b. factor_add factor_one total = Ok b \<longrightarrow> small_dec (f_value b)))"

lemma fsub_exp_low:
  "fsub x y = Ok z \<Longrightarrow> wf_dec x \<Longrightarrow> wf_dec y \<Longrightarrow> min (d_exp x) (d_exp y) \<le> d_exp z"
  using ctx_add_gen_exact[of exact_ctx x y True] by (auto simp: fsub_def wrap_def ctx_sub_def)

lemma fsub_exp_high:
  assumes "fsub x y = Ok z" "wf_dec x" "wf_dec y" "\<bar>dec_val x - dec_val y\<bar> < 10 powi U"
  shows "d_exp z \<le> max U (min (d_exp x) (d_exp y))"
proof -
  obtain f where "ctx_add_gen exact_ctx x y True = Ok (z, f)"
    using assms(1) by (auto simp: fsub_def wrap_def ctx_sub_def)
  note e = ctx_add_gen_exact[OF _ _ _ assms(2,3) this, simplified]
  show ?thesis
  proof (cases "d_coeff z = 0")
    case True
    then have "dec_val (raw_add exact_ctx x y True) = 0"
      using e raw_add_props(2)[OF assms(2,3), of exact_ctx True] zero_coeff_iff[of z] by simp
    then have "d_coeff (raw_add exact_ctx x y True) = 0"
      using raw_add_props(1)[OF assms(2,3)] zero_coeff_iff by blast
    then have "z = raw_add exact_ctx x y True" using e by (simp add: num_digits_def)
    then show ?thesis using raw_add_props(3)[OF assms(2,3)] by simp
  next
    case False
    then show ?thesis using exp_below[of z U] e assms(4) by simp
  qed
qed

lemma small_dec_zero: "small_dec dec0"
  by (simp add: small_dec_def wf_dec_def dec0_def num_digits_def)


lemma case_Ok_iff [simp]: "(case r of Err e \<Rightarrow> Err (f e) | Ok x \<Rightarrow> Ok x) = Ok y \<longleftrightarrow> r = Ok y"
  by (cases r) auto

lemma diff_below: "\<bar>a\<bar> < 10 powi U \<Longrightarrow> \<bar>b\<bar> < 10 powi U \<Longrightarrow> \<bar>a - b\<bar> < (10 :: rat) powi (U + 1)"
proof -
  assume "\<bar>a\<bar> < 10 powi U" "\<bar>b\<bar> < 10 powi U"
  moreover have "(10 :: rat) powi (U + 1) = 10 powi U * 10" by (simp add: powi_split)
  moreover have "(0 :: rat) < 10 powi U" by simp
  ultimately show ?thesis by linarith
qed

lemma below_mono: "\<bar>a\<bar> < (10 :: rat) powi U \<Longrightarrow> U \<le> V \<Longrightarrow> \<bar>a\<bar> < 10 powi V"
  using powi10_mono[of U V] by linarith

lemma money_sub_small:
  assumes "money_sub g n = Ok t" "wf_money g" "wf_money n" "\<bar>amount_of g\<bar> < 10 powi U" "\<bar>amount_of n\<bar> < 10 powi U"
    and "- 500 \<le> d_exp (m_amount g)" "- 500 \<le> d_exp (m_amount n)" "d_exp (m_amount n) \<le> 1000" "U < 1000"
  shows "small_dec (m_amount t)" "- 500 \<le> d_exp (m_amount t)" "\<bar>amount_of t\<bar> < 10 powi (U + 1)"
proof -
  obtain td where td: "fsub (m_amount g) (m_amount n) = Ok td" "m_amount t = td"
    using assms(1) by (auto simp: money_sub_def split: if_splits)
  have w: "wf_dec (m_amount g)" "wf_dec (m_amount n)" using assms(2,3) by (simp_all add: wf_money_def)
  have b: "\<bar>dec_val (m_amount g) - dec_val (m_amount n)\<bar> < 10 powi (U + 1)"
    using diff_below[OF assms(4,5)] by (simp add: amount_of_def)
  note lo = fsub_exp_low[OF td(1) w] and hi = fsub_exp_high[OF td(1) w b]
  show "- 500 \<le> d_exp (m_amount t)" using lo assms(6,7) td(2) by simp
  show "small_dec (m_amount t)"
    using fsub_exact[OF w td(1)] lo hi assms(6-9) td(2) by (auto simp: small_dec_def)
  show "\<bar>amount_of t\<bar> < 10 powi (U + 1)"
    using b fsub_exact[OF w td(1)] td(2) by (simp add: amount_of_def)
qed

lemma extract_proportional_ok:
  assumes ex: "extract_proportional p cs st g tr = Ok (st', tr')" "pl_extraction p = Some pol"
    and ids: "distinct (map c_id cs)" and small: "small_multipliers (l_key (ls_line st)) cs" "length cs < 2 ^ 63"
    and g: "small_dec (m_amount g)" "\<bar>amount_of g\<bar> < 10 powi U" "34 \<le> U" "U < 1000" "- 500 \<le> d_exp (m_amount g)" "on_grid (rp_scale pol) (amount_of g)"
  shows "amount_of (ls_net st') + (\<Sum>c\<leftarrow>cs. amount_of (the (ls_amounts st' (c_id c)))) = amount_of g"
    and "\<And>i. i \<notin> c_id ` set cs \<Longrightarrow> ls_amounts st' i = ls_amounts st i" "on_grid (rp_scale pol) (amount_of (ls_net st'))"
proof -
  let ?key = "l_key (ls_line st)" and ?ids = "sort (map c_id cs)"
  obtain m sm tr1 bigM n t parts tr2 tr3 st1 where
    m: "foldR (multiplier_step ?key) ((\<lambda>_. None), factor_zero, tr) cs = Ok (m, sm, tr1)"
    and b: "factor_add factor_one sm = Ok bigM" and n: "div_factor g bigM pol = Ok n" and t: "money_sub g n = Ok t"
    and a: "allocate_by_factors t (map (\<lambda>i. case m i of Some f \<Rightarrow> f | None \<Rightarrow> factor_zero) ?ids) pol = Ok parts"
    and r: "foldR (record_part p) (st, tr2) (zip ?ids parts) = Ok (st1, tr3)" and st': "st' = st1\<lparr>ls_net := n\<rparr>"
    using ex by (auto simp: extract_proportional_def Let_def fisc_def split: if_splits)
  have sm: "\<forall>f \<in> ran m. small_dec (f_value f)" "small_dec (f_value bigM)"
    using small(1) m b unfolding small_multipliers_def by blast+
  note N = div_factor_ok[OF n g(1) sm(2)]
  have sc: "0 \<le> rp_scale pol" "rp_scale pol \<le> 12" using valid_policy_scale[OF N(5)] by auto
  have wg: "wf_money g" using g(1) by (simp add: wf_money_def small_dec_def)
  have T: "wf_money t" "amount_of t = amount_of g - amount_of n" using money_sub_props(3)[OF t wg N(1)] by auto
  have nw: "wf_dec (m_amount n)" using N(1) by (simp add: wf_money_def)
  have nb: "\<bar>amount_of n\<bar> < 10 powi U"
    unfolding amount_of_def by (rule below_mono[OF val_below[OF nw]]) (use N(2,3) sc g(3) in simp)
  have st: "small_dec (m_amount t)"
    by (rule money_sub_small(1)[OF t wg N(1) g(2) nb g(5)]) (use N(2) sc g(4) in simp_all)
  have in1: "alloc_input t (map (\<lambda>w. \<lparr>m_amount = f_value w, m_currency = m_currency t\<rparr>) (map (\<lambda>i. case m i of Some f \<Rightarrow> f | None \<Rightarrow> factor_zero) ?ids))"
    using st sm(1) small(2) by (auto simp: alloc_input_def factor_zero_def small_dec_zero intro: ranI split: option.splits)
  have grid: "on_grid (rp_scale pol) (amount_of n)" using N(2) by (rule scale_on_grid)
  have tg: "on_grid (rp_scale pol) (amount_of t)" unfolding T(2) by (rule on_grid_diff[OF g(6) grid])
  note P = allocate_on_grid[OF a[unfolded allocate_by_factors_def] in1 tg]
  have len: "length ?ids = length parts" using P(3) by simp
  have di: "distinct ?ids" using ids by simp
  note R = record_parts[OF r len di]
  have am: "ls_amounts st' = ls_amounts st ++ map_of (zip ?ids parts)" using R(1) st' by simp
  have "(\<Sum>c\<leftarrow>cs. amount_of (the (ls_amounts st' (c_id c)))) = (\<Sum>i\<leftarrow>map c_id cs. amount_of (the (ls_amounts st' i)))"
    by (simp add: comp_def)
  also have "\<dots> = (\<Sum>i\<leftarrow>?ids. amount_of (the (ls_amounts st' i)))" by (rule sum_list_perm) simp
  also have "\<dots> = amount_of t" unfolding am using zip_amounts[OF len di] P(1) by simp
  finally show "amount_of (ls_net st') + (\<Sum>c\<leftarrow>cs. amount_of (the (ls_amounts st' (c_id c)))) = amount_of g"
    using T(2) st' by simp
  show "on_grid (rp_scale pol) (amount_of (ls_net st'))" using grid st' by simp
  show "ls_amounts st' i = ls_amounts st i" if "i \<notin> c_id ` set cs" for i
  proof -
    have "i \<notin> dom (map_of (zip ?ids parts))" using that dom_map_of_zip[OF len] by simp
    then show ?thesis unfolding am by (simp add: map_add_dom_app_simps(3))
  qed
qed


section \<open>The fixed part\<close>

text \<open>Amounts of a size every real document has: up to 34 digits, three hundred places either way.\<close>

definition usual :: "decimal \<Rightarrow> bool" where
  "usual d \<longleftrightarrow> wf_dec d \<and> num_digits d \<le> 34 \<and> - 300 \<le> d_exp d \<and> d_exp d \<le> 300"

lemma usual_below: "usual d \<Longrightarrow> 334 \<le> V \<Longrightarrow> \<bar>dec_val d\<bar> < 10 powi V"
  by (rule below_mono[OF val_below]) (auto simp: usual_def)

lemma usual_small: "usual d \<Longrightarrow> small_dec d"
  by (simp add: usual_def small_dec_def)

definition usual_rate :: "rate_decl \<Rightarrow> bool" where
  "usual_rate r \<longleftrightarrow> (\<forall>f. rd_flat r = Some f \<longrightarrow> usual (m_amount f)) \<and> (\<forall>u. rd_per_unit r = Some u \<longrightarrow> usual (m_amount u))"

definition usual_line :: "doc_line \<Rightarrow> bool" where
  "usual_line l \<longleftrightarrow> usual (m_amount (l_amount l)) \<and> (\<forall>q. l_quantity l = Some q \<longrightarrow> usual (q_amount q))"

lemma below_product:
  assumes "\<bar>x\<bar> < (10::rat) powi V" "\<bar>y\<bar> < 10 powi V"
  shows "\<bar>x * y\<bar> < 10 powi (V + V)"
  unfolding powi_split abs_mult by (rule mult_strict_mono) (use assms in auto)

lemma usual_product:
  assumes "fmul x y = Ok z" "usual x" "usual y"
  shows "small_dec z"
proof -
  have w: "wf_dec x" "wf_dec y" using assms(2,3) by (simp_all add: usual_def)
  define V :: int where "V = 334"
  have V: "334 \<le> V" "V + V = 668" by (simp_all add: V_def)
  have U: "\<bar>dec_val x * dec_val y\<bar> < 10 powi (V + V)"
    by (rule below_product) (rule usual_below[OF _ V(1)], fact)+
  note e = fmul_exp(1,2)[OF w assms(1) U]
  show ?thesis
    using fmul_exact[OF w assms(1)] e V(2) assms(2,3) by (auto simp: small_dec_def usual_def)
qed

lemma fixed_rate_small:
  assumes "component_rate d st c None tr = Ok (raw, tr')" "usual_rate (c_rate c)" "usual_line (ls_line st)"
    and "rd_kind (c_rate c) = Flat \<or> rd_kind (c_rate c) = Specific"
  shows "small_dec (m_amount raw)"
  using assms
proof (cases "rd_kind (c_rate c)")
  case Flat
  then obtain f where "rd_flat (c_rate c) = Some f" "raw = f"
    using assms(1) by (auto simp: component_rate_def Let_def split: option.splits)
  then show ?thesis using assms(2) by (auto simp: usual_rate_def intro: usual_small)
next
  case Specific
  then obtain q u where q: "l_quantity (ls_line st) = Some q" "rd_per_unit (c_rate c) = Some u"
    "money_times_quantity u q = Ok raw"
    using assms(1) by (auto simp: component_rate_def Let_def fisc_def split: option.splits)
  then obtain z where z: "fmul (m_amount u) (q_amount q) = Ok z" "m_amount raw = z"
    by (auto simp: money_times_quantity_def)
  show ?thesis unfolding z(2)
    by (rule usual_product[OF z(1)]) (use q assms(2,3) in \<open>auto simp: usual_rate_def usual_line_def\<close>)
qed auto

text \<open>One fixed amount leaves the gross.\<close>

lemma subtract_step:
  assumes s: "subtract_inclusive p d (st, g, tr) i = Ok (st', g', tr')" and i: "i \<in> ls_applies st"
    and c: "find_component (pl_components p) i = Some c" "flat_amount c" "usual_rate (c_rate c)" "usual_line (ls_line st)"
    and g: "wf_money g" "\<bar>amount_of g\<bar> < 10 powi U" "34 \<le> U" "U < 1000" "- 500 \<le> d_exp (m_amount g)"
  shows "\<exists>a. ls_amounts st' = (ls_amounts st)(i \<mapsto> a) \<and> ls_applies st' = ls_applies st \<and> ls_line st' = ls_line st
    \<and> amount_of g' = amount_of g - amount_of a \<and> d_exp (m_amount a) = - rp_scale (c_policy c) \<and> small_dec (m_amount g')
    \<and> - 500 \<le> d_exp (m_amount g') \<and> \<bar>amount_of g'\<bar> < 10 powi (U + 1)"
proof -
  obtain raw tr1 a where r: "component_rate d st c None tr = Ok (raw, tr1)" and a: "money_round raw (c_policy c) = Ok a"
    and sb: "money_sub g a = Ok g'" and st': "st' = record_amount c raw a st"
    using s i c(1) by (auto simp: subtract_inclusive_def fisc_def)
  have sm: "small_dec (m_amount raw)"
    by (rule fixed_rate_small[OF r c(3,4)]) (use c(2) in \<open>auto simp: flat_amount_def\<close>)
  have vp: "valid_policy (c_policy c)" using a by (auto simp: money_round_def apply_policy_def valid_policy_def)
  note A = money_round_ok[OF vp sm a]
  have sc: "0 \<le> rp_scale (c_policy c)" "rp_scale (c_policy c) \<le> 12" using valid_policy_scale[OF vp] by auto
  have wa: "wf_money a" using A(2) by (simp add: wf_money_def)
  have ab: "\<bar>amount_of a\<bar> < 10 powi U"
    unfolding amount_of_def by (rule below_mono[OF val_below[OF A(2)]]) (use A(3,4) sc g(3) in simp)
  have ae: "- 500 \<le> d_exp (m_amount a)" "d_exp (m_amount a) \<le> 1000" using A(4) sc by simp_all
  note S = money_sub_small[OF sb g(1) wa g(2) ab g(5) ae g(4)]
  have "c_id c = i" using find_component_Some[OF c(1)] by simp
  then show ?thesis
    using S money_sub_props(3)[OF sb g(1) wa] A(4) st' by (auto simp: record_amount_def intro!: exI[of _ a])
qed

lemma subtract_skip: "i \<notin> ls_applies st \<Longrightarrow> subtract_inclusive p d (st, g, tr) i = Ok (st, g, tr)"
  by (simp add: subtract_inclusive_def)

lemma subtract_loop:
  assumes "foldR (subtract_inclusive p d) (st, g, tr) is = Ok (st', g', tr')" "distinct is"
    and c: "\<forall>i \<in> set is. \<exists>c. find_component (pl_components p) i = Some c \<and> flat_amount c \<and> usual_rate (c_rate c)
      \<and> rp_scale (c_policy c) \<le> e" "usual_line (ls_line st)"
    and g: "small_dec (m_amount g)" "\<bar>amount_of g\<bar> < 10 powi U" "34 \<le> U" "U + int (length is) < 1000" "- 500 \<le> d_exp (m_amount g)"
      "on_grid e (amount_of g)"
  shows "ls_applies st' = ls_applies st \<and> ls_line st' = ls_line st \<and> (\<forall>i. i \<notin> set is \<longrightarrow> ls_amounts st' i = ls_amounts st i)
    \<and> amount_of g' + (\<Sum>i\<leftarrow>filter (\<lambda>i. i \<in> ls_applies st) is. amount_of (the (ls_amounts st' i))) = amount_of g
    \<and> small_dec (m_amount g') \<and> \<bar>amount_of g'\<bar> < 10 powi (U + int (length is)) \<and> - 500 \<le> d_exp (m_amount g') \<and> on_grid e (amount_of g')"
  using assms
proof (induction "is" arbitrary: st g tr U)
  case (Cons i rest)
  from Cons.prems(1) obtain st1 g1 tr1 where m: "subtract_inclusive p d (st, g, tr) i = Ok (st1, g1, tr1)"
    "foldR (subtract_inclusive p d) (st1, g1, tr1) rest = Ok (st', g', tr')"
    by (auto dest: bindR_eq_Ok[THEN iffD1])
  have ni: "i \<notin> set rest" using Cons.prems(2) by simp
  have U: "U + int (length (i # rest)) = U + 1 + int (length rest)" by simp
  show ?case
  proof (cases "i \<in> ls_applies st")
    case False
    then have e: "st1 = st" "g1 = g" "tr1 = tr" using m(1) subtract_skip by auto
    have "\<bar>amount_of g\<bar> < 10 powi (U + 1)" using below_mono[OF Cons.prems(6)] by simp
    then have IH: "ls_applies st' = ls_applies st \<and> ls_line st' = ls_line st \<and> (\<forall>i. i \<notin> set rest \<longrightarrow> ls_amounts st' i = ls_amounts st i)
      \<and> amount_of g' + (\<Sum>i\<leftarrow>filter (\<lambda>i. i \<in> ls_applies st) rest. amount_of (the (ls_amounts st' i))) = amount_of g
      \<and> small_dec (m_amount g') \<and> \<bar>amount_of g'\<bar> < 10 powi (U + 1 + int (length rest)) \<and> - 500 \<le> d_exp (m_amount g') \<and> on_grid e (amount_of g')"
      by (intro Cons.IH[OF m(2)[unfolded e]]) (use Cons.prems in auto)
    then show ?thesis unfolding U using False by auto
  next
    case True
    obtain c where cc: "find_component (pl_components p) i = Some c" "flat_amount c" "usual_rate (c_rate c)" "rp_scale (c_policy c) \<le> e"
      using Cons.prems(3) by auto
    have wg: "wf_money g" using Cons.prems(5) by (simp add: wf_money_def small_dec_def)
    obtain a where a: "ls_amounts st1 = (ls_amounts st)(i \<mapsto> a)" "ls_applies st1 = ls_applies st" "ls_line st1 = ls_line st"
      "amount_of g1 = amount_of g - amount_of a" "d_exp (m_amount a) = - rp_scale (c_policy c)" "small_dec (m_amount g1)"
      "- 500 \<le> d_exp (m_amount g1)" "\<bar>amount_of g1\<bar> < 10 powi (U + 1)"
      using subtract_step[OF m(1) True cc(1-3) Cons.prems(4) wg Cons.prems(6,7) _ Cons.prems(9)] Cons.prems(8) by auto
    have "on_grid e (amount_of a)" using on_grid_finer[OF scale_on_grid[OF a(5)] cc(4)] .
    then have gr: "on_grid e (amount_of g1)" unfolding a(4) using Cons.prems(10) by (rule on_grid_diff[rotated])
    have IH: "ls_applies st' = ls_applies st1 \<and> ls_line st' = ls_line st1 \<and> (\<forall>i. i \<notin> set rest \<longrightarrow> ls_amounts st' i = ls_amounts st1 i)
      \<and> amount_of g' + (\<Sum>i\<leftarrow>filter (\<lambda>i. i \<in> ls_applies st1) rest. amount_of (the (ls_amounts st' i))) = amount_of g1
      \<and> small_dec (m_amount g') \<and> \<bar>amount_of g'\<bar> < 10 powi (U + 1 + int (length rest)) \<and> - 500 \<le> d_exp (m_amount g') \<and> on_grid e (amount_of g')"
      by (intro Cons.IH[OF m(2)]) (use Cons.prems a gr in auto)
    have "ls_amounts st' i = Some a" using IH ni a(1) by simp
    then show ?thesis unfolding U using IH True a by auto
  qed
qed simp

text \<open>What a line's inclusive components took out of its gross.\<close>

definition inclusive_tax :: "plan \<Rightarrow> line_state \<Rightarrow> line_state \<Rightarrow> rat" where
  "inclusive_tax p st st' = (\<Sum>c\<leftarrow>applied_inclusive p st. amount_of (the (ls_amounts st' (c_id c))))"


lemma inclusive_kinds:
  assumes "compile s = Ok p" "c \<in> set (s_components s)" "c_inclusive c"
  shows "flat_amount c \<longleftrightarrow> rd_kind (c_rate c) \<noteq> AdValorem"
proof -
  note C = compile_checks[OF assms(1)]
  have "check_component (s_components s) c = Ok ()" using C(2) assms(2) by blast
  then have "validate_rate c = Ok ()"
    by (auto simp: check_component_def validate_component_def Let_def split: if_splits)
  then show ?thesis using inclusive_each(3)[OF C(6) assms(2,3)] assms(3)
    by (auto simp: validate_rate_def Let_def flat_amount_def split: rate_kind.splits if_splits)
qed

lemma plan_components:
  assumes "compile s = Ok p"
  shows "mset (map (\<lambda>i. pl_components p ! i) (pl_order p)) = mset (s_components s)"
proof -
  note C = compile_checks[OF assms] and I = compile_id_order[OF assms]
  let ?cs = "map (\<lambda>i. pl_components p ! i) (pl_order p)"
  have d: "distinct ?cs" using I(1) by (simp add: plan_order_def distinct_map comp_def inj_on_def)
  have sub: "set ?cs \<subseteq> set (s_components s)"
    using comp_order(2)[OF C(5)] C(7) by auto
  have "set (s_components s) \<subseteq> set ?cs"
  proof
    fix c assume c: "c \<in> set (s_components s)"
    then have "c_id c \<in> set (plan_order p)" using I(2) by simp
    then obtain i where "i \<in> set (pl_order p)" "c_id (pl_components p ! i) = c_id c" by (auto simp: plan_order_def)
    then obtain e where "e \<in> set ?cs" "c_id e = c_id c" by (metis image_eqI list.set_map)
    then show "c \<in> set ?cs" using sub c I(5) by (metis distinct_map inj_onD subsetD)
  qed
  with sub have "set ?cs = set (s_components s)" by blast
  moreover have "distinct (s_components s)" using I(5) by (simp add: distinct_map)
  ultimately show ?thesis using d set_eq_iff_mset_eq_distinct by blast
qed


text \<open>An invoice line within the sizes documents have, under a plan that never rounds a fixed amount finer
  than it extracts.\<close>

definition extractable :: "plan \<Rightarrow> rounding_policy \<Rightarrow> line_state \<Rightarrow> bool" where
  "extractable p pol st \<longleftrightarrow>
     pl_extraction p = Some pol \<and> usual_line (ls_line st)
     \<and> on_grid (rp_scale pol) (amount_of (l_amount (ls_line st))) \<and> length (pl_components p) < 600
     \<and> (\<forall>c \<in> set (pl_components p). usual_rate (c_rate c) \<and> (flat_amount c \<longrightarrow> rp_scale (c_policy c) \<le> rp_scale pol))
     \<and> small_multipliers (l_key (ls_line st)) (filter (\<lambda>c. rd_kind (c_rate c) = AdValorem) (applied_inclusive p st))"

lemma sum_list_split: "(\<Sum>x\<leftarrow>xs. (f x :: rat)) = (\<Sum>x\<leftarrow>filter P xs. f x) + (\<Sum>x\<leftarrow>filter (\<lambda>x. \<not> P x) xs. f x)"
  by (induction xs) simp_all

lemma applied_split:
  assumes "compile s = Ok p"
  shows "inclusive_tax p st st' = (\<Sum>i\<leftarrow>filter (\<lambda>i. i \<in> ls_applies st) (pl_inclusive_flat p). amount_of (the (ls_amounts st' i)))
    + (\<Sum>c\<leftarrow>filter (\<lambda>c. rd_kind (c_rate c) = AdValorem) (applied_inclusive p st). amount_of (the (ls_amounts st' (c_id c))))"
proof -
  note C = compile_checks[OF assms] and I = compile_id_order[OF assms] and M = plan_components[OF assms]
  let ?on = "applied_inclusive p st" and ?a = "\<lambda>i. amount_of (the (ls_amounts st' i))" and ?ad = "\<lambda>c. rd_kind (c_rate c) = AdValorem"
  have on: "mset ?on = filter_mset (\<lambda>c. c_inclusive c \<and> c_id c \<in> ls_applies st) (mset (s_components s))"
    unfolding applied_inclusive_def mset_filter M ..
  have "set ?on \<subseteq> set (s_components s)" using on by (metis mset_eq_setD mset_filter filter_is_subset)
  then have k: "flat_amount c \<longleftrightarrow> \<not> ?ad c" if "c \<in> set ?on" for c
    using inclusive_kinds[OF assms] that by (auto simp: applied_inclusive_def)
  have e: "set (filter (\<lambda>i. i \<in> ls_applies st) (pl_inclusive_flat p)) = set (map c_id (filter flat_amount ?on))"
    using inclusive_subtraction[OF C(6) I(5)] arg_cong[OF on, of set_mset] by (auto simp: flat_amount_def)
  have d: "distinct (filter (\<lambda>i. i \<in> ls_applies st) (pl_inclusive_flat p))" using inclusive_subtraction[OF C(6) I(5)] by simp
  have "distinct (map c_id (map (\<lambda>i. pl_components p ! i) (pl_order p)))" using I(1) by (simp add: plan_order_def comp_def)
  then have d2: "distinct (map c_id (filter flat_amount ?on))" unfolding applied_inclusive_def by (intro distinct_map_filter)
  have "(\<Sum>i\<leftarrow>filter (\<lambda>i. i \<in> ls_applies st) (pl_inclusive_flat p). ?a i) = (\<Sum>i\<leftarrow>map c_id (filter flat_amount ?on). ?a i)"
    by (rule sum_list_perm) (use e d d2 set_eq_iff_mset_eq_distinct in blast)
  moreover have "filter flat_amount ?on = filter (\<lambda>c. \<not> ?ad c) ?on" by (rule filter_cong) (use k in auto)
  moreover have "inclusive_tax p st st' = (\<Sum>c\<leftarrow>filter ?ad ?on. ?a (c_id c)) + (\<Sum>c\<leftarrow>filter (\<lambda>c. \<not> ?ad c) ?on. ?a (c_id c))"
    unfolding inclusive_tax_def by (rule sum_list_split)
  ultimately show ?thesis by (simp add: comp_def)
qed

lemma extract_inclusive_ok:
  assumes s: "compile s = Ok p" and ex: "extract_inclusive p d st tr = Ok (st', tr')" and on: "applied_inclusive p st \<noteq> []"
    and x: "extractable p pol st"
  shows "amount_of (ls_net st') + inclusive_tax p st st' = amount_of (l_amount (ls_line st))"
proof -
  note C = compile_checks[OF s] and I = compile_id_order[OF s]
  let ?ad = "filter (\<lambda>c. rd_kind (c_rate c) = AdValorem) (applied_inclusive p st)" and ?G = "l_amount (ls_line st)"
  note X = x[unfolded extractable_def]
  obtain st1 g tr1 where m: "foldR (subtract_inclusive p d) (st, ?G, tr) (pl_inclusive_flat p) = Ok (st1, g, tr1)"
    and rest: "(if ?ad = [] then Ok (st1\<lparr>ls_net := g\<rparr>, tr1) else extract_proportional p ?ad st1 g tr1) = Ok (st', tr')"
    using ex on by (auto simp: extract_inclusive_def Let_def)
  note F = inclusive_subtraction[OF C(6) I(5)]
  have fl: "\<forall>i \<in> set (pl_inclusive_flat p). \<exists>c. find_component (pl_components p) i = Some c \<and> flat_amount c \<and> usual_rate (c_rate c)
      \<and> rp_scale (c_policy c) \<le> rp_scale pol"
    using F find_component_id[OF I(5)] X C(7) by fastforce
  have len: "length (pl_inclusive_flat p) < 600"
  proof -
    have "length (pl_inclusive_flat p) = card (c_id ` set (filter flat_amount (s_components s)))"
      using F distinct_card by metis
    also have "\<dots> \<le> length (s_components s)"
      by (rule order_trans[OF card_image_le[OF finite_set]])
         (rule order_trans[OF card_length], simp)
    finally show ?thesis using X C(7) by simp
  qed
  have u: "usual (m_amount ?G)" using X by (simp add: usual_line_def)
  define U :: int where "U = 334"
  have U: "334 \<le> U" by (simp add: U_def)
  have G: "small_dec (m_amount ?G)" "- 500 \<le> d_exp (m_amount ?G)" "\<bar>amount_of ?G\<bar> < 10 powi U"
    using u usual_below[OF u U] usual_small[OF u] by (simp_all add: usual_def amount_of_def)
  note L = subtract_loop[OF m _ fl _ G(1,3) _ _ G(2)]
  have l: "ls_applies st1 = ls_applies st" "ls_line st1 = ls_line st"
      "amount_of g + (\<Sum>i\<leftarrow>filter (\<lambda>i. i \<in> ls_applies st) (pl_inclusive_flat p). amount_of (the (ls_amounts st1 i))) = amount_of ?G"
      "small_dec (m_amount g)" "\<bar>amount_of g\<bar> < 10 powi (U + int (length (pl_inclusive_flat p)))" "- 500 \<le> d_exp (m_amount g)"
      "on_grid (rp_scale pol) (amount_of g)"
    using L F X len by (simp_all add: U_def)
  show ?thesis
  proof (cases "?ad = []")
    case True
    then have "st' = st1\<lparr>ls_net := g\<rparr>" using rest by simp
    then show ?thesis unfolding applied_split[OF s] True using l(3) by simp
  next
    case False
    then have r: "extract_proportional p ?ad st1 g tr1 = Ok (st', tr')" using rest by simp
    have da: "distinct (map c_id ?ad)"
      unfolding applied_inclusive_def by (intro distinct_map_filter) (use I(1) in \<open>simp add: plan_order_def comp_def\<close>)
    have la: "length ?ad < 2 ^ 63"
    proof -
      have "length ?ad \<le> length (map (\<lambda>i. pl_components p ! i) (pl_order p))"
        unfolding applied_inclusive_def by (rule order_trans[OF length_filter_le length_filter_le])
      also have "\<dots> = length (s_components s)" using arg_cong[OF plan_components[OF s], of size] by simp
      finally show ?thesis using X C(7) by simp
    qed
    note P = extract_proportional_ok[OF r _ da _ la l(4) l(5) _ _ l(6) l(7)]
    have e: "pl_extraction p = Some pol" "small_multipliers (l_key (ls_line st1)) ?ad" using X l(2) by simp_all
    have q: "34 \<le> U + int (length (pl_inclusive_flat p))" "U + int (length (pl_inclusive_flat p)) < 1000"
      using len by (simp_all add: U_def)
    have p1: "amount_of (ls_net st') + (\<Sum>c\<leftarrow>?ad. amount_of (the (ls_amounts st' (c_id c)))) = amount_of g"
      and p2: "\<And>i. i \<notin> c_id ` set ?ad \<Longrightarrow> ls_amounts st' i = ls_amounts st1 i"
      using P[OF e q] by blast+
    have "i \<notin> c_id ` set ?ad" if i: "i \<in> set (pl_inclusive_flat p)" for i
    proof
      assume "i \<in> c_id ` set ?ad"
      then obtain c where c: "c \<in> set ?ad" "c_id c = i" by blast
      then have cs: "c \<in> set (s_components s)" using comp_order(2)[OF C(5)] C(7) by (auto simp: applied_inclusive_def)
      obtain e where "e \<in> set (s_components s)" "flat_amount e" "c_id e = i" using conjunct2[OF F] i by auto
      then show False using I(5) cs c by (auto simp: distinct_map inj_on_def flat_amount_def)
    qed
    then have "(\<Sum>i\<leftarrow>filter (\<lambda>i. i \<in> ls_applies st) (pl_inclusive_flat p). amount_of (the (ls_amounts st' i)))
        = (\<Sum>i\<leftarrow>filter (\<lambda>i. i \<in> ls_applies st) (pl_inclusive_flat p). amount_of (the (ls_amounts st1 i)))"
      by (intro arg_cong[where f = sum_list] map_cong refl) (simp add: p2)
    then show ?thesis unfolding applied_split[OF s] using p1 l(3) by simp
  qed
qed

end
