(* ===== verification/EvalProps.thy ===== *)
theory EvalProps
  imports EvalSafety InclusiveTax ScheduleProps
begin

text \<open>
  The properties of determination: evaluation, bracket rates, inclusive extraction, rounding pools and
  corrections, each with a witness on concrete documents.
\<close>


section \<open>Concrete documents\<close>

lemmas adjust_eval = eur_def percent_def cents_def money_sign_def money_zero_def money_sub_def money_min_def money_cmp_def
  money_times_def money_add_def money_neg_def dec_neg_def fisc_def allocate_eval

definition sale :: "int \<Rightarrow> comp_id list \<Rightarrow> doc_line" where
  "sale c is = \<lparr>l_key = ''1'', l_amount = eur c, l_quantity = None, l_applicable = is\<rparr>"

definition invoice :: "doc_line list \<Rightarrow> doc" where
  "invoice ls = \<lparr>d_currency = ''EUR'', d_lines = ls\<rparr>"

text \<open>A bracket on a quantity base, which Compile lets through.\<close>

definition from_zero :: bracket where
  "from_zero = \<lparr>k_mode = Marginal, k_tiers = [\<lparr>t_from = eur 0, t_rate = percent 10\<rparr>, \<lparr>t_from = eur 10000, t_rate = percent 20\<rparr>]\<rparr>"

definition bracket_on :: "base_kind \<Rightarrow> schedule" where
  "bracket_on k = \<lparr>s_components = [(tax_on ''b'' k [] 0)\<lparr>c_rate := \<lparr>rd_kind = Bracket, rd_proportion = None,
     rd_per_unit = None, rd_flat = None, rd_bracket = Some from_zero\<rparr>\<rparr>], s_extraction = None, s_subtraction = []\<rparr>"

definition run :: "schedule \<Rightarrow> doc \<Rightarrow> (eval_err, determination) result option" where
  "run s d = (case compile s of Ok p \<Rightarrow> Some (evaluate p d) | Err e \<Rightarrow> None)"

lemma bracket_on_quantity_panics: "run (bracket_on BaseQuantity) (invoice [sale 15000 [''b'']]) = Some (Err EvPanic)"
  by code_simp

lemma bracket_on_net_compiles: "is_ok (compile (bracket_on LineNet))"
  by code_simp

lemma magnitudes_small: "magnitudes s ws = Ok out \<Longrightarrow> length out = length ws
  \<and> ((\<forall>w \<in> set ws. small_dec (m_amount w)) \<longrightarrow> (\<forall>w \<in> set out. small_dec (m_amount w)))"
proof (induction s ws arbitrary: out rule: magnitudes.induct)
  case (2 sign w ws)
  then show ?case
    by (fastforce simp: Let_def money_neg_def dec_neg_def small_dec_def wf_dec_def num_digits_def split: if_splits)
qed simp

section \<open>Properties\<close>

text \<open>C16. Determination never dereferences nil: whatever the document, evaluation under a plan that
  Compile produced ends in a determination or in an error value, provided no bracket rate stands on
  a quantity base. (Compile admits that one combination, and evaluating it does dereference nil:
  \<open>bracket_on_quantity_panics\<close>.)\<close>

theorem evaluate_never_panics:
  assumes "compile s = Ok p"
    and "\<forall>c \<in> set (s_components s). rd_kind (c_rate c) = Bracket \<longrightarrow> b_kind (c_base c) \<noteq> BaseQuantity"
  shows "evaluate p d \<noteq> Err EvPanic"
  by (rule evaluate_sound_plan[OF compile_sound_plan[OF assms]])

lemma evaluate_never_panics_witness: "\<exists>p. compile (bracket_on LineNet) = Ok p \<and> evaluate p (invoice [sale (- 5) [''b'']]) \<noteq> Err EvPanic"
proof -
  obtain p where p: "compile (bracket_on LineNet) = Ok p" using bracket_on_net_compiles by (auto simp: is_ok_iff)
  show ?thesis using evaluate_never_panics[OF p, of "invoice [sale (- 5) [''b'']]"] p by (simp add: bracket_on_def tax_on_def)
qed

text \<open>C17. Bracket rates levy what they are specified to: under a validated bracket table the code's
  marginal loop yields exactly the sum over the tiers of the tier's rate on the part of the base inside
  the tier, and its cliff loop exactly the base times the rate of the highest tier reached, with no
  rounding in either; a negative base is refused.\<close>

theorem bracket_tax_exact:
  assumes "apply_bracket d b base = Ok tax" "validate_bracket i b = Ok ()" "wf_money base" "wf_tiers (k_tiers b)"
  shows "0 \<le> amount_of base \<and> m_currency tax = m_currency base
    \<and> amount_of tax = (if k_mode b = Marginal then marginal_tax (amount_of base) (k_tiers b)
        else cliff_tax (amount_of base) (k_tiers b))"
proof -
  note B = apply_bracket_ok[OF assms]
  have "k_mode b = Marginal \<or> k_mode b = Cliff"
    using assms(2) by (auto simp: validate_bracket_def split: if_splits)
  then show ?thesis using B by auto
qed

lemma bracket_tax_exact_witness:
  "marginal_tax 150 [\<lparr>t_from = eur 0, t_rate = percent 10\<rparr>, \<lparr>t_from = eur 10000, t_rate = percent 20\<rparr>] = 20"
proof -
  have a: "apply_bracket (invoice []) from_zero (eur 15000) = Ok \<lparr>m_amount = set_finite 200000 (- 4), m_currency = ''EUR''\<rparr>"
    by (simp add: apply_bracket_def from_zero_def same_currency_def invoice_def adjust_eval cong: bindR_weak)
  have v: "validate_bracket ''b'' from_zero = Ok ()" by code_simp
  have w: "wf_money (eur 15000)" "wf_tiers (k_tiers from_zero)"
    by (simp_all add: wf_money_def wf_tiers_def from_zero_def eur_def percent_def wf_dec_def set_finite_def)
  show ?thesis
    using bracket_tax_exact[OF a v w] by (simp add: amount_of_def from_zero_def) (simp add: set_finite_def dec_val_def power_int_minus)
qed

text \<open>C18. The net position of an adjustment chain is exact: it has an entry for precisely the line and
  component pairs the chain records, and each is the exact sum of the chain's amounts for that pair.\<close>

theorem net_position_exact:
  assumes "net_position chain = Ok out" "\<forall>d \<in> set chain. \<forall>e \<in> set (entries d). wf_money (snd e)"
  shows "dom out = fst ` (\<Union>d \<in> set chain. set (entries d))
    \<and> (\<forall>k m. out k = Some m \<longrightarrow> amount_of m = (\<Sum>d\<leftarrow>chain. entry_sum k (entries d)))"
proof -
  note N = net_position_ok[OF assms]
  have "set (concat (map entries chain)) = (\<Union>d \<in> set chain. set (entries d))" by simp
  then show ?thesis using N(1,2) by metis
qed

text \<open>C19. A full reversal undoes a determination: the net position of a determination followed by its
  reversal is zero at every line and component.\<close>

theorem reversal_nets_to_zero:
  assumes "net_position [d, reverse d] = Ok out" "\<forall>e \<in> set (entries d). wf_money (snd e)" "out k = Some m"
  shows "amount_of m = 0"
proof -
  have w: "\<forall>d' \<in> set [d, reverse d]. \<forall>e \<in> set (entries d'). wf_money (snd e)"
    using assms(2) by (auto simp: reverse_entries money_neg_ok)
  from net_position_ok(2)[OF assms(1) w assms(3)] show ?thesis
    using reverse_sum[OF assms(2), of k] by simp
qed

definition levied :: determination where
  "levied = \<lparr>dn_currency = ''EUR'', dn_lines = [\<lparr>lr_key = ''1'', lr_net = eur 1000, lr_components =
     [\<lparr>r_component = ''vat'', r_jurisdiction = ''J'', r_tax_type = ''T'', r_inclusive = False, r_base = None,
       r_raw = eur 200, r_amount = eur 200\<rparr>,
      \<lparr>r_component = ''levy'', r_jurisdiction = ''J'', r_tax_type = ''T'', r_inclusive = False, r_base = None,
       r_raw = eur 100, r_amount = eur 100\<rparr>]\<rparr>], dn_trace = []\<rparr>"

lemma levied_position: "case net_position [levied, reverse levied] of Ok out \<Rightarrow> out (''1'', ''vat'') \<noteq> None | Err e \<Rightarrow> False"
  by code_simp

lemma levied_wf: "\<forall>e \<in> set (entries levied). wf_money (snd e)"
  by (simp add: levied_def entries_def wf_money_def eur_def wf_dec_def set_finite_def)

lemma net_position_exact_witness: "\<exists>out. net_position [levied, reverse levied] = Ok out \<and> dom out = {(''1'', ''vat''), (''1'', ''levy'')}"
proof -
  obtain out where o: "net_position [levied, reverse levied] = Ok out"
    using levied_position by (auto split: result.splits)
  have w: "\<forall>d \<in> set [levied, reverse levied]. \<forall>e \<in> set (entries d). wf_money (snd e)"
    using levied_wf by (auto simp: reverse_entries money_neg_ok)
  have "dom out = fst ` (\<Union>d \<in> set [levied, reverse levied]. set (entries d))"
    using net_position_exact[OF o w] by blast
  then show ?thesis using o by (auto simp: reverse_entries) (auto simp: entries_def levied_def)
qed

lemma reversal_nets_to_zero_witness:
  "\<exists>out m. net_position [levied, reverse levied] = Ok out \<and> out (''1'', ''vat'') = Some m \<and> amount_of m = 0"
proof -
  obtain out m where o: "net_position [levied, reverse levied] = Ok out" "out (''1'', ''vat'') = Some m"
    using levied_position by (auto split: result.splits)
  show ?thesis using reversal_nets_to_zero[OF o(1) levied_wf o(2)] o by blast
qed

text \<open>A partial credit gives back exactly what it says: the tax of the credit note is the negated
  credit rounded once under the policy, whatever the number of lines and components it is spread over.\<close>

theorem partial_credit_total:
  assumes "partial_credit d credit p = Ok d'"
    and "alloc_input (money_neg credit) (map (\<lambda>(i, c). r_amount c) (credit_slots d))"
  shows "dn_currency d' = dn_currency d \<and> length (dn_lines d') = length (dn_lines d)
    \<and> (\<exists>rounded. money_round (money_neg credit) p = Ok rounded \<and> total_tax d' = amount_of rounded)"
proof -
  obtain parts where a: "allocate (money_neg credit) (map (\<lambda>(i, c). r_amount c) (credit_slots d)) p = Ok parts"
    and d': "dn_currency d' = dn_currency d"
      "dn_lines d' = map (credit_line (zip (credit_slots d) parts)) (List.enumerate 0 (dn_lines d))"
    using partial_credit_parts[OF assms(1)] by blast
  have len: "length parts = length (credit_slots d)" using allocate_ok(2)[OF a assms(2)] by simp
  from allocate_sum[OF a assms(2)] show ?thesis
    using credit_total[OF d'(2) len] d' by (auto simp: amount_of_def)
qed

definition half_credit :: money where
  "half_credit = \<lparr>m_amount = set_finite 100005 (- 5), m_currency = ''EUR''\<rparr>"

lemma half_credit_given: "is_ok (partial_credit levied half_credit (cents HALF_UP))"
  by (simp add: partial_credit_def levied_def half_credit_def credit_slots_def credit_total_step_def parse_money_def parse_zero Let_def adjust_eval
      cong: bindR_weak)

lemma partial_credit_total_witness:
  "\<exists>d'. partial_credit levied half_credit (cents HALF_UP) = Ok d' \<and> total_tax d' = - 1"
proof -
  obtain d' where d: "partial_credit levied half_credit (cents HALF_UP) = Ok d'"
    using half_credit_given by (auto simp: is_ok_iff)
  have i: "alloc_input (money_neg half_credit) (map (\<lambda>(i, c). r_amount c) (credit_slots levied))"
    by (simp add: alloc_input_def half_credit_def credit_slots_def levied_def money_neg_def eur_def small_dec_def
      set_finite_def wf_dec_def num_digits_def num_digits_int_def ndig.simps dec_neg_def)
  have r: "money_round (money_neg half_credit) (cents HALF_UP) = Ok (money_neg (eur 100))"
    by (simp add: half_credit_def adjust_eval)
  have "amount_of (money_neg (eur 100)) = - 1"
    by (simp add: amount_of_def adjust_eval) (simp add: dec_val_def power_int_minus)
  then show ?thesis using partial_credit_total[OF d i] r d by auto
qed

text \<open>C20. A rounding point above the line rounds once: what the members of a pool are charged in the results the
  determination is built from, and what later components read as their amounts, sum to the pool's total rounded
  under its policy, however the members' own shares would have rounded; no other line or component is touched.\<close>

theorem pool_rounds_once:
  assumes "round_pool (states, tr) q = Ok (states', tr')" "po_members q \<noteq> []"
    and "distinct (map member_line (po_members q))"
    and "alloc_input (po_total q) (map (snd \<circ> snd) (po_members q))"
  shows "\<exists>rounded. money_round (po_total q) (po_policy q) = Ok rounded
    \<and> (\<Sum>m\<leftarrow>po_members q. charged states' m) = amount_of rounded
    \<and> (\<Sum>m\<leftarrow>po_members q. recorded states' m) = amount_of rounded
    \<and> (\<forall>n i. (n, i) \<notin> member_line ` set (po_members q) \<longrightarrow> slot_of states' n i = slot_of states n i)"
proof -
  obtain tr1 weights parts where w: "magnitudes 0 (map (snd \<circ> snd) (po_members q)) = Ok weights"
    and a: "allocate (po_total q) weights (po_policy q) = Ok parts"
    and f: "foldR (allocate_back q) (states, tr1) (zip (po_members q) parts) = Ok (states', tr')"
    using assms(1,2) by (auto simp: round_pool_def Let_def fisc_def split: if_splits)
  have small: "\<forall>w \<in> set weights. small_dec (m_amount w)" and lw: "length weights = length (po_members q)"
    using magnitudes_small[OF w] assms(4) by (auto simp: alloc_input_def)
  have i: "alloc_input (po_total q) weights"
    using assms(4) small lw by (simp add: alloc_input_def)
  have len: "length (po_members q) = length parts" using allocate_length[OF a] lw by simp
  let ?zs = "zip (po_members q) parts"
  have ms: "map fst ?zs = po_members q" "map snd ?zs = parts" using len by simp_all
  then have "distinct (map (member_line \<circ> fst) ?zs)" using assms(3) by (metis map_map)
  note B = allocate_back_all[OF f this]
  have c: "charged states' (fst z) = amount_of (snd z)" "recorded states' (fst z) = amount_of (snd z)" if "z \<in> set ?zs" for z
    using B that by (auto simp: charged_def recorded_def value_of_def)
  have "(\<Sum>m\<leftarrow>map fst ?zs. charged states' m) = (\<Sum>m\<leftarrow>map snd ?zs. amount_of m)"
    "(\<Sum>m\<leftarrow>map fst ?zs. recorded states' m) = (\<Sum>m\<leftarrow>map snd ?zs. amount_of m)"
    unfolding map_map by (intro arg_cong[where f = sum_list] map_cong refl; simp add: c)+
  then have "(\<Sum>m\<leftarrow>po_members q. charged states' m) = (\<Sum>m\<leftarrow>parts. amount_of m)"
    "(\<Sum>m\<leftarrow>po_members q. recorded states' m) = (\<Sum>m\<leftarrow>parts. amount_of m)" unfolding ms by simp_all
  moreover have "fst ` set ?zs = set (po_members q)" using ms(1) by (metis set_map)
  moreover obtain rounded where "money_round (po_total q) (po_policy q) = Ok rounded"
    "(\<Sum>m\<leftarrow>parts. amount_of m) = amount_of rounded"
    using allocate_sum[OF a i] by (auto simp: amount_of_def)
  ultimately show ?thesis using B by (intro exI[of _ rounded]) simp
qed

definition inclusive_line :: line_state where
  "inclusive_line = \<lparr>ls_line = sale 1250 [''vat'', ''levy''], ls_applies = {''vat'', ''levy''}, ls_net = eur 1250, ls_gross = eur 1250,
     ls_amounts = (\<lambda>_. None), ls_results = (\<lambda>_. None)\<rparr>"

definition inclusive_plan :: plan where
  "inclusive_plan = \<lparr>pl_components = s_components inclusive_schedule, pl_order = [1, 0], pl_extraction = Some half_up_line,
     pl_inclusive_flat = [''levy''], pl_referenced = {}\<rparr>"


lemma quo_digits: "num_digits_int 1000000000000000000000000000000000 = 34" "num_digits_int 1200 = 4" "num_digits_int 120 = 3" by (simp_all add: num_digits_int_def ndig.simps)
lemma quo_exps: "exp10 1 = 10" "exp10 33 = 1000000000000000000000000000000000" by (simp_all add: exp10_def)


lemma vat_multiplier: "\<exists>tr'. foldR (multiplier_step k) ((\<lambda>_. None), factor_zero, tr) [s_components inclusive_schedule ! 0]
   = Ok ([''vat'' \<mapsto> \<lparr>f_value = set_finite 20 (- 2)\<rparr>], \<lparr>f_value = set_finite 20 (- 2)\<rparr>, tr')"
  by (simp add: multiplier_step_def inclusive_schedule_def tax_on_def ad_valorem_def factor_of_def factor_add_def factor_zero_def Let_def adjust_eval cong: bindR_weak)
lemma vat_divisor: "factor_add factor_one \<lparr>f_value = set_finite 20 (- 2)\<rparr> = Ok \<lparr>f_value = set_finite 120 (- 2)\<rparr>"
  by (simp add: factor_add_def factor_one_def adjust_eval)



text \<open>A gross finer than extraction rounds: 12.006 with 20 percent tax inside splits into a net of 10.01 and a tax
  of 2.00, which make up 12.01. Nothing refuses such a line.\<close>

definition mills :: "int \<Rightarrow> money" where
  "mills n = \<lparr>m_amount = set_finite n (- 3), m_currency = ''EUR''\<rparr>"

lemma off_grid_digits: "num_digits_int 12006 = 5" "num_digits_int 120 = 3" "num_digits_int 1000500000000000000000000000000000 = 34" "exp10 2 = 100"
  by (simp_all add: num_digits_int_def ndig.simps exp10_def)
lemma off_grid_whole: "(12006000000000000000000000000000000000 :: int) sdiv 12000 = 1000500000000000000000000000000000" by (simp add: signed_divide_int_def)
lemma off_grid_rest: "(12006000000000000000000000000000000000 :: int) smod 12000 = 0" by (simp add: signed_modulo_int_def signed_divide_int_def)
lemma off_grid_quo: "ctx_quo (policy_ctx half_up_line) (set_finite 12006 (-3)) (set_finite 120 (- 2)) = Ok (set_finite 1000500000000000000000000000000000 (- 32), {})" 
  by (simp add: ctx_quo_def quo_specials_def should_set_as_nan_def is_nan_form_def dec_is_zero_def set_finite_def i32_def policy_ctx_def half_up_line_def Precision_def quo_digits off_grid_digits off_grid_whole off_grid_rest quo_exps dec_sign_def set_exponent_def MaxExponent_def MinExponent_def unknownNumDigits_def num_digits_def go_error_def)
lemma off_grid_net: "div_factor (mills 12006) \<lparr>f_value = set_finite 120 (- 2)\<rparr> half_up_line = Ok (eur 1001)"
proof -
  have a: "apply_policy (set_finite 1000500000000000000000000000000000 (-32)) half_up_line = Ok (set_finite 1001 (- 2))"
    by (simp add: half_up_line_def fiscal_eval)
  have v: "policy_validate half_up_line = Ok ()" by (simp add: half_up_line_def fiscal_eval)
  show ?thesis by (simp add: div_factor_def fquo_def wrap_def off_grid_quo a v eur_def mills_def dec_is_zero_def dec_sign_def) (simp add: set_finite_def)
qed
lemma off_grid_share: "allocate_by_factors (mills 1996) [\<lparr>f_value = set_finite 20 (- 2)\<rparr>] half_up_line = Ok [eur 200]"
  by (simp add: allocate_by_factors_def half_up_line_def mills_def adjust_eval)

definition off_grid_line :: line_state where
  "off_grid_line = \<lparr>ls_line = \<lparr>l_key = ''1'', l_amount = mills 12006, l_quantity = None, l_applicable = [''vat'']\<rparr>,
     ls_applies = {''vat''}, ls_net = mills 12006, ls_gross = mills 12006, ls_amounts = (\<lambda>_. None), ls_results = (\<lambda>_. None)\<rparr>"

lemma off_grid_gross_residual:
  "\<exists>st tr. extract_inclusive inclusive_plan (invoice []) off_grid_line [] = Ok (st, tr)
    \<and> amount_of (ls_net st) + inclusive_tax inclusive_plan off_grid_line st = 1201 / 100
    \<and> amount_of (l_amount (ls_line off_grid_line)) = 12006 / 1000"
proof -
  let ?vat = "s_components inclusive_schedule ! 0"
  have ap: "applied_inclusive inclusive_plan off_grid_line = [?vat]" "filter (\<lambda>c. rd_kind (c_rate c) = AdValorem) [?vat] = [?vat]"
    by (simp_all add: applied_inclusive_def inclusive_plan_def inclusive_schedule_def tax_on_def off_grid_line_def ad_valorem_def)
  have s: "foldR (subtract_inclusive inclusive_plan (invoice [])) (off_grid_line, mills 12006, []) (pl_inclusive_flat inclusive_plan) = Ok (off_grid_line, mills 12006, [])"
    by (simp add: inclusive_plan_def subtract_inclusive_def off_grid_line_def)
  obtain tr2 where m: "foldR (multiplier_step ''1'') ((\<lambda>_. None), factor_zero, []) [?vat]
      = Ok ([''vat'' \<mapsto> \<lparr>f_value = set_finite 20 (- 2)\<rparr>], \<lparr>f_value = set_finite 20 (- 2)\<rparr>, tr2)"
    using vat_multiplier by blast
  have t: "money_sub (mills 12006) (eur 1001) = Ok (mills 1996)" by (simp add: mills_def adjust_eval)
  have k: "l_key (ls_line off_grid_line) = ''1''" "l_amount (ls_line off_grid_line) = mills 12006" by (simp_all add: off_grid_line_def)
  have "\<exists>tr. extract_proportional inclusive_plan [?vat] off_grid_line (mills 12006) []
      = Ok ((record_amount ?vat (eur 200) (eur 200) off_grid_line)\<lparr>ls_net := eur 1001\<rparr>, tr)"
    unfolding extract_proportional_def k Let_def m
    by (simp add: vat_divisor inclusive_plan_def off_grid_net t fisc_def off_grid_share record_part_def find_component_def
      inclusive_schedule_def tax_on_def)
  then obtain tr where e: "extract_inclusive inclusive_plan (invoice []) off_grid_line []
      = Ok ((record_amount ?vat (eur 200) (eur 200) off_grid_line)\<lparr>ls_net := eur 1001\<rparr>, tr)"
    unfolding extract_inclusive_def Let_def ap k(2) by (auto simp: s)
  show ?thesis
    by (rule exI, rule exI, rule conjI[OF e])
       (simp add: inclusive_tax_def ap(1) record_amount_def k(2) amount_of_def mills_def eur_def set_finite_def dec_val_def power_int_minus)
qed


definition city_pool :: pool where
  "city_pool = \<lparr>po_key = ''J'', po_policy = cents HALF_UP, po_total = mills 105,
     po_members = [(0, ''city'', mills 35), (0, ''state'', mills 70)]\<rparr>"

lemma city_pool_parts: "allocate (mills 105) [mills 35, mills 70] (cents HALF_UP) = Ok [eur 4, eur 7]"
  by (simp add: mills_def eur_def cents_def allocate_eval)

definition pooled_line :: line_state where
  "pooled_line = inclusive_line\<lparr>ls_results :=
     [''city'' \<mapsto> inclusive_result (tax_on ''city'' LineNet [] 0) (mills 35) money0,
      ''state'' \<mapsto> inclusive_result (tax_on ''state'' LineNet [] 0) (mills 70) money0]\<rparr>"

lemma city_pool_rounds: "\<exists>states' tr'. round_pool ([pooled_line], []) city_pool = Ok (states', tr')"
proof -
  have m: "magnitudes 0 [mills 35, mills 70] = Ok [mills 35, mills 70]"
    by (simp add: mills_def adjust_eval)
  have r: "money_round (mills 105) (cents HALF_UP) = Ok (eur 11)"
    by (simp add: mills_def adjust_eval)
  have w: "map (snd \<circ> snd) (po_members city_pool) = [mills 35, mills 70]" "po_total city_pool = mills 105"
    "po_policy city_pool = cents HALF_UP"
    and p: "po_members city_pool = [(0, ''city'', mills 35), (0, ''state'', mills 70)]"
    by (simp_all add: city_pool_def)
  show ?thesis unfolding round_pool_def prod.case w m r fisc_def
    by (simp add: city_pool_parts p allocate_back_def pooled_line_def inclusive_line_def Let_def)
qed

lemma pool_rounds_once_witness: "\<exists>states' tr'. round_pool ([pooled_line], []) city_pool = Ok (states', tr')
  \<and> charged states' (0, ''city'', mills 35) + charged states' (0, ''state'', mills 70) = 11 / 100"
proof -
  obtain states' tr' where e: "round_pool ([pooled_line], []) city_pool = Ok (states', tr')"
    using city_pool_rounds by blast
  have i: "alloc_input (po_total city_pool) (map (snd \<circ> snd) (po_members city_pool))"
    by (simp add: alloc_input_def city_pool_def mills_def small_dec_def set_finite_def wf_dec_def num_digits_def num_digits_int_def ndig.simps)
  have r: "money_round (mills 105) (cents HALF_UP) = Ok (eur 11)"
    by (simp add: mills_def adjust_eval)
  show ?thesis
    using pool_rounds_once[OF e _ _ i] e r by (simp add: city_pool_def member_line_def amount_of_def)
qed

end
