(* ===== verification/Subledger.thy ===== *)
theory Subledger
  imports ExactSum
begin

text \<open>
  \<open>backend/internal/domain/subledger\<close>: signed transactions (\<open>subledger.go\<close>), debit and credit journals,
  their reversal, the period gate and the control balances (\<open>journal.go\<close>), posting profiles and the export
  to a customer's chart (\<open>posting.go\<close>). An identifier is the integer of its UUID, zero being the nil UUID
  (its text is fixed-width lower-case hexadecimal, so sorting texts sorts integers); an instant is an
  integer whose zero is Go's zero \<open>time.Time\<close>.
\<close>

type_synonym ident = nat
type_synonym account = string

datatype sl_err =
    NoKey | TooFewEntries nat | WrongTransaction nat | NoAccount nat | NoCurrency nat
  | Residual string money | NeedsIds | SlFiscal fiscal_err
  | NoJournalId | NoScope | BadJournalType | NoSource | NoPeriod | TooFewLines nat
  | NoProvenance | StrayProvenance | NotTcsl nat | LineCurrency nat | NotPositive nat | BadSide nat
  | Unbalanced | ReusesId | BadPeriodState | NotPostable
  | Unapproved | NotInEffect | PostsNothing string | NoAmount string | Unmapped "account list"
  | NoOwner | NoAgePolicy | Unscoped

definition sl_fisc :: "(fiscal_err, 'a) result \<Rightarrow> (sl_err, 'a) result" where
  "sl_fisc r = map_err SlFiscal r"

section \<open>Signed transactions (subledger.go)\<close>

record ledger_entry =
  en_id :: ident
  en_tenant :: ident
  en_key :: string
  en_decision :: "ident option"
  en_account :: account
  en_jurisdiction :: string
  en_amount :: money
  en_event_time :: int
  en_recorded_at :: int
  en_reverses :: "ident option"

record transaction =
  tx_key :: string
  tx_entries :: "ledger_entry list"

definition total_step ::
  "string \<Rightarrow> (string \<rightharpoonup> money) \<Rightarrow> nat \<times> ledger_entry \<Rightarrow> (sl_err, string \<rightharpoonup> money) result" where
  "total_step key totals = (\<lambda>(i, e).
     (if en_key e \<noteq> key then Err (WrongTransaction i)
      else if en_account e = [] then Err (NoAccount i)
      else
        let cur = m_currency (en_amount e) in
        if cur = [] then Err (NoCurrency i)
        else case totals cur of
          None \<Rightarrow> Ok (totals(cur \<mapsto> en_amount e))
        | Some r \<Rightarrow> bindR (sl_fisc (money_add r (en_amount e))) (\<lambda>s. Ok (totals(cur \<mapsto> s)))))"

definition tx_currencies :: "transaction \<Rightarrow> string list" where
  "tx_currencies t = sort (remdups (map (m_currency \<circ> en_amount) (tx_entries t)))"

definition residual_step :: "(string \<rightharpoonup> money) \<Rightarrow> unit \<Rightarrow> string \<Rightarrow> (sl_err, unit) result" where
  "residual_step totals u c =
     (case totals c of
        None \<Rightarrow> Ok ()
      | Some m \<Rightarrow> if \<not> money_is_zero m then Err (Residual c m) else Ok ())"

definition validate_transaction :: "transaction \<Rightarrow> (sl_err, unit) result" where
  "validate_transaction t =
     (if tx_key t = [] then Err NoKey
      else if length (tx_entries t) < 2 then Err (TooFewEntries (length (tx_entries t)))
      else
        bindR (foldR (total_step (tx_key t)) (\<lambda>_. None) (List.enumerate 0 (tx_entries t))) (\<lambda>totals.
          foldR (residual_step totals) () (tx_currencies t)))"

definition reverse_entry ::
  "string \<Rightarrow> int \<Rightarrow> ident \<times> ledger_entry \<Rightarrow> (sl_err, ledger_entry) result" where
  "reverse_entry key now = (\<lambda>(i, e).
     bindR (sl_fisc (parse_money ''0'' (m_currency (en_amount e)))) (\<lambda>zero.
     bindR (sl_fisc (money_sub zero (en_amount e))) (\<lambda>negated.
       Ok \<lparr>en_id = i, en_tenant = en_tenant e, en_key = key, en_decision = en_decision e,
           en_account = en_account e, en_jurisdiction = en_jurisdiction e, en_amount = negated,
           en_event_time = en_event_time e, en_recorded_at = now, en_reverses = Some (en_id e)\<rparr>)))"

definition reverse_transaction :: "transaction \<Rightarrow> string \<Rightarrow> int \<Rightarrow> ident list \<Rightarrow> (sl_err, transaction) result" where
  "reverse_transaction t key now ids =
     (if length ids \<noteq> length (tx_entries t) then Err NeedsIds
      else bindR (mapR (reverse_entry key now) (zip ids (tx_entries t))) (\<lambda>es.
        Ok \<lparr>tx_key = key, tx_entries = es\<rparr>))"

section \<open>Journals (journal.go)\<close>

definition tcsl_accounts :: "account list" where
  "tcsl_accounts =
     [''TAX_COLLECTED_LIABILITY'', ''TAX_ACCRUED_LIABILITY'', ''TAX_RECOVERABLE'', ''TAX_RECEIVABLE_CONTROL'',
      ''TAX_CASH_CLEARING'', ''TAX_RETURN_CLEARING'', ''TAX_REMITTANCE_CLEARING'', ''TAX_ADJUSTMENT_CONTROL'',
      ''FX_CONTROL'', ''ROUNDING_CONTROL'', ''SUSPENSE_EXCEPTION'', ''CUSTOMER_GL_BRIDGE'']"

definition account_canonical :: "account \<Rightarrow> bool" where
  "account_canonical a \<longleftrightarrow> a \<in> set tcsl_accounts"

datatype side = Debit | Credit | SideOther string

datatype journal_type = JtInvoice | JtCredit | JtRefund | JtLiabilityAccrual | JtReturn | JtRemittance | JtFX
  | JtRounding | JtMigration | JtAdjustment | JtOther string

fun journal_type_valid :: "journal_type \<Rightarrow> bool" where
  "journal_type_valid (JtOther s) = False"
| "journal_type_valid t = True"

record source_event =
  se_kind :: string
  se_id :: string

record journal_line =
  jl_account :: account
  jl_side :: side
  jl_amount :: money
  jl_authority :: string
  jl_jurisdiction :: string
  jl_decision :: "ident option"
  jl_document :: "ident option"
  jl_obligation :: "ident option"

record profile_ref =
  pr_id :: string
  pr_version :: string

record journal =
  j_id :: ident
  j_tenant :: ident
  j_entity :: ident
  j_type :: journal_type
  j_source :: source_event
  j_posting_date :: int
  j_period :: string
  j_currency :: string
  j_lines :: "journal_line list"
  j_reversal_of :: "ident option"
  j_profile :: profile_ref
  j_amendment :: bool
  j_migration_source :: string
  j_cutover :: "int option"

definition journal_step ::
  "string \<Rightarrow> money \<times> money \<Rightarrow> nat \<times> journal_line \<Rightarrow> (sl_err, money \<times> money) result" where
  "journal_step cur = (\<lambda>(debits, credits) (i, l).
     (if \<not> account_canonical (jl_account l) then Err (NotTcsl i)
      else if m_currency (jl_amount l) \<noteq> cur then Err (LineCurrency i)
      else if money_sign (jl_amount l) \<le> 0 then Err (NotPositive i)
      else case jl_side l of
        Debit \<Rightarrow> bindR (sl_fisc (money_add debits (jl_amount l))) (\<lambda>d. Ok (d, credits))
      | Credit \<Rightarrow> bindR (sl_fisc (money_add credits (jl_amount l))) (\<lambda>c. Ok (debits, c))
      | SideOther s \<Rightarrow> Err (BadSide i)))"

definition validate_journal :: "journal \<Rightarrow> (sl_err, unit) result" where
  "validate_journal j =
     (if j_id j = 0 then Err NoJournalId
      else if j_tenant j = 0 \<or> j_entity j = 0 then Err NoScope
      else if \<not> journal_type_valid (j_type j) then Err BadJournalType
      else if se_kind (j_source j) = [] \<or> se_id (j_source j) = [] then Err NoSource
      else if j_posting_date j = 0 \<or> j_period j = [] then Err NoPeriod
      else if j_currency j = [] then Err (NoCurrency 0)
      else if length (j_lines j) < 2 then Err (TooFewLines (length (j_lines j)))
      else if j_type j = JtMigration \<and> (j_migration_source j = [] \<or> j_cutover j = None) then Err NoProvenance
      else if j_type j \<noteq> JtMigration \<and> (j_migration_source j \<noteq> [] \<or> j_cutover j \<noteq> None) then Err StrayProvenance
      else
        bindR (sl_fisc (parse_money ''0'' (j_currency j))) (\<lambda>zero.
        bindR (foldR (journal_step (j_currency j)) (zero, zero) (List.enumerate 0 (j_lines j))) (\<lambda>(debits, credits).
          case money_cmp debits credits of
            Err e \<Rightarrow> Err Unbalanced
          | Ok c \<Rightarrow> if c \<noteq> 0 then Err Unbalanced else Ok ())))"

definition flip :: "side \<Rightarrow> side" where
  "flip s = (if s = Debit then Credit else Debit)"

definition reverse_journal :: "journal \<Rightarrow> ident \<Rightarrow> int \<Rightarrow> source_event \<Rightarrow> (sl_err, journal) result" where
  "reverse_journal j new_id posting_date source =
     (if new_id = j_id j then Err ReusesId
      else
        let out = j\<lparr>j_id := new_id, j_source := source, j_posting_date := posting_date,
               j_reversal_of := Some (j_id j),
               j_lines := map (\<lambda>l. l\<lparr>jl_side := flip (jl_side l)\<rparr>) (j_lines j)\<rparr> in
        bindR (validate_journal out) (\<lambda>_. Ok out))"

section \<open>The period gate\<close>

datatype period_state = PsOpen | PsSoftClose | PsHardClose | PsReopened | PsAmendmentActive | PsSealed | PsOther string

definition check_postable :: "journal \<Rightarrow> period_state \<Rightarrow> (sl_err, unit) result" where
  "check_postable j s =
     (case s of
        PsOpen \<Rightarrow> Ok ()
      | PsReopened \<Rightarrow> Ok ()
      | PsSoftClose \<Rightarrow> if j_type j = JtAdjustment \<or> j_type j = JtRounding then Ok () else Err NotPostable
      | PsAmendmentActive \<Rightarrow> if j_amendment j then Ok () else Err NotPostable
      | PsHardClose \<Rightarrow> Err NotPostable
      | PsSealed \<Rightarrow> Err NotPostable
      | PsOther x \<Rightarrow> Err BadPeriodState)"

section \<open>Control balances\<close>

record balance =
  ba_debits :: money
  ba_credits :: money

type_synonym balances = "account \<times> string \<rightharpoonup> balance"

definition balance_step :: "balances \<Rightarrow> journal_line \<Rightarrow> (sl_err, balances) result" where
  "balance_step out l =
     (let k = (jl_account l, m_currency (jl_amount l));
          b = (case out k of
                 Some b \<Rightarrow> b
               | None \<Rightarrow> \<lparr>ba_debits = money_zero (jl_amount l), ba_credits = money_zero (jl_amount l)\<rparr>) in
      bindR (if jl_side l = Debit
             then bindR (sl_fisc (money_add (ba_debits b) (jl_amount l))) (\<lambda>d. Ok (b\<lparr>ba_debits := d\<rparr>))
             else bindR (sl_fisc (money_add (ba_credits b) (jl_amount l))) (\<lambda>c. Ok (b\<lparr>ba_credits := c\<rparr>)))
        (\<lambda>b. Ok (out(k \<mapsto> b))))"

definition balances_of :: "journal list \<Rightarrow> (sl_err, balances) result" where
  "balances_of js = foldR (\<lambda>out j. foldR balance_step out (j_lines j)) (\<lambda>_. None) js"

definition orphans :: "journal list \<Rightarrow> source_event set \<Rightarrow> ident list" where
  "orphans js known = sort (map j_id (filter (\<lambda>j. j_source j \<notin> known) js))"

record suspense_item =
  su_journal :: ident
  su_line :: nat
  su_owner :: ident
  su_opened_at :: int
  su_sla :: int

definition validate_suspense :: "suspense_item \<Rightarrow> (sl_err, unit) result" where
  "validate_suspense s =
     (if su_owner s = 0 then Err NoOwner
      else if su_opened_at s = 0 \<or> su_sla s \<le> 0 then Err NoAgePolicy
      else Ok ())"

text \<open>\<open>Time.Sub\<close> saturates at the ends of the 64-bit \<open>Duration\<close>.\<close>

definition time_sub :: "int \<Rightarrow> int \<Rightarrow> int" where
  "time_sub t u = max (- (2 ^ 63)) (min (2 ^ 63 - 1) (t - u))"

definition aged :: "suspense_item \<Rightarrow> int \<Rightarrow> bool" where
  "aged s as_of \<longleftrightarrow> time_sub as_of (su_opened_at s) > su_sla s"

section \<open>Posting profiles (posting.go)\<close>

record posting_rule =
  pl_account :: account
  pl_side :: side
  pl_amount :: string

record profile_entry =
  pe_type :: journal_type
  pe_lines :: "posting_rule list"

record posting_profile =
  pp_ref :: profile_ref
  pp_tenant :: ident
  pp_entity :: ident
  pp_from :: int
  pp_to :: "int option"
  pp_owner :: ident
  pp_approval :: string
  pp_rules :: "string \<rightharpoonup> profile_entry"

record posting_event =
  ev_source :: source_event
  ev_time :: int
  ev_period :: string
  ev_currency :: string
  ev_amounts :: "string \<rightharpoonup> money"
  ev_authority :: string
  ev_jurisdiction :: string
  ev_decision :: "ident option"
  ev_document :: "ident option"

definition effective_at :: "posting_profile \<Rightarrow> int \<Rightarrow> bool" where
  "effective_at p t \<longleftrightarrow> pp_from p \<le> t \<and> (case pp_to p of None \<Rightarrow> True | Some e \<Rightarrow> t < e)"

definition post_line :: "posting_event \<Rightarrow> journal_line list \<Rightarrow> posting_rule \<Rightarrow> (sl_err, journal_line list) result" where
  "post_line ev ls r =
     (case ev_amounts ev (pl_amount r) of
        None \<Rightarrow> Err (NoAmount (pl_amount r))
      | Some amt \<Rightarrow>
        if money_is_zero amt then Ok ls
        else
          let (amt, side) = (if money_sign amt < 0 then (money_neg amt, flip (pl_side r)) else (amt, pl_side r)) in
          Ok (ls @ [\<lparr>jl_account = pl_account r, jl_side = side, jl_amount = amt, jl_authority = ev_authority ev,
                jl_jurisdiction = ev_jurisdiction ev, jl_decision = ev_decision ev, jl_document = ev_document ev,
                jl_obligation = None\<rparr>]))"

definition post :: "posting_profile \<Rightarrow> posting_event \<Rightarrow> ident \<Rightarrow> int \<Rightarrow> (sl_err, journal) result" where
  "post p ev i posting_date =
     (if pr_id (pp_ref p) = [] \<or> pr_version (pp_ref p) = [] \<or> (pp_owner p = 0 \<and> pp_approval p = []) then Err Unapproved
      else if \<not> effective_at p (ev_time ev) then Err NotInEffect
      else case pp_rules p (se_kind (ev_source ev)) of
        None \<Rightarrow> Err (PostsNothing (se_kind (ev_source ev)))
      | Some e \<Rightarrow>
        bindR (foldR (post_line ev) [] (pe_lines e)) (\<lambda>ls.
          let j = \<lparr>j_id = i, j_tenant = pp_tenant p, j_entity = pp_entity p, j_type = pe_type e, j_source = ev_source ev,
                j_posting_date = posting_date, j_period = ev_period ev, j_currency = ev_currency ev, j_lines = ls,
                j_reversal_of = None, j_profile = pp_ref p, j_amendment = False, j_migration_source = [], j_cutover = None\<rparr> in
          bindR (validate_journal j) (\<lambda>_. Ok j)))"

section \<open>Export to a customer's chart\<close>

record gl_line =
  gl_customer_account :: string
  gl_canonical :: account
  gl_side :: side
  gl_amount :: money
  gl_journal :: ident
  gl_line_no :: nat
  gl_document :: "ident option"
  gl_decision :: "ident option"

definition export_step ::
  "(account \<rightharpoonup> string) \<Rightarrow> journal \<Rightarrow> account list \<times> gl_line list \<Rightarrow> nat \<times> journal_line \<Rightarrow> account list \<times> gl_line list" where
  "export_step m j = (\<lambda>(unmapped, out) (i, l).
     (case m (jl_account l) of
        None \<Rightarrow> (unmapped @ [jl_account l], out)
      | Some code \<Rightarrow>
        if code = [] then (unmapped @ [jl_account l], out)
        else (unmapped, out @ [\<lparr>gl_customer_account = code, gl_canonical = jl_account l, gl_side = jl_side l,
               gl_amount = jl_amount l, gl_journal = j_id j, gl_line_no = i, gl_document = jl_document l,
               gl_decision = jl_decision l\<rparr>])))"

definition export :: "(account \<rightharpoonup> string) \<Rightarrow> journal \<Rightarrow> (sl_err, gl_line list) result" where
  "export m j =
     (let (unmapped, out) = foldl (export_step m j) ([], []) (List.enumerate 0 (j_lines j)) in
      if unmapped \<noteq> [] then Err (Unmapped (sort unmapped)) else Ok out)"

end
