(* ===== verification/Digest.thy ===== *)
theory Digest
  imports Prelude
begin

text \<open>
  \<open>backend/internal/platform/canonical/digest.go\<close>: digests, the RFC 6962 Merkle root, the audit path of a
  leaf and its verification. Bytes are characters. The hash function (\<open>crypto/sha256\<close>) is the argument
  \<open>sha\<close> of the definitions: nothing below depends on what it computes.
\<close>

datatype digest_err = NoPrefix | NotHex | WrongLength | NotLower | OutsideTree | BadLeaf nat digest_err
  | PathTooShort | BadPath nat digest_err | PathTooLong nat | WrongRoot

type_synonym digest = string
type_synonym hash = "string \<Rightarrow> string"

section \<open>Hexadecimal (encoding/hex)\<close>

definition hex_digit :: "nat \<Rightarrow> char" where
  "hex_digit n = ''0123456789abcdef'' ! n"

fun hex_encode :: "string \<Rightarrow> string" where
  "hex_encode [] = []"
| "hex_encode (c # cs) = hex_digit (of_char c div 16) # hex_digit (of_char c mod 16) # hex_encode cs"

definition hex_val :: "char \<Rightarrow> nat option" where
  "hex_val c =
     (let n = of_char c in
      if 48 \<le> n \<and> n \<le> 57 then Some (n - 48)
      else if 97 \<le> n \<and> n \<le> 102 then Some (n - 87)
      else if 65 \<le> n \<and> n \<le> 70 then Some (n - 55) else None)"

fun hex_decode :: "string \<Rightarrow> (digest_err, string) result" where
  "hex_decode [] = Ok []"
| "hex_decode [c] = Err NotHex"
| "hex_decode (c # d # cs) =
     (case (hex_val c, hex_val d) of
        (Some a, Some b) \<Rightarrow> bindR (hex_decode cs) (\<lambda>out. Ok (char_of (16 * a + b) # out))
      | _ \<Rightarrow> Err NotHex)"

section \<open>Digests\<close>

definition DigestPrefix :: string where "DigestPrefix = ''zt1:''"

definition cut_prefix :: "string \<Rightarrow> string \<Rightarrow> string option" where
  "cut_prefix s p = (if take (length p) s = p then Some (drop (length p) s) else None)"

definition sum_bytes :: "hash \<Rightarrow> string \<Rightarrow> digest" where
  "sum_bytes sha b = DigestPrefix @ hex_encode (sha b)"

definition ascii_lower :: "char \<Rightarrow> char" where
  "ascii_lower c = (let n = of_char c :: nat in if 65 \<le> n \<and> n \<le> 90 then char_of (n + 32) else c)"

definition parse_digest :: "string \<Rightarrow> (digest_err, digest) result" where
  "parse_digest s =
     (case cut_prefix s DigestPrefix of
        None \<Rightarrow> Err NoPrefix
      | Some rest \<Rightarrow>
        if length rest \<noteq> 64 then Err WrongLength
        else bindR (hex_decode rest) (\<lambda>_.
          if rest \<noteq> map ascii_lower rest then Err NotLower else Ok s))"

definition raw_digest :: "digest \<Rightarrow> (digest_err, string) result" where
  "raw_digest s = (case cut_prefix s DigestPrefix of None \<Rightarrow> Err NoPrefix | Some rest \<Rightarrow> hex_decode rest)"

definition node_digest :: "string \<Rightarrow> digest" where
  "node_digest h = DigestPrefix @ hex_encode h"

section \<open>The Merkle tree\<close>

definition merkleLeafPrefix :: char where "merkleLeafPrefix = CHR 0x00"
definition merkleInteriorPrefix :: char where "merkleInteriorPrefix = CHR 0x01"

definition leaf_hash :: "hash \<Rightarrow> string \<Rightarrow> string" where
  "leaf_hash sha raw = sha (merkleLeafPrefix # raw)"

definition interior_hash :: "hash \<Rightarrow> string \<Rightarrow> string \<Rightarrow> string" where
  "interior_hash sha l r = sha (merkleInteriorPrefix # l @ r)"

text \<open>One level up: pairs are hashed, an odd node is promoted unchanged.\<close>

fun next_level :: "hash \<Rightarrow> string list \<Rightarrow> string list" where
  "next_level sha (x # y # zs) = interior_hash sha x y # next_level sha zs"
| "next_level sha [x] = [x]"
| "next_level sha [] = []"

lemma next_level_length [simp]: "length (next_level sha xs) = (length xs + 1) div 2"
  by (induction sha xs rule: next_level.induct) auto

function climb :: "hash \<Rightarrow> string list \<Rightarrow> string list" where
  "climb sha level = (if 1 < length level then climb sha (next_level sha level) else level)"
  by pat_completeness auto
termination by (relation "measure (\<lambda>(sha, level). length level)") auto

declare climb.simps [simp del]

definition leaf_level :: "hash \<Rightarrow> digest list \<Rightarrow> (digest_err, string list) result" where
  "leaf_level sha leaves =
     mapR (\<lambda>(i, d). map_err (BadLeaf i) (bindR (raw_digest d) (\<lambda>raw. Ok (leaf_hash sha raw)))) (List.enumerate 0 leaves)"

definition merkle_root :: "hash \<Rightarrow> digest list \<Rightarrow> (digest_err, digest) result" where
  "merkle_root sha leaves =
     (if leaves = [] then Ok (sum_bytes sha [])
      else bindR (leaf_level sha leaves) (\<lambda>level. Ok (node_digest (hd (climb sha level)))))"

definition sibling :: "nat \<Rightarrow> nat" where
  "sibling i = (if even i then i + 1 else i - 1)"

function audit_path :: "hash \<Rightarrow> string list \<Rightarrow> nat \<Rightarrow> digest list" where
  "audit_path sha level i =
     (if 1 < length level then
        (if sibling i < length level then [node_digest (level ! sibling i)] else [])
          @ audit_path sha (next_level sha level) (i div 2)
      else [])"
  by pat_completeness auto
termination by (relation "measure (\<lambda>(sha, level, i). length level)") auto

declare audit_path.simps [simp del]

definition inclusion_proof :: "hash \<Rightarrow> digest list \<Rightarrow> int \<Rightarrow> (digest_err, digest list) result" where
  "inclusion_proof sha leaves i =
     (if i < 0 \<or> i \<ge> int (length leaves) then Err OutsideTree
      else bindR (leaf_level sha leaves) (\<lambda>level. Ok (audit_path sha level (nat i))))"

text \<open>The verifier's loop: the node so far, the index and size at its level, and the path's unread rest
  with how much of it was used.\<close>

function verify_path ::
  "hash \<Rightarrow> string \<Rightarrow> nat \<Rightarrow> nat \<Rightarrow> nat \<Rightarrow> digest list \<Rightarrow> (digest_err, string \<times> digest list) result" where
  "verify_path sha cur i n used path =
     (if 1 < n then
        (if i mod 2 = 1 \<or> i + 1 < n then
           (case path of
              [] \<Rightarrow> Err PathTooShort
            | p # ps \<Rightarrow>
              bindR (map_err (BadPath used) (raw_digest p)) (\<lambda>sib.
                verify_path sha (if i mod 2 = 1 then interior_hash sha sib cur else interior_hash sha cur sib)
                  (i div 2) ((n + 1) div 2) (used + 1) ps))
         else verify_path sha cur (i div 2) ((n + 1) div 2) used path)
      else Ok (cur, path))"
  by pat_completeness auto
termination by (relation "measure (\<lambda>(sha, cur, i, n, used, path). n)") auto

declare verify_path.simps [simp del]

definition verify_inclusion ::
  "hash \<Rightarrow> digest \<Rightarrow> int \<Rightarrow> int \<Rightarrow> digest list \<Rightarrow> digest \<Rightarrow> (digest_err, unit) result" where
  "verify_inclusion sha leaf i n path expected =
     (if i < 0 \<or> i \<ge> n then Err OutsideTree
      else bindR (raw_digest leaf) (\<lambda>raw.
        bindR (verify_path sha (leaf_hash sha raw) (nat i) (nat n) 0 path) (\<lambda>(cur, rest).
          if rest \<noteq> [] then Err (PathTooLong (length rest))
          else if node_digest cur \<noteq> expected then Err WrongRoot else Ok ())))"

end
