(* ===== verification/Canonical.thy ===== *)
theory Canonical
  imports Digest Fiscal
begin

text \<open>
  \<open>backend/internal/platform/canonical/canonical.go\<close>: the value tree a canonical document is built from,
  its encoding, the UTF-16 order of member names, string escaping and the timestamp form. Text is bytes;
  ranging over a Go string decodes UTF-8, an invalid byte reading as U+FFFD. An instant is the integer
  of its nanoseconds since 1 January of year 1, UTC.
\<close>

datatype canon_err = AbsentRoot | RawEmpty | AbsentElement nat | DuplicateField string | InField string canon_err

datatype cvalue =
    VAbsent
  | VString string
  | VDecimal string
  | VInteger int
  | VBool bool
  | VObject "(string \<times> cvalue) list"
  | VArray "cvalue list"
  | VRaw string

section \<open>Constructors\<close>

definition is_absent :: "cvalue \<Rightarrow> bool" where
  "is_absent v \<longleftrightarrow> v = VAbsent"

definition opt_string :: "string \<Rightarrow> cvalue" where
  "opt_string s = (if s = [] then VAbsent else VString s)"

definition c_money :: "money \<Rightarrow> cvalue" where "c_money m = VDecimal (money_canonical m)"

definition c_object :: "(string \<times> cvalue) list \<Rightarrow> cvalue" where
  "c_object fs = VObject (filter (\<lambda>(n, v). \<not> is_absent v) fs)"

section \<open>Runes\<close>

definition in_range :: "nat \<Rightarrow> nat \<Rightarrow> char \<Rightarrow> bool" where
  "in_range lo hi c \<longleftrightarrow> lo \<le> of_char c \<and> of_char c \<le> hi"

definition cont :: "char \<Rightarrow> nat" where
  "cont c = of_char c mod 64"

definition rune_error :: nat where "rune_error = 0xFFFD"

text \<open>\<open>utf8.DecodeRune\<close> on a non-empty text: the rune and its width.\<close>

fun decode_rune :: "string \<Rightarrow> nat \<times> nat" where
  "decode_rune [] = (rune_error, 1)"
| "decode_rune (a # s) =
     (let n = of_char a in
      if n < 128 then (n, 1)
      else if 194 \<le> n \<and> n \<le> 223 then
        (case s of
           b # _ \<Rightarrow> if in_range 128 191 b then ((n - 192) * 64 + cont b, 2) else (rune_error, 1)
         | [] \<Rightarrow> (rune_error, 1))
      else if 224 \<le> n \<and> n \<le> 239 then
        (case s of
           b # c # _ \<Rightarrow>
             if in_range (if n = 224 then 160 else 128) (if n = 237 then 159 else 191) b \<and> in_range 128 191 c
             then ((n - 224) * 4096 + cont b * 64 + cont c, 3) else (rune_error, 1)
         | _ \<Rightarrow> (rune_error, 1))
      else if 240 \<le> n \<and> n \<le> 244 then
        (case s of
           b # c # d # _ \<Rightarrow>
             if in_range (if n = 240 then 144 else 128) (if n = 244 then 143 else 191) b
               \<and> in_range 128 191 c \<and> in_range 128 191 d
             then ((n - 240) * 262144 + cont b * 4096 + cont c * 64 + cont d, 4) else (rune_error, 1)
         | _ \<Rightarrow> (rune_error, 1))
      else (rune_error, 1))"

lemma decode_rune_width: "0 < snd (decode_rune s)"
  by (cases s) (auto simp: Let_def split: list.splits)

function runes :: "string \<Rightarrow> nat list" where
  "runes s = (if s = [] then [] else fst (decode_rune s) # runes (drop (snd (decode_rune s)) s))"
  by pat_completeness auto
termination by (relation "measure length") (auto simp: decode_rune_width)

declare runes.simps [simp del]

text \<open>\<open>WriteRune\<close> on a decoded rune.\<close>

definition encode_rune :: "nat \<Rightarrow> string" where
  "encode_rune r =
     (if r < 128 then [char_of r]
      else if r < 2048 then [char_of (192 + r div 64), char_of (128 + r mod 64)]
      else if r < 65536 then [char_of (224 + r div 4096), char_of (128 + r div 64 mod 64), char_of (128 + r mod 64)]
      else [char_of (240 + r div 262144), char_of (128 + r div 4096 mod 64), char_of (128 + r div 64 mod 64), char_of (128 + r mod 64)])"

definition utf16 :: "string \<Rightarrow> nat list" where
  "utf16 s = concat (map (\<lambda>r. if r < 65536 then [r]
      else [55296 + (r - 65536) div 1024, 56320 + (r - 65536) mod 1024]) (runes s))"

definition is_ascii :: "string \<Rightarrow> bool" where
  "is_ascii s \<longleftrightarrow> list_all (\<lambda>c. (of_char c :: nat) < 128) s"

definition less_utf16 :: "string \<Rightarrow> string \<Rightarrow> bool" where
  "less_utf16 a b = (if is_ascii a \<and> is_ascii b then a < b else utf16 a < utf16 b)"

section \<open>Strings\<close>

definition write_rune :: "nat \<Rightarrow> string" where
  "write_rune r =
     (if r = 34 then [CHR 0x5C, CHR 0x22]
      else if r = 92 then [CHR 0x5C, CHR 0x5C]
      else if r = 8 then CHR 0x5C # ''b''
      else if r = 12 then CHR 0x5C # ''f''
      else if r = 10 then CHR 0x5C # ''n''
      else if r = 13 then CHR 0x5C # ''r''
      else if r = 9 then CHR 0x5C # ''t''
      else if r < 32 then CHR 0x5C # ''u00'' @ [hex_digit (r div 16), hex_digit (r mod 16)]
      else encode_rune r)"

definition write_string :: "string \<Rightarrow> string" where
  "write_string s = CHR 0x22 # concat (map write_rune (runes s)) @ [CHR 0x22]"

section \<open>Encoding\<close>

type_synonym encoded = "(canon_err, string) result"

fun join_items :: "nat \<Rightarrow> (bool \<times> encoded) list \<Rightarrow> encoded" where
  "join_items i [] = Ok []"
| "join_items i ((absent, r) # rs) =
     (if absent then Err (AbsentElement i)
      else bindR r (\<lambda>s. bindR (join_items (i + 1) rs) (\<lambda>rest. Ok ((if i > 0 then '','' else []) @ s @ rest))))"

fun join_fields :: "bool \<Rightarrow> (string \<times> encoded) list \<Rightarrow> encoded" where
  "join_fields comma [] = Ok []"
| "join_fields comma ((n, r) # rs) =
     bindR (map_err (InField n) r) (\<lambda>s. bindR (join_fields True rs) (\<lambda>rest.
       Ok ((if comma then '','' else []) @ write_string n @ '':'' @ s @ rest)))"

fun first_duplicate :: "string list \<Rightarrow> string option" where
  "first_duplicate (a # b # ns) = (if a = b then Some b else first_duplicate (b # ns))"
| "first_duplicate ns = None"

definition encode_object :: "(string \<times> encoded) list \<Rightarrow> encoded" where
  "encode_object fs =
     (let ordered = sort_by (\<lambda>f g. less_utf16 (fst f) (fst g)) fs in
      case first_duplicate (map fst ordered) of
        Some n \<Rightarrow> Err (DuplicateField n)
      | None \<Rightarrow> bindR (join_fields False ordered) (\<lambda>s. Ok (''{'' @ s @ ''}'')))"

fun encode :: "cvalue \<Rightarrow> encoded" where
  "encode VAbsent = Err AbsentRoot"
| "encode (VString s) = Ok (write_string s)"
| "encode (VDecimal s) = Ok (write_string s)"
| "encode (VRaw s) = (if s = [] then Err RawEmpty else Ok s)"
| "encode (VInteger i) = Ok (show_int i)"
| "encode (VBool b) = Ok (if b then ''true'' else ''false'')"
| "encode (VObject fs) = encode_object (map (\<lambda>(n, v). (n, encode v)) fs)"
| "encode (VArray vs) = bindR (join_items 0 (map (\<lambda>v. (is_absent v, encode v)) vs)) (\<lambda>s. Ok (''['' @ s @ '']''))"

definition sum_value :: "hash \<Rightarrow> cvalue \<Rightarrow> (canon_err, digest) result" where
  "sum_value sha v = bindR (encode v) (\<lambda>b. Ok (sum_bytes sha b))"

section \<open>Timestamps\<close>

definition pad :: "nat \<Rightarrow> nat \<Rightarrow> string" where
  "pad k n = replicate (k - length (show_nat n)) (CHR ''0'') @ show_nat n"

text \<open>The civil date of a day, counted from 1 January of year 1 (proleptic Gregorian, years from March).\<close>

definition civil :: "int \<Rightarrow> int \<times> nat \<times> nat" where
  "civil days =
     (let z = days + 306;
          era = z div 146097;
          doe = z mod 146097;
          yoe = (doe - doe div 1460 + doe div 36524 - doe div 146096) div 365;
          doy = doe - (365 * yoe + yoe div 4 - yoe div 100);
          mp = (5 * doy + 2) div 153;
          d = doy - (153 * mp + 2) div 5 + 1;
          m = (if mp < 10 then mp + 3 else mp - 9) in
      (yoe + 400 * era + (if m \<le> 2 then 1 else 0), nat m, nat d))"

definition show_year :: "int \<Rightarrow> string" where
  "show_year y = (if y < 0 then ''-'' @ pad 4 (nat (- y)) else pad 4 (nat y))"

definition format_time :: "int \<Rightarrow> string" where
  "format_time t =
     (let secs = t div 1000000000; micros = nat (t mod 1000000000 div 1000);
          (y, m, d) = civil (secs div 86400); s = nat (secs mod 86400) in
      show_year y @ ''-'' @ pad 2 m @ ''-'' @ pad 2 d @ ''T''
        @ pad 2 (s div 3600) @ '':'' @ pad 2 (s div 60 mod 60) @ '':'' @ pad 2 (s mod 60) @ ''.'' @ pad 6 micros @ ''Z'')"

definition c_time :: "int \<Rightarrow> cvalue" where "c_time t = VString (format_time t)"

end
