(* ===== verification/Periods.thy ===== *)
theory Periods
  imports Subledger Canonical
begin

text \<open>
  The subledger's period close: the states of a legal period, its history and the close manifest
  (\<open>domain/subledger/period.go\<close>), the service that posts into and moves periods (\<open>app/periods.go\<close>) and the
  store behind it (\<open>adapter/postgres/period_repo.go\<close>, and \<open>JournalRepo.Append\<close> of \<open>ledger_repo.go\<close>).
  The tables of one tenant are lists of rows in insertion order, with the primary keys and unique indexes
  the adapter maps to conflicts. What PostgreSQL sums over the journal lines (\<open>sqlPeriodBalances\<close>), and the
  documents and refunds other tables hold, are arguments, as are the hash, the clock and new identifiers.
\<close>

section \<open>Text of identifiers and instants\<close>

definition uuid_text :: "ident \<Rightarrow> string" where
  "uuid_text n =
     (let h = map (\<lambda>i. hex_digit (n div 16 ^ (31 - i) mod 16)) [0..<32] in
      take 8 h @ ''-'' @ take 4 (drop 8 h) @ ''-'' @ take 4 (drop 12 h) @ ''-'' @ take 4 (drop 16 h) @ ''-'' @ drop 20 h)"

definition to_micros :: "int \<Rightarrow> int" where
  "to_micros t = t - t mod 1000"

definition is_space :: "nat \<Rightarrow> bool" where
  "is_space r \<longleftrightarrow> r \<in> {9, 10, 11, 12, 13, 32, 0x85, 0xA0, 0x1680, 0x2028, 0x2029, 0x202F, 0x205F, 0x3000}
     \<or> 0x2000 \<le> r \<and> r \<le> 0x200A"

definition blank :: "string \<Rightarrow> bool" where
  "blank s \<longleftrightarrow> list_all is_space (runes s)"

section \<open>Legal periods and their states (period.go)\<close>

datatype period_err =
    PeUnauthenticated | PeForbidden | PeBadPeriod | PeNoEntity | PeOutside | PeBadState | PeNotByTransition
  | PeLongReason | PeNoReason | PeNoPerson | PeCannotMove period_state period_state | PeNotHardClosed period_state
  | PeNotFound | PeSelfApproval | PeAlreadyApproved | PeMalformedEvent | PeConflict | PeExists | PeTenant
  | PeIntegrity | PeBadBytes | PeUnscoped | PeCanonical canon_err | PeNotPostable sl_err | PeInvalid sl_err | PeFiscal fiscal_err

definition parse_legal_period :: "string \<Rightarrow> string option" where
  "parse_legal_period s =
     (case s of
        [a, b, c, d, e, m, n] \<Rightarrow>
          if list_all is_digit [a, b, c, d, m, n] \<and> e = CHR ''-''
             \<and> 1 \<le> 10 * digit_val m + digit_val n \<and> 10 * digit_val m + digit_val n \<le> 12
          then Some s else None
      | _ \<Rightarrow> None)"

fun state_valid :: "period_state \<Rightarrow> bool" where
  "state_valid (PsOther x) = False"
| "state_valid s = True"

fun can_move_to :: "period_state \<Rightarrow> period_state \<Rightarrow> bool" where
  "can_move_to PsOpen n = (n = PsSoftClose \<or> n = PsHardClose)"
| "can_move_to PsReopened n = (n = PsSoftClose \<or> n = PsHardClose)"
| "can_move_to PsSoftClose n = (n = PsOpen \<or> n = PsHardClose)"
| "can_move_to PsHardClose n = (n = PsAmendmentActive \<or> n = PsSealed)"
| "can_move_to PsAmendmentActive n = (n = PsHardClose)"
| "can_move_to s n = False"

definition can_reopen :: "period_state \<Rightarrow> bool" where
  "can_reopen s \<longleftrightarrow> s = PsHardClose"

definition closes :: "period_state \<Rightarrow> bool" where
  "closes s \<longleftrightarrow> s = PsHardClose"

record period_event =
  ph_entity :: ident
  ph_period :: string
  ph_seq :: int
  ph_state :: period_state
  ph_reason :: string
  ph_recorded_at :: int
  ph_recorded_by :: ident
  ph_approved_by :: ident
  ph_request :: "ident option"
  ph_manifest :: digest

section \<open>Close manifests\<close>

record manifest_balance =
  mb_account :: account
  mb_currency :: string
  mb_debits :: money
  mb_credits :: money

record manifest_document =
  md_document :: ident
  md_type :: string
  md_status :: string

record manifest_exception =
  mx_kind :: string
  mx_ref :: string
  mx_status :: string

record close_manifest =
  cm_tenant :: ident
  cm_entity :: ident
  cm_period :: string
  cm_journals :: "ident list"
  cm_balances :: "manifest_balance list"
  cm_documents :: "manifest_document list"
  cm_exceptions :: "manifest_exception list"
  cm_closed_at :: int
  cm_closed_by :: ident
  cm_supersedes :: digest

definition balance_before :: "manifest_balance \<Rightarrow> manifest_balance \<Rightarrow> bool" where
  "balance_before a b \<longleftrightarrow>
     (if mb_account a \<noteq> mb_account b then mb_account a < mb_account b else mb_currency a < mb_currency b)"

definition exception_before :: "manifest_exception \<Rightarrow> manifest_exception \<Rightarrow> bool" where
  "exception_before a b \<longleftrightarrow> (if mx_kind a \<noteq> mx_kind b then mx_kind a < mx_kind b else mx_ref a < mx_ref b)"

definition balance_value :: "manifest_balance \<Rightarrow> cvalue" where
  "balance_value b = c_object
     [(''account'', VString (mb_account b)), (''currency'', VString (mb_currency b)),
      (''debits'', c_money (mb_debits b)), (''credits'', c_money (mb_credits b))]"

definition document_value :: "manifest_document \<Rightarrow> cvalue" where
  "document_value d = c_object
     [(''documentId'', VString (uuid_text (md_document d))), (''type'', VString (md_type d)), (''status'', VString (md_status d))]"

definition exception_value :: "manifest_exception \<Rightarrow> cvalue" where
  "exception_value e = c_object
     [(''kind'', VString (mx_kind e)), (''ref'', VString (mx_ref e)), (''status'', VString (mx_status e))]"

definition manifest_value :: "close_manifest \<Rightarrow> cvalue" where
  "manifest_value m = c_object
     [(''artifact'', VString ''tcsl-close-manifest''),
      (''tenantId'', VString (uuid_text (cm_tenant m))),
      (''legalEntityId'', VString (uuid_text (cm_entity m))),
      (''period'', VString (cm_period m)),
      (''journals'', VArray (map (\<lambda>j. VString (uuid_text j)) (cm_journals m))),
      (''balances'', VArray (map balance_value (cm_balances m))),
      (''documents'', VArray (map document_value (cm_documents m))),
      (''openExceptions'', VArray (map exception_value (cm_exceptions m))),
      (''closedAt'', c_time (cm_closed_at m)),
      (''closedBy'', if cm_closed_by m = 0 then VAbsent else VString (uuid_text (cm_closed_by m))),
      (''supersedes'', if cm_supersedes m = [] then VAbsent else VString (cm_supersedes m))]"

definition order_manifest :: "close_manifest \<Rightarrow> close_manifest" where
  "order_manifest m = m\<lparr>
     cm_journals := sort_by (\<lambda>i j. uuid_text i < uuid_text j) (cm_journals m),
     cm_balances := sort_by balance_before (cm_balances m),
     cm_documents := sort_by (\<lambda>i j. uuid_text (md_document i) < uuid_text (md_document j)) (cm_documents m),
     cm_exceptions := sort_by exception_before (cm_exceptions m)\<rparr>"

definition seal_manifest :: "hash \<Rightarrow> close_manifest \<Rightarrow> (period_err, close_manifest \<times> digest \<times> string) result" where
  "seal_manifest sha m =
     (if cm_tenant m = 0 \<or> cm_entity m = 0 \<or> cm_period m = [] \<or> cm_closed_at m = 0 then Err PeUnscoped
      else
        let out = order_manifest m in
        bindR (map_err PeCanonical (encode (manifest_value out))) (\<lambda>body.
          Ok (out, sum_bytes sha body, body)))"

definition postable_as :: "journal \<Rightarrow> period_state \<Rightarrow> (sl_err, journal) result" where
  "postable_as j s =
     (let j = (if s = PsAmendmentActive then j\<lparr>j_amendment := True\<rparr> else j) in
      bindR (check_postable j s) (\<lambda>_. Ok j))"

end
