(* ===== verification/PeriodStore.thy ===== *)
theory PeriodStore
  imports Periods
begin

text \<open>
  The period service over its store: posting, transitions, closing, and reopening under two people's
  control (\<open>app/periods.go\<close>, \<open>adapter/postgres/period_repo.go\<close>). Each operation runs in one transaction
  under the period's lock, so it is one step: the new tables, or an error and the tables as they were.
\<close>

section \<open>Security contexts\<close>

datatype role = RoleAdmin | RoleOperator | RoleAnalyst | RoleAuditor

record sec_context =
  sc_tenant :: ident
  sc_subject :: ident
  sc_roles :: "role list"

definition require_role_or_system :: "sec_context option \<Rightarrow> role list \<Rightarrow> (period_err, sec_context) result" where
  "require_role_or_system c roles =
     (case c of
        None \<Rightarrow> Err PeUnauthenticated
      | Some sc \<Rightarrow>
        if sc_tenant sc = 0 then Err PeUnauthenticated
        else if sc_subject sc = 0 then Ok sc
        else if \<not> list_ex (\<lambda>r. r \<in> set (sc_roles sc)) roles then Err PeForbidden
        else Ok sc)"

section \<open>The tables\<close>

record reopen_request =
  rq_id :: ident
  rq_tenant :: ident
  rq_entity :: ident
  rq_period :: string
  rq_reason :: string
  rq_requested_at :: int
  rq_requested_by :: ident

record tcsl =
  ts_events :: "period_event list"
  ts_manifests :: "(digest \<times> string) list"
  ts_requests :: "reopen_request list"
  ts_journals :: "journal list"

definition empty_tcsl :: tcsl where
  "empty_tcsl = \<lparr>ts_events = [], ts_manifests = [], ts_requests = [], ts_journals = []\<rparr>"

definition history :: "tcsl \<Rightarrow> ident \<Rightarrow> string \<Rightarrow> period_event list" where
  "history s le p = sort_key ph_seq (filter (\<lambda>e. ph_entity e = le \<and> ph_period e = p) (ts_events s))"

definition append_event :: "tcsl \<Rightarrow> period_event \<Rightarrow> (period_err, tcsl) result" where
  "append_event s e =
     (if ph_seq e < 1 \<or> \<not> state_valid (ph_state e) \<or> ph_recorded_at e = 0 then Err PeMalformedEvent
      else if list_ex (\<lambda>x. ph_entity x = ph_entity e \<and> ph_period x = ph_period e \<and> ph_seq x = ph_seq e) (ts_events s)
      then Err PeConflict
      else if ph_request e \<noteq> None \<and> list_ex (\<lambda>x. ph_request x = ph_request e) (ts_events s) then Err PeConflict
      else Ok (s\<lparr>ts_events := ts_events s @ [e]\<rparr>))"

definition put_manifest :: "hash \<Rightarrow> tcsl \<Rightarrow> digest \<Rightarrow> string \<Rightarrow> (period_err, tcsl) result" where
  "put_manifest sha s d body =
     (if sum_bytes sha body \<noteq> d then Err PeBadBytes
      else if map_of (ts_manifests s) d \<noteq> None then Ok s
      else Ok (s\<lparr>ts_manifests := ts_manifests s @ [(d, body)]\<rparr>))"

definition get_manifest :: "hash \<Rightarrow> tcsl \<Rightarrow> digest \<Rightarrow> (period_err, string) result" where
  "get_manifest sha s d =
     (case map_of (ts_manifests s) d of
        None \<Rightarrow> Err PeNotFound
      | Some body \<Rightarrow> if sum_bytes sha body \<noteq> d then Err PeIntegrity else Ok body)"

definition create_reopen_request :: "ident \<Rightarrow> tcsl \<Rightarrow> reopen_request \<Rightarrow> (period_err, tcsl) result" where
  "create_reopen_request tenant s r =
     (if rq_tenant r \<noteq> tenant then Err PeTenant
      else if list_ex (\<lambda>x. rq_id x = rq_id r) (ts_requests s) then Err PeExists
      else Ok (s\<lparr>ts_requests := ts_requests s @ [r]\<rparr>))"

definition get_reopen_request :: "tcsl \<Rightarrow> ident \<Rightarrow> (period_err, reopen_request) result" where
  "get_reopen_request s i =
     (case find (\<lambda>x. rq_id x = i) (ts_requests s) of None \<Rightarrow> Err PeNotFound | Some r \<Rightarrow> Ok r)"

text \<open>\<open>JournalRepo.Append\<close>: the journal is validated again, identifiers are unique, and one source event
  posts once per profile and currency.\<close>

definition same_source :: "journal \<Rightarrow> journal \<Rightarrow> bool" where
  "same_source i j \<longleftrightarrow> j_source i = j_source j \<and> pr_id (j_profile i) = pr_id (j_profile j) \<and> j_currency i = j_currency j"

definition append_journal :: "ident \<Rightarrow> tcsl \<Rightarrow> journal \<Rightarrow> (period_err, tcsl) result" where
  "append_journal tenant s j =
     (if j_tenant j \<noteq> tenant then Err PeTenant
      else bindR (map_err PeInvalid (validate_journal j)) (\<lambda>_.
        if list_ex (\<lambda>x. j_id x = j_id j \<or> same_source x j) (ts_journals s) then Err PeExists
        else bindR (mapR (\<lambda>l. map_err PeFiscal (numeric_parts (m_amount (jl_amount l)))) (j_lines j)) (\<lambda>_.
          Ok (s\<lparr>ts_journals := ts_journals s @ [j]\<rparr>))))"

section \<open>The population of a period\<close>

record population =
  pn_journals :: "ident list"
  pn_balances :: "manifest_balance list"
  pn_documents :: "manifest_document list"
  pn_exceptions :: "manifest_exception list"

type_synonym sum_row = "account \<times> string \<times> side \<times> numeric_cols"

definition in_period :: "ident \<Rightarrow> string \<Rightarrow> journal \<Rightarrow> bool" where
  "in_period le p j \<longleftrightarrow> j_entity j = le \<and> j_period j = p"

definition period_journals :: "tcsl \<Rightarrow> ident \<Rightarrow> string \<Rightarrow> journal list" where
  "period_journals s le p = filter (in_period le p) (ts_journals s)"

fun set_side :: "side \<Rightarrow> money \<Rightarrow> manifest_balance \<Rightarrow> manifest_balance" where
  "set_side sd m b = (if sd = Debit then b\<lparr>mb_debits := m\<rparr> else b\<lparr>mb_credits := m\<rparr>)"

fun upsert_balance :: "account \<Rightarrow> string \<Rightarrow> side \<Rightarrow> money \<Rightarrow> manifest_balance list \<Rightarrow> manifest_balance list" where
  "upsert_balance a c sd m [] =
     [set_side sd m \<lparr>mb_account = a, mb_currency = c, mb_debits = money_zero m, mb_credits = money_zero m\<rparr>]"
| "upsert_balance a c sd m (b # bs) =
     (if mb_account b = a \<and> mb_currency b = c then set_side sd m b # bs else b # upsert_balance a c sd m bs)"

definition balance_row :: "manifest_balance list \<Rightarrow> sum_row \<Rightarrow> (period_err, manifest_balance list) result" where
  "balance_row bs = (\<lambda>(a, c, sd, n).
     bindR (map_err PeFiscal (money_from_numeric n c)) (\<lambda>m. Ok (upsert_balance a c sd m bs)))"

definition population ::
  "(journal list \<Rightarrow> sum_row list) \<Rightarrow> manifest_document list \<Rightarrow> manifest_exception list \<Rightarrow> tcsl \<Rightarrow> ident \<Rightarrow> string \<Rightarrow>
   (period_err, population) result" where
  "population totals docs excs s le p =
     bindR (foldR balance_row [] (totals (period_journals s le p))) (\<lambda>bs.
       Ok \<lparr>pn_journals = sort (map j_id (period_journals s le p)), pn_balances = bs,
           pn_documents = docs, pn_exceptions = excs\<rparr>)"

section \<open>Reading a period\<close>

record period_view =
  pv_state :: period_state
  pv_history :: "period_event list"
  pv_manifest :: digest
  pv_body :: string

definition state_of :: "period_event list \<Rightarrow> period_state" where
  "state_of h = (if h = [] then PsOpen else ph_state (last h))"

definition latest_manifest :: "period_event list \<Rightarrow> digest" where
  "latest_manifest h = foldl (\<lambda>d e. if ph_manifest e \<noteq> [] then ph_manifest e else d) [] h"

definition view :: "hash \<Rightarrow> tcsl \<Rightarrow> ident \<Rightarrow> string \<Rightarrow> (period_err, period_view) result" where
  "view sha s le p =
     (let h = history s le p; d = latest_manifest h in
      if d = [] then Ok \<lparr>pv_state = state_of h, pv_history = h, pv_manifest = [], pv_body = []\<rparr>
      else bindR (get_manifest sha s d) (\<lambda>body.
        Ok \<lparr>pv_state = state_of h, pv_history = h, pv_manifest = d, pv_body = body\<rparr>))"

section \<open>Posting\<close>

definition guard_posting :: "tcsl option \<Rightarrow> journal \<Rightarrow> (period_err, journal) result" where
  "guard_posting periods j =
     (case periods of
        None \<Rightarrow> Ok j
      | Some s \<Rightarrow> map_err PeNotPostable (postable_as j (state_of (history s (j_entity j) (j_period j)))))"

definition post_journal :: "ident \<Rightarrow> tcsl \<Rightarrow> journal \<Rightarrow> (period_err, tcsl) result" where
  "post_journal tenant s j = bindR (guard_posting (Some s) j) (append_journal tenant s)"

section \<open>Moving a period\<close>

definition scope ::
  "sec_context option \<Rightarrow> string \<Rightarrow> role list \<Rightarrow> (period_err, ident) result \<Rightarrow> (period_err, sec_context \<times> ident \<times> string) result" where
  "scope c period roles entity =
     bindR (require_role_or_system c roles) (\<lambda>sc.
       case parse_legal_period period of
         None \<Rightarrow> Err PeBadPeriod
       | Some p \<Rightarrow>
         (case entity of
            Err e \<Rightarrow> if e = PeNotFound then Err PeNoEntity else Err e
          | Ok le \<Rightarrow> Ok (sc, le, p)))"

definition seal ::
  "hash \<Rightarrow> (journal list \<Rightarrow> sum_row list) \<Rightarrow> manifest_document list \<Rightarrow> manifest_exception list \<Rightarrow> tcsl \<Rightarrow>
   sec_context \<Rightarrow> ident \<Rightarrow> string \<Rightarrow> int \<Rightarrow> digest \<Rightarrow> (period_err, tcsl \<times> digest) result" where
  "seal sha totals docs excs s sc le p now prior =
     bindR (population totals docs excs s le p) (\<lambda>pop.
     bindR (seal_manifest sha \<lparr>cm_tenant = sc_tenant sc, cm_entity = le, cm_period = p, cm_journals = pn_journals pop,
         cm_balances = pn_balances pop, cm_documents = pn_documents pop, cm_exceptions = pn_exceptions pop,
         cm_closed_at = now, cm_closed_by = sc_subject sc, cm_supersedes = prior\<rparr>) (\<lambda>(out, d, body).
     bindR (put_manifest sha s d body) (\<lambda>s. Ok (s, d))))"

definition transition ::
  "hash \<Rightarrow> (journal list \<Rightarrow> sum_row list) \<Rightarrow> manifest_document list \<Rightarrow> manifest_exception list \<Rightarrow> tcsl \<Rightarrow>
   sec_context option \<Rightarrow> (period_err, ident) result \<Rightarrow> string \<Rightarrow> period_state \<Rightarrow> string \<Rightarrow> int \<Rightarrow>
   (period_err, tcsl \<times> period_view) result" where
  "transition sha totals docs excs s c entity period to reason clock =
     bindR (scope c period [RoleOperator] entity) (\<lambda>(sc, le, p).
       if \<not> state_valid to then Err PeBadState
       else if to = PsReopened then Err PeNotByTransition
       else if length reason > 1000 then Err PeLongReason
       else
         bindR (view sha s le p) (\<lambda>cur.
           if \<not> can_move_to (pv_state cur) to then Err (PeCannotMove (pv_state cur) to)
           else
             let now = to_micros clock;
                 e = \<lparr>ph_entity = le, ph_period = p, ph_seq = int (length (pv_history cur)) + 1, ph_state = to,
                      ph_reason = reason, ph_recorded_at = now, ph_recorded_by = sc_subject sc, ph_approved_by = 0,
                      ph_request = None, ph_manifest = []\<rparr> in
             bindR (if closes to
                    then bindR (seal sha totals docs excs s sc le p now (pv_manifest cur)) (\<lambda>(s, d). Ok (s, e\<lparr>ph_manifest := d\<rparr>))
                    else Ok (s, e)) (\<lambda>(s, e).
             bindR (append_event s e) (\<lambda>s.
             bindR (view sha s le p) (\<lambda>out. Ok (s, out))))))"

definition request_reopen ::
  "hash \<Rightarrow> tcsl \<Rightarrow> sec_context option \<Rightarrow> (period_err, ident) result \<Rightarrow> string \<Rightarrow> string \<Rightarrow> ident \<Rightarrow> int \<Rightarrow>
   (period_err, reopen_request) result" where
  "request_reopen sha s c entity period reason new_id clock =
     bindR (scope c period [RoleOperator] entity) (\<lambda>(sc, le, p).
       if blank reason \<or> length reason > 1000 then Err PeNoReason
       else if sc_subject sc = 0 then Err PeNoPerson
       else
         bindR (view sha s le p) (\<lambda>cur.
           if \<not> can_reopen (pv_state cur) then Err (PeNotHardClosed (pv_state cur))
           else Ok \<lparr>rq_id = new_id, rq_tenant = sc_tenant sc, rq_entity = le, rq_period = p, rq_reason = reason,
                    rq_requested_at = to_micros clock, rq_requested_by = sc_subject sc\<rparr>))"

definition approve_reopen ::
  "hash \<Rightarrow> tcsl \<Rightarrow> sec_context option \<Rightarrow> (period_err, ident) result \<Rightarrow> string \<Rightarrow> ident \<Rightarrow> int \<Rightarrow>
   (period_err, tcsl \<times> period_view) result" where
  "approve_reopen sha s c entity period request clock =
     bindR (scope c period [RoleAdmin] entity) (\<lambda>(sc, le, p).
     bindR (get_reopen_request s request) (\<lambda>req.
       if rq_period req \<noteq> p \<or> rq_entity req \<noteq> le then Err PeNotFound
       else if rq_requested_by req = sc_subject sc \<or> sc_subject sc = 0 then Err PeSelfApproval
       else
         bindR (view sha s le p) (\<lambda>cur.
           if list_ex (\<lambda>e. ph_request e = Some request) (pv_history cur) then Err PeAlreadyApproved
           else if \<not> can_reopen (pv_state cur) then Err (PeNotHardClosed (pv_state cur))
           else
             bindR (append_event s \<lparr>ph_entity = le, ph_period = p, ph_seq = int (length (pv_history cur)) + 1,
                 ph_state = PsReopened, ph_reason = rq_reason req, ph_recorded_at = to_micros clock,
                 ph_recorded_by = rq_requested_by req, ph_approved_by = sc_subject sc, ph_request = Some request,
                 ph_manifest = []\<rparr>) (\<lambda>s.
             bindR (view sha s le p) (\<lambda>out. Ok (s, out))))))"

section \<open>Steps\<close>

text \<open>A step of the store of one tenant. A reopen request is checked outside any transaction, so the
  state it was checked in may be any earlier or later one.\<close>

inductive tcsl_step :: "hash \<Rightarrow> (journal list \<Rightarrow> sum_row list) \<Rightarrow> ident \<Rightarrow> tcsl \<Rightarrow> tcsl \<Rightarrow> bool"
  for sha totals tenant where
  post: "post_journal tenant s j = Ok s' \<Longrightarrow> tcsl_step sha totals tenant s s'"
| move: "sc_tenant sc = tenant \<Longrightarrow> transition sha totals docs excs s (Some sc) entity period to reason clock = Ok (s', v) \<Longrightarrow>
    tcsl_step sha totals tenant s s'"
| request: "sc_tenant sc = tenant \<Longrightarrow> request_reopen sha seen (Some sc) entity period reason new_id clock = Ok r \<Longrightarrow>
    create_reopen_request tenant s r = Ok s' \<Longrightarrow> tcsl_step sha totals tenant s s'"
| approve: "sc_tenant sc = tenant \<Longrightarrow> approve_reopen sha s (Some sc) entity period i clock = Ok (s', v) \<Longrightarrow>
    tcsl_step sha totals tenant s s'"

inductive tcsl_reachable :: "hash \<Rightarrow> (journal list \<Rightarrow> sum_row list) \<Rightarrow> ident \<Rightarrow> tcsl \<Rightarrow> bool"
  for sha totals tenant where
  start: "tcsl_reachable sha totals tenant empty_tcsl"
| step: "tcsl_reachable sha totals tenant s \<Longrightarrow> tcsl_step sha totals tenant s s' \<Longrightarrow> tcsl_reachable sha totals tenant s'"

end
