(* ===== verification/Lifecycle.thy ===== *)
theory Lifecycle
  imports Prelude
begin

text \<open>
  Histories: an aggregate whose state is the state of its last event, moved only by legal events. The
  contract and its consequences are stated once and interpreted for every history the repository keeps.
\<close>

fun legal_walk :: "('s \<Rightarrow> 'e \<Rightarrow> bool) \<Rightarrow> ('e \<Rightarrow> 's) \<Rightarrow> 's \<Rightarrow> 'e list \<Rightarrow> bool" where
  "legal_walk legal st s [] = True"
| "legal_walk legal st s (e # es) = (legal s e \<and> legal_walk legal st (st e) es)"

definition current :: "('e \<Rightarrow> 's) \<Rightarrow> 's \<Rightarrow> 'e list \<Rightarrow> 's" where
  "current st s es = (if es = [] then s else st (last es))"

locale lifecycle =
  fixes legal :: "'s \<Rightarrow> 'e \<Rightarrow> bool" and st :: "'e \<Rightarrow> 's" and final :: "'s \<Rightarrow> bool"
  assumes final_stuck: "final s \<Longrightarrow> \<not> legal s e"
begin

lemma walk_append: "legal_walk legal st s (es @ fs) \<longleftrightarrow> legal_walk legal st s es \<and> legal_walk legal st (current st s es) fs"
  by (induction es arbitrary: s) (auto simp: current_def)

lemma walk_snoc: "legal_walk legal st s (es @ [e]) \<longleftrightarrow> legal_walk legal st s es \<and> legal (current st s es) e"
  by (simp add: walk_append)

lemma walk_nth: "legal_walk legal st s es \<Longrightarrow> i < length es \<Longrightarrow> legal (current st s (take i es)) (es ! i)"
proof (induction es arbitrary: s i)
  case (Cons e es)
  then show ?case
  proof (cases i)
    case (Suc k)
    then have "legal (current st (st e) (take k es)) (es ! k)" using Cons by simp
    moreover have "current st (st e) (take k es) = current st s (e # take k es)" by (simp add: current_def)
    ultimately show ?thesis using Suc by simp
  qed (simp add: current_def)
qed simp

text \<open>Nothing follows an event that reaches a final state.\<close>

lemma final_is_last:
  assumes "legal_walk legal st s es" "i < length es" "final (st (es ! i))"
  shows "i = length es - 1"
proof (rule ccontr)
  assume "i \<noteq> length es - 1"
  then have j: "Suc i < length es" using assms(2) by linarith
  have "current st s (take (Suc i) es) = st (es ! i)"
    using assms(2) by (simp add: current_def take_Suc_conv_app_nth)
  then show False using walk_nth[OF assms(1) j] final_stuck[OF assms(3)] by metis
qed

end

end
