(* ===== verification/PeriodFacts.thy ===== *)
theory PeriodFacts
  imports PeriodStore Lifecycle
begin

text \<open>
  The invariant of the period store: consecutive events that are legal moves, reopenings bound to requests,
  manifests stored under their digests, and a closed period's population equal to what was sealed. Each
  operation preserves it.
\<close>

section \<open>Histories of a period\<close>

definition rows :: "tcsl \<Rightarrow> ident \<Rightarrow> string \<Rightarrow> period_event list" where
  "rows s le p = filter (\<lambda>e. ph_entity e = le \<and> ph_period e = p) (ts_events s)"

definition consecutive :: "period_event list \<Rightarrow> bool" where
  "consecutive es \<longleftrightarrow> map ph_seq es = map int [1..<Suc (length es)]"

lemma consecutive_snoc: "consecutive (es @ [e]) \<longleftrightarrow> consecutive es \<and> ph_seq e = int (length es) + 1"
  by (auto simp: consecutive_def)

lemma consecutive_sorted: "consecutive es \<Longrightarrow> sorted (map ph_seq es)"
  using sorted_upt[of 1 "Suc (length es)"] by (simp add: consecutive_def sorted_map del: upt_Suc)

lemma history_rows: "consecutive (rows s le p) \<Longrightarrow> history s le p = rows s le p"
  using sorted_sort_id unfolding history_def rows_def
  by (metis consecutive_sorted rows_def sort_key_id_if_sorted)

text \<open>What a step of the history may be: an operator's transition, or an approved reopening.\<close>

definition legal_event :: "period_state \<Rightarrow> period_event \<Rightarrow> bool" where
  "legal_event s e \<longleftrightarrow>
     (if ph_state e = PsReopened
      then can_reopen s \<and> ph_request e \<noteq> None \<and> ph_approved_by e \<noteq> 0 \<and> ph_approved_by e \<noteq> ph_recorded_by e
      else can_move_to s (ph_state e) \<and> ph_request e = None \<and> ph_approved_by e = 0)
     \<and> (ph_state e = PsHardClose \<longleftrightarrow> ph_manifest e \<noteq> [])"

interpretation period: lifecycle legal_event ph_state "\<lambda>s. s = PsSealed"
  by unfold_locales (auto simp: legal_event_def can_reopen_def)

lemma state_of_current: "state_of h = current ph_state PsOpen h"
  by (simp add: state_of_def current_def)

lemma latest_manifest_snoc:
  "latest_manifest (h @ [e]) = (if ph_manifest e \<noteq> [] then ph_manifest e else latest_manifest h)"
  by (simp add: latest_manifest_def)

section \<open>What a manifest seals\<close>

definition sealed_by ::
  "hash \<Rightarrow> ident \<Rightarrow> ident \<Rightarrow> string \<Rightarrow> digest \<Rightarrow> ident list \<Rightarrow> manifest_balance list \<Rightarrow> digest \<Rightarrow> bool" where
  "sealed_by sha tenant le p prior js bs d \<longleftrightarrow>
     (\<exists>m out body. seal_manifest sha m = Ok (out, d, body) \<and> cm_tenant m = tenant \<and> cm_entity m = le \<and> cm_period m = p
        \<and> cm_supersedes m = prior \<and> cm_journals m = js \<and> cm_balances m = bs)"

definition closed_as :: "hash \<Rightarrow> (journal list \<Rightarrow> sum_row list) \<Rightarrow> ident \<Rightarrow> tcsl \<Rightarrow> ident \<Rightarrow> string \<Rightarrow> bool" where
  "closed_as sha totals tenant s le p \<longleftrightarrow>
     (\<exists>prior bs. foldR balance_row [] (totals (period_journals s le p)) = Ok bs
        \<and> sealed_by sha tenant le p prior (sort (map j_id (period_journals s le p))) bs (latest_manifest (rows s le p)))"

definition chained :: "hash \<Rightarrow> ident \<Rightarrow> ident \<Rightarrow> string \<Rightarrow> period_event list \<Rightarrow> bool" where
  "chained sha tenant le p h \<longleftrightarrow>
     (\<forall>i < length h. ph_state (h ! i) = PsHardClose \<longrightarrow>
        (\<exists>js bs. sealed_by sha tenant le p (latest_manifest (take i h)) js bs (ph_manifest (h ! i))))"

definition backed :: "reopen_request list \<Rightarrow> period_event \<Rightarrow> bool" where
  "backed rs e \<longleftrightarrow> (\<forall>i. ph_request e = Some i \<longrightarrow>
     (\<exists>r \<in> set rs. rq_id r = i \<and> rq_entity r = ph_entity e \<and> rq_period r = ph_period e
        \<and> rq_requested_by r = ph_recorded_by e \<and> rq_requested_by r \<noteq> 0 \<and> \<not> blank (rq_reason r)))"

definition uses :: "period_event list \<Rightarrow> ident list" where
  "uses es = concat (map (\<lambda>e. case ph_request e of None \<Rightarrow> [] | Some i \<Rightarrow> [i]) es)"

definition tcsl_inv :: "hash \<Rightarrow> (journal list \<Rightarrow> sum_row list) \<Rightarrow> ident \<Rightarrow> tcsl \<Rightarrow> bool" where
  "tcsl_inv sha totals tenant s \<longleftrightarrow>
     (\<forall>le p. consecutive (rows s le p) \<and> legal_walk legal_event ph_state PsOpen (rows s le p)
        \<and> chained sha tenant le p (rows s le p)
        \<and> (state_of (rows s le p) \<in> {PsHardClose, PsSealed} \<longrightarrow> closed_as sha totals tenant s le p))
     \<and> (\<forall>e \<in> set (ts_events s). backed (ts_requests s) e \<and> (ph_manifest e \<noteq> [] \<longrightarrow> map_of (ts_manifests s) (ph_manifest e) \<noteq> None))
     \<and> distinct (uses (ts_events s))
     \<and> (\<forall>r \<in> set (ts_requests s). rq_requested_by r \<noteq> 0 \<and> \<not> blank (rq_reason r))
     \<and> (\<forall>d body. map_of (ts_manifests s) d = Some body \<longrightarrow> sum_bytes sha body = d)"

section \<open>Reading\<close>

lemma latest_manifest_in: "latest_manifest h \<noteq> [] \<Longrightarrow> \<exists>e \<in> set h. ph_manifest e = latest_manifest h"
  by (induction h rule: rev_induct) (auto simp: latest_manifest_snoc, simp add: latest_manifest_def)

text \<open>Under the invariant a period can always be read: its manifest is there and hashes to its digest.\<close>

lemma view_inv:
  assumes "tcsl_inv sha totals tenant s"
  shows "\<exists>body. view sha s le p = Ok \<lparr>pv_state = state_of (rows s le p), pv_history = rows s le p,
    pv_manifest = latest_manifest (rows s le p), pv_body = body\<rparr>"
proof -
  have h: "history s le p = rows s le p" using assms history_rows by (simp add: tcsl_inv_def)
  show ?thesis
  proof (cases "latest_manifest (rows s le p) = []")
    case True
    then show ?thesis by (simp add: view_def h Let_def)
  next
    case False
    then obtain e where e: "e \<in> set (rows s le p)" "ph_manifest e = latest_manifest (rows s le p)" using latest_manifest_in by blast
    then have "e \<in> set (ts_events s)" by (simp add: rows_def)
    then obtain body where b: "map_of (ts_manifests s) (latest_manifest (rows s le p)) = Some body"
      using assms e False by (fastforce simp: tcsl_inv_def)
    have "sum_bytes sha body = latest_manifest (rows s le p)" using assms b by (simp add: tcsl_inv_def)
    then show ?thesis using False b by (simp add: view_def h Let_def get_manifest_def)
  qed
qed

section \<open>Preservation\<close>

lemma rows_append: "rows (s\<lparr>ts_events := ts_events s @ [e]\<rparr>) le p
    = rows s le p @ (if ph_entity e = le \<and> ph_period e = p then [e] else [])"
  by (simp add: rows_def)

lemma chained_snoc:
  "chained sha tenant le p (h @ [e]) \<longleftrightarrow> chained sha tenant le p h
    \<and> (ph_state e = PsHardClose \<longrightarrow> (\<exists>js bs. sealed_by sha tenant le p (latest_manifest h) js bs (ph_manifest e)))"
  by (auto simp: chained_def nth_append less_Suc_eq_le le_less all_conj_distrib dest: spec[of _ "length h"])

lemma uses_snoc: "uses (es @ [e]) = uses es @ (case ph_request e of None \<Rightarrow> [] | Some i \<Rightarrow> [i])"
  by (simp add: uses_def)

lemma uses_set: "i \<in> set (uses es) \<longleftrightarrow> (\<exists>e \<in> set es. ph_request e = Some i)"
  by (force simp: uses_def split: option.splits)

lemma uses_once:
  assumes "distinct (uses es)" "e \<in> set es" "x \<in> set es" "ph_request e = Some i" "ph_request x = Some i"
  shows "x = e"
  using assms
proof (induction es)
  case (Cons y es)
  have "i \<in> set (uses es)" if "z \<in> set es" "ph_request z = Some i" for z using that uses_set by blast
  moreover have "uses (y # es) = (case ph_request y of None \<Rightarrow> [] | Some i \<Rightarrow> [i]) @ uses es" by (simp add: uses_def)
  ultimately show ?case using Cons by (auto split: option.splits)
qed simp

lemma append_event_ok:
  assumes "append_event s e = Ok s'"
  shows "s' = s\<lparr>ts_events := ts_events s @ [e]\<rparr>" "\<forall>i. ph_request e = Some i \<longrightarrow> i \<notin> set (uses (ts_events s))"
  using assms by (auto simp: append_event_def uses_set list_ex_iff split: if_splits)

lemma event_inv:
  assumes inv: "tcsl_inv sha totals tenant s" and e: "legal_event (state_of (rows s le p)) e" "ph_entity e = le" "ph_period e = p"
    "ph_seq e = int (length (rows s le p)) + 1" "append_event s e = Ok s'" "backed (ts_requests s) e"
    and m: "ph_manifest e \<noteq> [] \<Longrightarrow> map_of (ts_manifests s) (ph_manifest e) \<noteq> None
      \<and> (\<exists>bs. foldR balance_row [] (totals (period_journals s le p)) = Ok bs
        \<and> sealed_by sha tenant le p (latest_manifest (rows s le p)) (sort (map j_id (period_journals s le p))) bs (ph_manifest e))"
  shows "tcsl_inv sha totals tenant s'"
proof -
  have s': "s' = s\<lparr>ts_events := ts_events s @ [e]\<rparr>" and fresh: "\<forall>i. ph_request e = Some i \<longrightarrow> i \<notin> set (uses (ts_events s))"
    using append_event_ok[OF e(5)] by auto
  have pj: "period_journals s' = period_journals s" by (intro ext) (simp add: s' period_journals_def)
  have key: "consecutive (rows s' le p) \<and> legal_walk legal_event ph_state PsOpen (rows s' le p) \<and> chained sha tenant le p (rows s' le p)
      \<and> (state_of (rows s' le p) \<in> {PsHardClose, PsSealed} \<longrightarrow> closed_as sha totals tenant s' le p)"
  proof -
    have r: "rows s' le p = rows s le p @ [e]" using e(2,3) by (simp add: s' rows_append)
    have I: "consecutive (rows s le p)" "legal_walk legal_event ph_state PsOpen (rows s le p)" "chained sha tenant le p (rows s le p)"
      "state_of (rows s le p) \<in> {PsHardClose, PsSealed} \<Longrightarrow> closed_as sha totals tenant s le p"
      using inv by (auto simp: tcsl_inv_def)
    have sealed: "ph_state e = PsHardClose \<longleftrightarrow> ph_manifest e \<noteq> []" using e(1) by (simp add: legal_event_def)
    have closed: "closed_as sha totals tenant s' le p" if "ph_state e = PsHardClose \<or> ph_state e = PsSealed"
    proof (cases "ph_state e = PsHardClose")
      case True
      then have mm: "ph_manifest e \<noteq> []" using sealed by simp
      have "latest_manifest (rows s' le p) = ph_manifest e" using mm by (simp add: r latest_manifest_snoc)
      then show ?thesis unfolding closed_as_def pj using m[OF mm] by metis
    next
      case False
      then have z: "ph_state e = PsSealed" "ph_manifest e = []" using that sealed by auto
      then have "can_move_to (state_of (rows s le p)) PsSealed" using e(1) by (auto simp: legal_event_def)
      then have "state_of (rows s le p) = PsHardClose" by (cases "state_of (rows s le p)") auto
      then have "closed_as sha totals tenant s le p" using I(4) by simp
      moreover have "latest_manifest (rows s' le p) = latest_manifest (rows s le p)" using z by (simp add: r latest_manifest_snoc)
      ultimately show ?thesis unfolding closed_as_def pj by simp
    qed
    have "consecutive (rows s' le p)" using I(1) e(4) by (simp add: r consecutive_snoc)
    moreover have "legal_walk legal_event ph_state PsOpen (rows s' le p)"
      using I(2) e(1) by (simp add: r period.walk_snoc state_of_current)
    moreover have "chained sha tenant le p (rows s' le p)" using I(3) m sealed by (auto simp: r chained_snoc)
    moreover have "state_of (rows s' le p) = ph_state e" by (simp add: r state_of_def)
    ultimately show ?thesis using closed by auto
  qed
  have others: "consecutive (rows s' le' p') \<and> legal_walk legal_event ph_state PsOpen (rows s' le' p') \<and> chained sha tenant le' p' (rows s' le' p')
      \<and> (state_of (rows s' le' p') \<in> {PsHardClose, PsSealed} \<longrightarrow> closed_as sha totals tenant s' le' p')" for le' p'
  proof (cases "le' = le \<and> p' = p")
    case True
    then show ?thesis using key by simp
  next
    case False
    have "rows s' le' p' = rows s le' p'" using False e(2,3) by (auto simp: s' rows_append)
    then show ?thesis using inv by (simp add: tcsl_inv_def closed_as_def pj)
  qed
  have "\<forall>x \<in> set (ts_events s'). backed (ts_requests s') x \<and> (ph_manifest x \<noteq> [] \<longrightarrow> map_of (ts_manifests s') (ph_manifest x) \<noteq> None)"
    using inv e(6) m by (auto simp: s' tcsl_inv_def)
  moreover have "distinct (uses (ts_events s'))"
    using inv fresh by (auto simp: s' tcsl_inv_def uses_snoc split: option.splits)
  moreover have "(\<forall>r \<in> set (ts_requests s'). rq_requested_by r \<noteq> 0 \<and> \<not> blank (rq_reason r))"
    "\<forall>d body. map_of (ts_manifests s') d = Some body \<longrightarrow> sum_bytes sha body = d"
    using inv by (simp_all add: s' tcsl_inv_def)
  ultimately show ?thesis unfolding tcsl_inv_def using others by (intro conjI allI) blast+
qed

text \<open>Storing a manifest changes nothing else the invariant speaks of.\<close>

lemma put_manifest_inv:
  assumes "tcsl_inv sha totals tenant s" "put_manifest sha s d body = Ok s'"
  shows "tcsl_inv sha totals tenant s'" "map_of (ts_manifests s') d \<noteq> None"
    "ts_events s' = ts_events s" "ts_journals s' = ts_journals s" "ts_requests s' = ts_requests s"
proof -
  obtain ms where s': "s' = s\<lparr>ts_manifests := ms\<rparr>" and h: "sum_bytes sha body = d"
    and ms: "ms = (if map_of (ts_manifests s) d \<noteq> None then ts_manifests s else ts_manifests s @ [(d, body)])"
    using assms(2) by (auto simp: put_manifest_def split: if_splits)
  have mono: "map_of (ts_manifests s) x \<noteq> None \<Longrightarrow> map_of ms x \<noteq> None" for x
    by (auto simp: ms map_add_def split: option.splits)
  have hash: "map_of ms x = Some b \<Longrightarrow> sum_bytes sha b = x" for x b
    using assms(1) h by (auto simp: ms tcsl_inv_def map_add_def split: option.splits if_splits)
  have "rows s' = rows s" "period_journals s' = period_journals s" by (simp_all add: s' rows_def[abs_def] period_journals_def[abs_def])
  then show "tcsl_inv sha totals tenant s'"
    using assms(1) mono hash unfolding tcsl_inv_def closed_as_def by (simp add: s')
  show "map_of (ts_manifests s') d \<noteq> None" by (auto simp: s' ms map_add_def split: option.splits)
  show "ts_events s' = ts_events s" "ts_journals s' = ts_journals s" "ts_requests s' = ts_requests s" by (simp_all add: s')
qed

lemma map_err_Ok_iff [simp]: "map_err f r = Ok x \<longleftrightarrow> r = Ok x"
  by (cases r) simp_all

lemma sum_bytes_nonempty [simp]: "sum_bytes sha b \<noteq> []"
  by (simp add: sum_bytes_def DigestPrefix_def)

lemma seal_ok:
  assumes "seal sha totals docs excs s sc le p now prior = Ok (s', d)"
  shows "\<exists>bs body. foldR balance_row [] (totals (period_journals s le p)) = Ok bs
    \<and> sealed_by sha (sc_tenant sc) le p prior (sort (map j_id (period_journals s le p))) bs d
    \<and> put_manifest sha s d body = Ok s' \<and> d \<noteq> []"
proof -
  obtain bs m out body where h: "foldR balance_row [] (totals (period_journals s le p)) = Ok bs"
    "m = \<lparr>cm_tenant = sc_tenant sc, cm_entity = le, cm_period = p, cm_journals = sort (map j_id (period_journals s le p)),
         cm_balances = bs, cm_documents = docs, cm_exceptions = excs,
         cm_closed_at = now, cm_closed_by = sc_subject sc, cm_supersedes = prior\<rparr>"
    "seal_manifest sha m = Ok (out, d, body)" "put_manifest sha s d body = Ok s'"
    using assms by (auto simp: seal_def population_def)
  have "d \<noteq> []" using h(3) by (auto simp: seal_manifest_def Let_def split: if_splits)
  then show ?thesis using h unfolding sealed_by_def by fastforce
qed

lemma no_reopen_move: "can_move_to x PsReopened = False"
  by (cases x) auto

lemma parsed_period: "parse_legal_period s = Some p \<Longrightarrow> p = s"
  by (auto simp: parse_legal_period_def split: list.splits if_splits)

lemma required_role: "require_role_or_system c roles = Ok sc \<Longrightarrow>
    c = Some sc \<and> sc_tenant sc \<noteq> 0 \<and> (sc_subject sc = 0 \<or> (\<exists>r \<in> set roles. r \<in> set (sc_roles sc)))"
  by (auto simp: require_role_or_system_def list_ex_iff split: option.splits if_splits)

lemma scope_ok:
  assumes "scope c period roles entity = Ok (sc, le, p)"
  shows "c = Some sc \<and> sc_tenant sc \<noteq> 0 \<and> (sc_subject sc = 0 \<or> (\<exists>r \<in> set roles. r \<in> set (sc_roles sc)))
    \<and> p = period \<and> parse_legal_period period = Some period \<and> entity = Ok le"
proof -
  obtain x where x: "require_role_or_system c roles = Ok x"
    "(case parse_legal_period period of None \<Rightarrow> Err PeBadPeriod
      | Some p \<Rightarrow> (case entity of Err e \<Rightarrow> if e = PeNotFound then Err PeNoEntity else Err e | Ok le \<Rightarrow> Ok (x, le, p))) = Ok (sc, le, p)"
    using assms by (auto simp: scope_def)
  then show ?thesis
    using required_role[OF x(1)] parsed_period[of period]
    by (cases "parse_legal_period period"; cases entity) (auto split: if_splits)
qed

section \<open>Each operation\<close>

definition move_event :: "ident \<Rightarrow> string \<Rightarrow> period_view \<Rightarrow> period_state \<Rightarrow> string \<Rightarrow> int \<Rightarrow> sec_context \<Rightarrow> digest \<Rightarrow> period_event" where
  "move_event le p cur to reason now sc d =
     \<lparr>ph_entity = le, ph_period = p, ph_seq = int (length (pv_history cur)) + 1, ph_state = to, ph_reason = reason,
      ph_recorded_at = now, ph_recorded_by = sc_subject sc, ph_approved_by = 0, ph_request = None, ph_manifest = d\<rparr>"

lemma transition_split:
  "transition sha totals docs excs s (Some sc) entity period to reason clock = Ok (s', v) \<longleftrightarrow>
     (\<exists>le p cur u d. scope (Some sc) period [RoleOperator] entity = Ok (sc, le, p) \<and> state_valid to \<and> to \<noteq> PsReopened
        \<and> length reason \<le> 1000 \<and> view sha s le p = Ok cur \<and> can_move_to (pv_state cur) to
        \<and> (if closes to then seal sha totals docs excs s sc le p (to_micros clock) (pv_manifest cur) = Ok (u, d) else u = s \<and> d = [])
        \<and> append_event u (move_event le p cur to reason (to_micros clock) sc d) = Ok s' \<and> view sha s' le p = Ok v)"
proof -
  have sc: "scope (Some sc) period [RoleOperator] entity = Ok (x, le, p) \<Longrightarrow> x = sc" for x le p
    using scope_ok by blast
  show ?thesis
    by (cases "closes to") (auto simp: transition_def move_event_def Let_def not_less dest: sc, (fastforce dest: sc)+)
qed

lemma moved_inv:
  assumes inv: "tcsl_inv sha totals tenant s" and "sc_tenant sc = tenant"
    and cur: "pv_state cur = state_of (rows s le p)" "pv_history cur = rows s le p" "pv_manifest cur = latest_manifest (rows s le p)"
    and m: "can_move_to (pv_state cur) to" "to \<noteq> PsReopened"
    and u: "if closes to then seal sha totals docs excs s sc le p now (pv_manifest cur) = Ok (u, d) else u = s \<and> d = []"
    and a: "append_event u (move_event le p cur to reason at_time sc d) = Ok s'"
  shows "tcsl_inv sha totals tenant s' \<and> ts_journals s' = ts_journals s \<and> ts_requests s' = ts_requests s
    \<and> rows s' le p = rows s le p @ [move_event le p cur to reason at_time sc d]"
proof -
  let ?e = "move_event le p cur to reason at_time sc d"
  have U: "tcsl_inv sha totals tenant u \<and> ts_events u = ts_events s \<and> ts_journals u = ts_journals s \<and> ts_requests u = ts_requests s
      \<and> (closes to \<longleftrightarrow> d \<noteq> []) \<and> (d \<noteq> [] \<longrightarrow> map_of (ts_manifests u) d \<noteq> None
        \<and> (\<exists>bs. foldR balance_row [] (totals (period_journals s le p)) = Ok bs
          \<and> sealed_by sha tenant le p (latest_manifest (rows s le p)) (sort (map j_id (period_journals s le p))) bs d))"
  proof (cases "closes to")
    case True
    then have "seal sha totals docs excs s sc le p now (pv_manifest cur) = Ok (u, d)" using u by simp
    from seal_ok[OF this] obtain bs bdy where sl: "foldR balance_row [] (totals (period_journals s le p)) = Ok bs"
      "sealed_by sha tenant le p (latest_manifest (rows s le p)) (sort (map j_id (period_journals s le p))) bs d"
      "put_manifest sha s d bdy = Ok u" "d \<noteq> []" using cur(3) assms(2) by metis
    show ?thesis using put_manifest_inv[OF inv sl(3)] sl True by auto
  qed (use u inv in simp)
  then have same: "rows u = rows s" "period_journals u = period_journals s"
    by (simp_all add: rows_def[abs_def] period_journals_def[abs_def])
  have "tcsl_inv sha totals tenant s'"
    by (rule event_inv[OF conjunct1[OF U] _ _ _ _ a])
       (use m cur U in \<open>auto simp: same move_event_def legal_event_def closes_def backed_def\<close>)
  moreover have "rows s' le p = rows s le p @ [?e]"
    using append_event_ok(1)[OF a] rows_append[of u ?e le p] by (simp add: same move_event_def)
  ultimately show ?thesis using append_event_ok(1)[OF a] U by simp
qed

lemma view_total:
  assumes "tcsl_inv sha totals tenant s"
  obtains v where "view sha s le p = Ok v" "pv_state v = state_of (rows s le p)" "pv_history v = rows s le p"
    "pv_manifest v = latest_manifest (rows s le p)"
  using view_inv[OF assms, of le p] by force

lemma move_ok:
  assumes inv: "tcsl_inv sha totals tenant s" and "sc_tenant sc = tenant"
    and "transition sha totals docs excs s (Some sc) entity period to reason clock = Ok (s', v)"
  shows "tcsl_inv sha totals tenant s' \<and> ts_journals s' = ts_journals s \<and> ts_requests s' = ts_requests s"
proof -
  obtain le p cur u d where c: "view sha s le p = Ok cur" "can_move_to (pv_state cur) to" "to \<noteq> PsReopened"
    "if closes to then seal sha totals docs excs s sc le p (to_micros clock) (pv_manifest cur) = Ok (u, d) else u = s \<and> d = []"
    "append_event u (move_event le p cur to reason (to_micros clock) sc d) = Ok s'"
    using assms(3) unfolding transition_split by blast
  obtain w where w: "view sha s le p = Ok w" "pv_state w = state_of (rows s le p)" "pv_history w = rows s le p"
    "pv_manifest w = latest_manifest (rows s le p)" using view_total[OF inv] .
  then show ?thesis using moved_inv[OF inv assms(2) _ _ _ c(2,3,4,5)] c(1) by simp
qed

lemma approve_ok:
  assumes inv: "tcsl_inv sha totals tenant s"
    and "approve_reopen sha s (Some sc) entity period i clock = Ok (s', v)"
  shows "tcsl_inv sha totals tenant s' \<and> ts_journals s' = ts_journals s"
proof -
  obtain le p req cur e where c: "get_reopen_request s i = Ok req" "rq_period req = p" "rq_entity req = le"
    "rq_requested_by req \<noteq> sc_subject sc" "sc_subject sc \<noteq> 0" "view sha s le p = Ok cur" "can_reopen (pv_state cur)"
    and e: "append_event s e = Ok s'" "ph_entity e = le" "ph_period e = p" "ph_seq e = int (length (pv_history cur)) + 1"
      "ph_state e = PsReopened" "ph_recorded_by e = rq_requested_by req" "ph_approved_by e = sc_subject sc"
      "ph_request e = Some i" "ph_manifest e = []"
    using assms(2) by (auto simp: approve_reopen_def Let_def dest!: scope_ok split: if_splits)
  obtain body where "view sha s le p = Ok \<lparr>pv_state = state_of (rows s le p), pv_history = rows s le p,
    pv_manifest = latest_manifest (rows s le p), pv_body = body\<rparr>" using view_inv[OF inv] by blast
  then have cur: "pv_state cur = state_of (rows s le p)" "pv_history cur = rows s le p" using c(6) by auto
  have r: "req \<in> set (ts_requests s)" "rq_id req = i"
    using c(1) by (auto simp: get_reopen_request_def find_Some_iff split: option.splits)
  then have "rq_requested_by req \<noteq> 0" "\<not> blank (rq_reason req)" using inv by (auto simp: tcsl_inv_def)
  then have "backed (ts_requests s) e" using r c(2,3) e by (auto simp: backed_def)
  then have "tcsl_inv sha totals tenant s'"
    by (intro event_inv[OF inv _ e(2,3) _ e(1)])
       (use c(4,5,7) cur e in \<open>auto simp: legal_event_def\<close>)
  then show ?thesis using append_event_ok(1)[OF e(1)] by simp
qed

lemma backed_mono: "backed rs e \<Longrightarrow> set rs \<subseteq> set rs' \<Longrightarrow> backed rs' e"
  unfolding backed_def by blast

lemma request_ok:
  assumes inv: "tcsl_inv sha totals tenant s"
    and "request_reopen sha seen (Some sc) entity period reason new_id clock = Ok r" "create_reopen_request tenant s r = Ok s'"
  shows "tcsl_inv sha totals tenant s' \<and> ts_journals s' = ts_journals s \<and> ts_events s' = ts_events s"
proof -
  have r: "rq_requested_by r \<noteq> 0" "\<not> blank (rq_reason r)"
    using assms(2) by (auto simp: request_reopen_def split: if_splits dest!: scope_ok)
  have s': "s' = s\<lparr>ts_requests := ts_requests s @ [r]\<rparr>" using assms(3) by (auto simp: create_reopen_request_def split: if_splits)
  have "rows s' = rows s" "period_journals s' = period_journals s" by (simp_all add: s' rows_def[abs_def] period_journals_def[abs_def])
  then show ?thesis using inv r unfolding tcsl_inv_def closed_as_def by (auto simp: s' intro: backed_mono)
qed

lemma post_ok:
  assumes "post_journal tenant s j = Ok s'"
  shows "\<exists>j'. s' = s\<lparr>ts_journals := ts_journals s @ [j']\<rparr> \<and> j' = (if state_of (history s (j_entity j) (j_period j)) = PsAmendmentActive
      then j\<lparr>j_amendment := True\<rparr> else j) \<and> check_postable j' (state_of (history s (j_entity j) (j_period j))) = Ok ()
      \<and> validate_journal j' = Ok () \<and> j_tenant j' = tenant \<and> (\<forall>x \<in> set (ts_journals s). j_id x \<noteq> j_id j' \<and> \<not> same_source x j')"
  using assms by (auto simp: post_journal_def guard_posting_def postable_as_def append_journal_def Let_def list_ex_iff split: if_splits)

lemma post_inv:
  assumes inv: "tcsl_inv sha totals tenant s" and "post_journal tenant s j = Ok s'"
  shows "tcsl_inv sha totals tenant s' \<and> ts_events s' = ts_events s"
proof -
  obtain j' where j': "s' = s\<lparr>ts_journals := ts_journals s @ [j']\<rparr>" "j_entity j' = j_entity j" "j_period j' = j_period j"
    "check_postable j' (state_of (history s (j_entity j) (j_period j))) = Ok ()" using post_ok[OF assms(2)] by auto
  have h: "history s (j_entity j) (j_period j) = rows s (j_entity j) (j_period j)" using inv history_rows by (simp add: tcsl_inv_def)
  have open_: "state_of (rows s (j_entity j) (j_period j)) \<notin> {PsHardClose, PsSealed}"
    using j'(4) by (auto simp: h check_postable_def)
  have r: "rows s' = rows s" by (simp add: j'(1) rows_def[abs_def])
  have pj: "period_journals s' le p = period_journals s le p" if "(le, p) \<noteq> (j_entity j, j_period j)" for le p
    using that j'(2,3) by (auto simp: j'(1) period_journals_def in_period_def)
  have "closed_as sha totals tenant s' le p" if "state_of (rows s le p) \<in> {PsHardClose, PsSealed}" for le p
  proof -
    have "(le, p) \<noteq> (j_entity j, j_period j)" using that open_ by auto
    then show ?thesis using inv that pj unfolding tcsl_inv_def closed_as_def r by auto
  qed
  then show ?thesis using inv unfolding tcsl_inv_def r by (simp add: j'(1))
qed

text \<open>Every reachable store satisfies the invariant.\<close>

inductive_cases tcsl_stepE: "tcsl_step sha totals tenant s s'"

lemma step_inv: "tcsl_step sha totals tenant s s' \<Longrightarrow> tcsl_inv sha totals tenant s \<Longrightarrow> tcsl_inv sha totals tenant s'"
  by (erule tcsl_stepE) (auto dest: post_inv move_ok approve_ok request_ok)

lemma empty_inv: "tcsl_inv sha totals tenant empty_tcsl"
  by (simp add: tcsl_inv_def empty_tcsl_def rows_def consecutive_def chained_def state_of_def uses_def)

lemma reachable_inv: "tcsl_reachable sha totals tenant s \<Longrightarrow> tcsl_inv sha totals tenant s"
  by (induction rule: tcsl_reachable.induct) (auto intro: empty_inv step_inv)

end
