(* ===== verification/CanonTotal.thy ===== *)
theory CanonTotal
  imports Canonical
begin

text \<open>
  When encoding succeeds: no absent element, no empty pre-encoded bytes and no name twice in an object.
\<close>

fun encodable :: "cvalue \<Rightarrow> bool" where
  "encodable VAbsent = False"
| "encodable (VRaw s) = (s \<noteq> [])"
| "encodable (VObject fs) = (distinct (map fst fs) \<and> list_all (\<lambda>(n, v). encodable v) fs)"
| "encodable (VArray vs) = list_all encodable vs"
| "encodable v = True"

lemma first_duplicate_distinct: "distinct ns \<Longrightarrow> first_duplicate ns = None"
  by (induction ns rule: first_duplicate.induct) auto

lemma join_fields_total: "\<forall>(n, r) \<in> set fs. is_ok r \<Longrightarrow> is_ok (join_fields c fs)"
  by (induction c fs rule: join_fields.induct) (auto simp: is_ok_iff)

lemma join_items_total: "\<forall>(a, r) \<in> set rs. \<not> a \<and> is_ok r \<Longrightarrow> is_ok (join_items i rs)"
  by (induction i rs rule: join_items.induct) (auto simp: is_ok_iff)

lemma encode_total: "encodable v \<Longrightarrow> is_ok (encode v)"
proof (induction v rule: encodable.induct)
  case (3 fs)
  let ?gs = "sort_by (\<lambda>f g. less_utf16 (fst f) (fst g)) (map (\<lambda>(n, v). (n, encode v)) fs)"
  have ms: "mset ?gs = mset (map (\<lambda>(n, v). (n, encode v)) fs)" by (rule mset_sort_by)
  have "distinct (map fst (map (\<lambda>(n, v). (n, encode v)) fs))" using 3 by (simp add: comp_def case_prod_beta)
  moreover have "mset (map fst ?gs) = mset (map fst (map (\<lambda>(n, v). (n, encode v)) fs))" by (simp only: mset_map ms)
  ultimately have "distinct (map fst ?gs)" using mset_eq_imp_distinct_iff by blast
  moreover have "set ?gs = (\<lambda>(n, v). (n, encode v)) ` set fs" using arg_cong[OF ms, of set_mset] by simp
  then have "\<forall>(n, r) \<in> set ?gs. is_ok r" using 3 by (fastforce simp: list_all_iff)
  then have "is_ok (join_fields False ?gs)" by (rule join_fields_total)
  ultimately show ?case by (auto simp: encode_object_def Let_def first_duplicate_distinct is_ok_iff)
next
  case (4 vs)
  have "\<forall>(a, r) \<in> set (map (\<lambda>v. (is_absent v, encode v)) vs). \<not> a \<and> is_ok r"
    using 4 by (auto simp: list_all_iff is_absent_def)
  from join_items_total[OF this, of 0] show ?case by (auto simp: is_ok_iff)
qed simp_all

lemma encodable_object: "encodable (c_object fs) \<longleftrightarrow>
    distinct (map fst (filter (\<lambda>(n, v). v \<noteq> VAbsent) fs)) \<and> (\<forall>(n, v) \<in> set fs. v \<noteq> VAbsent \<longrightarrow> encodable v)"
  by (auto simp: c_object_def is_absent_def list_all_iff case_prod_beta)

end
