(* ===== verification/SubledgerFacts.thy ===== *)
theory SubledgerFacts
  imports Subledger Corrections
begin

text \<open>
  Facts about the subledger: what a validated transaction and a validated journal guarantee in exact
  values, what the control balances hold after a loop over journals, and what a reversal changes.
\<close>

lemma sl_fisc_Ok [simp]: "sl_fisc r = Ok x \<longleftrightarrow> r = Ok x"
  by (cases r) (simp_all add: sl_fisc_def)

section \<open>Zero and comparison\<close>

lemma money_is_zero_iff: "wf_money m \<Longrightarrow> money_is_zero m \<longleftrightarrow> amount_of m = 0"
  using dec_val_sign[of "m_amount m"]
  by (auto simp: wf_money_def amount_of_def money_is_zero_def dec_is_zero_def)

lemma money_sign_pos: "wf_money m \<Longrightarrow> 0 < money_sign m \<longleftrightarrow> 0 < amount_of m"
  using dec_val_sign[of "m_amount m"] by (auto simp: wf_money_def amount_of_def money_sign_def)

lemma money_cmp_equal: "wf_money x \<Longrightarrow> wf_money y \<Longrightarrow> money_cmp x y = Ok 0 \<Longrightarrow> amount_of x = amount_of y"
  by (auto simp: money_cmp_def wf_money_def amount_of_def dec_cmp_correct rat_cmp_def split: if_splits)

lemma money_zero_props: "wf_money m \<Longrightarrow> wf_money (money_zero m) \<and> amount_of (money_zero m) = 0"
  by (auto simp: money_zero_def wf_money_def amount_of_def wf_dec_def set_finite_def dec_val_def)

section \<open>Signed transactions\<close>

definition currency_sum :: "string \<Rightarrow> ledger_entry list \<Rightarrow> rat" where
  "currency_sum c es = (\<Sum>e\<leftarrow>es. if m_currency (en_amount e) = c then amount_of (en_amount e) else 0)"

definition running :: "(string \<rightharpoonup> money) \<Rightarrow> string \<Rightarrow> rat" where
  "running totals c = (case totals c of None \<Rightarrow> 0 | Some m \<Rightarrow> amount_of m)"

lemma total_fold:
  assumes "foldR (total_step key) totals (List.enumerate n es) = Ok out"
    and "\<forall>e \<in> set es. wf_money (en_amount e)" "\<forall>m \<in> ran totals. wf_money m"
  shows "(\<forall>m \<in> ran out. wf_money m) \<and> dom out = dom totals \<union> (m_currency \<circ> en_amount) ` set es
    \<and> (\<forall>c. running out c = running totals c + currency_sum c es)"
  using assms
proof (induction es arbitrary: n totals)
  case Nil
  then show ?case by (simp add: currency_sum_def)
next
  case (Cons e es)
  let ?c = "m_currency (en_amount e)"
  from Cons.prems(1) obtain mid where m: "total_step key totals (n, e) = Ok mid"
    "foldR (total_step key) mid (List.enumerate (Suc n) es) = Ok out" by auto
  have we: "wf_money (en_amount e)" using Cons.prems(2) by simp
  obtain s where s: "mid = totals(?c \<mapsto> s)" "wf_money s" "amount_of s = running totals ?c + amount_of (en_amount e)"
  proof (cases "totals ?c")
    case None
    then have "mid = totals(?c \<mapsto> en_amount e)" using m(1) by (auto simp: total_step_def Let_def split: if_splits)
    then show ?thesis using that[of "en_amount e"] we None by (simp add: running_def)
  next
    case (Some r)
    then obtain s where a: "money_add r (en_amount e) = Ok s" "mid = totals(?c \<mapsto> s)"
      using m(1) by (auto simp: total_step_def Let_def split: if_splits result.splits)
    have wr: "wf_money r" using Some Cons.prems(3) by (auto simp: ran_def)
    have "wf_money s" "amount_of s = amount_of r + amount_of (en_amount e)"
      using moneys.add_wf[OF wr we a(1)] moneys.add_val[OF wr we a(1)] by auto
    then show ?thesis using that[of s] a(2) Some by (simp add: running_def)
  qed
  have "\<forall>m \<in> ran mid. wf_money m" using s(1,2) Cons.prems(3) by (auto simp: ran_def split: if_splits)
  then have I: "(\<forall>m \<in> ran out. wf_money m) \<and> dom out = dom mid \<union> (m_currency \<circ> en_amount) ` set es
    \<and> (\<forall>c. running out c = running mid c + currency_sum c es)"
    using Cons.IH[OF m(2)] Cons.prems(2) by simp
  have "running mid c = running totals c + (if ?c = c then amount_of (en_amount e) else 0)" for c
    using s(1,3) by (simp add: running_def)
  then show ?case using I s(1) by (auto simp: currency_sum_def)
qed

lemma residual_fold:
  "foldR (residual_step totals) () cs = Ok u \<Longrightarrow> c \<in> set cs \<Longrightarrow> totals c = Some m \<Longrightarrow> money_is_zero m"
  by (induction cs) (auto simp: residual_step_def split: if_splits option.splits)

lemma validated_balances:
  assumes "validate_transaction t = Ok u" "\<forall>e \<in> set (tx_entries t). wf_money (en_amount e)"
  shows "currency_sum c (tx_entries t) = 0"
proof -
  from assms(1) obtain totals where t: "foldR (total_step (tx_key t)) (\<lambda>_. None) (List.enumerate 0 (tx_entries t)) = Ok totals"
    "foldR (residual_step totals) () (tx_currencies t) = Ok ()"
    by (auto simp: validate_transaction_def split: if_splits)
  note F = total_fold[OF t(1) assms(2)]
  have sum: "running totals c = currency_sum c (tx_entries t)" using F by (simp add: running_def)
  show ?thesis
  proof (cases "totals c")
    case None
    then show ?thesis using sum by (simp add: running_def)
  next
    case (Some m)
    have "c \<in> dom totals" using Some by blast
    then have "c \<in> (m_currency \<circ> en_amount) ` set (tx_entries t)" using F by simp
    then have "c \<in> set (tx_currencies t)" by (simp add: tx_currencies_def)
    then have "money_is_zero m" using residual_fold[OF t(2) _ Some] by blast
    moreover have "wf_money m" using F Some by (auto simp: ran_def)
    ultimately show ?thesis using sum Some money_is_zero_iff by (simp add: running_def)
  qed
qed

lemma reverse_entry_amount:
  assumes "reverse_entry key now (i, e) = Ok e'" "wf_money (en_amount e)"
  shows "m_currency (en_amount e') = m_currency (en_amount e) \<and> wf_money (en_amount e')
    \<and> amount_of (en_amount e') = - amount_of (en_amount e)
    \<and> en_id e' = i \<and> en_key e' = key \<and> en_account e' = en_account e \<and> en_reverses e' = Some (en_id e)"
proof -
  obtain zero neg where z: "parse_money ''0'' (m_currency (en_amount e)) = Ok zero" "money_sub zero (en_amount e) = Ok neg"
    "e' = \<lparr>en_id = i, en_tenant = en_tenant e, en_key = key, en_decision = en_decision e,
           en_account = en_account e, en_jurisdiction = en_jurisdiction e, en_amount = neg,
           en_event_time = en_event_time e, en_recorded_at = now, en_reverses = Some (en_id e)\<rparr>"
    using assms(1) by (auto simp: reverse_entry_def split: result.splits)
  note Z = parse_money_zero[OF z(1)]
  show ?thesis using Z money_sub_props[OF z(2)] z(3) assms(2) by auto
qed

lemma reversal_entries:
  assumes "list_all2 (\<lambda>x y. reverse_entry key now x = Ok y) (zip ids es) rs" "length ids = length es"
    and "\<forall>e \<in> set es. wf_money (en_amount e)"
  shows "list_all2 (\<lambda>e r. en_reverses r = Some (en_id e) \<and> en_account r = en_account e
      \<and> m_currency (en_amount r) = m_currency (en_amount e) \<and> amount_of (en_amount r) = - amount_of (en_amount e)) es rs
    \<and> (\<forall>r \<in> set rs. wf_money (en_amount r) \<and> en_key r = key) \<and> map en_id rs = ids
    \<and> currency_sum c rs = - currency_sum c es"
  using assms
proof (induction ids arbitrary: es rs)
  case Nil
  then show ?case by (simp add: currency_sum_def)
next
  case (Cons i ids)
  then obtain e es' where es: "es = e # es'" by (cases es) auto
  with Cons.prems(1) obtain r rs' where rs: "rs = r # rs'" by (cases rs) auto
  have h: "reverse_entry key now (i, e) = Ok r"
    "list_all2 (\<lambda>x y. reverse_entry key now x = Ok y) (zip ids es') rs'" using Cons.prems(1) es rs by auto
  note R = reverse_entry_amount[OF h(1)]
  have "wf_money (en_amount e)" using Cons.prems(3) es by simp
  then show ?case using R Cons.IH[OF h(2)] Cons.prems(2,3) es rs by (auto simp: currency_sum_def)
qed

section \<open>Journals\<close>

definition line_debit :: "journal_line \<Rightarrow> rat" where
  "line_debit l = (if jl_side l = Debit then amount_of (jl_amount l) else 0)"

definition line_credit :: "journal_line \<Rightarrow> rat" where
  "line_credit l = (if jl_side l = Debit then 0 else amount_of (jl_amount l))"

definition wf_lines :: "journal \<Rightarrow> bool" where
  "wf_lines j \<longleftrightarrow> (\<forall>l \<in> set (j_lines j). wf_money (jl_amount l))"

definition good_line :: "string \<Rightarrow> journal_line \<Rightarrow> bool" where
  "good_line cur l \<longleftrightarrow> account_canonical (jl_account l) \<and> m_currency (jl_amount l) = cur
     \<and> 0 < amount_of (jl_amount l) \<and> (jl_side l = Debit \<or> jl_side l = Credit)"

lemma journal_fold:
  assumes "foldR (journal_step cur) (d, c) (List.enumerate n ls) = Ok (d', c')" "wf_money d" "wf_money c"
    and "\<forall>l \<in> set ls. wf_money (jl_amount l)"
  shows "wf_money d' \<and> wf_money c' \<and> amount_of d' = amount_of d + (\<Sum>l\<leftarrow>ls. line_debit l)
    \<and> amount_of c' = amount_of c + (\<Sum>l\<leftarrow>ls. line_credit l) \<and> (\<forall>l \<in> set ls. good_line cur l)"
  using assms
proof (induction ls arbitrary: n d c)
  case (Cons l ls)
  from Cons.prems(1) obtain x y where m: "journal_step cur (d, c) (n, l) = Ok (x, y)"
    "foldR (journal_step cur) (x, y) (List.enumerate (Suc n) ls) = Ok (d', c')" by auto
  have wl: "wf_money (jl_amount l)" using Cons.prems(4) by simp
  have "wf_money x \<and> wf_money y \<and> amount_of x = amount_of d + line_debit l \<and> amount_of y = amount_of c + line_credit l \<and> good_line cur l"
  proof (cases "jl_side l")
    case Debit
    then have a: "money_add d (jl_amount l) = Ok x" "y = c" using m(1) by (auto simp: journal_step_def split: if_splits)
    show ?thesis using moneys.add_wf[OF Cons.prems(2) wl a(1)] moneys.add_val[OF Cons.prems(2) wl a(1)] a(2) Debit m(1) Cons.prems(3)
        money_sign_pos[OF wl] by (auto simp: journal_step_def good_line_def line_debit_def line_credit_def split: if_splits)
  next
    case Credit
    then have a: "money_add c (jl_amount l) = Ok y" "x = d" using m(1) by (auto simp: journal_step_def split: if_splits)
    show ?thesis using moneys.add_wf[OF Cons.prems(3) wl a(1)] moneys.add_val[OF Cons.prems(3) wl a(1)] a(2) Credit m(1) Cons.prems(2)
        money_sign_pos[OF wl] by (auto simp: journal_step_def good_line_def line_debit_def line_credit_def split: if_splits)
  next
    case (SideOther s)
    then show ?thesis using m(1) by (auto simp: journal_step_def split: if_splits)
  qed
  then show ?case using Cons.IH[OF m(2)] Cons.prems(4) by simp
qed simp

lemma validated_journal:
  assumes "validate_journal j = Ok u" "wf_lines j"
  shows "(\<Sum>l\<leftarrow>j_lines j. line_debit l) = (\<Sum>l\<leftarrow>j_lines j. line_credit l)"
    and "\<forall>l \<in> set (j_lines j). good_line (j_currency j) l"
    and "j_id j \<noteq> 0" "2 \<le> length (j_lines j)"
proof -
  obtain zero d c where z: "parse_money ''0'' (j_currency j) = Ok zero"
    "foldR (journal_step (j_currency j)) (zero, zero) (List.enumerate 0 (j_lines j)) = Ok (d, c)"
    "(case money_cmp d c of Err e \<Rightarrow> Err Unbalanced | Ok c \<Rightarrow> if c \<noteq> 0 then Err Unbalanced else Ok ()) = Ok u"
    using assms(1) by (auto simp: validate_journal_def split: if_splits)
  then have eq: "money_cmp d c = Ok 0" by (auto split: result.splits if_splits)
  note Z = parse_money_zero[OF z(1)]
  note F = journal_fold[OF z(2) conjunct1[OF Z] conjunct1[OF Z] assms(2)[unfolded wf_lines_def]]
  show "(\<Sum>l\<leftarrow>j_lines j. line_debit l) = (\<Sum>l\<leftarrow>j_lines j. line_credit l)"
    using F money_cmp_equal[OF _ _ eq] Z by simp
  show "\<forall>l \<in> set (j_lines j). good_line (j_currency j) l" using F by simp
  show "j_id j \<noteq> 0" "2 \<le> length (j_lines j)" using assms(1) by (auto simp: validate_journal_def split: if_splits)
qed

section \<open>Control balances\<close>

definition debits_at :: "account \<times> string \<Rightarrow> journal_line list \<Rightarrow> rat" where
  "debits_at k ls = (\<Sum>l\<leftarrow>ls. if (jl_account l, m_currency (jl_amount l)) = k then line_debit l else 0)"

definition credits_at :: "account \<times> string \<Rightarrow> journal_line list \<Rightarrow> rat" where
  "credits_at k ls = (\<Sum>l\<leftarrow>ls. if (jl_account l, m_currency (jl_amount l)) = k then line_credit l else 0)"

definition debit_of :: "balances \<Rightarrow> account \<times> string \<Rightarrow> rat" where
  "debit_of b k = (case b k of None \<Rightarrow> 0 | Some x \<Rightarrow> amount_of (ba_debits x))"

definition credit_of :: "balances \<Rightarrow> account \<times> string \<Rightarrow> rat" where
  "credit_of b k = (case b k of None \<Rightarrow> 0 | Some x \<Rightarrow> amount_of (ba_credits x))"

definition wf_balances :: "balances \<Rightarrow> bool" where
  "wf_balances b \<longleftrightarrow> (\<forall>x \<in> ran b. wf_money (ba_debits x) \<and> wf_money (ba_credits x))"

lemma balance_step_sum:
  assumes "balance_step out l = Ok out'" "wf_money (jl_amount l)" "wf_balances out"
  shows "wf_balances out' \<and> dom out' = insert (jl_account l, m_currency (jl_amount l)) (dom out)
    \<and> debit_of out' k = debit_of out k + debits_at k [l] \<and> credit_of out' k = credit_of out k + credits_at k [l]"
proof -
  let ?k = "(jl_account l, m_currency (jl_amount l))"
  let ?b = "case out ?k of Some b \<Rightarrow> b | None \<Rightarrow> \<lparr>ba_debits = money_zero (jl_amount l), ba_credits = money_zero (jl_amount l)\<rparr>"
  have wb: "wf_money (ba_debits ?b)" "wf_money (ba_credits ?b)" "amount_of (ba_debits ?b) = debit_of out ?k"
    "amount_of (ba_credits ?b) = credit_of out ?k"
    using assms(2,3) money_zero_props[OF assms(2)] by (auto simp: wf_balances_def debit_of_def credit_of_def ran_def split: option.splits)
  obtain b where b: "out' = out(?k \<mapsto> b)" "wf_money (ba_debits b)" "wf_money (ba_credits b)"
    "amount_of (ba_debits b) = debit_of out ?k + line_debit l" "amount_of (ba_credits b) = credit_of out ?k + line_credit l"
  proof (cases "jl_side l = Debit")
    case True
    then obtain d where a: "money_add (ba_debits ?b) (jl_amount l) = Ok d" "out' = out(?k \<mapsto> ?b\<lparr>ba_debits := d\<rparr>)"
      using assms(1) by (auto simp: balance_step_def Let_def)
    have "wf_money d" "amount_of d = amount_of (ba_debits ?b) + amount_of (jl_amount l)"
      using moneys.add_wf[OF wb(1) assms(2) a(1)] moneys.add_val[OF wb(1) assms(2) a(1)] by auto
    then show ?thesis using that[OF a(2)] wb True by (simp add: line_debit_def line_credit_def)
  next
    case False
    then obtain c where a: "money_add (ba_credits ?b) (jl_amount l) = Ok c" "out' = out(?k \<mapsto> ?b\<lparr>ba_credits := c\<rparr>)"
      using assms(1) by (auto simp: balance_step_def Let_def)
    have "wf_money c" "amount_of c = amount_of (ba_credits ?b) + amount_of (jl_amount l)"
      using moneys.add_wf[OF wb(2) assms(2) a(1)] moneys.add_val[OF wb(2) assms(2) a(1)] by auto
    then show ?thesis using that[OF a(2)] wb False by (simp add: line_debit_def line_credit_def)
  qed
  show ?thesis using b assms(3)
    by (auto simp: wf_balances_def ran_def debit_of_def credit_of_def debits_at_def credits_at_def)
qed

lemma balance_fold:
  assumes "foldR balance_step out ls = Ok out'" "\<forall>l \<in> set ls. wf_money (jl_amount l)" "wf_balances out"
  shows "wf_balances out' \<and> dom out' = dom out \<union> (\<lambda>l. (jl_account l, m_currency (jl_amount l))) ` set ls
    \<and> (\<forall>k. debit_of out' k = debit_of out k + debits_at k ls \<and> credit_of out' k = credit_of out k + credits_at k ls)"
  using assms
proof (induction ls arbitrary: out)
  case Nil
  then show ?case by (simp add: debits_at_def credits_at_def)
next
  case (Cons l ls)
  from Cons.prems(1) obtain mid where m: "balance_step out l = Ok mid" "foldR balance_step mid ls = Ok out'" by auto
  have wl: "wf_money (jl_amount l)" using Cons.prems(2) by simp
  note S = balance_step_sum[OF m(1) wl Cons.prems(3)]
  have "wf_balances mid" using S by blast
  from Cons.IH[OF m(2) _ this] Cons.prems(2) S show ?case by (auto simp: debits_at_def credits_at_def)
qed

lemma balances_of_lines: "balances_of js = foldR balance_step (\<lambda>_. None) (concat (map j_lines js))"
  by (simp add: balances_of_def foldR_concat)

text \<open>The balances hold, per account and currency, exactly what the journals posted there.\<close>

lemma balances_exact:
  assumes "balances_of js = Ok b" "\<forall>j \<in> set js. wf_lines j"
  shows "debit_of b k = debits_at k (concat (map j_lines js))" "credit_of b k = credits_at k (concat (map j_lines js))"
    and "dom b = (\<lambda>l. (jl_account l, m_currency (jl_amount l))) ` set (concat (map j_lines js))"
proof -
  have "\<forall>l \<in> set (concat (map j_lines js)). wf_money (jl_amount l)" using assms(2) by (auto simp: wf_lines_def)
  from balance_fold[OF assms(1)[unfolded balances_of_lines] this] 
  have F: "dom b = dom (\<lambda>_. None :: balance option) \<union> (\<lambda>l. (jl_account l, m_currency (jl_amount l))) ` set (concat (map j_lines js))
    \<and> (\<forall>k. debit_of b k = debit_of (\<lambda>_. None) k + debits_at k (concat (map j_lines js))
      \<and> credit_of b k = credit_of (\<lambda>_. None) k + credits_at k (concat (map j_lines js)))"
    by (auto simp: wf_balances_def ran_def)
  moreover have "debit_of (\<lambda>_. None) k = 0" "credit_of (\<lambda>_. None) k = 0" by (simp_all add: debit_of_def credit_of_def)
  ultimately show "debit_of b k = debits_at k (concat (map j_lines js))" "credit_of b k = credits_at k (concat (map j_lines js))"
    by (cases k, simp)+
  show "dom b = (\<lambda>l. (jl_account l, m_currency (jl_amount l))) ` set (concat (map j_lines js))" using F by (simp add: dom_def)
qed

lemma at_append [simp]:
  "debits_at k (xs @ ys) = debits_at k xs + debits_at k ys" "credits_at k (xs @ ys) = credits_at k xs + credits_at k ys"
  by (simp_all add: debits_at_def credits_at_def)

lemma at_Nil [simp]: "debits_at k [] = 0" "credits_at k [] = 0"
  by (simp_all add: debits_at_def credits_at_def)

text \<open>Summed over the canonical accounts, a good line counts once, in its own currency.\<close>

lemma accounts_sum:
  assumes "\<forall>l \<in> set ls. good_line cur l"
  shows "(\<Sum>a \<in> set tcsl_accounts. debits_at (a, c) ls) = (if c = cur then (\<Sum>l\<leftarrow>ls. line_debit l) else 0)"
    and "(\<Sum>a \<in> set tcsl_accounts. credits_at (a, c) ls) = (if c = cur then (\<Sum>l\<leftarrow>ls. line_credit l) else 0)"
proof -
  have one: "(\<Sum>a \<in> set tcsl_accounts. if (jl_account l, m_currency (jl_amount l)) = (a, c) then x else (0 :: rat))
      = (if c = cur then x else 0)" if "good_line cur l" for l x
    using that by (auto simp: good_line_def account_canonical_def)
  show "(\<Sum>a \<in> set tcsl_accounts. debits_at (a, c) ls) = (if c = cur then (\<Sum>l\<leftarrow>ls. line_debit l) else 0)"
    using assms
  proof (induction ls)
    case (Cons l ls)
    then show ?case using one[of l "line_debit l"] by (simp add: debits_at_def sum.distrib)
  qed (simp add: debits_at_def)
  show "(\<Sum>a \<in> set tcsl_accounts. credits_at (a, c) ls) = (if c = cur then (\<Sum>l\<leftarrow>ls. line_credit l) else 0)"
    using assms
  proof (induction ls)
    case (Cons l ls)
    then show ?case using one[of l "line_credit l"] by (simp add: credits_at_def sum.distrib)
  qed (simp add: credits_at_def)
qed

lemma trial_sum:
  assumes "\<forall>j \<in> set js. validate_journal j = Ok () \<and> wf_lines j"
  shows "(\<Sum>a \<in> set tcsl_accounts. debits_at (a, c) (concat (map j_lines js)))
    = (\<Sum>a \<in> set tcsl_accounts. credits_at (a, c) (concat (map j_lines js)))"
  using assms
proof (induction js)
  case (Cons j js)
  then have j: "validate_journal j = Ok ()" "wf_lines j" by auto
  have "(\<Sum>a \<in> set tcsl_accounts. debits_at (a, c) (j_lines j)) = (\<Sum>a \<in> set tcsl_accounts. credits_at (a, c) (j_lines j))"
    using accounts_sum[OF validated_journal(2)[OF j]] validated_journal(1)[OF j] by simp
  then show ?case using Cons by (simp add: sum.distrib)
qed simp

text \<open>Flipping the sides exchanges what lies at a key.\<close>

lemma flipped_lines:
  assumes "\<forall>l \<in> set ls. jl_side l = Debit \<or> jl_side l = Credit"
  shows "debits_at k (map (\<lambda>l. l\<lparr>jl_side := flip (jl_side l)\<rparr>) ls) = credits_at k ls"
    "credits_at k (map (\<lambda>l. l\<lparr>jl_side := flip (jl_side l)\<rparr>) ls) = debits_at k ls"
  using assms by (induction ls) (auto simp: debits_at_def credits_at_def line_debit_def line_credit_def flip_def)

end
