(* ===== verification/SubledgerProps.thy ===== *)
theory SubledgerProps
  imports SubledgerFacts
begin

text \<open>
  The properties of the subledger: transactions and journals balance exactly, control balances are exact
  and the trial balance closes, reversals cancel, and a posting profile posts what the event carries.
\<close>

definition usd :: "nat \<Rightarrow> money" where
  "usd n = \<lparr>m_amount = set_finite (int n) 0, m_currency = ''USD''\<rparr>"

definition posting_entry :: "ident \<Rightarrow> account \<Rightarrow> money \<Rightarrow> ledger_entry" where
  "posting_entry i a m = \<lparr>en_id = i, en_tenant = 1, en_key = ''T'', en_decision = None, en_account = a,
     en_jurisdiction = ''J'', en_amount = m, en_event_time = 1, en_recorded_at = 1, en_reverses = None\<rparr>"

definition paid_tax :: transaction where
  "paid_tax = \<lparr>tx_key = ''T'', tx_entries = [posting_entry 1 ''A'' (usd 20), posting_entry 2 ''B'' (money_neg (usd 20))]\<rparr>"

text \<open>C25. A transaction that passes Validate sums to exactly zero in every currency it touches, and so does
  its reversal: one entry per entry, in order, on the same account and in the same currency, with the
  negated amount, the new key and identifiers, naming the entry it cancels.\<close>

theorem transaction_reversal:
  assumes "validate_transaction t = Ok u" "\<forall>e \<in> set (tx_entries t). wf_money (en_amount e)"
    and "reverse_transaction t key now ids = Ok r"
  shows "currency_sum c (tx_entries t) = 0 \<and> currency_sum c (tx_entries r) = 0
    \<and> tx_key r = key \<and> map en_id (tx_entries r) = ids
    \<and> list_all2 (\<lambda>e x. en_reverses x = Some (en_id e) \<and> en_account x = en_account e
        \<and> m_currency (en_amount x) = m_currency (en_amount e) \<and> amount_of (en_amount x) = - amount_of (en_amount e))
        (tx_entries t) (tx_entries r)"
proof -
  obtain es where es: "length ids = length (tx_entries t)" "r = \<lparr>tx_key = key, tx_entries = es\<rparr>"
    "list_all2 (\<lambda>x y. reverse_entry key now x = Ok y) (zip ids (tx_entries t)) es"
    using assms(3) by (auto simp: reverse_transaction_def mapR_Ok_iff split: if_splits)
  show ?thesis using reversal_entries[OF es(3,1) assms(2)] validated_balances[OF assms(1,2), of c] es(2) by simp
qed

lemma paid_tax_given: "is_ok (validate_transaction paid_tax)" "is_ok (reverse_transaction paid_tax ''R'' 9 [7, 8])"
  by code_simp+

lemma paid_tax_wf: "\<forall>e \<in> set (tx_entries paid_tax). wf_money (en_amount e)"
  by (simp add: paid_tax_def posting_entry_def wf_money_def usd_def wf_dec_def set_finite_def money_neg_def dec_neg_def dec_is_zero_def dec_sign_def)

lemma transaction_reversal_witness: "\<exists>r. reverse_transaction paid_tax ''R'' 9 [7, 8] = Ok r \<and> currency_sum ''USD'' (tx_entries r) = 0"
proof -
  obtain u r where h: "validate_transaction paid_tax = Ok u" "reverse_transaction paid_tax ''R'' 9 [7, 8] = Ok r"
    using paid_tax_given by (auto simp only: is_ok_iff)
  show ?thesis using transaction_reversal[OF h(1) paid_tax_wf h(2)] h(2) by blast
qed

definition tax_line :: "account \<Rightarrow> side \<Rightarrow> journal_line" where
  "tax_line a s = \<lparr>jl_account = a, jl_side = s, jl_amount = usd 20, jl_authority = [], jl_jurisdiction = ''J'',
     jl_decision = None, jl_document = None, jl_obligation = None\<rparr>"

definition tax_journal :: "ident \<Rightarrow> journal" where
  "tax_journal i = \<lparr>j_id = i, j_tenant = 1, j_entity = 1, j_type = JtInvoice, j_source = \<lparr>se_kind = ''DECISION'', se_id = ''d''\<rparr>,
     j_posting_date = 1, j_period = ''2026-09'', j_currency = ''USD'',
     j_lines = [tax_line ''TAX_RECEIVABLE_CONTROL'' Debit, tax_line ''TAX_COLLECTED_LIABILITY'' Credit],
     j_reversal_of = None, j_profile = \<lparr>pr_id = ''P'', pr_version = ''1''\<rparr>, j_amendment = False,
     j_migration_source = [], j_cutover = None\<rparr>"

text \<open>C26. The control balances are exact and the trial balance closes. After validated journals, the
  balances hold an account and currency exactly when a line posted there, with the exact sums of its
  debits and credits; and in every currency the debits of all accounts equal the credits.\<close>

theorem trial_balance:
  assumes "balances_of js = Ok b" "\<forall>j \<in> set js. validate_journal j = Ok () \<and> wf_lines j"
  shows "dom b = (\<lambda>l. (jl_account l, m_currency (jl_amount l))) ` (\<Union>j \<in> set js. set (j_lines j))
    \<and> (\<forall>k. debit_of b k = debits_at k (concat (map j_lines js)) \<and> credit_of b k = credits_at k (concat (map j_lines js)))
    \<and> (\<forall>c. (\<Sum>a \<in> set tcsl_accounts. debit_of b (a, c)) = (\<Sum>a \<in> set tcsl_accounts. credit_of b (a, c)))"
proof -
  have w: "\<forall>j \<in> set js. wf_lines j" using assms(2) by blast
  show ?thesis unfolding balances_exact[OF assms(1) w] using trial_sum[OF assms(2)] by simp
qed

text \<open>C27. Reversing a journal cancels it: the reversal is a valid journal of its own that names what it
  reverses, keeps the period, the currency and the entity, and added to the balances leaves every account
  with debits equal to credits.\<close>

theorem reversal_cancels:
  assumes "validate_journal j = Ok ()" "wf_lines j" "reverse_journal j i date src = Ok r" "balances_of [j, r] = Ok b"
  shows "validate_journal r = Ok () \<and> j_reversal_of r = Some (j_id j) \<and> j_id r \<noteq> j_id j
    \<and> j_period r = j_period j \<and> j_entity r = j_entity j \<and> j_currency r = j_currency j
    \<and> debit_of b k = credit_of b k"
proof -
  let ?out = "j\<lparr>j_id := i, j_source := src, j_posting_date := date, j_reversal_of := Some (j_id j),
     j_lines := map (\<lambda>l. l\<lparr>jl_side := flip (jl_side l)\<rparr>) (j_lines j)\<rparr>"
  have r: "r = ?out" "validate_journal r = Ok ()" "i \<noteq> j_id j"
    using assms(3) by (auto simp: reverse_journal_def Let_def split: if_splits)
  have w: "\<forall>x \<in> set [j, r]. wf_lines x" using assms(2) r(1) by (simp add: wf_lines_def)
  have sides: "\<forall>l \<in> set (j_lines j). jl_side l = Debit \<or> jl_side l = Credit"
    using validated_journal(2)[OF assms(1,2)] by (auto simp: good_line_def)
  have "debit_of b k = credit_of b k"
    using balances_exact(1,2)[OF assms(4) w] flipped_lines[OF sides] r(1) by simp
  then show ?thesis using r by simp
qed

lemma tax_journals_given:
  "is_ok (validate_journal (tax_journal 1))"
  "is_ok (reverse_journal (tax_journal 1) 2 5 \<lparr>se_kind = ''VOID'', se_id = ''v''\<rparr>)"
  by code_simp+

lemma tax_journal_wf: "wf_lines (tax_journal i)"
  by (simp add: wf_lines_def tax_journal_def tax_line_def usd_def wf_money_def wf_dec_def set_finite_def)

lemma tax_balances: "is_ok (bindR (reverse_journal (tax_journal 1) 2 5 \<lparr>se_kind = ''VOID'', se_id = ''v''\<rparr>) (\<lambda>r. balances_of [tax_journal 1, r]))"
  by code_simp

lemma tax_balance: "is_ok (balances_of [tax_journal 1])"
  by code_simp

lemma trial_balance_witness:
  "\<exists>b. balances_of [tax_journal 1] = Ok b
    \<and> (\<Sum>a \<in> set tcsl_accounts. debit_of b (a, ''USD'')) = (\<Sum>a \<in> set tcsl_accounts. credit_of b (a, ''USD''))"
proof -
  obtain b where b: "balances_of [tax_journal 1] = Ok b" using tax_balance by (auto simp only: is_ok_iff)
  have "\<forall>j \<in> set [tax_journal 1]. validate_journal j = Ok () \<and> wf_lines j"
    using tax_journals_given(1) tax_journal_wf by (auto simp: is_ok_iff)
  from trial_balance[OF b this] b show ?thesis by blast
qed

lemma reversal_cancels_witness:
  "\<exists>r b. reverse_journal (tax_journal 1) 2 5 \<lparr>se_kind = ''VOID'', se_id = ''v''\<rparr> = Ok r \<and> balances_of [tax_journal 1, r] = Ok b
    \<and> debit_of b (''TAX_COLLECTED_LIABILITY'', ''USD'') = credit_of b (''TAX_COLLECTED_LIABILITY'', ''USD'')"
proof -
  obtain r b where h: "reverse_journal (tax_journal 1) 2 5 \<lparr>se_kind = ''VOID'', se_id = ''v''\<rparr> = Ok r" "balances_of [tax_journal 1, r] = Ok b"
    using tax_balances by (auto simp only: is_ok_iff bindR_eq_Ok)
  have v: "validate_journal (tax_journal 1) = Ok ()" using tax_journals_given(1) by (auto simp: is_ok_iff)
  show ?thesis using reversal_cancels[OF v tax_journal_wf h] h by blast
qed

definition rule_amount :: "posting_event \<Rightarrow> posting_rule \<Rightarrow> rat" where
  "rule_amount ev r = (case ev_amounts ev (pl_amount r) of
     None \<Rightarrow> 0 | Some m \<Rightarrow> if pl_side r = Debit then amount_of m else - amount_of m)"

definition net_on :: "account \<Rightarrow> journal_line list \<Rightarrow> rat" where
  "net_on a ls = (\<Sum>l\<leftarrow>ls. if jl_account l = a then line_debit l - line_credit l else 0)"

lemma post_line_net:
  assumes "post_line ev ls r = Ok ls'" "\<forall>m \<in> ran (ev_amounts ev). wf_money m"
  shows "ev_amounts ev (pl_amount r) \<noteq> None
    \<and> net_on a ls' = net_on a ls + (if pl_account r = a then rule_amount ev r else 0)
    \<and> ((\<forall>l \<in> set ls. wf_money (jl_amount l)) \<longrightarrow> (\<forall>l \<in> set ls'. wf_money (jl_amount l)))"
proof -
  obtain m where m: "ev_amounts ev (pl_amount r) = Some m" using assms(1) by (auto simp: post_line_def split: option.splits)
  have w: "wf_money m" using m assms(2) by (auto simp: ran_def)
  show ?thesis
  proof (cases "money_is_zero m")
    case True
    then show ?thesis using assms(1) m w money_is_zero_iff by (auto simp: post_line_def rule_amount_def)
  next
    case False
    then obtain l where l: "ls' = ls @ [l]" "jl_account l = pl_account r" "jl_amount l = (if money_sign m < 0 then money_neg m else m)"
      "jl_side l = (if money_sign m < 0 then flip (pl_side r) else pl_side r)"
      using assms(1) m by (cases "money_sign m < 0") (auto simp: post_line_def Let_def)
    then show ?thesis using m w money_neg_ok[OF w] by (auto simp: net_on_def rule_amount_def line_debit_def line_credit_def flip_def)
  qed
qed

lemma post_lines_net:
  assumes "foldR (post_line ev) ls rs = Ok ls'" "\<forall>m \<in> ran (ev_amounts ev). wf_money m" "\<forall>l \<in> set ls. wf_money (jl_amount l)"
  shows "(\<forall>r \<in> set rs. ev_amounts ev (pl_amount r) \<noteq> None) \<and> (\<forall>l \<in> set ls'. wf_money (jl_amount l))
    \<and> net_on a ls' = net_on a ls + (\<Sum>r\<leftarrow>rs. if pl_account r = a then rule_amount ev r else 0)"
  using assms(1,3)
proof (induction rs arbitrary: ls)
  case (Cons r rs)
  then obtain mid where m: "post_line ev ls r = Ok mid" "foldR (post_line ev) mid rs = Ok ls'" by auto
  note L = post_line_net[OF m(1) assms(2), of a]
  show ?case using L Cons.IH[OF m(2)] Cons.prems(2) by auto
qed simp

text \<open>C28. A posting profile posts exactly what the event carries: a journal comes out only of an approved
  profile in effect at the event's time that has a rule for the event and an amount for each of its
  lines, it is valid, and on every account its debits less its credits are the sum of the rules'
  amounts for that account, a credit rule counting negatively whatever the sign of the event's amount.\<close>

theorem posting_exact:
  assumes "post p ev i date = Ok j" "\<forall>m \<in> ran (ev_amounts ev). wf_money m"
  shows "validate_journal j = Ok () \<and> effective_at p (ev_time ev) \<and> j_source j = ev_source ev
    \<and> (\<exists>e. pp_rules p (se_kind (ev_source ev)) = Some e \<and> j_type j = pe_type e
        \<and> (\<forall>r \<in> set (pe_lines e). ev_amounts ev (pl_amount r) \<noteq> None)
        \<and> (\<forall>a. net_on a (j_lines j) = (\<Sum>r\<leftarrow>pe_lines e. if pl_account r = a then rule_amount ev r else 0)))"
proof -
  obtain e ls where e: "pp_rules p (se_kind (ev_source ev)) = Some e" "foldR (post_line ev) [] (pe_lines e) = Ok ls"
    "j_lines j = ls" "j_type j = pe_type e" "validate_journal j = Ok ()" "effective_at p (ev_time ev)" "j_source j = ev_source ev"
    using assms(1) by (auto simp: post_def Let_def split: if_splits option.splits)
  show ?thesis using e post_lines_net[OF e(2) assms(2)] by (auto simp: net_on_def)
qed

definition sale_profile :: posting_profile where
  "sale_profile = \<lparr>pp_ref = \<lparr>pr_id = ''P'', pr_version = ''1''\<rparr>, pp_tenant = 1, pp_entity = 1, pp_from = 0, pp_to = None,
     pp_owner = 5, pp_approval = [],
     pp_rules = [''DECISION'' \<mapsto> \<lparr>pe_type = JtInvoice, pe_lines =
       [\<lparr>pl_account = ''TAX_RECEIVABLE_CONTROL'', pl_side = Debit, pl_amount = ''tax''\<rparr>,
        \<lparr>pl_account = ''TAX_COLLECTED_LIABILITY'', pl_side = Credit, pl_amount = ''tax''\<rparr>]\<rparr>]\<rparr>"

definition credit_event :: posting_event where
  "credit_event = \<lparr>ev_source = \<lparr>se_kind = ''DECISION'', se_id = ''d''\<rparr>, ev_time = 3, ev_period = ''2026-09'',
     ev_currency = ''USD'', ev_amounts = [''tax'' \<mapsto> money_neg (usd 20)], ev_authority = [], ev_jurisdiction = ''J'',
     ev_decision = None, ev_document = None\<rparr>"

lemma credit_posts: "is_ok (post sale_profile credit_event 4 3)"
  by code_simp

lemma posting_exact_witness:
  "\<exists>j. post sale_profile credit_event 4 3 = Ok j \<and> net_on ''TAX_COLLECTED_LIABILITY'' (j_lines j) = 20"
proof -
  obtain j where j: "post sale_profile credit_event 4 3 = Ok j" using credit_posts by (auto simp only: is_ok_iff)
  have w: "\<forall>m \<in> ran (ev_amounts credit_event). wf_money m"
    by (simp add: credit_event_def wf_money_def usd_def wf_dec_def set_finite_def money_neg_def dec_neg_def dec_is_zero_def dec_sign_def)
  from posting_exact[OF j w] have "net_on ''TAX_COLLECTED_LIABILITY'' (j_lines j) = - amount_of (money_neg (usd 20))"
    by (auto simp: credit_event_def sale_profile_def rule_amount_def)
  then show ?thesis using j
    by (auto simp: amount_of_def money_neg_def usd_def set_finite_def dec_neg_def dec_val_def dec_is_zero_def dec_sign_def)
qed

end
