(* ===== verification/Merkle.thy ===== *)
theory Merkle
  imports Digest
begin

text \<open>
  Facts on the Merkle tree of \<open>digest.go\<close>: hexadecimal round trips, the node above a position, and
  the two directions of the audit path.
\<close>

section \<open>Hexadecimal round trips\<close>

lemma below_16: "list_all P [0..<16] \<Longrightarrow> n < 16 \<Longrightarrow> P n"
  by (simp add: list_all_iff)

lemma hex_val_digit: "n < 16 \<Longrightarrow> hex_val (hex_digit n) = Some n"
  by (rule below_16) code_simp

lemma hex_decode_encode [simp]: "hex_decode (hex_encode s) = Ok s"
proof (induction s)
  case (Cons c s)
  have "of_char c div 16 < (16 :: nat)" using nat_of_char_less_256[of c] by linarith
  moreover have "16 * (of_char c div 16) + of_char c mod 16 = (of_char c :: nat)" by simp
  ultimately show ?case using Cons by (simp add: hex_val_digit)
qed simp

lemma raw_node_digest [simp]: "raw_digest (node_digest h) = Ok h"
  by (simp add: raw_digest_def node_digest_def cut_prefix_def)

lemma hex_encode_inject: "hex_encode s = hex_encode t \<Longrightarrow> s = t"
  using hex_decode_encode by (metis result.inject(2))

lemma node_digest_inject: "node_digest h = node_digest k \<Longrightarrow> h = k"
  by (auto simp: node_digest_def intro: hex_encode_inject)

text \<open>A digest that ParseDigest accepts is the text of its bytes.\<close>

lemma hex_val_lower: "hex_val c = Some n \<Longrightarrow> ascii_lower c = c \<Longrightarrow> n < 16 \<and> hex_digit n = c"
proof -
  assume v: "hex_val c = Some n" and l: "ascii_lower c = c"
  let ?k = "of_char c :: nat"
  have "\<not> (65 \<le> ?k \<and> ?k \<le> 90)"
  proof
    assume u: "65 \<le> ?k \<and> ?k \<le> 90"
    then have "char_of (?k + 32) = c" using l by (simp add: ascii_lower_def Let_def)
    then have "?k = (?k + 32) mod 256" by (metis of_char_of)
    then show False using u by simp
  qed
  then have k: "48 \<le> ?k \<and> ?k \<le> 57 \<and> n = ?k - 48 \<or> 97 \<le> ?k \<and> ?k \<le> 102 \<and> n = ?k - 87"
    using v by (auto simp: hex_val_def Let_def split: if_splits)
  have c: "c = char_of ?k" by simp
  have n: "n < 16" using k by linarith
  have "?k = (if n < 10 then n + 48 else n + 87)" using k by auto
  then have "c = char_of (if n < 10 then n + 48 else n + 87)" using c by metis
  moreover have "hex_digit n = char_of (if n < 10 then n + 48 else n + 87)"
    by (rule below_16[OF _ n]) code_simp
  ultimately show ?thesis using n by simp
qed

lemma hex_encode_decode: "hex_decode s = Ok r \<Longrightarrow> map ascii_lower s = s \<Longrightarrow> hex_encode r = s"
proof (induction s arbitrary: r rule: hex_decode.induct)
  case (3 c d cs)
  then obtain a b out where v: "hex_val c = Some a" "hex_val d = Some b" "hex_decode cs = Ok out" "r = char_of (16 * a + b) # out"
    by (auto split: option.splits)
  have d: "a < 16 \<and> hex_digit a = c" "b < 16 \<and> hex_digit b = d"
    using hex_val_lower[OF v(1)] hex_val_lower[OF v(2)] "3.prems"(2) by auto
  then have "of_char (char_of (16 * a + b) :: char) = (16 * a + b :: nat)" by simp
  then have "hex_encode r = hex_digit a # hex_digit b # hex_encode out" using d v(4) by simp
  then show ?case using "3.IH" v d "3.prems"(2) by simp
qed simp_all

lemma parsed_digest: "parse_digest d = Ok d' \<Longrightarrow> d' = d \<and> (\<exists>r. raw_digest d = Ok r \<and> d = node_digest r)"
  by (auto simp: parse_digest_def raw_digest_def cut_prefix_def node_digest_def hex_encode_decode
      split: option.splits if_splits) (metis append_take_drop_id hex_encode_decode)

section \<open>The node above a position\<close>

lemma next_level_nth:
  "i < length xs \<Longrightarrow> next_level sha xs ! (i div 2) =
     (if sibling i < length xs
      then (if odd i then interior_hash sha (xs ! (i - 1)) (xs ! i) else interior_hash sha (xs ! i) (xs ! (i + 1)))
      else xs ! i)"
proof (induction sha xs arbitrary: i rule: next_level.induct)
  case (1 sha x y zs)
  show ?case
  proof (cases "i < 2")
    case True
    then have "i = 0 \<or> i = 1" by linarith
    then show ?thesis by (auto simp: sibling_def)
  next
    case False
    then obtain k where k: "i = k + 2" by (metis add.commute le_Suc_ex not_less)
    have s: "sibling i = sibling k + 2" using k by (auto simp: sibling_def elim: oddE)
    have IH: "next_level sha zs ! (k div 2) =
        (if sibling k < length zs then (if odd k then interior_hash sha (zs ! (k - 1)) (zs ! k) else interior_hash sha (zs ! k) (zs ! (k + 1))) else zs ! k)"
      using 1 k by simp
    have "odd k \<Longrightarrow> (x # y # zs) ! (i - 1) = zs ! (k - 1)" using k by (cases k) auto
    have d: "i div 2 = Suc (k div 2)" "odd i = odd k" "(x # y # zs) ! i = zs ! k" "(x # y # zs) ! (i + 1) = zs ! (k + 1)" using k by auto
    show ?thesis using IH s \<open>odd k \<Longrightarrow> (x # y # zs) ! (i - 1) = zs ! (k - 1)\<close> unfolding d by simp
  qed
qed (auto simp: sibling_def)

lemma next_level_in: "x \<in> set (next_level sha xs) \<Longrightarrow> x \<in> set xs \<or> x \<in> range sha"
  by (induction sha xs rule: next_level.induct) (auto simp: interior_hash_def)

lemma climb_single: "level \<noteq> [] \<Longrightarrow> length (climb sha level) = 1"
proof (induction sha level rule: climb.induct)
  case (1 sha level)
  show ?case
  proof (cases "1 < length level")
    case True
    then have "length (next_level sha level) \<noteq> 0" by simp
    then have "next_level sha level \<noteq> []" by (metis list.size(3))
    then show ?thesis using 1 True by (simp add: climb.simps[of sha level])
  next
    case False
    then show ?thesis using 1 by (simp add: climb.simps[of sha level]) (cases level; simp)
  qed
qed

section \<open>The path of a leaf leads to the root\<close>

lemma audit_path_verifies:
  "i < length level \<Longrightarrow>
    verify_path sha (level ! i) i (length level) used (audit_path sha level i @ rest) = Ok (hd (climb sha level), rest)"
proof (induction sha level i arbitrary: used rule: audit_path.induct)
  case (1 sha level i)
  show ?case
  proof (cases "1 < length level")
    case False
    then have "length level = 1" "i = 0" using "1.prems" by auto
    then show ?thesis
      by (simp add: verify_path.simps climb.simps audit_path.simps) (cases level; simp)
  next
    case True
    have i2: "i div 2 < length (next_level sha level)" using "1.prems" by simp
    have c: "climb sha level = climb sha (next_level sha level)" using True by (simp add: climb.simps[of sha level])
    have IH: "verify_path sha (next_level sha level ! (i div 2)) (i div 2) ((length level + 1) div 2) u
        (audit_path sha (next_level sha level) (i div 2) @ rest) = Ok (hd (climb sha (next_level sha level)), rest)" for u
      using "1.IH"[OF True i2, of u] by simp
    have s: "sibling i < length level \<longleftrightarrow> i mod 2 = 1 \<or> i + 1 < length level"
      using "1.prems" by (auto simp: sibling_def odd_iff_mod_2_eq_one)
    show ?thesis
    proof (cases "sibling i < length level")
      case False
      then show ?thesis
        using IH True s next_level_nth[OF "1.prems", of sha]
        by (simp add: verify_path.simps[of sha "level ! i"] audit_path.simps[of sha level] c)
    next
      case sib: True
      have "audit_path sha level i @ rest = node_digest (level ! sibling i) # audit_path sha (next_level sha level) (i div 2) @ rest"
        using True sib by (simp add: audit_path.simps[of sha level])
      moreover have "(if i mod 2 = 1 then interior_hash sha (level ! sibling i) (level ! i) else interior_hash sha (level ! i) (level ! sibling i))
          = next_level sha level ! (i div 2)"
        using next_level_nth[OF "1.prems", of sha] sib by (auto simp: sibling_def odd_iff_mod_2_eq_one)
      ultimately show ?thesis
        using IH True s sib by (simp add: verify_path.simps[of sha "level ! i"] c)
    qed
  qed
qed

section \<open>A path that leads to the root starts at its leaf\<close>

text \<open>The strings hashed on the way up a tree, and along a path.\<close>

fun pair_inputs :: "string list \<Rightarrow> string set" where
  "pair_inputs (x # y # zs) = insert (merkleInteriorPrefix # x @ y) (pair_inputs zs)"
| "pair_inputs [x] = {}"
| "pair_inputs [] = {}"

function climb_inputs :: "hash \<Rightarrow> string list \<Rightarrow> string set" where
  "climb_inputs sha level =
     (if 1 < length level then pair_inputs level \<union> climb_inputs sha (next_level sha level) else {})"
  by pat_completeness auto
termination by (relation "measure (\<lambda>(sha, level). length level)") auto

function path_inputs :: "hash \<Rightarrow> string \<Rightarrow> nat \<Rightarrow> nat \<Rightarrow> digest list \<Rightarrow> string set" where
  "path_inputs sha cur i n path =
     (if 1 < n then
        (if i mod 2 = 1 \<or> i + 1 < n then
           (case path of
              [] \<Rightarrow> {}
            | p # ps \<Rightarrow>
              (case raw_digest p of
                 Err e \<Rightarrow> {}
               | Ok sib \<Rightarrow>
                 let input = merkleInteriorPrefix # (if i mod 2 = 1 then sib @ cur else cur @ sib) in
                 insert input (path_inputs sha (sha input) (i div 2) ((n + 1) div 2) ps)))
         else path_inputs sha cur (i div 2) ((n + 1) div 2) path)
      else {})"
  by pat_completeness auto
termination by (relation "measure (\<lambda>(sha, cur, i, n, path). n)") auto

declare climb_inputs.simps [simp del] path_inputs.simps [simp del]

lemma pair_inputs_nth: "sibling i < length xs \<Longrightarrow> i < length xs \<Longrightarrow>
  merkleInteriorPrefix # (if odd i then xs ! (i - 1) @ xs ! i else xs ! i @ xs ! (i + 1)) \<in> pair_inputs xs"
proof (induction xs arbitrary: i rule: pair_inputs.induct)
  case (1 x y zs)
  show ?case
  proof (cases "i < 2")
    case True
    then have "i = 0 \<or> i = 1" by linarith
    then show ?thesis by auto
  next
    case False
    then obtain k where k: "i = k + 2" by (metis add.commute le_Suc_ex not_less)
    have s: "sibling i = sibling k + 2" using k by (auto simp: sibling_def elim: oddE)
    have "odd k \<Longrightarrow> (x # y # zs) ! (i - 1) = zs ! (k - 1)" using k by (cases k) auto
    then show ?thesis using "1.IH"[of k] "1.prems" k s by auto
  qed
qed (auto simp: sibling_def)

lemma path_sound:
  assumes "verify_path sha cur i (length level) used path = Ok (hd (climb sha level), rest)" "i < length level"
    and "\<forall>x. length (sha x) = L" "length cur = L" "\<forall>x \<in> set level. length x = L"
    and "inj_on sha (climb_inputs sha level \<union> path_inputs sha cur i (length level) path)"
  shows "cur = level ! i"
  using assms
proof (induction "length level" arbitrary: cur i level used path rule: less_induct)
  case less
  note IH = less.hyps and prem = less.prems
  show ?case
  proof (cases "1 < length level")
    case False
    then have l: "length level = 1" "i = 0" using prem(2) by auto
    then obtain x where "level = [x]" by (cases level) auto
    then show ?thesis using prem(1) l by (simp add: verify_path.simps climb.simps)
  next
    case True
    let ?up = "next_level sha level"
    have c: "climb sha level = climb sha ?up" using True by (simp add: climb.simps[of sha level])
    have up: "length ?up < length level" "i div 2 < length ?up" "(length level + 1) div 2 = length ?up"
      "\<forall>x \<in> set ?up. length x = L"
      using True prem(2,3,5) next_level_in[of _ sha level] by auto
    have ci: "climb_inputs sha level = pair_inputs level \<union> climb_inputs sha ?up"
      using True by (simp add: climb_inputs.simps[of sha level])
    have s: "sibling i < length level \<longleftrightarrow> i mod 2 = 1 \<or> i + 1 < length level"
      using prem(2) by (auto simp: sibling_def odd_iff_mod_2_eq_one)
    note nth = next_level_nth[OF prem(2), of sha]
    show ?thesis
    proof (cases "sibling i < length level")
      case False
      have "cur = ?up ! (i div 2)"
      proof (rule IH[OF up(1) _ up(2) prem(3,4) up(4)])
        show "verify_path sha cur (i div 2) (length ?up) used path = Ok (hd (climb sha ?up), rest)"
          using prem(1) True False s up(3) c by (simp add: verify_path.simps[of sha cur])
        have "path_inputs sha cur i (length level) path = path_inputs sha cur (i div 2) (length ?up) path"
          using True False s up(3) by (simp add: path_inputs.simps[of sha cur i])
        then show "inj_on sha (climb_inputs sha ?up \<union> path_inputs sha cur (i div 2) (length ?up) path)"
          using prem(6) ci by (auto intro: inj_on_subset)
      qed
      then show ?thesis using nth False by simp
    next
      case sib: True
      obtain p ps raw where p: "path = p # ps" "raw_digest p = Ok raw"
        and v: "verify_path sha (if i mod 2 = 1 then interior_hash sha raw cur else interior_hash sha cur raw)
            (i div 2) (length ?up) (used + 1) ps = Ok (hd (climb sha ?up), rest)"
        using prem(1) True sib s up(3) c by (auto simp: verify_path.simps[of sha cur] split: list.splits)
      define input where "input = merkleInteriorPrefix # (if i mod 2 = 1 then raw @ cur else cur @ raw)"
      have n: "(if i mod 2 = 1 then interior_hash sha raw cur else interior_hash sha cur raw) = sha input"
        by (simp add: interior_hash_def input_def)
      have pi: "path_inputs sha cur i (length level) path = insert input (path_inputs sha (sha input) (i div 2) (length ?up) ps)"
        using True sib s up(3) p by (simp add: path_inputs.simps[of sha cur i] input_def Let_def)
      have "sha input = ?up ! (i div 2)"
      proof (rule IH[OF up(1) _ up(2) prem(3) _ up(4)])
        show "verify_path sha (sha input) (i div 2) (length ?up) (used + 1) ps = Ok (hd (climb sha ?up), rest)"
          using v n by simp
        show "inj_on sha (climb_inputs sha ?up \<union> path_inputs sha (sha input) (i div 2) (length ?up) ps)"
          using prem(6) ci pi by (auto intro: inj_on_subset)
      qed (use prem(3) in simp)
      define node where "node = merkleInteriorPrefix # (if odd i then level ! (i - 1) @ level ! i else level ! i @ level ! (i + 1))"
      have "?up ! (i div 2) = sha node" using nth sib by (simp add: node_def interior_hash_def)
      moreover have "node \<in> pair_inputs level" unfolding node_def by (rule pair_inputs_nth[OF sib prem(2)])
      ultimately have "input = node"
        using prem(6) ci pi \<open>sha input = ?up ! (i div 2)\<close> by (auto simp: inj_on_def)
      moreover have "length (level ! i) = L" "odd i \<Longrightarrow> i - 1 < length level" using prem(2,5) by auto
      ultimately show ?thesis
        using prem(4) by (auto simp: input_def node_def odd_iff_mod_2_eq_one split: if_splits)
    qed
  qed
qed

lemma leaf_level_nth:
  assumes "leaf_level sha leaves = Ok level"
  shows "length level = length leaves" "i < length leaves \<Longrightarrow> \<exists>raw. raw_digest (leaves ! i) = Ok raw \<and> level ! i = leaf_hash sha raw"
proof -
  note m = assms[unfolded leaf_level_def]
  show "length level = length leaves" using mapR_length[OF m] by simp
  show "\<exists>raw. raw_digest (leaves ! i) = Ok raw \<and> level ! i = leaf_hash sha raw" if "i < length leaves"
    using mapR_nth[OF m, of i] that by (auto simp: nth_enumerate_eq)
qed

end
