(* ===== verification/MerkleProps.thy ===== *)
theory MerkleProps
  imports Merkle
begin

text \<open>
  The properties of the Merkle tree: a leaf's audit path verifies against the root, and nothing else does
  unless the hash collides.
\<close>

text \<open>Everything hashed in building the tree over \<open>leaves\<close> and in checking \<open>leaf\<close> along \<open>path\<close>.\<close>

definition hashed :: "hash \<Rightarrow> digest list \<Rightarrow> digest \<Rightarrow> nat \<Rightarrow> digest list \<Rightarrow> string set" where
  "hashed sha leaves leaf i path =
     (case leaf_level sha leaves of Err e \<Rightarrow> {} | Ok level \<Rightarrow> climb_inputs sha level)
     \<union> (\<Union>d \<in> insert leaf (set leaves). case raw_digest d of Err e \<Rightarrow> {} | Ok raw \<Rightarrow> {merkleLeafPrefix # raw})
     \<union> (case raw_digest leaf of Err e \<Rightarrow> {} | Ok raw \<Rightarrow> path_inputs sha (leaf_hash sha raw) i (length leaves) path)"

text \<open>A hash of 32 bytes and a tree of two leaves.\<close>

definition pad32 :: hash where
  "pad32 x = take 32 (x @ replicate 32 (CHR 0x00))"

definition two_leaves :: "digest list" where
  "two_leaves = [node_digest (replicate 32 (CHR ''a'')), node_digest (replicate 32 (CHR ''b''))]"

lemma two_leaves_proof: "is_ok (inclusion_proof pad32 two_leaves 1)"
  by code_simp

lemma two_leaves_root: "is_ok (merkle_root pad32 two_leaves)"
  by code_simp

definition right_leaf :: digest where
  "right_leaf = node_digest (replicate 32 (CHR ''b''))"

definition left_path :: "digest list" where
  "left_path = [node_digest (pad32 (CHR 0x00 # replicate 32 (CHR ''a'')))]"

lemma right_leaf_verifies:
  "case merkle_root pad32 two_leaves of Err e \<Rightarrow> False | Ok r \<Rightarrow> verify_inclusion pad32 right_leaf 1 2 left_path r = Ok ()"
  by code_simp

lemma two_leaves_parsed: "\<forall>d \<in> insert right_leaf (set two_leaves). parse_digest d = Ok d"
  by code_simp

lemma two_leaves_collision_free: "inj_on pad32 (hashed pad32 two_leaves right_leaf 1 left_path)"
  by code_simp

text \<open>C22. The audit path of a leaf verifies: for every tree and every position, the path InclusionProof
  builds is accepted by VerifyInclusion against the root MerkleRoot computes, whatever the hash.\<close>

theorem inclusion_complete:
  assumes "inclusion_proof sha leaves i = Ok path" "merkle_root sha leaves = Ok r"
  shows "verify_inclusion sha (leaves ! nat i) i (int (length leaves)) path r = Ok ()"
proof -
  obtain level where i: "0 \<le> i" "nat i < length leaves" and l: "leaf_level sha leaves = Ok level"
    and p: "path = audit_path sha level (nat i)"
    using assms(1) by (auto simp: inclusion_proof_def split: if_splits)
  have r: "r = node_digest (hd (climb sha level))"
    using assms(2) l i(2) by (auto simp: merkle_root_def split: if_splits)
  obtain raw where raw: "raw_digest (leaves ! nat i) = Ok raw" "level ! nat i = leaf_hash sha raw"
    using leaf_level_nth(2)[OF l i(2)] by blast
  have "verify_path sha (level ! nat i) (nat i) (length level) 0 (audit_path sha level (nat i) @ []) = Ok (hd (climb sha level), [])"
    by (rule audit_path_verifies) (use leaf_level_nth(1)[OF l] i in simp)
  then show ?thesis using i raw r p leaf_level_nth(1)[OF l] by (simp add: verify_inclusion_def)
qed

lemma inclusion_complete_witness:
  "\<exists>path r. merkle_root pad32 two_leaves = Ok r \<and> verify_inclusion pad32 (two_leaves ! 1) 1 2 path r = Ok ()"
proof -
  obtain path r where "inclusion_proof pad32 two_leaves 1 = Ok path" "merkle_root pad32 two_leaves = Ok r"
    using two_leaves_proof two_leaves_root by (auto simp: is_ok_iff)
  then show ?thesis using inclusion_complete[of pad32 two_leaves 1 path r] by (auto simp: two_leaves_def)
qed

text \<open>C23. Verification is sound: a digest that VerifyInclusion accepts at a position against the root of a
  tree is the digest of the leaf sealed at that position, provided the hash returns 32 bytes and does not
  collide on the strings hashed in the tree and along the path.\<close>

theorem inclusion_sound:
  assumes "merkle_root sha leaves = Ok r" "verify_inclusion sha leaf i (int (length leaves)) path r = Ok ()"
    and "\<forall>d \<in> insert leaf (set leaves). parse_digest d = Ok d"
    and "\<forall>x. length (sha x) = 32" "inj_on sha (hashed sha leaves leaf (nat i) path)"
  shows "leaf = leaves ! nat i"
proof -
  obtain raw cur where i: "0 \<le> i" "nat i < length leaves" and raw: "raw_digest leaf = Ok raw"
    and v: "verify_path sha (leaf_hash sha raw) (nat i) (length leaves) 0 path = Ok (cur, [])" and r: "node_digest cur = r"
    using assms(2) by (auto simp: verify_inclusion_def split: if_splits)
  obtain level where l: "leaf_level sha leaves = Ok level" and root: "r = node_digest (hd (climb sha level))"
    using assms(1) i(2) by (auto simp: merkle_root_def split: if_splits)
  note L = leaf_level_nth[OF l]
  have cur: "cur = hd (climb sha level)" using r root by (auto intro: node_digest_inject)
  have h: "hashed sha leaves leaf (nat i) path = climb_inputs sha level
      \<union> (\<Union>d \<in> insert leaf (set leaves). case raw_digest d of Err e \<Rightarrow> {} | Ok raw \<Rightarrow> {merkleLeafPrefix # raw})
      \<union> path_inputs sha (leaf_hash sha raw) (nat i) (length level) path"
    unfolding hashed_def l raw L(1) by simp
  have "leaf_hash sha raw = level ! nat i"
  proof (rule path_sound)
    show "verify_path sha (leaf_hash sha raw) (nat i) (length level) 0 path = Ok (hd (climb sha level), [])"
      using v cur L(1) by simp
    show "\<forall>x \<in> set level. length x = 32"
      using L assms(4) by (metis in_set_conv_nth leaf_hash_def)
    show "inj_on sha (climb_inputs sha level \<union> path_inputs sha (leaf_hash sha raw) (nat i) (length level) path)"
      using assms(5) unfolding h by (rule inj_on_subset) blast
  qed (use i L(1) assms(4) in \<open>simp_all add: leaf_hash_def\<close>)
  moreover obtain raw' where raw': "raw_digest (leaves ! nat i) = Ok raw'" "level ! nat i = leaf_hash sha raw'"
    using L(2) i(2) by blast
  ultimately have "sha (merkleLeafPrefix # raw) = sha (merkleLeafPrefix # raw')" by (simp add: leaf_hash_def)
  moreover have "leaves ! nat i \<in> set leaves" using i(2) by simp
  then have "merkleLeafPrefix # raw \<in> hashed sha leaves leaf (nat i) path" "merkleLeafPrefix # raw' \<in> hashed sha leaves leaf (nat i) path"
    unfolding h using raw raw' by (auto intro!: bexI[of _ "leaves ! nat i"])
  ultimately have "raw = raw'" using assms(5) by (auto dest: inj_onD)
  moreover have "leaf = node_digest raw" "leaves ! nat i = node_digest raw'"
    using parsed_digest assms(3) raw raw' \<open>leaves ! nat i \<in> set leaves\<close> by (metis insertCI result.inject(2))+
  ultimately show ?thesis by simp
qed

lemma inclusion_sound_witness: "right_leaf = two_leaves ! 1"
proof -
  obtain r where r: "merkle_root pad32 two_leaves = Ok r" "verify_inclusion pad32 right_leaf 1 2 left_path r = Ok ()"
    using right_leaf_verifies by (auto split: result.splits)
  have "\<forall>x. length (pad32 x) = 32" by (auto simp: pad32_def min_def)
  then show ?thesis
    using inclusion_sound[OF r(1) _ two_leaves_parsed, of 1 left_path] r(2) two_leaves_collision_free
    by (simp add: two_leaves_def)
qed

end
