(* ===== verification/PeriodProps.thy ===== *)
theory PeriodProps
  imports PeriodFacts CanonTotal SubledgerProps MerkleProps
begin

text \<open>
  The properties of the period close: the history of a period is legal and final once sealed, a reopening
  has two people behind it, a closed period is what its manifest sealed, closes form a chain, postings
  pass the gate, and a permitted move never gets stuck.
\<close>

section \<open>A permitted move succeeds\<close>

lemma manifest_encodable: "encodable (manifest_value m)"
  by (auto simp: manifest_value_def encodable_object list_all_iff balance_value_def document_value_def exception_value_def
      c_money_def c_time_def)

lemma seal_manifest_total:
  assumes "cm_tenant m \<noteq> 0" "cm_entity m \<noteq> 0" "cm_period m \<noteq> []" "cm_closed_at m \<noteq> 0"
  shows "\<exists>out body. seal_manifest sha m = Ok (out, sum_bytes sha body, body)"
  using encode_total[OF manifest_encodable[of "order_manifest m"]] assms
  by (auto simp: seal_manifest_def Let_def is_ok_iff)

lemma append_event_total:
  assumes "consecutive (rows s (ph_entity e) (ph_period e))" "ph_seq e = int (length (rows s (ph_entity e) (ph_period e))) + 1"
    "state_valid (ph_state e)" "ph_recorded_at e \<noteq> 0" "\<forall>i. ph_request e = Some i \<longrightarrow> i \<notin> set (uses (ts_events s))"
  shows "is_ok (append_event s e)"
proof -
  have "ph_seq x \<noteq> ph_seq e" if "x \<in> set (ts_events s)" "ph_entity x = ph_entity e" "ph_period x = ph_period e" for x
  proof -
    have "x \<in> set (rows s (ph_entity e) (ph_period e))" using that by (simp add: rows_def)
    then have "ph_seq x \<in> set (map ph_seq (rows s (ph_entity e) (ph_period e)))" by simp
    then show ?thesis unfolding assms(1)[unfolded consecutive_def] assms(2) by auto
  qed
  then show ?thesis using assms(2-5) by (auto simp: append_event_def list_ex_iff uses_set)
qed

lemma parse_nonempty: "parse_legal_period p \<noteq> None \<Longrightarrow> p \<noteq> []"
  by (auto simp: parse_legal_period_def)

lemma seal_total:
  assumes "tcsl_inv sha totals tenant s" "sc_tenant sc \<noteq> 0" "le \<noteq> 0" "p \<noteq> []" "now \<noteq> 0"
    "foldR balance_row [] (totals (period_journals s le p)) = Ok bs"
  shows "\<exists>t d. seal sha totals docs excs s sc le p now prior = Ok (t, d) \<and> tcsl_inv sha totals tenant t \<and> ts_events t = ts_events s"
proof -
  let ?m = "\<lparr>cm_tenant = sc_tenant sc, cm_entity = le, cm_period = p, cm_journals = sort (map j_id (period_journals s le p)),
     cm_balances = bs, cm_documents = docs, cm_exceptions = excs, cm_closed_at = now, cm_closed_by = sc_subject sc, cm_supersedes = prior\<rparr>"
  obtain out body where m: "seal_manifest sha ?m = Ok (out, sum_bytes sha body, body)"
    using seal_manifest_total[of ?m sha] assms(2-5) by auto
  obtain t where t: "put_manifest sha s (sum_bytes sha body) body = Ok t"
    by (cases "map_of (ts_manifests s) (sum_bytes sha body)") (auto simp: put_manifest_def)
  show ?thesis using m t put_manifest_inv[OF assms(1) t] assms(6) by (simp add: seal_def population_def)
qed

lemma move_total:
  assumes inv: "tcsl_inv sha totals tenant s"
    and c: "sc_tenant sc = tenant" "tenant \<noteq> 0" "RoleOperator \<in> set (sc_roles sc)" "parse_legal_period p \<noteq> None" "le \<noteq> 0"
    and t: "can_move_to (state_of (history s le p)) to" "to \<noteq> PsReopened" "length reason \<le> 1000" "1000 \<le> clock"
    and pop: "is_ok (population totals docs excs s le p)"
  shows "\<exists>s' v. transition sha totals docs excs s (Some sc) (Ok le) p to reason clock = Ok (s', v) \<and> pv_state v = to"
proof -
  obtain cur where cur: "view sha s le p = Ok cur" "pv_state cur = state_of (rows s le p)" "pv_history cur = rows s le p"
    "pv_manifest cur = latest_manifest (rows s le p)" using view_total[OF inv] .
  have con: "consecutive (rows s le p)" using inv by (simp add: tcsl_inv_def)
  have move: "can_move_to (pv_state cur) to" using t(1) cur(2) history_rows[OF con] by simp
  have valid: "state_valid to" using move by (cases "pv_state cur"; cases to) auto
  have sc: "scope (Some sc) p [RoleOperator] (Ok le) = Ok (sc, le, p)"
    using c parsed_period by (cases "parse_legal_period p") (auto simp: scope_def require_role_or_system_def)
  have now: "to_micros clock \<noteq> 0" using t(4) pos_mod_bound[of 1000 clock] by (simp add: to_micros_def)
  obtain bs where bs: "foldR balance_row [] (totals (period_journals s le p)) = Ok bs"
    using pop by (auto simp: population_def is_ok_iff)
  obtain u d where u: "if closes to then seal sha totals docs excs s sc le p (to_micros clock) (pv_manifest cur) = Ok (u, d) else u = s \<and> d = []"
    "ts_events u = ts_events s"
  proof (cases "closes to")
    case True
    have "sc_tenant sc \<noteq> 0" using c(1,2) by simp
    from seal_total[OF inv this c(5) parse_nonempty[OF c(4)] now bs, of docs excs "pv_manifest cur"]
    show ?thesis using that True by auto
  qed (use that in simp)
  have rows_u: "rows u le p = rows s le p" using u(2) by (simp add: rows_def)
  have "is_ok (append_event u (move_event le p cur to reason (to_micros clock) sc d))"
    by (rule append_event_total) (use con cur(3) valid now in \<open>auto simp: rows_u move_event_def\<close>)
  then obtain s' where s': "append_event u (move_event le p cur to reason (to_micros clock) sc d) = Ok s'" by (auto simp: is_ok_iff)
  note M = moved_inv[OF inv c(1) cur(2,3,4) move t(2) u(1) s']
  obtain v where v: "view sha s' le p = Ok v" "pv_state v = state_of (rows s' le p)" using view_total[OF conjunct1[OF M]] by metis
  have "pv_state v = to" using v(2) M by (simp add: state_of_def move_event_def)
  moreover have "transition sha totals docs excs s (Some sc) (Ok le) p to reason clock = Ok (s', v)"
    unfolding transition_split using sc valid t(2,3) cur(1) move u(1) s' v(1) by blast
  ultimately show ?thesis by blast
qed

lemma approve_total:
  assumes inv: "tcsl_inv sha totals (sc_tenant sc) s" and c: "sc_tenant sc \<noteq> 0" "RoleAdmin \<in> set (sc_roles sc)" "parse_legal_period p \<noteq> None"
    and r: "get_reopen_request s i = Ok req" "rq_period req = p" "rq_entity req = le" "rq_requested_by req \<noteq> sc_subject sc" "sc_subject sc \<noteq> 0"
    and t: "state_of (history s le p) = PsHardClose" "i \<notin> set (uses (ts_events s))" "1000 \<le> clock"
  shows "\<exists>s' v. approve_reopen sha s (Some sc) (Ok le) p i clock = Ok (s', v)
    \<and> (\<exists>e. ts_events s' = ts_events s @ [e] \<and> ph_state e = PsReopened)"
proof -
  obtain cur where cur: "view sha s le p = Ok cur" "pv_state cur = state_of (rows s le p)" "pv_history cur = rows s le p" using view_total[OF inv] .
  have con: "consecutive (rows s le p)" using inv by (simp add: tcsl_inv_def)
  have sc: "scope (Some sc) p [RoleAdmin] (Ok le) = Ok (sc, le, p)"
    using c parsed_period by (cases "parse_legal_period p") (auto simp: scope_def require_role_or_system_def)
  have now: "to_micros clock \<noteq> 0" using t(3) pos_mod_bound[of 1000 clock] by (simp add: to_micros_def)
  have unused: "\<not> list_ex (\<lambda>e. ph_request e = Some i) (pv_history cur)"
    using t(2) cur(3) by (auto simp: list_ex_iff uses_set rows_def)
  let ?e = "\<lparr>ph_entity = le, ph_period = p, ph_seq = int (length (pv_history cur)) + 1,
     ph_state = PsReopened, ph_reason = rq_reason req, ph_recorded_at = to_micros clock,
     ph_recorded_by = rq_requested_by req, ph_approved_by = sc_subject sc, ph_request = Some i, ph_manifest = []\<rparr>"
  have "is_ok (append_event s ?e)" by (rule append_event_total) (use con cur(3) now t(2) in auto)
  then obtain s' where s': "append_event s ?e = Ok s'" by (auto simp: is_ok_iff)
  have reopen: "can_reopen (pv_state cur)" using t(1) cur(2) history_rows[OF con] by (simp add: can_reopen_def)
  have run: "approve_reopen sha s (Some sc) (Ok le) p i clock = bindR (view sha s' le p) (\<lambda>out. Ok (s', out))"
    using sc r cur(1) unused reopen s' by (simp add: approve_reopen_def)
  have events: "rows s' le p = rows s le p @ [?e]" "ts_manifests s' = ts_manifests s" "ts_events s' = ts_events s @ [?e]"
    using append_event_ok(1)[OF s'] by (simp_all add: rows_append)
  have "history s' le p = rows s' le p" by (rule history_rows) (use con cur(3) in \<open>simp add: events(1) consecutive_snoc\<close>)
  moreover have "latest_manifest (rows s' le p) = latest_manifest (rows s le p)" by (simp add: events(1) latest_manifest_snoc)
  ultimately have "is_ok (view sha s' le p)"
    using cur(1) history_rows[OF con] by (auto simp: view_def Let_def get_manifest_def events(2) is_ok_iff split: option.splits if_splits)
  then show ?thesis using run events(3) by (auto simp: is_ok_iff)
qed

section \<open>A concrete store\<close>

definition acts_as :: "role \<Rightarrow> ident \<Rightarrow> sec_context" where
  "acts_as r u = \<lparr>sc_tenant = 1, sc_subject = u, sc_roles = [r]\<rparr>"

definition no_rows :: "journal list \<Rightarrow> sum_row list" where "no_rows js = []"

definition september :: string where "september = ''2026-09''"

lemma september_period: "parse_legal_period september = Some september"
  by (simp add: september_def parse_legal_period_def is_digit_def digit_val_def)

lemma no_rows_population: "is_ok (population no_rows docs excs s le p)"
  by (simp add: population_def no_rows_def)

lemma empty_history: "history empty_tcsl le p = []"
  by (simp add: history_def empty_tcsl_def)

lemma tcsl_pos: "0 < to_micros 1000000"
  by (simp add: to_micros_def)

text \<open>September closed by user 7.\<close>

lemma closed_september:
  obtains s v where "transition pad32 no_rows [] [] empty_tcsl (Some (acts_as RoleOperator 7)) (Ok 1) september PsHardClose [] 1000000 = Ok (s, v)"
    "pv_state v = PsHardClose" "tcsl_reachable pad32 no_rows 1 s" "state_of (history s 1 september) = PsHardClose"
proof -
  obtain s v where t: "transition pad32 no_rows [] [] empty_tcsl (Some (acts_as RoleOperator 7)) (Ok 1) september PsHardClose [] 1000000 = Ok (s, v)"
    "pv_state v = PsHardClose"
    using move_total[of pad32 no_rows 1 empty_tcsl "acts_as RoleOperator 7" september 1 PsHardClose "[]" 1000000 "[]" "[]"]
    by (auto simp: empty_inv acts_as_def september_period empty_history state_of_def no_rows_population)
  have "tcsl_step pad32 no_rows 1 empty_tcsl s" using t(1) by (intro tcsl_step.move) (auto simp: acts_as_def)
  then have r: "tcsl_reachable pad32 no_rows 1 s" by (rule tcsl_reachable.step[OF tcsl_reachable.start])
  obtain le where "view pad32 s le september = Ok v" "le = 1"
    using t(1) unfolding transition_split by (auto dest: scope_ok)
  then have "pv_state v = state_of (history s 1 september)" by (auto simp: view_def Let_def split: if_splits)
  then show ?thesis using that t r by simp
qed

section \<open>Properties\<close>

text \<open>C29. The history of a legal period is well formed in every reachable store: its events are numbered
  from one without a gap, each is a move the states permit (a reopening only from a hard close and only
  with an approval, a manifest exactly on a hard close), nothing follows a sealing, and the closes form a
  chain: every hard close is sealed in a manifest that names, as the one it supersedes, the manifest of
  the period's previous close, and nothing when it is the first.\<close>

theorem period_history_legal:
  assumes "tcsl_reachable sha totals tenant s" "h = history s le p"
  shows "map ph_seq h = map int [1..<Suc (length h)] \<and> legal_walk legal_event ph_state PsOpen h
    \<and> (\<forall>i < length h. ph_state (h ! i) = PsSealed \<longrightarrow> i = length h - 1)
    \<and> (\<forall>i < length h. ph_state (h ! i) = PsHardClose \<longrightarrow>
         (\<exists>js bs. sealed_by sha tenant le p (latest_manifest (take i h)) js bs (ph_manifest (h ! i))))"
proof -
  have I: "consecutive (rows s le p)" "legal_walk legal_event ph_state PsOpen (rows s le p)" "chained sha tenant le p (rows s le p)"
    using reachable_inv[OF assms(1)] by (auto simp: tcsl_inv_def)
  have h: "h = rows s le p" using history_rows[OF I(1)] assms(2) by simp
  show ?thesis unfolding h using I(1)[unfolded consecutive_def] I(2) I(3)[unfolded chained_def] period.final_is_last[OF I(2)] by blast
qed

text \<open>C31. A reopening always has two people behind it: every REOPENED event in a reachable store names a
  reopen request for that entity and period, made with a reason by the user the event records, and was
  approved by a different, named user; and no two events name the same request.\<close>

theorem reopen_four_eyes:
  assumes "tcsl_reachable sha totals tenant s" "e \<in> set (ts_events s)" "ph_state e = PsReopened"
  shows "\<exists>r \<in> set (ts_requests s). ph_request e = Some (rq_id r) \<and> rq_entity r = ph_entity e \<and> rq_period r = ph_period e
    \<and> \<not> blank (rq_reason r) \<and> rq_requested_by r = ph_recorded_by e \<and> ph_recorded_by e \<noteq> 0
    \<and> ph_approved_by e \<noteq> 0 \<and> ph_approved_by e \<noteq> ph_recorded_by e
    \<and> (\<forall>x \<in> set (ts_events s). ph_request x = ph_request e \<longrightarrow> x = e)"
proof -
  have inv: "tcsl_inv sha totals tenant s" by (rule reachable_inv[OF assms(1)])
  let ?h = "rows s (ph_entity e) (ph_period e)"
  have "e \<in> set ?h" using assms(2) by (simp add: rows_def)
  then obtain k where k: "k < length ?h" "?h ! k = e" by (auto simp: in_set_conv_nth)
  have "legal_walk legal_event ph_state PsOpen ?h" using inv by (simp add: tcsl_inv_def)
  from period.walk_nth[OF this k(1)] have l: "ph_request e \<noteq> None" "ph_approved_by e \<noteq> 0" "ph_approved_by e \<noteq> ph_recorded_by e"
    using k(2) assms(3) by (auto simp: legal_event_def)
  then obtain i where i: "ph_request e = Some i" by blast
  have "backed (ts_requests s) e" using inv assms(2) by (simp add: tcsl_inv_def)
  then obtain r where r: "r \<in> set (ts_requests s)" "rq_id r = i" "rq_entity r = ph_entity e" "rq_period r = ph_period e"
    "rq_requested_by r = ph_recorded_by e" "rq_requested_by r \<noteq> 0" "\<not> blank (rq_reason r)"
    using i by (auto simp: backed_def)
  have "distinct (uses (ts_events s))" using inv by (simp add: tcsl_inv_def)
  from uses_once[OF this assms(2) _ i] have "\<forall>x \<in> set (ts_events s). ph_request x = ph_request e \<longrightarrow> x = e" using i by simp
  then show ?thesis using r l i by metis
qed

text \<open>C30. A closed period is what was sealed: while a period is HARD_CLOSE or SEALED it can be read, its
  latest manifest is stored under a digest its bytes hash to, and the manifest sealed under that digest
  for the tenant, entity and period lists exactly the journals and control balances posted into the
  period now.\<close>

theorem closed_period_intact:
  assumes "tcsl_reachable sha totals tenant s" "state_of (history s le p) \<in> {PsHardClose, PsSealed}"
  shows "\<exists>v pop prior. view sha s le p = Ok v \<and> sum_bytes sha (pv_body v) = pv_manifest v
    \<and> population totals docs excs s le p = Ok pop
    \<and> sealed_by sha tenant le p prior (pn_journals pop) (pn_balances pop) (pv_manifest v)"
proof -
  have inv: "tcsl_inv sha totals tenant s" by (rule reachable_inv[OF assms(1)])
  have h: "history s le p = rows s le p" using inv history_rows by (simp add: tcsl_inv_def)
  obtain v where v: "view sha s le p = Ok v" "pv_manifest v = latest_manifest (rows s le p)" using view_total[OF inv] by metis
  have "state_of (rows s le p) \<in> {PsHardClose, PsSealed} \<longrightarrow> closed_as sha totals tenant s le p"
    using inv unfolding tcsl_inv_def by blast
  then have "closed_as sha totals tenant s le p" using assms(2) unfolding h by blast
  then obtain prior bs where c: "foldR balance_row [] (totals (period_journals s le p)) = Ok bs"
    "sealed_by sha tenant le p prior (sort (map j_id (period_journals s le p))) bs (pv_manifest v)"
    unfolding closed_as_def v(2) by blast
  have "pv_manifest v \<noteq> []" using c(2) by (auto simp: sealed_by_def seal_manifest_def Let_def split: if_splits)
  then have "sum_bytes sha (pv_body v) = pv_manifest v"
    using v(1) by (auto simp: view_def Let_def get_manifest_def split: if_splits option.splits)
  then show ?thesis using v(1) c by (auto simp: population_def)
qed

text \<open>C32. Nothing posts around a close: a step of a reachable store leaves the journals as they are, or adds
  one valid journal with a fresh identifier and leaves every period as it is, and then that journal's
  period was open or reopened, or soft-closed and the journal an adjustment or rounding, or in an
  amendment window and the journal marked as an amendment.\<close>

theorem posting_gate:
  assumes "tcsl_reachable sha totals tenant s" "tcsl_step sha totals tenant s s'"
  shows "ts_journals s' = ts_journals s
    \<or> (\<exists>j. ts_journals s' = ts_journals s @ [j] \<and> ts_events s' = ts_events s \<and> validate_journal j = Ok ()
        \<and> (\<forall>x \<in> set (ts_journals s). j_id x \<noteq> j_id j)
        \<and> (case state_of (history s (j_entity j) (j_period j)) of
             PsOpen \<Rightarrow> True | PsReopened \<Rightarrow> True
           | PsSoftClose \<Rightarrow> j_type j = JtAdjustment \<or> j_type j = JtRounding
           | PsAmendmentActive \<Rightarrow> j_amendment j
           | _ \<Rightarrow> False))"
  using assms(2)
proof (cases rule: tcsl_step.cases)
  case (post j)
  obtain j' where j': "s' = s\<lparr>ts_journals := ts_journals s @ [j']\<rparr>" "j_entity j' = j_entity j" "j_period j' = j_period j"
    "check_postable j' (state_of (history s (j_entity j) (j_period j))) = Ok ()" "validate_journal j' = Ok ()"
    "\<forall>x \<in> set (ts_journals s). j_id x \<noteq> j_id j'" using post_ok[OF post] by fastforce
  then show ?thesis by (auto simp: check_postable_def split: period_state.splits if_splits)
qed (use reachable_inv[OF assms(1)] in \<open>auto dest: move_ok request_ok approve_ok\<close>)

text \<open>C33. A permitted transition never gets stuck: in a reachable store, an operator of the tenant who asks
  for a move the period's state permits, with a reason of at most 1000 bytes, for a well-formed month of an
  existing entity whose balances the store can sum, gets it.\<close>

theorem transition_progress:
  assumes "tcsl_reachable sha totals (sc_tenant sc) s" "sc_tenant sc \<noteq> 0" "RoleOperator \<in> set (sc_roles sc)"
    and "parse_legal_period p \<noteq> None" "le \<noteq> 0" "can_move_to (state_of (history s le p)) to" "to \<noteq> PsReopened"
    and "length reason \<le> 1000" "1000 \<le> clock" "is_ok (population totals docs excs s le p)"
  shows "\<exists>s' v. transition sha totals docs excs s (Some sc) (Ok le) p to reason clock = Ok (s', v) \<and> pv_state v = to"
  by (rule move_total[OF reachable_inv[OF assms(1)] refl assms(2-10)])

section \<open>Witnesses\<close>

lemma period_history_legal_witness:
  "\<exists>s e. last (history s 1 september) = e \<and> ph_state e = PsHardClose
    \<and> (\<exists>prior js bs. sealed_by pad32 1 1 september prior js bs (ph_manifest e))"
proof -
  obtain s where s: "tcsl_reachable pad32 no_rows 1 s" "state_of (history s 1 september) = PsHardClose" by (rule closed_september)
  let ?h = "history s 1 september"
  have h: "?h \<noteq> []" using s(2) by (auto simp: state_of_def)
  then have l: "last ?h = ?h ! (length ?h - 1)" "length ?h - 1 < length ?h" by (simp_all add: last_conv_nth)
  have st: "ph_state (?h ! (length ?h - 1)) = PsHardClose" using s(2) h l by (simp add: state_of_def)
  have "\<exists>js bs. sealed_by pad32 1 1 september (latest_manifest (take (length ?h - 1) ?h)) js bs (ph_manifest (?h ! (length ?h - 1)))"
    using period_history_legal[OF s(1) refl, of 1 september] l(2) st by blast
  then show ?thesis using l(1) st by metis
qed

lemma late_invoice: "\<not> blank ''late invoice''"
  by (simp add: blank_def runes.simps[of "_ # _"] is_space_def)

lemma reopen_four_eyes_witness:
  "\<exists>(s :: tcsl) (e :: period_event). e \<in> set (ts_events s) \<and> ph_state e = PsReopened \<and> ph_approved_by e \<noteq> ph_recorded_by e"
proof -
  obtain s v where s: "transition pad32 no_rows [] [] empty_tcsl (Some (acts_as RoleOperator 7)) (Ok 1) september PsHardClose [] 1000000 = Ok (s, v)"
    "tcsl_reachable pad32 no_rows 1 s" "state_of (history s 1 september) = PsHardClose" by (rule closed_september)
  have inv: "tcsl_inv pad32 no_rows 1 s" by (rule reachable_inv[OF s(2)])
  have none: "ts_requests s = []" using move_ok[OF empty_inv _ s(1), of 1] by (simp add: acts_as_def empty_tcsl_def)
  let ?r = "\<lparr>rq_id = 5, rq_tenant = 1, rq_entity = 1, rq_period = september, rq_reason = ''late invoice'', rq_requested_at = 1000000, rq_requested_by = 7\<rparr>"
  let ?s2 = "s\<lparr>ts_requests := [?r]\<rparr>"
  obtain cur where cur: "view pad32 s 1 september = Ok cur" "pv_state cur = state_of (rows s 1 september)" using view_total[OF inv] by metis
  have h: "history s 1 september = rows s 1 september" using history_rows inv by (simp add: tcsl_inv_def)
  have q: "request_reopen pad32 s (Some (acts_as RoleOperator 7)) (Ok 1) september ''late invoice'' 5 1000000 = Ok ?r"
    using cur s(3) h late_invoice
    by (simp add: request_reopen_def scope_def require_role_or_system_def acts_as_def september_period can_reopen_def to_micros_def)
  have c: "create_reopen_request 1 s ?r = Ok ?s2" using none by (simp add: create_reopen_request_def)
  have "tcsl_step pad32 no_rows 1 s ?s2" by (rule tcsl_step.request[OF _ q c]) (simp add: acts_as_def)
  then have r2: "tcsl_reachable pad32 no_rows 1 ?s2" by (rule tcsl_reachable.step[OF s(2)])
  have "i \<notin> set (uses (ts_events s))" for i using inv none by (auto simp: tcsl_inv_def backed_def uses_set)
  then obtain s3 w e where a: "approve_reopen pad32 ?s2 (Some (acts_as RoleAdmin 8)) (Ok 1) september 5 2000000 = Ok (s3, w)"
    "ts_events s3 = ts_events ?s2 @ [e]" "ph_state e = PsReopened"
    using approve_total[of pad32 no_rows "acts_as RoleAdmin 8" ?s2 september 5 ?r 1 2000000] reachable_inv[OF r2] s(3)
    by (auto simp: acts_as_def september_period get_reopen_request_def history_def)
  have "tcsl_step pad32 no_rows 1 ?s2 s3" by (rule tcsl_step.approve[OF _ a(1)]) (simp add: acts_as_def)
  then have r3: "tcsl_reachable pad32 no_rows 1 s3" by (rule tcsl_reachable.step[OF r2])
  have e: "e \<in> set (ts_events s3)" using a(2) by simp
  have "ph_approved_by e \<noteq> ph_recorded_by e" using reopen_four_eyes[OF r3 e a(3)] by (elim bexE conjE)
  then show ?thesis using e a(3) by blast
qed

lemma closed_period_intact_witness:
  "\<exists>s v. view pad32 s 1 september = Ok v \<and> pv_manifest v \<noteq> [] \<and> sum_bytes pad32 (pv_body v) = pv_manifest v"
proof -
  obtain s where s: "tcsl_reachable pad32 no_rows 1 s" "state_of (history s 1 september) = PsHardClose" by (rule closed_september)
  have "state_of (history s 1 september) \<in> {PsHardClose, PsSealed}" using s(2) by simp
  from closed_period_intact[OF s(1) this, of "[]" "[]"] show ?thesis
    by (metis sum_bytes_nonempty)
qed

lemma posting_gate_witness: "\<exists>s s'. tcsl_step pad32 no_rows 1 s s' \<and> ts_journals s' = ts_journals s @ [tax_journal 1]"
proof -
  have "validate_journal (tax_journal 1) = Ok ()" using tax_journals_given(1) by (auto simp: is_ok_iff)
  then have "is_ok (post_journal 1 empty_tcsl (tax_journal 1))"
    by (simp add: post_journal_def guard_posting_def empty_history state_of_def postable_as_def check_postable_def append_journal_def
        empty_tcsl_def[THEN arg_cong[of _ _ ts_journals]] Let_def)
       (simp add: tax_journal_def tax_line_def usd_def set_finite_def numeric_parts_def empty_tcsl_def)
  then obtain s' where p: "post_journal 1 empty_tcsl (tax_journal 1) = Ok s'" by (auto simp: is_ok_iff)
  have st: "tcsl_step pad32 no_rows 1 empty_tcsl s'" by (rule tcsl_step.post[OF p])
  have "history empty_tcsl 1 ''2026-09'' = []" by (rule empty_history)
  then have j: "ts_journals s' = ts_journals empty_tcsl @ [tax_journal 1]"
    using post_ok[OF p] by (auto simp: tax_journal_def state_of_def)
  from posting_gate[OF tcsl_reachable.start st] show ?thesis using st j by blast
qed

lemma transition_progress_witness:
  "\<exists>s v. transition pad32 no_rows [] [] empty_tcsl (Some (acts_as RoleOperator 7)) (Ok 1) september PsSoftClose ''month end'' 1000000 = Ok (s, v)
    \<and> pv_state v = PsSoftClose"
  by (rule transition_progress)
     (simp_all add: acts_as_def september_period empty_history state_of_def no_rows_population tcsl_reachable.start)

end
