(* ===== verification/CanonFacts.thy ===== *)
theory CanonFacts
  imports Canonical Merkle
begin

text \<open>
  The canonical encoding as a prefix code: escaped strings, decimal integers and the bracketed forms read
  back in one way, so equal bytes come from equal documents.
\<close>

section \<open>Text\<close>

definition norm_string :: "string \<Rightarrow> string" where
  "norm_string s = concat (map encode_rune (runes s))"

definition valid_utf8 :: "string \<Rightarrow> bool" where
  "valid_utf8 s \<longleftrightarrow> norm_string s = s"

lemma cont_bound: "cont b \<le> 63"
  by (simp add: cont_def flip: less_Suc_eq_le)

lemma rune_bounds:
  "k \<le> 31 \<Longrightarrow> k * 64 + cont b < 2097152"
  "k \<le> 15 \<Longrightarrow> k * 4096 + cont b * 64 + cont c < 2097152"
  "k \<le> 4 \<Longrightarrow> k * 262144 + cont b * 4096 + cont c * 64 + cont d < 2097152"
  using cont_bound[of b] cont_bound[of c] cont_bound[of d] by linarith+

lemma fst_if_bound:
  "(P \<Longrightarrow> fst x < n) \<Longrightarrow> (\<not> P \<Longrightarrow> fst y < n) \<Longrightarrow> fst (if P then x else y) < (n :: nat)"
  by simp

lemma fst_list_bound:
  "fst x < n \<Longrightarrow> (\<And>b s. fst (f b s) < n) \<Longrightarrow> fst (case t of [] \<Rightarrow> x | b # s \<Rightarrow> f b s) < (n :: nat)"
  by (cases t) auto

lemma fst_pair_bound: "x < n \<Longrightarrow> fst (x, y) < (n :: nat)"
  by simp

lemma decode_rune_bound: "fst (decode_rune s) < 2097152"
proof (cases s)
  case (Cons a t)
  have e: "rune_error < 2097152" by (simp add: rune_error_def)
  show ?thesis
    unfolding Cons decode_rune.simps Let_def
    by (intro fst_if_bound fst_list_bound fst_pair_bound e rune_bounds; linarith)
qed (simp add: rune_error_def)

lemma runes_bound: "r \<in> set (runes s) \<Longrightarrow> r < 2097152"
proof (induction s rule: runes.induct)
  case (1 s)
  show ?case
  proof (cases "s = []")
    case True
    then show ?thesis using 1 by (simp add: runes.simps)
  next
    case False
    then have "runes s = fst (decode_rune s) # runes (drop (snd (decode_rune s)) s)" by (simp add: runes.simps[of s])
    then show ?thesis using 1 False decode_rune_bound[of s] by auto
  qed
qed

text \<open>Escaping byte by byte.\<close>

definition esc :: "char \<Rightarrow> string" where
  "esc c = (if (of_char c :: nat) < 128 then write_rune (of_char c) else [c])"

lemma esc_high: "(128 :: nat) \<le> of_char c \<Longrightarrow> esc c = [c]"
  by (simp add: esc_def)

lemma write_rune_esc:
  assumes "r < 2097152"
  shows "write_rune r = concat (map esc (encode_rune r))"
proof (cases "r < 128")
  case True
  then show ?thesis by (simp add: encode_rune_def esc_def)
next
  case False
  have "\<forall>c \<in> set (encode_rune r). (128 :: nat) \<le> of_char c"
    using False assms by (auto simp: encode_rune_def)
  then have "concat (map esc (encode_rune r)) = concat (map (\<lambda>c. [c]) (encode_rune r))"
    by (intro arg_cong[where f = concat] map_cong) (auto simp: esc_high)
  then show ?thesis using False by (simp add: write_rune_def)
qed

lemma write_string_esc: "write_string s = CHR 0x22 # concat (map esc (norm_string s)) @ [CHR 0x22]"
proof -
  have "concat (map write_rune rs) = concat (map esc (concat (map encode_rune rs)))" if "\<forall>r \<in> set rs. r < 2097152" for rs
    using that by (induction rs) (auto simp: write_rune_esc)
  then show ?thesis using runes_bound by (simp add: write_string_def norm_string_def)
qed

text \<open>Reading one escaped byte back.\<close>

fun unesc :: "string \<Rightarrow> char \<times> string" where
  "unesc [] = (CHR 0x00, [])"
| "unesc (a # s) =
     (if a \<noteq> CHR 0x5C then (a, s)
      else case s of
        b # t \<Rightarrow>
          if b = CHR 0x22 then (b, t) else if b = CHR 0x5C then (b, t)
          else if b = CHR ''b'' then (CHR 0x08, t) else if b = CHR ''f'' then (CHR 0x0C, t)
          else if b = CHR ''n'' then (CHR 0x0A, t) else if b = CHR ''r'' then (CHR 0x0D, t)
          else if b = CHR ''t'' then (CHR 0x09, t)
          else (case drop 2 t of
              h # l # u \<Rightarrow> (char_of (16 * the (hex_val h) + the (hex_val l)), u)
            | _ \<Rightarrow> (a, s))
      | [] \<Rightarrow> (a, s))"

lemma char_code: "(of_char c :: nat) = of_char d \<Longrightarrow> c = d"
  by simp

lemma esc_short:
  "esc (CHR 0x22) = [CHR 0x5C, CHR 0x22]" "esc (CHR 0x5C) = [CHR 0x5C, CHR 0x5C]" "esc (CHR 0x08) = CHR 0x5C # ''b''"
  "esc (CHR 0x0C) = CHR 0x5C # ''f''" "esc (CHR 0x0A) = CHR 0x5C # ''n''" "esc (CHR 0x0D) = CHR 0x5C # ''r''"
  "esc (CHR 0x09) = CHR 0x5C # ''t''"
  by (simp_all add: esc_def write_rune_def)

lemma unesc_esc: "unesc (esc c @ s) = (c, s)"
proof -
  let ?n = "of_char c :: nat"
  have c: "char_of ?n = c" by simp
  consider "c \<in> {CHR 0x22, CHR 0x5C, CHR 0x08, CHR 0x0C, CHR 0x0A, CHR 0x0D, CHR 0x09}"
    | "?n < 32" "c \<notin> {CHR 0x22, CHR 0x5C, CHR 0x08, CHR 0x0C, CHR 0x0A, CHR 0x0D, CHR 0x09}"
    | "32 \<le> ?n" "c \<noteq> CHR 0x22" "c \<noteq> CHR 0x5C" by force
  then show ?thesis
  proof cases
    case 1
    then show ?thesis by (auto simp: esc_short)
  next
    case 2
    have d: "?n div 16 < 16" "?n mod 16 < 16" using 2(1) by simp_all
    have "?n \<noteq> 8" "?n \<noteq> 12" "?n \<noteq> 10" "?n \<noteq> 13" "?n \<noteq> 9"
      using 2(2) char_code[of c "CHR 0x08"] char_code[of c "CHR 0x0C"] char_code[of c "CHR 0x0A"]
        char_code[of c "CHR 0x0D"] char_code[of c "CHR 0x09"] by auto
    then have "esc c = CHR 0x5C # ''u00'' @ [hex_digit (?n div 16), hex_digit (?n mod 16)]"
      using 2(1) by (simp add: esc_def write_rune_def)
    moreover have "char_of (16 * (?n div 16) + ?n mod 16) = c" using c by (metis mult_div_mod_eq)
    ultimately show ?thesis by (simp add: hex_val_digit[OF d(1)] hex_val_digit[OF d(2)])
  next
    case 3
    have "?n \<noteq> 34" "?n \<noteq> 92" using 3 char_code[of c "CHR 0x22"] char_code[of c "CHR 0x5C"] by auto
    then have "esc c = [c]" using 3(1) by (simp add: esc_def write_rune_def encode_rune_def)
    then show ?thesis using 3(3) by simp
  qed
qed

lemma esc_inject:
  assumes "esc c @ s = esc d @ t"
  shows "c = d \<and> s = t"
proof -
  have "unesc (esc c @ s) = unesc (esc d @ t)" by (rule arg_cong[OF assms])
  then show ?thesis unfolding unesc_esc by simp
qed

lemma esc_no_quote: "esc c @ s \<noteq> CHR 0x22 # t"
proof
  assume e: "esc c @ s = CHR 0x22 # t"
  have "unesc (CHR 0x22 # t) = (CHR 0x22, t)" by simp
  then have "(c, s) = (CHR 0x22, t)" unfolding e[symmetric] unesc_esc .
  then show False using e by (simp add: esc_short)
qed

lemma esc_text_inject:
  "concat (map esc s) @ CHR 0x22 # x = concat (map esc t) @ CHR 0x22 # y \<Longrightarrow> s = t \<and> x = y"
proof (induction s arbitrary: t)
  case Nil
  then show ?case using esc_no_quote[of _ _ x] by (cases t) (auto simp: eq_commute)
next
  case (Cons c s)
  show ?case
  proof (cases t)
    case Nil
    then show ?thesis using Cons.prems esc_no_quote[of c _ y] by simp
  next
    case (Cons d u)
    then have "esc c @ (concat (map esc s) @ CHR 0x22 # x) = esc d @ (concat (map esc u) @ CHR 0x22 # y)"
      using Cons.prems by simp
    from esc_inject[OF this] show ?thesis using Cons Cons.IH by blast
  qed
qed

lemma write_string_inject: "write_string s @ x = write_string t @ y \<Longrightarrow> norm_string s = norm_string t \<and> x = y"
  using esc_text_inject[of "norm_string s" x "norm_string t" y] by (simp add: write_string_esc)

section \<open>Integers\<close>

text \<open>What can follow a value: the end of the text, a comma or a closing bracket.\<close>

definition ends :: "string \<Rightarrow> bool" where
  "ends x \<longleftrightarrow> x = [] \<or> hd x \<in> {CHR '','', CHR '']'', CHR ''}''}"

lemma ends_not_digit: "ends x \<Longrightarrow> takeWhile is_digit x = []"
  by (cases x) (auto simp: ends_def is_digit_def)

lemma show_nat_inject: "show_nat m @ x = show_nat n @ y \<Longrightarrow> ends x \<Longrightarrow> ends y \<Longrightarrow> m = n \<and> x = y"
proof -
  assume e: "show_nat m @ x = show_nat n @ y" and x: "ends x" "ends y"
  have "takeWhile is_digit (show_nat k @ z) = show_nat k" if "ends z" for k z
    using ends_not_digit[OF that] show_nat_digits[of k] by (simp add: list_all_iff takeWhile_append)
  then have s: "show_nat m = show_nat n" using e x by metis
  then have "m = n" by (metis parse_show_nat option.inject)
  then show ?thesis using e by simp
qed

lemma show_nat_hd: "is_digit (hd (show_nat n))"
  using show_nat_digits[of n] show_nat_nonempty[of n] by (cases "show_nat n") auto

lemma show_int_inject: "show_int i @ x = show_int j @ y \<Longrightarrow> ends x \<Longrightarrow> ends y \<Longrightarrow> i = j \<and> x = y"
proof -
  assume e: "show_int i @ x = show_int j @ y" and x: "ends x" "ends y"
  have h: "show_nat n @ z \<noteq> CHR ''-'' # w" for n z w
  proof
    assume "show_nat n @ z = CHR ''-'' # w"
    then have "hd (show_nat n) = CHR ''-''" by (cases "show_nat n") auto
    then show False using show_nat_hd[of n] by (simp add: is_digit_def)
  qed
  show ?thesis
  proof (cases "i < 0")
    case True
    then have "j < 0" using e h[of "nat j" y] by (auto simp: show_int_def split: if_splits dest: sym)
    then show ?thesis using True e show_nat_inject[OF _ x, of "nat (- i)" "nat (- j)"] by (auto simp: show_int_def)
  next
    case False
    then have "\<not> j < 0" using e h[of "nat i" x] by (auto simp: show_int_def split: if_splits)
    then show ?thesis using False e show_nat_inject[OF _ x, of "nat i" "nat j"] by (auto simp: show_int_def)
  qed
qed

section \<open>Documents\<close>

text \<open>A document up to what its encoding does not record: the order of an object's members, and whether a
  text was a string or a decimal.\<close>

fun norm :: "cvalue \<Rightarrow> cvalue" where
  "norm (VDecimal s) = VString s"
| "norm (VObject fs) = VObject (sort_by (\<lambda>f g. less_utf16 (fst f) (fst g)) (map (\<lambda>(n, v). (n, norm v)) fs))"
| "norm (VArray vs) = VArray (map norm vs)"
| "norm v = v"

text \<open>A document whose texts are valid UTF-8 and that holds no pre-encoded bytes.\<close>

fun plain :: "cvalue \<Rightarrow> bool" where
  "plain (VString s) = valid_utf8 s"
| "plain (VDecimal s) = valid_utf8 s"
| "plain (VRaw s) = False"
| "plain (VObject fs) = list_all (\<lambda>(n, v). valid_utf8 n \<and> plain v) fs"
| "plain (VArray vs) = list_all plain vs"
| "plain v = True"

lemma ins_by_map: "ins_by lt (f x) (map f xs) = map f (ins_by (\<lambda>a b. lt (f a) (f b)) x xs)"
  by (induction xs) auto

lemma sort_by_map: "sort_by lt (map f xs) = map f (sort_by (\<lambda>a b. lt (f a) (f b)) xs)"
  by (induction xs) (auto simp: sort_by_def ins_by_map)

definition by_name :: "(string \<times> cvalue) list \<Rightarrow> (string \<times> cvalue) list" where
  "by_name fs = sort_by (\<lambda>f g. less_utf16 (fst f) (fst g)) fs"

lemma by_name_set [simp]: "set (by_name fs) = set fs"
  by (simp add: by_name_def)

lemma norm_object: "norm (VObject fs) = VObject (map (\<lambda>(n, v). (n, norm v)) (by_name fs))"
  by (simp add: sort_by_map case_prod_unfold by_name_def)

lemma encode_fields:
  assumes "encode (VObject fs) = Ok b"
  shows "\<exists>s. join_fields False (map (\<lambda>(n, v). (n, encode v)) (by_name fs)) = Ok s \<and> b = ''{'' @ s @ ''}''"
  using assms by (auto simp: encode_object_def Let_def sort_by_map case_prod_unfold by_name_def split: option.splits)

text \<open>Two encodings that agree as far as they go are encodings of one value.\<close>

definition reads_back :: "cvalue \<Rightarrow> bool" where
  "reads_back v \<longleftrightarrow> (\<forall>w a b x y. encode v = Ok a \<longrightarrow> encode w = Ok b \<longrightarrow> a @ x = b @ y \<longrightarrow> ends x \<longrightarrow> ends y \<longrightarrow>
     plain v \<longrightarrow> plain w \<longrightarrow> norm v = norm w \<and> x = y)"

lemma reads_back_D:
  "reads_back v \<Longrightarrow> encode v = Ok a \<Longrightarrow> encode w = Ok b \<Longrightarrow> a @ x = b @ y \<Longrightarrow> ends x \<Longrightarrow> ends y \<Longrightarrow> plain v \<Longrightarrow> plain w \<Longrightarrow>
    norm v = norm w \<and> x = y"
  unfolding reads_back_def by blast

lemma fields_read_back:
  assumes "join_fields c (map (\<lambda>(n, v). (n, encode v)) fs) = Ok a" "join_fields c (map (\<lambda>(n, v). (n, encode v)) gs) = Ok b"
    and "a @ ''}'' @ x = b @ ''}'' @ y" "\<forall>(n, v) \<in> set fs. reads_back v"
    and "\<forall>(n, v) \<in> set fs. valid_utf8 n \<and> plain v" "\<forall>(n, v) \<in> set gs. valid_utf8 n \<and> plain v"
  shows "map (\<lambda>(n, v). (n, norm v)) fs = map (\<lambda>(n, v). (n, norm v)) gs \<and> x = y"
  using assms
proof (induction fs arbitrary: gs c a b)
  case Nil
  then have "a = []" by simp
  then show ?case using Nil.prems(2,3) by (cases gs; cases c) (auto simp: write_string_esc)
next
  case (Cons f fs)
  obtain n v where f: "f = (n, v)" by fastforce
  obtain s r where a: "encode v = Ok s" "join_fields True (map (\<lambda>(n, v). (n, encode v)) fs) = Ok r"
    "a = (if c then '','' else []) @ write_string n @ '':'' @ s @ r"
    using Cons.prems(1) f by auto
  show ?case
  proof (cases gs)
    case Nil
    then show ?thesis using Cons.prems(2,3) a(3) by (cases c) (auto simp: write_string_esc)
  next
    case (Cons g gs')
    obtain m w where g: "g = (m, w)" by fastforce
    obtain t q where b: "encode w = Ok t" "join_fields True (map (\<lambda>(n, v). (n, encode v)) gs') = Ok q"
      "b = (if c then '','' else []) @ write_string m @ '':'' @ t @ q"
      using Cons.prems(2) Cons g by auto
    have "write_string n @ '':'' @ s @ r @ ''}'' @ x = write_string m @ '':'' @ t @ q @ ''}'' @ y"
      using Cons.prems(3) a(3) b(3) by (cases c) auto
    from write_string_inject[OF this] have nm: "norm_string n = norm_string m" "s @ r @ ''}'' @ x = t @ q @ ''}'' @ y" by auto
    have "n = m" using nm(1) Cons.prems(5,6) f g Cons by (auto simp: valid_utf8_def)
    have en: "ends (r @ ''}'' @ x)" if "join_fields True (map (\<lambda>(n, v). (n, encode v)) hs) = Ok r" for hs r x
      using that by (cases hs) (auto simp: ends_def)
    have "norm v = norm w \<and> r @ ''}'' @ x = q @ ''}'' @ y"
      by (rule reads_back_D[OF _ a(1) b(1) nm(2) en[OF a(2)] en[OF b(2)]]) (use Cons.prems(4,5,6) f g Cons in auto)
    moreover have "map (\<lambda>(n, v). (n, norm v)) fs = map (\<lambda>(n, v). (n, norm v)) gs' \<and> x = y"
      by (rule Cons.IH[OF a(2) b(2)]) (use calculation Cons.prems(4,5,6) Cons in auto)
    ultimately show ?thesis using Cons f g \<open>n = m\<close> by simp
  qed
qed

text \<open>The kind of a value shows in the first byte of its encoding.\<close>

fun head_ok :: "cvalue \<Rightarrow> char \<Rightarrow> bool" where
  "head_ok (VInteger i) c = (c = CHR ''-'' \<or> is_digit c)"
| "head_ok (VBool b) c = (c = (if b then CHR ''t'' else CHR ''f''))"
| "head_ok (VObject fs) c = (c = CHR ''{'')"
| "head_ok (VArray vs) c = (c = CHR ''['')"
| "head_ok v c = (c = CHR 0x22)"

lemma encode_head: "encode v = Ok a \<Longrightarrow> plain v \<Longrightarrow> \<exists>c s. a = c # s \<and> head_ok v c"
proof (cases v)
  case (VInteger i)
  assume "encode v = Ok a"
  then have a: "a = show_int i" using VInteger by simp
  obtain c s where "show_nat (nat i) = c # s" "is_digit c"
    using show_nat_hd[of "nat i"] show_nat_nonempty[of "nat i"] by (cases "show_nat (nat i)") auto
  then show ?thesis using VInteger a by (auto simp: show_int_def)
qed (auto simp: write_string_def encode_object_def Let_def split: option.splits)

lemma head_not_closing: "head_ok v c \<Longrightarrow> c \<noteq> CHR '']'' \<and> c \<noteq> CHR '','' \<and> c \<noteq> CHR ''}''"
  by (cases v) (auto simp: is_digit_def)

lemma items_read_back:
  assumes "join_items i (map (\<lambda>v. (is_absent v, encode v)) vs) = Ok a" "join_items i (map (\<lambda>v. (is_absent v, encode v)) ws) = Ok b"
    and "a @ '']'' @ x = b @ '']'' @ y" "\<forall>v \<in> set vs. reads_back v" "\<forall>v \<in> set vs. plain v" "\<forall>v \<in> set ws. plain v"
  shows "map norm vs = map norm ws \<and> x = y"
  using assms
proof (induction vs arbitrary: ws i a b)
  case Nil
  show ?case
  proof (cases ws)
    case (Cons w ws')
    then obtain t q where "encode w = Ok t" "b = (if i > 0 then '','' else []) @ t @ q" using Nil.prems(2) by (auto split: if_splits)
    moreover obtain c u where "t = c # u" "c \<noteq> CHR '']''"
      using encode_head[OF calculation(1)] head_not_closing Nil.prems(6) Cons by auto
    ultimately show ?thesis using Nil.prems(1,3) by (cases i) auto
  qed (use Nil.prems in auto)
next
  case (Cons v vs)
  obtain t r where a: "encode v = Ok t" "join_items (i + 1) (map (\<lambda>v. (is_absent v, encode v)) vs) = Ok r"
    "a = (if i > 0 then '','' else []) @ t @ r"
    using Cons.prems(1) by (auto split: if_splits)
  obtain c u where cu: "t = c # u" "c \<noteq> CHR '']''" using encode_head[OF a(1)] head_not_closing Cons.prems(5) by auto
  show ?case
  proof (cases ws)
    case Nil
    then show ?thesis using Cons.prems(2,3) a(3) cu by (cases i) auto
  next
    case (Cons w ws')
    obtain q s where b: "encode w = Ok q" "join_items (i + 1) (map (\<lambda>v. (is_absent v, encode v)) ws') = Ok s"
      "b = (if i > 0 then '','' else []) @ q @ s"
      using Cons.prems(2) Cons by (auto split: if_splits)
    have e: "t @ r @ '']'' @ x = q @ s @ '']'' @ y" using Cons.prems(3) a(3) b(3) by (cases i) auto
    have en: "ends (r @ '']'' @ x)" if "join_items (i + 1) (map (\<lambda>v. (is_absent v, encode v)) us) = Ok r" for us r x
      using that by (cases us) (auto simp: ends_def split: if_splits)
    have "norm v = norm w \<and> r @ '']'' @ x = s @ '']'' @ y"
      by (rule reads_back_D[OF _ a(1) b(1) e en[OF a(2)] en[OF b(2)]]) (use Cons.prems(4,5,6) Cons in auto)
    moreover have "map norm vs = map norm ws' \<and> x = y"
      by (rule Cons.IH[OF a(2) b(2)]) (use calculation Cons.prems(4,5,6) Cons in auto)
    ultimately show ?thesis using Cons by simp
  qed
qed

lemma same_kind:
  assumes "encode v = Ok a" "encode w = Ok b" "a @ x = b @ y" "plain v" "plain w"
  shows "\<exists>c. head_ok v c \<and> head_ok w c"
  using encode_head[OF assms(1,4)] encode_head[OF assms(2,5)] assms(3) by auto

lemma reads_back_I:
  assumes "\<And>w a b x y c. encode v = Ok a \<Longrightarrow> encode w = Ok b \<Longrightarrow> a @ x = b @ y \<Longrightarrow> ends x \<Longrightarrow> ends y \<Longrightarrow>
    plain v \<Longrightarrow> plain w \<Longrightarrow> head_ok v c \<Longrightarrow> head_ok w c \<Longrightarrow> norm v = norm w \<and> x = y"
  shows "reads_back v"
  unfolding reads_back_def using assms same_kind by meson

lemma text_read_back:
  assumes "encode v = Ok (write_string s)" "norm v = VString s" "plain v = valid_utf8 s" "\<And>c. head_ok v c \<longleftrightarrow> c = CHR 0x22"
  shows "reads_back v"
proof (rule reads_back_I)
  fix w a b x y c
  assume h: "encode v = Ok a" "encode w = Ok b" "a @ x = b @ y" "plain v" "plain w" "head_ok v c" "head_ok w c"
  obtain t where "w = VString t \<or> w = VDecimal t"
    using h assms(4) by (cases w) (auto simp: is_digit_def split: if_splits)
  then have w: "b = write_string t" "norm w = VString t" "norm_string t = t" using h(2,5) by (auto simp: valid_utf8_def)
  have v: "a = write_string s" "norm_string s = s" using h(1,4) assms(1,3) by (auto simp: valid_utf8_def)
  have "norm_string s = norm_string t \<and> x = y" by (rule write_string_inject) (use h(3) v(1) w(1) in simp)
  then show "norm v = norm w \<and> x = y" using v(2) w(2,3) assms(2) by simp
qed

lemma all_read_back: "reads_back v"
proof (induction v rule: encode.induct)
  case (7 fs)
  show ?case
  proof (rule reads_back_I)
    fix w a b x y c
    assume h: "encode (VObject fs) = Ok a" "encode w = Ok b" "a @ x = b @ y" "plain (VObject fs)" "plain w"
      "head_ok (VObject fs) c" "head_ok w c"
    obtain gs where w: "w = VObject gs" using h by (cases w) (auto simp: is_digit_def split: if_splits)
    obtain s t where s: "join_fields False (map (\<lambda>(n, v). (n, encode v)) (by_name fs)) = Ok s" "a = ''{'' @ s @ ''}''"
      and t: "join_fields False (map (\<lambda>(n, v). (n, encode v)) (by_name gs)) = Ok t" "b = ''{'' @ t @ ''}''"
      using encode_fields[OF h(1)] encode_fields[OF h(2)[unfolded w]] by blast
    have "map (\<lambda>(n, v). (n, norm v)) (by_name fs) = map (\<lambda>(n, v). (n, norm v)) (by_name gs) \<and> x = y"
      by (rule fields_read_back[OF s(1) t(1)]) (use h s t w 7 in \<open>auto simp: list_all_iff\<close>)
    then show "norm (VObject fs) = norm w \<and> x = y" unfolding w norm_object by simp
  qed
next
  case (8 vs)
  show ?case
  proof (rule reads_back_I)
    fix w a b x y c
    assume h: "encode (VArray vs) = Ok a" "encode w = Ok b" "a @ x = b @ y" "plain (VArray vs)" "plain w"
      "head_ok (VArray vs) c" "head_ok w c"
    obtain ws where w: "w = VArray ws" using h by (cases w) (auto simp: is_digit_def split: if_splits)
    obtain s t where s: "join_items 0 (map (\<lambda>v. (is_absent v, encode v)) vs) = Ok s" "a = ''['' @ s @ '']''"
      and t: "join_items 0 (map (\<lambda>v. (is_absent v, encode v)) ws) = Ok t" "b = ''['' @ t @ '']''"
      using h(1,2) w by auto
    have "map norm vs = map norm ws \<and> x = y"
      by (rule items_read_back[OF s(1) t(1)]) (use h s t w 8 in \<open>auto simp: list_all_iff\<close>)
    then show "norm (VArray vs) = norm w \<and> x = y" unfolding w by simp
  qed
next
  case (5 i)
  show ?case
  proof (rule reads_back_I)
    fix w a b x y c
    assume h: "encode (VInteger i) = Ok a" "encode w = Ok b" "a @ x = b @ y" "ends x" "ends y" "head_ok (VInteger i) c" "head_ok w c"
    obtain j where "w = VInteger j" using h by (cases w) (auto simp: is_digit_def split: if_splits)
    then show "norm (VInteger i) = norm w \<and> x = y" using show_int_inject[of i x j y] h by simp
  qed
next
  case (6 d)
  show ?case
  proof (rule reads_back_I)
    fix w a b x y c
    assume h: "encode (VBool d) = Ok a" "encode w = Ok b" "a @ x = b @ y" "head_ok (VBool d) c" "head_ok w c"
    obtain e where "w = VBool e" using h by (cases w) (auto simp: is_digit_def split: if_splits)
    then show "norm (VBool d) = norm w \<and> x = y" using h by (cases d; cases e) auto
  qed
next
  case (2 s)
  show ?case by (rule text_read_back) simp_all
next
  case (3 s)
  show ?case by (rule text_read_back) simp_all
qed (simp_all add: reads_back_def)

lemma encode_inject:
  assumes "encode v = Ok b" "encode w = Ok b" "plain v" "plain w"
  shows "norm v = norm w"
  using reads_back_D[OF all_read_back assms(1,2) refl _ _ assms(3,4), of "[]"] by (simp add: ends_def)

end
