(* ===== verification/CanonProps.thy ===== *)
theory CanonProps
  imports CanonFacts MerkleProps
begin

text \<open>
  The property of the canonical encoding: a digest names one document.
\<close>

definition order_line :: "int \<Rightarrow> cvalue" where
  "order_line q = c_object [(''sku'', VString ''A-1''), (''qty'', VInteger q), (''note'', VAbsent)]"

definition line_order :: "int \<Rightarrow> cvalue" where
  "line_order q = c_object [(''qty'', VInteger q), (''sku'', VDecimal ''A-1'')]"

lemma orders_encode: "is_ok (encode (order_line 3)) \<and> encode (order_line 3) = encode (line_order 3)"
  by code_simp

lemma order_line_plain: "plain (order_line 3)"
  by code_simp

lemma line_order_plain: "plain (line_order 3)"
  by code_simp

text \<open>Text that is not valid UTF-8 is replaced before it is written, so two such texts share their bytes.\<close>

lemma invalid_text_collapses: "encode (VString [CHR 0x80]) = encode (VString [CHR 0x81])"
  by (simp add: write_string_def runes.simps[of "[_]"] runes.simps[of "[]"])

text \<open>C24. A canonical digest names one document: two documents with the same digest are the same tree of
  values, up to the order in which an object's members were given and to a text having been built as a
  string or as a decimal. It holds of documents whose texts are valid UTF-8 and that embed no
  pre-encoded bytes, provided the hash does not collide on their two encodings. Escaping, separators,
  absent members and numbers can therefore never make two documents read alike.\<close>

theorem digest_names_document:
  assumes "sum_value sha v = Ok d" "sum_value sha w = Ok d" "plain v" "plain w"
    and "\<And>b c. encode v = Ok b \<Longrightarrow> encode w = Ok c \<Longrightarrow> sha b = sha c \<Longrightarrow> b = c"
  shows "norm v = norm w"
proof -
  obtain b c where e: "encode v = Ok b" "encode w = Ok c" and "sum_bytes sha b = d" "sum_bytes sha c = d"
    using assms(1,2) by (auto simp: sum_value_def)
  then have "sha b = sha c" by (auto simp: sum_bytes_def intro: hex_encode_inject)
  then show ?thesis using encode_inject e assms(3-5) by metis
qed

lemma digest_names_document_witness: "norm (order_line 3) = norm (line_order 3)"
proof -
  obtain b where o: "encode (order_line 3) = Ok b" using conjunct1[OF orders_encode] by (cases "encode (order_line 3)") simp_all
  have l: "encode (line_order 3) = Ok b" by (rule trans[OF sym[OF conjunct2[OF orders_encode]] o])
  have "sum_value pad32 (order_line 3) = Ok (sum_bytes pad32 b)" "sum_value pad32 (line_order 3) = Ok (sum_bytes pad32 b)"
    unfolding sum_value_def o l by simp_all
  then show ?thesis
  proof (rule digest_names_document[OF _ _ order_line_plain line_order_plain])
    fix x y assume "encode (order_line 3) = Ok x" "encode (line_order 3) = Ok y"
    then show "x = y" unfolding o l by simp
  qed
qed

end
