(* ===== verification/Geography.thy ===== *)
theory Geography
  imports Canonical
begin

text \<open>
  \<open>backend/internal/domain/jurisdiction\<close>: jurisdictions, their levels and the order of a resolution
  (\<open>jurisdiction.go\<close>), and one version of the jurisdiction graph with its validation and its walks
  (\<open>graph.go\<close>). An instant is an integer whose zero is Go's zero time. A graph's nodes are listed in the
  order they were declared; where the code ranges over its map, the model takes that order, which is one
  of the orders the runtime may take and decides only which of several errors is reported.
\<close>

section \<open>Levels and jurisdictions (jurisdiction.go)\<close>

datatype level = Country | State | County | City | District | Special | LevelOther string

fun level_rank :: "level \<Rightarrow> nat option" where
  "level_rank Country = Some 0"
| "level_rank State = Some 1"
| "level_rank County = Some 2"
| "level_rank City = Some 3"
| "level_rank District = Some 4"
| "level_rank Special = Some 5"
| "level_rank (LevelOther s) = None"

definition level_valid :: "level \<Rightarrow> bool" where
  "level_valid l \<longleftrightarrow> level_rank l \<noteq> None"

text \<open>The rank as the code uses it when it ignores the flag: zero for an unknown level.\<close>

definition rank0 :: "level \<Rightarrow> nat" where
  "rank0 l = (case level_rank l of Some r \<Rightarrow> r | None \<Rightarrow> 0)"

type_synonym jid = string

datatype jur_err =
    JBadId jid | JNoVersion | JBadLevel jid | JNoName jid | JBadCountry jid | JNoTimezone jid | JNoFrom jid | JClosesEarly jid
  | JTwice jid | JCountryParent jid | JNoParent jid | JUnknownParent jid | JSpecialParent jid | JOtherCountry jid | JNotOuter jid
  | JNotSpecial jid | JUnknownMember jid | JSpecialMember jid | JNotAt jid | JParentGone jid jid
  | JEvidence string | JPoint string | JRule string | JBinding string | JDataset string | JPpu string | JResolver string
  | JCanonical canon_err

definition id_char :: "char \<Rightarrow> bool" where
  "id_char c \<longleftrightarrow> (let n = of_char c in 97 \<le> n \<and> n \<le> 122 \<or> 48 \<le> n \<and> n \<le> (57 :: nat) \<or> n = 45 \<or> n = 47)"

text \<open>Every rune of the rest must be one of the ASCII characters of the grammar, so bytes suffice.\<close>

definition validate_jurisdiction_id :: "jid \<Rightarrow> bool" where
  "validate_jurisdiction_id s \<longleftrightarrow>
     (case cut_prefix s ''jurisdiction:'' of
        None \<Rightarrow> False
      | Some rest \<Rightarrow> rest \<noteq> [] \<and> list_all id_char rest)"

record jurisdiction =
  ju_id :: jid
  ju_parent :: jid
  ju_level :: level
  ju_name :: string
  ju_country :: string
  ju_timezone :: string

text \<open>The comparison of \<open>Resolution.Sort\<close>: known levels first and by rank, ties and unknown levels by id.\<close>

definition jur_before :: "jurisdiction \<Rightarrow> jurisdiction \<Rightarrow> bool" where
  "jur_before a b \<longleftrightarrow>
     (case (level_rank (ju_level a), level_rank (ju_level b)) of
        (Some i, Some j) \<Rightarrow> if i \<noteq> j then i < j else ju_id a < ju_id b
      | (Some i, None) \<Rightarrow> True
      | (None, Some j) \<Rightarrow> False
      | (None, None) \<Rightarrow> ju_id a < ju_id b)"

definition sort_applicable :: "jurisdiction list \<Rightarrow> jurisdiction list" where
  "sort_applicable js = sort_by jur_before js"

definition primary_of :: "jurisdiction list \<Rightarrow> jurisdiction option" where
  "primary_of js = (if js = [] then None else Some (last js))"

section \<open>The graph (graph.go)\<close>

record geo_node = jurisdiction +
  nd_from :: int
  nd_to :: "int option"

definition to_jurisdiction :: "geo_node \<Rightarrow> jurisdiction" where
  "to_jurisdiction n = jurisdiction.truncate n"

definition valid_at :: "geo_node \<Rightarrow> int \<Rightarrow> bool" where
  "valid_at n t \<longleftrightarrow> \<not> t < nd_from n \<and> (case nd_to n of None \<Rightarrow> True | Some e \<Rightarrow> t < e)"

record membership =
  ms_special :: jid
  ms_members :: "jid list"

record graph =
  gr_version :: string
  gr_nodes :: "geo_node list"
  gr_members :: "(jid \<times> jid list) list"

definition lookup_node :: "geo_node list \<Rightarrow> jid \<Rightarrow> geo_node option" where
  "lookup_node ns i = find (\<lambda>n. ju_id n = i) ns"

definition country_code :: "string \<Rightarrow> bool" where
  "country_code s \<longleftrightarrow> length s = 2 \<and> list_all (\<lambda>c. 65 \<le> (of_char c :: nat) \<and> of_char c \<le> (90 :: nat)) s"

definition validate_graph_node :: "geo_node \<Rightarrow> (jur_err, unit) result" where
  "validate_graph_node n =
     (if \<not> validate_jurisdiction_id (ju_id n) then Err (JBadId (ju_id n))
      else if \<not> level_valid (ju_level n) then Err (JBadLevel (ju_id n))
      else if ju_name n = [] then Err (JNoName (ju_id n))
      else if \<not> country_code (ju_country n) then Err (JBadCountry (ju_id n))
      else if ju_timezone n = [] then Err (JNoTimezone (ju_id n))
      else if nd_from n = 0 then Err (JNoFrom (ju_id n))
      else if (case nd_to n of None \<Rightarrow> False | Some e \<Rightarrow> \<not> nd_from n < e) then Err (JClosesEarly (ju_id n))
      else Ok ())"

definition validate_named_parent :: "geo_node list \<Rightarrow> geo_node \<Rightarrow> (jur_err, unit) result" where
  "validate_named_parent ns n =
     (case lookup_node ns (ju_parent n) of
        None \<Rightarrow> Err (JUnknownParent (ju_id n))
      | Some p \<Rightarrow>
        if ju_level p = Special then Err (JSpecialParent (ju_id n))
        else if ju_country p \<noteq> ju_country n then Err (JOtherCountry (ju_id n))
        else if rank0 (ju_level n) \<le> rank0 (ju_level p) then Err (JNotOuter (ju_id n))
        else Ok ())"

definition validate_parent :: "geo_node list \<Rightarrow> geo_node \<Rightarrow> (jur_err, unit) result" where
  "validate_parent ns n =
     (if ju_level n = Country then (if ju_parent n \<noteq> [] then Err (JCountryParent (ju_id n)) else Ok ())
      else if ju_level n = Special \<and> ju_parent n = [] then Ok ()
      else if ju_level n \<noteq> Special \<and> ju_parent n = [] then Err (JNoParent (ju_id n))
      else validate_named_parent ns n)"

definition add_graph_node :: "geo_node list \<Rightarrow> geo_node \<Rightarrow> (jur_err, geo_node list) result" where
  "add_graph_node ns n =
     bindR (validate_graph_node n) (\<lambda>_.
       if lookup_node ns (ju_id n) \<noteq> None then Err (JTwice (ju_id n)) else Ok (ns @ [n]))"

definition check_member :: "geo_node list \<Rightarrow> unit \<Rightarrow> jid \<Rightarrow> (jur_err, unit) result" where
  "check_member ns u i =
     (case lookup_node ns i of
        None \<Rightarrow> Err (JUnknownMember i)
      | Some m \<Rightarrow> if ju_level m = Special then Err (JSpecialMember i) else Ok ())"

definition put_members :: "jid \<Rightarrow> jid list \<Rightarrow> (jid \<times> jid list) list \<Rightarrow> (jid \<times> jid list) list" where
  "put_members s ms gm = filter (\<lambda>(k, _). k \<noteq> s) gm @ [(s, ms)]"

definition add_membership :: "geo_node list \<Rightarrow> (jid \<times> jid list) list \<Rightarrow> membership \<Rightarrow> (jur_err, (jid \<times> jid list) list) result" where
  "add_membership ns gm m =
     (case lookup_node ns (ms_special m) of
        None \<Rightarrow> Err (JNotSpecial (ms_special m))
      | Some s \<Rightarrow>
        if ju_level s \<noteq> Special then Err (JNotSpecial (ms_special m))
        else bindR (foldR (check_member ns) () (ms_members m)) (\<lambda>_.
          Ok (put_members (ms_special m) (sort (ms_members m)) gm)))"

definition new_graph :: "string \<Rightarrow> geo_node list \<Rightarrow> membership list \<Rightarrow> (jur_err, graph) result" where
  "new_graph version nodes memberships =
     (if version = [] then Err JNoVersion
      else
        bindR (foldR add_graph_node [] nodes) (\<lambda>ns.
        bindR (foldR (\<lambda>u n. validate_parent ns n) () ns) (\<lambda>_.
        bindR (foldR (add_membership ns) [] memberships) (\<lambda>gm.
          Ok \<lparr>gr_version = version, gr_nodes = ns, gr_members = gm\<rparr>))))"

definition node_at :: "graph \<Rightarrow> jid \<Rightarrow> int \<Rightarrow> geo_node option" where
  "node_at g i t =
     (case lookup_node (gr_nodes g) i of
        None \<Rightarrow> None
      | Some n \<Rightarrow> if valid_at n t then Some n else None)"

definition country_at :: "graph \<Rightarrow> string \<Rightarrow> int \<Rightarrow> geo_node option" where
  "country_at g code t =
     (case filter (\<lambda>n. ju_level n = Country \<and> ju_country n = code \<and> valid_at n t) (gr_nodes g) of
        [n] \<Rightarrow> Some n
      | _ \<Rightarrow> None)"

text \<open>The loop of \<open>Chain\<close>, from a node to the root. Nothing in the loop bounds it: on an arbitrary graph it
  may not return, and None is the run that does not.\<close>

partial_function (option) climb_chain :: "graph \<Rightarrow> int \<Rightarrow> geo_node \<Rightarrow> geo_node list \<Rightarrow> (jur_err, geo_node list) result option" where
  "climb_chain g t n acc =
     (if ju_parent n = [] then Some (Ok acc)
      else case node_at g (ju_parent n) t of
             None \<Rightarrow> Some (Err (JParentGone (ju_id n) (ju_parent n)))
           | Some p \<Rightarrow> climb_chain g t p (acc @ [p]))"

declare climb_chain.simps [code]

definition chain :: "graph \<Rightarrow> jid \<Rightarrow> int \<Rightarrow> (jur_err, geo_node list) result option" where
  "chain g i t =
     (case node_at g i t of
        None \<Rightarrow> Some (Err (JNotAt i))
      | Some n \<Rightarrow> if ju_level n = Special then Some (Ok [n]) else climb_chain g t n [n])"

definition ancestor_at :: "graph \<Rightarrow> jid \<Rightarrow> level \<Rightarrow> int \<Rightarrow> geo_node option option" where
  "ancestor_at g i l t =
     map_option (\<lambda>r. case r of Err e \<Rightarrow> None | Ok ns \<Rightarrow> find (\<lambda>n. ju_level n = l) ns) (chain g i t)"

definition specials_for :: "graph \<Rightarrow> jid list \<Rightarrow> int \<Rightarrow> geo_node list" where
  "specials_for g ids t =
     sort_by (\<lambda>a b. ju_id a < ju_id b)
       (List.map_filter (\<lambda>(s, ms). case node_at g s t of
            None \<Rightarrow> None
          | Some n \<Rightarrow> if list_ex (\<lambda>m. m \<in> set ids) ms then Some n else None) (gr_members g))"

end
