(* ===== verification/Situs.thy ===== *)
theory Situs
  imports Geography
begin

text \<open>
  \<open>backend/internal/domain/jurisdiction\<close>: points, boundaries and the exact containment test
  (\<open>boundary.go\<close>), typed evidence and its canonical order (\<open>evidence.go\<close>), situs rules and their
  selection (\<open>situs.go\<close>), and the primary place of use (\<open>ppu.go\<close>). What \<open>big.Rat.SetString\<close> reads from a
  coordinate's text is the argument \<open>rat_of\<close>; the arithmetic on the result is exact, as it is in the code.
\<close>

section \<open>Points and boundaries (boundary.go)\<close>

type_synonym rat_reader = "string \<Rightarrow> rat option"

record point =
  pt_latitude :: string
  pt_longitude :: string

type_synonym xy = "rat \<times> rat"

definition exact :: "rat_reader \<Rightarrow> point \<Rightarrow> (jur_err, xy) result" where
  "exact rat_of p =
     (case rat_of (pt_latitude p) of
        None \<Rightarrow> Err (JPoint (pt_latitude p))
      | Some lat \<Rightarrow>
        (case rat_of (pt_longitude p) of
           None \<Rightarrow> Err (JPoint (pt_longitude p))
         | Some lon \<Rightarrow>
           if lat < - 90 \<or> 90 < lat then Err (JPoint (pt_latitude p))
           else if lon < - 180 \<or> 180 < lon then Err (JPoint (pt_longitude p))
           else Ok (lon, lat)))"

definition validate_point :: "rat_reader \<Rightarrow> point \<Rightarrow> (jur_err, unit) result" where
  "validate_point rat_of p = bindR (exact rat_of p) (\<lambda>_. Ok ())"

definition point_value :: "point \<Rightarrow> cvalue" where
  "point_value p = c_object [(''latitude'', VString (pt_latitude p)), (''longitude'', VString (pt_longitude p))]"

record polygon =
  pg_outer :: "point list"
  pg_holes :: "point list list"

record boundary =
  bd_jurisdiction :: jid
  bd_level :: level
  bd_polygons :: "polygon list"

record dataset_ref =
  dr_id :: string
  dr_version :: string
  dr_digest :: digest

record dataset =
  dt_ref :: dataset_ref
  dt_published :: int
  dt_source :: string
  dt_boundaries :: "boundary list"

definition between :: "rat \<Rightarrow> rat \<Rightarrow> rat \<Rightarrow> bool" where
  "between a b v \<longleftrightarrow> (let (lo, hi) = (if b < a then (b, a) else (a, b)) in lo \<le> v \<and> v \<le> hi)"

definition on_segment :: "xy \<Rightarrow> xy \<Rightarrow> xy \<Rightarrow> bool" where
  "on_segment a b q \<longleftrightarrow>
     (fst b - fst a) * (snd q - snd a) - (snd b - snd a) * (fst q - fst a) = 0
     \<and> between (fst a) (fst b) (fst q) \<and> between (snd a) (snd b) (snd q)"

definition crosses :: "xy \<Rightarrow> xy \<Rightarrow> xy \<Rightarrow> bool" where
  "crosses a b q \<longleftrightarrow>
     (snd q < snd a) \<noteq> (snd q < snd b)
     \<and> fst q < fst a + (snd q - snd a) * (fst b - fst a) / (snd b - snd a)"

fun cast_ray :: "xy \<Rightarrow> bool \<Rightarrow> bool \<Rightarrow> (xy \<times> xy) list \<Rightarrow> bool" where
  "cast_ray q on_edge inside [] = inside"
| "cast_ray q on_edge inside ((a, b) # es) =
     (if on_segment a b q then on_edge
      else cast_ray q on_edge (if crosses a b q then \<not> inside else inside) es)"

definition edges :: "'a list \<Rightarrow> ('a \<times> 'a) list" where
  "edges ps = zip ps (rotate1 ps)"

definition ring_contains :: "rat_reader \<Rightarrow> point list \<Rightarrow> xy \<Rightarrow> bool \<Rightarrow> (jur_err, bool) result" where
  "ring_contains rat_of ring q on_edge =
     bindR (mapR (exact rat_of) ring) (\<lambda>pts. Ok (cast_ray q on_edge False (edges pts)))"

fun in_hole :: "rat_reader \<Rightarrow> xy \<Rightarrow> point list list \<Rightarrow> (jur_err, bool) result" where
  "in_hole rat_of q [] = Ok False"
| "in_hole rat_of q (h # hs) =
     bindR (ring_contains rat_of h q False) (\<lambda>strictly. if strictly then Ok True else in_hole rat_of q hs)"

fun polygons_contain :: "rat_reader \<Rightarrow> xy \<Rightarrow> polygon list \<Rightarrow> (jur_err, bool) result" where
  "polygons_contain rat_of q [] = Ok False"
| "polygons_contain rat_of q (p # ps) =
     bindR (ring_contains rat_of (pg_outer p) q True) (\<lambda>inside.
       if \<not> inside then polygons_contain rat_of q ps
       else bindR (in_hole rat_of q (pg_holes p)) (\<lambda>hole.
         if hole then polygons_contain rat_of q ps else Ok True))"

definition boundary_contains :: "rat_reader \<Rightarrow> boundary \<Rightarrow> xy \<Rightarrow> (jur_err, bool) result" where
  "boundary_contains rat_of b q = polygons_contain rat_of q (bd_polygons b)"

definition containing_step :: "rat_reader \<Rightarrow> xy \<Rightarrow> boundary list \<Rightarrow> boundary \<Rightarrow> (jur_err, boundary list) result" where
  "containing_step rat_of q out b = bindR (boundary_contains rat_of b q) (\<lambda>inside. Ok (if inside then out @ [b] else out))"

definition containing :: "rat_reader \<Rightarrow> dataset \<Rightarrow> point \<Rightarrow> (jur_err, boundary list) result" where
  "containing rat_of d p = bindR (exact rat_of p) (\<lambda>q. foldR (containing_step rat_of q) [] (dt_boundaries d))"

fun level_name :: "level \<Rightarrow> string" where
  "level_name Country = ''COUNTRY''"
| "level_name State = ''STATE''"
| "level_name County = ''COUNTY''"
| "level_name City = ''CITY''"
| "level_name District = ''DISTRICT''"
| "level_name Special = ''SPECIAL''"
| "level_name (LevelOther s) = s"

definition ring_value :: "point list \<Rightarrow> cvalue" where
  "ring_value r = VArray (map point_value r)"

definition boundary_value :: "boundary \<Rightarrow> cvalue" where
  "boundary_value b = c_object
     [(''jurisdiction'', VString (bd_jurisdiction b)), (''level'', VString (level_name (bd_level b))),
      (''polygons'', VArray (map (\<lambda>p. c_object [(''outer'', ring_value (pg_outer p)),
          (''holes'', VArray (map ring_value (pg_holes p)))]) (bd_polygons b)))]"

definition dataset_value :: "dataset \<Rightarrow> cvalue" where
  "dataset_value d = c_object
     [(''id'', VString (dr_id (dt_ref d))), (''version'', VString (dr_version (dt_ref d))), (''source'', VString (dt_source d)),
      (''published'', c_time (dt_published d)), (''boundaries'', VArray (map boundary_value (dt_boundaries d)))]"

definition check_ring :: "rat_reader \<Rightarrow> jid \<Rightarrow> unit \<Rightarrow> point list \<Rightarrow> (jur_err, unit) result" where
  "check_ring rat_of i u ring =
     (if length ring < 3 then Err (JDataset i)
      else foldR (\<lambda>u p. validate_point rat_of p) () ring)"

definition check_boundary :: "rat_reader \<Rightarrow> jid list \<Rightarrow> boundary \<Rightarrow> (jur_err, jid list) result" where
  "check_boundary rat_of seen b =
     (if \<not> validate_jurisdiction_id (bd_jurisdiction b) then Err (JBadId (bd_jurisdiction b))
      else if bd_jurisdiction b \<in> set seen then Err (JDataset (bd_jurisdiction b))
      else if \<not> level_valid (bd_level b) then Err (JDataset (bd_jurisdiction b))
      else if bd_polygons b = [] then Err (JDataset (bd_jurisdiction b))
      else bindR (foldR (check_ring rat_of (bd_jurisdiction b)) ()
               (concat (map (\<lambda>p. pg_outer p # pg_holes p) (bd_polygons b)))) (\<lambda>_.
        Ok (seen @ [bd_jurisdiction b])))"

definition new_dataset ::
  "rat_reader \<Rightarrow> hash \<Rightarrow> string \<Rightarrow> string \<Rightarrow> string \<Rightarrow> int \<Rightarrow> boundary list \<Rightarrow> (jur_err, dataset) result" where
  "new_dataset rat_of sha i version source published bs =
     (if i = [] \<or> version = [] then Err (JDataset i)
      else if source = [] then Err (JDataset i)
      else if published = 0 then Err (JDataset i)
      else
        bindR (foldR (check_boundary rat_of) [] bs) (\<lambda>_.
          let d = \<lparr>dt_ref = \<lparr>dr_id = i, dr_version = version, dr_digest = []\<rparr>, dt_published = published, dt_source = source,
                   dt_boundaries = sort_by (\<lambda>a b. bd_jurisdiction a < bd_jurisdiction b) bs\<rparr> in
          bindR (map_err JCanonical (sum_value sha (dataset_value d))) (\<lambda>digest.
            Ok (d\<lparr>dt_ref := (dt_ref d)\<lparr>dr_digest := digest\<rparr>\<rparr>))))"

section \<open>Evidence (evidence.go)\<close>

datatype evidence_type =
    PrimaryPlaceOfUse | ServiceAddress | BillingAddress | FixedLineLocation | DeviceCoordinates | NetworkLocation
  | SIMCountry | IPGeolocation | BankLocation | CustomerDeclaration | SellerEstablishment | CustomerEstablishment
  | VATIdentification | EvidenceOther string

fun evidence_rank :: "evidence_type \<Rightarrow> nat option" where
  "evidence_rank PrimaryPlaceOfUse = Some 0"
| "evidence_rank ServiceAddress = Some 1"
| "evidence_rank BillingAddress = Some 2"
| "evidence_rank FixedLineLocation = Some 3"
| "evidence_rank DeviceCoordinates = Some 4"
| "evidence_rank NetworkLocation = Some 5"
| "evidence_rank SIMCountry = Some 6"
| "evidence_rank IPGeolocation = Some 7"
| "evidence_rank BankLocation = Some 8"
| "evidence_rank CustomerDeclaration = Some 9"
| "evidence_rank SellerEstablishment = Some 10"
| "evidence_rank CustomerEstablishment = Some 11"
| "evidence_rank VATIdentification = Some 12"
| "evidence_rank (EvidenceOther s) = None"

fun evidence_name :: "evidence_type \<Rightarrow> string" where
  "evidence_name PrimaryPlaceOfUse = ''PRIMARY_PLACE_OF_USE''"
| "evidence_name ServiceAddress = ''SERVICE_ADDRESS''"
| "evidence_name BillingAddress = ''BILLING_ADDRESS''"
| "evidence_name FixedLineLocation = ''FIXED_LINE_LOCATION''"
| "evidence_name DeviceCoordinates = ''DEVICE_COORDINATES''"
| "evidence_name NetworkLocation = ''NETWORK_LOCATION''"
| "evidence_name SIMCountry = ''SIM_COUNTRY''"
| "evidence_name IPGeolocation = ''IP_GEOLOCATION''"
| "evidence_name BankLocation = ''BANK_LOCATION''"
| "evidence_name CustomerDeclaration = ''CUSTOMER_DECLARATION''"
| "evidence_name SellerEstablishment = ''SELLER_ESTABLISHMENT''"
| "evidence_name CustomerEstablishment = ''CUSTOMER_ESTABLISHMENT''"
| "evidence_name VATIdentification = ''VAT_IDENTIFICATION''"
| "evidence_name (EvidenceOther s) = s"

definition evidence_valid :: "evidence_type \<Rightarrow> bool" where
  "evidence_valid t \<longleftrightarrow> evidence_rank t \<noteq> None"

definition evidence_order :: "evidence_type \<Rightarrow> nat" where
  "evidence_order t = (case evidence_rank t of Some n \<Rightarrow> n | None \<Rightarrow> 0)"

datatype evidence_source = CustomerAsserted | SellerRecorded | NetworkDerived | ThirdPartyVerified | AuthorityVerified
  | SourceOther string

fun source_name :: "evidence_source \<Rightarrow> string" where
  "source_name CustomerAsserted = ''CUSTOMER_ASSERTED''"
| "source_name SellerRecorded = ''SELLER_RECORDED''"
| "source_name NetworkDerived = ''NETWORK_DERIVED''"
| "source_name ThirdPartyVerified = ''THIRD_PARTY_VERIFIED''"
| "source_name AuthorityVerified = ''AUTHORITY_VERIFIED''"
| "source_name (SourceOther s) = s"

fun source_valid :: "evidence_source \<Rightarrow> bool" where
  "source_valid (SourceOther s) = False"
| "source_valid s = True"

datatype reliability = Strong | Supporting | Weak | ReliabilityOther string

fun reliability_rank :: "reliability \<Rightarrow> nat option" where
  "reliability_rank Weak = Some 1"
| "reliability_rank Supporting = Some 2"
| "reliability_rank Strong = Some 3"
| "reliability_rank (ReliabilityOther s) = None"

fun reliability_name :: "reliability \<Rightarrow> string" where
  "reliability_name Strong = ''STRONG''"
| "reliability_name Supporting = ''SUPPORTING''"
| "reliability_name Weak = ''WEAK''"
| "reliability_name (ReliabilityOther s) = s"

definition reliability_valid :: "reliability \<Rightarrow> bool" where
  "reliability_valid c \<longleftrightarrow> reliability_rank c \<noteq> None"

definition at_least :: "reliability \<Rightarrow> reliability \<Rightarrow> bool" where
  "at_least c m \<longleftrightarrow> (case reliability_rank m of None \<Rightarrow> 0 | Some r \<Rightarrow> r) \<le> (case reliability_rank c of None \<Rightarrow> 0 | Some r \<Rightarrow> r)"

text \<open>The empty status, of evidence that is not a VAT number, is \<open>VatOther\<close> of the empty text.\<close>

datatype vat_status = VatValidated | VatUnvalidated | VatUnavailable | VatOther string

fun vat_valid :: "vat_status \<Rightarrow> bool" where
  "vat_valid (VatOther s) = False"
| "vat_valid v = True"

fun vat_name :: "vat_status \<Rightarrow> string" where
  "vat_name VatValidated = ''VALIDATED''"
| "vat_name VatUnvalidated = ''UNVALIDATED''"
| "vat_name VatUnavailable = ''VALIDATION_UNAVAILABLE''"
| "vat_name (VatOther s) = s"

record situs_evidence =
  sv_type :: evidence_type
  sv_source :: evidence_source
  sv_collected_at :: int
  sv_jurisdiction :: jid
  sv_point :: "point option"
  sv_country :: string
  sv_vat :: vat_status

definition validate_evidence :: "rat_reader \<Rightarrow> situs_evidence \<Rightarrow> (jur_err, unit) result" where
  "validate_evidence rat_of e =
     (let name = evidence_name (sv_type e);
          carried = (if sv_jurisdiction e \<noteq> [] then 1 else 0) + (if sv_point e \<noteq> None then 1 else 0)
            + (if sv_country e \<noteq> [] then (1 :: nat) else 0) in
      if \<not> evidence_valid (sv_type e) then Err (JEvidence name)
      else if \<not> source_valid (sv_source e) then Err (JEvidence name)
      else if sv_collected_at e = 0 then Err (JEvidence name)
      else if sv_jurisdiction e \<noteq> [] \<and> \<not> validate_jurisdiction_id (sv_jurisdiction e) then Err (JBadId (sv_jurisdiction e))
      else
        bindR (case sv_point e of None \<Rightarrow> Ok () | Some p \<Rightarrow> validate_point rat_of p) (\<lambda>_.
          if sv_country e \<noteq> [] \<and> \<not> country_code (sv_country e) then Err (JEvidence name)
          else if carried \<noteq> 1 then Err (JEvidence name)
          else if sv_type e = VATIdentification then (if vat_valid (sv_vat e) then Ok () else Err (JEvidence name))
          else if sv_vat e \<noteq> VatOther [] then Err (JEvidence name)
          else Ok ()))"

definition evidence_value :: "situs_evidence \<Rightarrow> cvalue" where
  "evidence_value e = c_object
     [(''type'', VString (evidence_name (sv_type e))), (''source'', VString (source_name (sv_source e))),
      (''collectedAt'', c_time (sv_collected_at e)), (''jurisdiction'', opt_string (sv_jurisdiction e)),
      (''point'', case sv_point e of None \<Rightarrow> VAbsent | Some p \<Rightarrow> point_value p),
      (''country'', opt_string (sv_country e)), (''vatValidation'', opt_string (vat_name (sv_vat e)))]"

definition keyed_before :: "situs_evidence \<times> string \<Rightarrow> situs_evidence \<times> string \<Rightarrow> bool" where
  "keyed_before a b \<longleftrightarrow>
     (let i = evidence_order (sv_type (fst a)); j = evidence_order (sv_type (fst b)) in
      if i \<noteq> j then i < j else snd a < snd b)"

definition key_evidence :: "rat_reader \<Rightarrow> situs_evidence \<Rightarrow> (jur_err, situs_evidence \<times> string) result" where
  "key_evidence rat_of e =
     bindR (validate_evidence rat_of e) (\<lambda>_.
     bindR (map_err JCanonical (encode (evidence_value e))) (\<lambda>b. Ok (e, b)))"

definition canonicalise :: "rat_reader \<Rightarrow> situs_evidence list \<Rightarrow> (jur_err, situs_evidence list) result" where
  "canonicalise rat_of items = bindR (mapR (key_evidence rat_of) items) (\<lambda>ks. Ok (map fst (sort_by keyed_before ks)))"

section \<open>Situs rules (situs.go)\<close>

datatype situs_mode = ModePrecedence | ModeQuorum | ModeSpatial | ModeOther string

datatype outside_policy = OutsideInsufficient | OutsideFallBackToParent | OutsideOther string

text \<open>An undeclared sourcing is \<open>RoamingOther\<close> of the empty text, an unset role \<open>RoleOther\<close> of it.\<close>

datatype roaming_sourcing = RoamingHome | RoamingVisited | RoamingBoth | RoamingOther string

datatype customer_role = RoleB2B | RoleB2C | RoleUndetermined | RoleOther string

fun customer_role_valid :: "customer_role \<Rightarrow> bool" where
  "customer_role_valid (RoleOther s) = False"
| "customer_role_valid r = True"

record situs_rule =
  sr_id :: string
  sr_mode :: situs_mode
  sr_reliability :: "evidence_type \<rightharpoonup> reliability"
  sr_order :: "evidence_type list"
  sr_minimum :: reliability
  sr_required :: int
  sr_eligible :: "evidence_type list"
  sr_agreement :: level
  sr_coordinates :: "evidence_type list"
  sr_dataset :: string
  sr_outside :: outside_policy
  sr_parent :: jid
  sr_roaming :: roaming_sourcing

definition rule_reads :: "situs_rule \<Rightarrow> evidence_type list" where
  "rule_reads r =
     (case sr_mode r of
        ModePrecedence \<Rightarrow> sr_order r | ModeQuorum \<Rightarrow> sr_eligible r | ModeSpatial \<Rightarrow> sr_coordinates r | ModeOther s \<Rightarrow> [])"

definition check_read :: "situs_rule \<Rightarrow> evidence_type list \<Rightarrow> evidence_type \<Rightarrow> (jur_err, evidence_type list) result" where
  "check_read r seen t =
     (if \<not> evidence_valid t then Err (JRule (sr_id r))
      else if t \<in> set seen then Err (JRule (sr_id r))
      else (case sr_reliability r t of
              None \<Rightarrow> Err (JRule (sr_id r))
            | Some c \<Rightarrow> if \<not> reliability_valid c then Err (JRule (sr_id r)) else Ok (seen @ [t])))"

definition check_mode :: "situs_rule \<Rightarrow> (jur_err, unit) result" where
  "check_mode r =
     (case sr_mode r of
        ModePrecedence \<Rightarrow> if reliability_valid (sr_minimum r) then Ok () else Err (JRule (sr_id r))
      | ModeQuorum \<Rightarrow> if sr_required r < 1 \<or> \<not> level_valid (sr_agreement r) then Err (JRule (sr_id r)) else Ok ()
      | ModeSpatial \<Rightarrow>
        if \<not> list_all (\<lambda>t. t = DeviceCoordinates \<or> t = NetworkLocation) (rule_reads r) then Err (JRule (sr_id r))
        else if sr_dataset r = [] then Err (JRule (sr_id r))
        else (case sr_outside r of
                OutsideInsufficient \<Rightarrow> Ok ()
              | OutsideFallBackToParent \<Rightarrow> if validate_jurisdiction_id (sr_parent r) then Ok () else Err (JRule (sr_id r))
              | OutsideOther s \<Rightarrow> Err (JRule (sr_id r)))
      | ModeOther s \<Rightarrow> Err (JRule (sr_id r)))"

definition validate_rule :: "situs_rule \<Rightarrow> (jur_err, unit) result" where
  "validate_rule r =
     (if sr_id r = [] then Err (JRule [])
      else if rule_reads r = [] then Err (JRule (sr_id r))
      else
        bindR (foldR (check_read r) [] (rule_reads r)) (\<lambda>_.
        bindR (check_mode r) (\<lambda>_.
          case sr_roaming r of
            RoamingOther s \<Rightarrow> if s = [] then Ok () else Err (JRule (sr_id r))
          | _ \<Rightarrow> Ok ())))"

record situs_binding =
  sb_ontology :: string
  sb_role :: customer_role
  sb_rule :: situs_rule

definition specificity :: "situs_binding \<Rightarrow> nat" where
  "specificity b = (if sb_ontology b \<noteq> [] then 1 else 0) + (if sb_role b \<noteq> RoleOther [] then 1 else 0)"

definition binding_matches :: "situs_binding \<Rightarrow> string \<Rightarrow> customer_role \<Rightarrow> bool" where
  "binding_matches b ontology role \<longleftrightarrow>
     (sb_ontology b = [] \<or> sb_ontology b = ontology) \<and> (sb_role b = RoleOther [] \<or> sb_role b = role)"

definition binding_overlaps :: "situs_binding \<Rightarrow> situs_binding \<Rightarrow> bool" where
  "binding_overlaps b c \<longleftrightarrow>
     (sb_ontology b = [] \<or> sb_ontology c = [] \<or> sb_ontology b = sb_ontology c)
     \<and> (sb_role b = RoleOther [] \<or> sb_role c = RoleOther [] \<or> sb_role b = sb_role c)"

record rule_set =
  rs_bindings :: "situs_binding list"
  rs_undetermined :: customer_role

definition add_binding :: "situs_binding list \<Rightarrow> situs_binding \<Rightarrow> (jur_err, situs_binding list) result" where
  "add_binding bs b =
     (if sb_role b \<noteq> RoleOther [] \<and> \<not> customer_role_valid (sb_role b) then Err (JBinding (sr_id (sb_rule b)))
      else bindR (validate_rule (sb_rule b)) (\<lambda>_.
        if sr_id (sb_rule b) \<in> set (map (\<lambda>c. sr_id (sb_rule c)) bs) then Err (JBinding (sr_id (sb_rule b)))
        else if list_ex (\<lambda>c. specificity b = specificity c \<and> binding_overlaps b c) bs then Err (JBinding (sr_id (sb_rule b)))
        else Ok (bs @ [b])))"

definition new_rule_set :: "situs_binding list \<Rightarrow> customer_role \<Rightarrow> (jur_err, rule_set) result" where
  "new_rule_set bindings undetermined =
     (if \<not> customer_role_valid undetermined then Err (JBinding [])
      else bindR (foldR add_binding [] bindings) (\<lambda>bs.
        Ok \<lparr>rs_bindings = sort_by (\<lambda>a b. specificity b < specificity a) bs, rs_undetermined = undetermined\<rparr>))"

definition select_rule :: "rule_set \<Rightarrow> string \<Rightarrow> customer_role \<Rightarrow> situs_rule option" where
  "select_rule rs ontology role = map_option sb_rule (find (\<lambda>b. binding_matches b ontology role) (rs_bindings rs))"

section \<open>Primary place of use (ppu.go)\<close>

record place_of_use =
  pu_jurisdiction :: jid
  pu_from :: int
  pu_to :: "int option"
  pu_source :: evidence_source
  pu_collected_at :: int

definition validate_ppu :: "graph \<Rightarrow> place_of_use \<Rightarrow> (jur_err, unit) result" where
  "validate_ppu g p =
     (if pu_from p = 0 then Err (JPpu (pu_jurisdiction p))
      else if (case pu_to p of None \<Rightarrow> False | Some e \<Rightarrow> \<not> pu_from p < e) then Err (JPpu (pu_jurisdiction p))
      else if \<not> source_valid (pu_source p) \<or> pu_collected_at p = 0 then Err (JPpu (pu_jurisdiction p))
      else (case node_at g (pu_jurisdiction p) (pu_from p) of
              None \<Rightarrow> Err (JPpu (pu_jurisdiction p))
            | Some n \<Rightarrow> if ju_level n = Special then Err (JPpu (pu_jurisdiction p)) else Ok ()))"

fun periods_disjoint :: "place_of_use list \<Rightarrow> bool" where
  "periods_disjoint (p # q # ps) =
     ((case pu_to p of None \<Rightarrow> False | Some e \<Rightarrow> \<not> pu_from q < e) \<and> periods_disjoint (q # ps))"
| "periods_disjoint ps = True"

definition in_force :: "int \<Rightarrow> place_of_use \<Rightarrow> bool" where
  "in_force t p \<longleftrightarrow> \<not> t < pu_from p \<and> (case pu_to p of None \<Rightarrow> True | Some e \<Rightarrow> t < e)"

definition ppu_evidence_at :: "place_of_use list \<Rightarrow> int \<Rightarrow> (jur_err, situs_evidence option) result" where
  "ppu_evidence_at ppus t =
     (let ps = sort_key pu_from ppus in
      if \<not> periods_disjoint ps then Err (JPpu [])
      else Ok (map_option (\<lambda>p. \<lparr>sv_type = PrimaryPlaceOfUse, sv_source = pu_source p, sv_collected_at = pu_collected_at p,
             sv_jurisdiction = pu_jurisdiction p, sv_point = None, sv_country = [], sv_vat = VatOther []\<rparr>)
           (find (in_force t) ps)))"

end
