(* ===== verification/Resolve.thy ===== *)
theory Resolve
  imports Situs
begin

text \<open>
  \<open>backend/internal/domain/jurisdiction/resolve.go\<close>: the resolution of situs from evidence. A step of the
  trace is a constructor with the arguments the code formats into its text (\<open>Rendering\<close>). A run that does not return
  is None: the walks of the graph are the only loops without a bound.
\<close>

datatype outcome = OutcomeUnset | Resolved | InsufficientEvidence | Ambiguous | Unsupported | DatasetDefect

datatype situs_step =
    StRole customer_role vat_status customer_role
  | StNoRule string customer_role
  | StSelected string situs_mode string customer_role
  | StBelow evidence_type "reliability option" reliability
  | StUnmapped evidence_type
  | StDisagree evidence_type jid jid
  | StWin evidence_type jid
  | StNoUsable "evidence_type list" reliability
  | StNotAtLevel evidence_type jid level
  | StSupports evidence_type jid level
  | StNoQuorum int "evidence_type list"
  | StAgreed nat jid
  | StEachReach "jid list" int
  | StNoCoordinates "evidence_type list"
  | StOverlap point nat level dataset_ref "jid list"
  | StFallBack point dataset_ref jid
  | StOutside point dataset_ref
  | StLies point jid level dataset_ref
  | StHierarchy jid nat int
  | StNotRoaming string string
  | StRoamingUndeclared string string string
  | StRoaming string string roaming_sourcing
  | StSpecial jid
  | StPlaceOfSupply jid jid jid bool
  | StNotCovered string
  | StUnused evidence_type evidence_source
  | StOutcome outcome

record roaming =
  ro_home :: string
  ro_visited :: string
  ro_roaming :: bool
  ro_sourcing :: roaming_sourcing

record supply_record =
  sp_supplier :: jid
  sp_customer :: jid
  sp_place :: jid
  sp_role :: customer_role
  sp_effective :: customer_role
  sp_vat :: vat_status
  sp_cross_border :: bool

record situs_resolution =
  so_outcome :: outcome
  so_graph_version :: string
  so_rule :: string
  so_mode :: "situs_mode option"
  so_applicable :: "jurisdiction list"
  so_winning :: "situs_evidence list"
  so_unused :: "situs_evidence list"
  so_dataset :: "dataset_ref option"
  so_needed :: "evidence_type list"
  so_roaming :: "roaming option"
  so_supply :: supply_record
  so_incident :: bool
  so_trace :: "situs_step list"

record resolver =
  rv_graph :: "graph option"
  rv_rules :: "rule_set option"
  rv_datasets :: "string \<rightharpoonup> dataset"

record situs_request =
  sq_event_time :: int
  sq_ontology :: string
  sq_evidence :: "situs_evidence list"
  sq_covered :: "string list"

text \<open>The resolution in progress: the graph and time it reads, the canonical items, the indices used and
  the record being built.\<close>

record progress =
  rz_graph :: graph
  rz_time :: int
  rz_items :: "situs_evidence list"
  rz_used :: "nat list"
  rz_out :: situs_resolution

definition trace_note :: "situs_step \<Rightarrow> progress \<Rightarrow> progress" where
  "trace_note s p = p\<lparr>rz_out := (rz_out p)\<lparr>so_trace := so_trace (rz_out p) @ [s]\<rparr>\<rparr>"

definition mark :: "nat list \<Rightarrow> progress \<Rightarrow> progress" where
  "mark is p = p\<lparr>rz_used := rz_used p @ is\<rparr>"

definition need :: "evidence_type list \<Rightarrow> progress \<Rightarrow> progress" where
  "need ts p = p\<lparr>rz_out := (rz_out p)\<lparr>so_needed := ts\<rparr>\<rparr>"

section \<open>Evidence and roles\<close>

definition item_node :: "progress \<Rightarrow> situs_evidence \<Rightarrow> geo_node option" where
  "item_node p e =
     (if sv_jurisdiction e \<noteq> [] then node_at (rz_graph p) (sv_jurisdiction e) (rz_time p)
      else if sv_country e \<noteq> [] then country_at (rz_graph p) (sv_country e) (rz_time p)
      else None)"

definition role_step :: "customer_role \<times> vat_status \<Rightarrow> situs_evidence \<Rightarrow> customer_role \<times> vat_status" where
  "role_step = (\<lambda>(role, status) e.
     (if sv_type e \<noteq> VATIdentification then (role, status)
      else if sv_vat e = VatValidated then (RoleB2B, VatValidated)
      else if sv_vat e = VatUnavailable \<and> status \<noteq> VatValidated then (role, VatUnavailable)
      else if status = VatOther [] then (role, VatUnvalidated)
      else (role, status)))"

definition settle_role :: "rule_set \<Rightarrow> progress \<Rightarrow> progress" where
  "settle_role rules p =
     (let (role, status) = foldl role_step (RoleUndetermined, VatOther []) (rz_items p);
          effective = (if role = RoleUndetermined then rs_undetermined rules else role);
          out = rz_out p in
      trace_note (StRole role status effective)
        (p\<lparr>rz_out := out\<lparr>so_supply := (so_supply out)\<lparr>sp_role := role, sp_vat := status, sp_effective := effective\<rparr>\<rparr>\<rparr>))"

section \<open>Precedence\<close>

definition candidates :: "progress \<Rightarrow> evidence_type \<Rightarrow> (nat \<times> geo_node) list" where
  "candidates p t = List.map_filter (\<lambda>(i, e). if sv_type e \<noteq> t then None else map_option (Pair i) (item_node p e))
     (List.enumerate 0 (rz_items p))"

definition note_unmapped :: "evidence_type \<Rightarrow> progress \<Rightarrow> progress" where
  "note_unmapped t p = foldl (\<lambda>q e. if sv_type e = t \<and> item_node p e = None then trace_note (StUnmapped t) q else q) p (rz_items p)"

fun precedence :: "situs_rule \<Rightarrow> evidence_type list \<Rightarrow> progress \<Rightarrow> progress \<times> jid \<times> outcome" where
  "precedence r [] p = (trace_note (StNoUsable (sr_order r) (sr_minimum r)) (need (sr_order r) p), [], InsufficientEvidence)"
| "precedence r (t # ts) p =
     (if \<not> at_least (case sr_reliability r t of Some c \<Rightarrow> c | None \<Rightarrow> ReliabilityOther []) (sr_minimum r)
      then precedence r ts (trace_note (StBelow t (sr_reliability r t) (sr_minimum r)) p)
      else
        let cs = candidates p t; q = note_unmapped t p in
        case cs of
          [] \<Rightarrow> precedence r ts q
        | (i, n) # rest \<Rightarrow>
          (case find (\<lambda>(j, m). ju_id m \<noteq> ju_id n) rest of
             Some (j, m) \<Rightarrow> (trace_note (StDisagree t (ju_id n) (ju_id m)) (mark (map fst cs) q), [], Ambiguous)
           | None \<Rightarrow> (trace_note (StWin t (ju_id n)) (mark (map fst cs) q), ju_id n, Resolved)))"

section \<open>Quorum\<close>

type_synonym groups = "(jid \<times> nat list) list"

fun add_to_group :: "jid \<Rightarrow> nat \<Rightarrow> groups \<Rightarrow> groups" where
  "add_to_group g i [] = [(g, [i])]"
| "add_to_group g i ((h, is) # gs) = (if h = g then (h, is @ [i]) # gs else (h, is) # add_to_group g i gs)"

definition quorum_step :: "situs_rule \<Rightarrow> (progress \<times> groups) option \<Rightarrow> nat \<times> situs_evidence \<Rightarrow> (progress \<times> groups) option" where
  "quorum_step r st = (\<lambda>(i, e).
     Option.bind st (\<lambda>(p, gs).
       if sv_type e \<notin> set (sr_eligible r) then Some (p, gs)
       else case item_node p e of
         None \<Rightarrow> Some (trace_note (StUnmapped (sv_type e)) p, gs)
       | Some n \<Rightarrow>
         Option.bind (ancestor_at (rz_graph p) (ju_id n) (sr_agreement r) (rz_time p)) (\<lambda>a.
           case a of
             None \<Rightarrow> Some (trace_note (StNotAtLevel (sv_type e) (ju_id n) (sr_agreement r)) p, gs)
           | Some m \<Rightarrow> Some (trace_note (StSupports (sv_type e) (ju_id m) (sr_agreement r)) p, add_to_group (ju_id m) i gs))))"

definition members_of :: "groups \<Rightarrow> jid \<Rightarrow> nat list" where
  "members_of gs g = (case map_of gs g of Some is \<Rightarrow> is | None \<Rightarrow> [])"

definition reached_quorum :: "situs_rule \<Rightarrow> groups \<Rightarrow> jid list" where
  "reached_quorum r gs = sort (map fst (filter (\<lambda>(g, is). sr_required r \<le> int (length is)) gs))"

definition quorum :: "situs_rule \<Rightarrow> progress \<Rightarrow> (progress \<times> jid \<times> outcome) option" where
  "quorum r p =
     Option.bind (foldl (quorum_step r) (Some (p, [])) (List.enumerate 0 (rz_items p))) (\<lambda>(p, gs).
       Some (case reached_quorum r gs of
           [] \<Rightarrow> (trace_note (StNoQuorum (sr_required r) (sr_eligible r)) (need (sr_eligible r) p), [], InsufficientEvidence)
         | [g] \<Rightarrow> (trace_note (StAgreed (length (members_of gs g)) g) (mark (members_of gs g) p), g, Resolved)
         | rs \<Rightarrow> (trace_note (StEachReach rs (sr_required r)) (mark (concat (map (members_of gs) rs)) p), [], Ambiguous)))"

section \<open>Spatial\<close>

definition first_point :: "situs_evidence list \<Rightarrow> evidence_type \<Rightarrow> (nat \<times> point) option" where
  "first_point items t =
     (case find (\<lambda>(i, e). sv_type e = t \<and> sv_point e \<noteq> None) (List.enumerate 0 items) of
        None \<Rightarrow> None
      | Some (i, e) \<Rightarrow> map_option (Pair i) (sv_point e))"

fun coordinates_from :: "situs_evidence list \<Rightarrow> evidence_type list \<Rightarrow> (nat \<times> point) option" where
  "coordinates_from items [] = None"
| "coordinates_from items (t # ts) = (case first_point items t of Some x \<Rightarrow> Some x | None \<Rightarrow> coordinates_from items ts)"

definition at_level :: "level \<Rightarrow> boundary list \<Rightarrow> boundary list" where
  "at_level l bs = filter (\<lambda>b. bd_level b = l) bs"

definition general_levels :: "boundary list \<Rightarrow> level list" where
  "general_levels bs = sort_key rank0 (remdups (map bd_level (filter (\<lambda>b. bd_level b \<noteq> Special) bs)))"

text \<open>The first level with two boundaries, or the boundary at the deepest level.\<close>

fun deepest :: "boundary list \<Rightarrow> boundary option \<Rightarrow> level list \<Rightarrow> level + boundary option" where
  "deepest bs best [] = Inr best"
| "deepest bs best (l # ls) =
     (case at_level l bs of
        [] \<Rightarrow> deepest bs best ls
      | [b] \<Rightarrow> deepest bs (if (case best of None \<Rightarrow> True | Some c \<Rightarrow> rank0 (bd_level c) < rank0 l) then Some b else best) ls
      | _ \<Rightarrow> Inl l)"

definition spatial :: "rat_reader \<Rightarrow> (string \<rightharpoonup> dataset) \<Rightarrow> situs_rule \<Rightarrow> progress \<Rightarrow>
    (jur_err, progress \<times> jid \<times> point option \<times> outcome) result" where
  "spatial rat_of datasets r p =
     (case datasets (sr_dataset r) of
        None \<Rightarrow> Err (JDataset (sr_dataset r))
      | Some ds \<Rightarrow>
        let ref = dt_ref ds; p = p\<lparr>rz_out := (rz_out p)\<lparr>so_dataset := Some ref\<rparr>\<rparr> in
        case coordinates_from (rz_items p) (sr_coordinates r) of
          None \<Rightarrow> Ok (trace_note (StNoCoordinates (sr_coordinates r)) (need (sr_coordinates r) p), [], None, InsufficientEvidence)
        | Some (i, pt) \<Rightarrow>
          let p = mark [i] p in
          bindR (containing rat_of ds pt) (\<lambda>bs.
            case deepest bs None (general_levels bs) of
              Inl l \<Rightarrow>
                Ok (trace_note (StOverlap pt (length (at_level l bs)) l ref (sort (map bd_jurisdiction (at_level l bs))))
                      (p\<lparr>rz_out := (rz_out p)\<lparr>so_incident := True\<rparr>\<rparr>), [], Some pt, DatasetDefect)
            | Inr (Some b) \<Rightarrow> Ok (trace_note (StLies pt (bd_jurisdiction b) (bd_level b) ref) p, bd_jurisdiction b, Some pt, Resolved)
            | Inr None \<Rightarrow>
                if sr_outside r = OutsideFallBackToParent
                then Ok (trace_note (StFallBack pt ref (sr_parent r)) p, sr_parent r, Some pt, Resolved)
                else Ok (trace_note (StOutside pt ref) (need (sr_coordinates r) p), [], Some pt, InsufficientEvidence)))"

section \<open>Roaming\<close>

definition roaming_countries :: "progress \<Rightarrow> geo_node list \<Rightarrow> string \<times> string \<Rightarrow> situs_evidence \<Rightarrow> string \<times> string" where
  "roaming_countries p ns = (\<lambda>(home, visited) e.
     (if sv_type e = SIMCountry then (if home = [] then sv_country e else home, visited)
      else if sv_type e = NetworkLocation \<and> visited = [] then
        (home, case item_node p e of
                 Some n \<Rightarrow> ju_country n
               | None \<Rightarrow> if sv_point e \<noteq> None \<and> ns \<noteq> [] then ju_country (hd ns) else visited)
      else (home, visited)))"

definition derive_roaming :: "situs_rule \<Rightarrow> geo_node list \<Rightarrow> progress \<Rightarrow> progress \<times> roaming option \<times> outcome" where
  "derive_roaming r ns p =
     (let (home, visited) = foldl (roaming_countries p ns) ([], []) (rz_items p) in
      if home = [] \<or> visited = [] then (p, None, Resolved)
      else
        let ro = \<lparr>ro_home = home, ro_visited = visited, ro_roaming = (home \<noteq> visited), ro_sourcing = sr_roaming r\<rparr> in
        if \<not> ro_roaming ro then (trace_note (StNotRoaming home visited) p, Some ro, Resolved)
        else if sr_roaming r = RoamingOther [] then (trace_note (StRoamingUndeclared home visited (sr_id r)) p, Some ro, Unsupported)
        else (trace_note (StRoaming home visited (sr_roaming r)) p, Some ro, Resolved))"

fun unique_ids :: "jid list \<Rightarrow> jurisdiction list \<Rightarrow> jurisdiction list" where
  "unique_ids seen [] = []"
| "unique_ids seen (j # js) =
     (if ju_id j \<in> set seen then unique_ids seen js else j # unique_ids (ju_id j # seen) js)"

definition apply_roaming :: "graph \<Rightarrow> int \<Rightarrow> roaming \<Rightarrow> jurisdiction list \<Rightarrow> (jur_err, jurisdiction list) result" where
  "apply_roaming g t ro resolved =
     (case country_at g (ro_home ro) t of
        None \<Rightarrow> Err (JNotAt (ro_home ro))
      | Some home \<Rightarrow>
        (case ro_sourcing ro of
           RoamingHome \<Rightarrow> Ok [to_jurisdiction home]
         | RoamingVisited \<Rightarrow> Ok resolved
         | _ \<Rightarrow> Ok (unique_ids [] (resolved @ [to_jurisdiction home]))))"

section \<open>Special jurisdictions, place of supply, coverage\<close>

text \<open>A spatial rule that got this far found its dataset, so the branch without one is not reached.\<close>

definition specials_at_point ::
  "rat_reader \<Rightarrow> (string \<rightharpoonup> dataset) \<Rightarrow> situs_rule \<Rightarrow> point option \<Rightarrow> progress \<Rightarrow> (jur_err, jurisdiction list) result" where
  "specials_at_point rat_of datasets r point p =
     (if sr_mode r \<noteq> ModeSpatial then Ok []
      else case point of
        None \<Rightarrow> Ok []
      | Some pt \<Rightarrow>
        (case datasets (sr_dataset r) of
           None \<Rightarrow> Ok []
         | Some ds \<Rightarrow> bindR (containing rat_of ds pt) (\<lambda>bs.
             Ok (List.map_filter (\<lambda>b. if bd_level b \<noteq> Special then None
                   else map_option to_jurisdiction (node_at (rz_graph p) (bd_jurisdiction b) (rz_time p))) bs))))"

definition find_specials ::
  "rat_reader \<Rightarrow> (string \<rightharpoonup> dataset) \<Rightarrow> situs_rule \<Rightarrow> point option \<Rightarrow> jurisdiction list \<Rightarrow> progress \<Rightarrow>
   (jur_err, progress \<times> jurisdiction list) result" where
  "find_specials rat_of datasets r point applicable p =
     (let by_member = map to_jurisdiction (specials_for (rz_graph p) (map ju_id applicable) (rz_time p)) in
      bindR (specials_at_point rat_of datasets r point p) (\<lambda>by_point.
        let out = sort_by (\<lambda>a b. ju_id a < ju_id b) (unique_ids [] (by_member @ by_point)) in
        Ok (foldl (\<lambda>q j. trace_note (StSpecial (ju_id j)) q) p out, out)))"

definition supply_step :: "progress \<Rightarrow> supply_record \<Rightarrow> situs_evidence \<Rightarrow> supply_record" where
  "supply_step p s e =
     (case item_node p e of
        None \<Rightarrow> s
      | Some n \<Rightarrow>
        if sv_type e = SellerEstablishment \<and> sp_supplier s = [] then s\<lparr>sp_supplier := ju_id n\<rparr>
        else if sv_type e = CustomerEstablishment \<and> sp_customer s = [] then s\<lparr>sp_customer := ju_id n\<rparr>
        else s)"

definition country_of :: "graph \<Rightarrow> jid \<Rightarrow> string" where
  "country_of g i = (case lookup_node (gr_nodes g) i of Some n \<Rightarrow> ju_country n | None \<Rightarrow> [])"

definition place_of_supply :: "jid \<Rightarrow> progress \<Rightarrow> progress" where
  "place_of_supply primary p =
     (let s = foldl (supply_step p) ((so_supply (rz_out p))\<lparr>sp_place := primary\<rparr>) (rz_items p);
          s = (if sp_supplier s \<noteq> [] then s\<lparr>sp_cross_border := (country_of (rz_graph p) (sp_supplier s) \<noteq> country_of (rz_graph p) primary)\<rparr>
               else s) in
      trace_note (StPlaceOfSupply (sp_supplier s) (sp_customer s) primary (sp_cross_border s))
        (p\<lparr>rz_out := (rz_out p)\<lparr>so_supply := s\<rparr>\<rparr>))"

definition coverage :: "string list \<Rightarrow> progress \<Rightarrow> progress \<times> outcome" where
  "coverage covered p =
     (case find (\<lambda>j. ju_level j = Country \<and> ju_country j \<notin> set covered) (so_applicable (rz_out p)) of
        Some j \<Rightarrow> (trace_note (StNotCovered (ju_country j)) p, Unsupported)
      | None \<Rightarrow> (p, Resolved))"

definition finish_resolution :: "outcome \<Rightarrow> progress \<Rightarrow> situs_resolution" where
  "finish_resolution o1 p =
     (let its = List.enumerate 0 (rz_items p);
          winning = map snd (filter (\<lambda>(i, e). i \<in> set (rz_used p)) its);
          unused = map snd (filter (\<lambda>(i, e). i \<notin> set (rz_used p)) its);
          out = rz_out p in
      out\<lparr>so_outcome := o1, so_winning := winning, so_unused := unused,
          so_trace := so_trace out @ map (\<lambda>e. StUnused (sv_type e) (sv_source e)) unused @ [StOutcome o1]\<rparr>)"

section \<open>Resolve\<close>

definition empty_supply :: supply_record where
  "empty_supply = \<lparr>sp_supplier = [], sp_customer = [], sp_place = [], sp_role = RoleOther [], sp_effective = RoleOther [],
     sp_vat = VatOther [], sp_cross_border = False\<rparr>"

definition empty_resolution :: "string \<Rightarrow> situs_resolution" where
  "empty_resolution version = \<lparr>so_outcome = OutcomeUnset, so_graph_version = version, so_rule = [], so_mode = None, so_applicable = [],
     so_winning = [], so_unused = [], so_dataset = None, so_needed = [], so_roaming = None, so_supply = empty_supply,
     so_incident = False, so_trace = []\<rparr>"

definition locate ::
  "rat_reader \<Rightarrow> (string \<rightharpoonup> dataset) \<Rightarrow> situs_rule \<Rightarrow> progress \<Rightarrow> (jur_err, progress \<times> jid \<times> point option \<times> outcome) result option" where
  "locate rat_of datasets r p =
     (case sr_mode r of
        ModePrecedence \<Rightarrow> (let (p, i, o1) = precedence r (sr_order r) p in Some (Ok (p, i, None, o1)))
      | ModeQuorum \<Rightarrow> Option.bind (quorum r p) (\<lambda>(p, i, o1). Some (Ok (p, i, None, o1)))
      | ModeSpatial \<Rightarrow> Some (spatial rat_of datasets r p)
      | ModeOther s \<Rightarrow> Some (Ok (p, [], None, OutcomeUnset)))"

text \<open>From the chain of the resolved jurisdiction to the finished record.\<close>

definition apply_chain ::
  "rat_reader \<Rightarrow> (string \<rightharpoonup> dataset) \<Rightarrow> situs_rule \<Rightarrow> string list \<Rightarrow> jid \<Rightarrow> point option \<Rightarrow> geo_node list \<Rightarrow> progress \<Rightarrow>
   (jur_err, situs_resolution) result" where
  "apply_chain rat_of datasets r covered primary point ns p =
     (let (p, ro, o1) = derive_roaming r ns (trace_note (StHierarchy primary (length ns - 1) (rz_time p)) p);
          p = (case ro of None \<Rightarrow> p | Some x \<Rightarrow> p\<lparr>rz_out := (rz_out p)\<lparr>so_roaming := Some x\<rparr>\<rparr>) in
      if ro \<noteq> None \<and> o1 \<noteq> Resolved then Ok (finish_resolution o1 p)
      else
        bindR (case ro of None \<Rightarrow> Ok (map to_jurisdiction ns)
               | Some x \<Rightarrow> apply_roaming (rz_graph p) (rz_time p) x (map to_jurisdiction ns)) (\<lambda>applicable.
        bindR (find_specials rat_of datasets r point applicable p) (\<lambda>(p, specials).
          let p = p\<lparr>rz_out := (rz_out p)\<lparr>so_applicable := sort_applicable (applicable @ specials)\<rparr>\<rparr>;
              (p, o2) = coverage covered (place_of_supply primary p) in
          Ok (finish_resolution o2 p))))"

text \<open>The record at the start, with the role settled, and with the rule selected.\<close>

definition started :: "rule_set \<Rightarrow> graph \<Rightarrow> situs_request \<Rightarrow> situs_evidence list \<Rightarrow> progress" where
  "started rules g rq items = settle_role rules \<lparr>rz_graph = g, rz_time = sq_event_time rq, rz_items = items, rz_used = [],
     rz_out = empty_resolution (gr_version g)\<rparr>"

definition selected :: "situs_rule \<Rightarrow> situs_request \<Rightarrow> progress \<Rightarrow> progress" where
  "selected r rq p = trace_note (StSelected (sr_id r) (sr_mode r) (sq_ontology rq) (sp_effective (so_supply (rz_out p))))
     (p\<lparr>rz_out := (rz_out p)\<lparr>so_rule := sr_id r, so_mode := Some (sr_mode r)\<rparr>\<rparr>)"

definition resolve_by ::
  "rat_reader \<Rightarrow> (string \<rightharpoonup> dataset) \<Rightarrow> situs_rule \<Rightarrow> graph \<Rightarrow> situs_request \<Rightarrow> progress \<Rightarrow> (jur_err, situs_resolution) result option" where
  "resolve_by rat_of datasets r g rq p =
     Option.bind (locate rat_of datasets r p) (\<lambda>res.
       case res of
         Err e \<Rightarrow> Some (Err e)
       | Ok (q, primary, point, o1) \<Rightarrow>
         if o1 \<noteq> Resolved then Some (Ok (finish_resolution o1 q))
         else Option.bind (chain g primary (rz_time q)) (\<lambda>c.
           case c of
             Err e \<Rightarrow> Some (Err e)
           | Ok ns \<Rightarrow> Some (apply_chain rat_of datasets r (sq_covered rq) primary point ns q)))"

definition resolve_started ::
  "rat_reader \<Rightarrow> (string \<rightharpoonup> dataset) \<Rightarrow> rule_set \<Rightarrow> graph \<Rightarrow> situs_request \<Rightarrow> progress \<Rightarrow> (jur_err, situs_resolution) result option" where
  "resolve_started rat_of datasets rules g rq p =
     (let role = sp_effective (so_supply (rz_out p)) in
      case select_rule rules (sq_ontology rq) role of
        None \<Rightarrow> Some (Ok (finish_resolution Unsupported (trace_note (StNoRule (sq_ontology rq) role) p)))
      | Some r \<Rightarrow> resolve_by rat_of datasets r g rq (selected r rq p))"

definition resolve :: "rat_reader \<Rightarrow> resolver \<Rightarrow> situs_request \<Rightarrow> (jur_err, situs_resolution) result option" where
  "resolve rat_of rv rq =
     (case (rv_graph rv, rv_rules rv) of
        (Some g, Some rules) \<Rightarrow>
          if sq_event_time rq = 0 then Some (Err (JResolver ''event time''))
          else
            (case canonicalise rat_of (sq_evidence rq) of
               Err e \<Rightarrow> Some (Err e)
             | Ok items \<Rightarrow> resolve_started rat_of (rv_datasets rv) rules g rq (started rules g rq items))
      | _ \<Rightarrow> Some (Err (JResolver ''graph or rules'')))"

end
