(* ===== verification/GeographyFacts.thy ===== *)
theory GeographyFacts
  imports Geography
begin

text \<open>
  What validation gives: in an accepted graph every walk to the root descends in rank, so it ends, at the
  country, inside the country, and after at most five nodes.
\<close>

lemma lookup_node_Some: "lookup_node ns i = Some n \<Longrightarrow> n \<in> set ns \<and> ju_id n = i"
  by (auto simp: lookup_node_def find_Some_iff)

lemma foldR_unit_each: "foldR (\<lambda>u x. f x) () xs = Ok u \<Longrightarrow> x \<in> set xs \<Longrightarrow> f x = Ok ()"
  by (induction xs) auto

definition wf_graph :: "graph \<Rightarrow> bool" where
  "wf_graph g \<longleftrightarrow> distinct (map ju_id (gr_nodes g))
     \<and> (\<forall>n \<in> set (gr_nodes g). validate_graph_node n = Ok () \<and> validate_parent (gr_nodes g) n = Ok ())"

lemma add_nodes_wf:
  assumes "foldR add_graph_node ns xs = Ok out" "distinct (map ju_id ns)" "\<forall>n \<in> set ns. validate_graph_node n = Ok ()"
  shows "out = ns @ xs \<and> distinct (map ju_id out) \<and> (\<forall>n \<in> set out. validate_graph_node n = Ok ())"
  using assms
proof (induction xs arbitrary: ns)
  case (Cons x xs)
  from Cons.prems(1) obtain mid where m: "add_graph_node ns x = Ok mid" "foldR add_graph_node mid xs = Ok out" by auto
  then have x: "validate_graph_node x = Ok ()" "lookup_node ns (ju_id x) = None" "foldR add_graph_node (ns @ [x]) xs = Ok out"
    by (auto simp: add_graph_node_def split: if_splits)
  have "ju_id x \<notin> ju_id ` set ns" using x(2) by (auto simp: lookup_node_def find_None_iff)
  then have "out = (ns @ [x]) @ xs \<and> distinct (map ju_id out) \<and> (\<forall>n \<in> set out. validate_graph_node n = Ok ())"
    by (intro Cons.IH[OF x(3)]) (use Cons.prems(2,3) x(1) in auto)
  then show ?case unfolding append.assoc append_Cons append_Nil by blast
qed simp

lemma new_graph_wf: "new_graph v nodes ms = Ok g \<Longrightarrow> wf_graph g \<and> gr_nodes g = nodes \<and> gr_version g = v"
  by (auto simp: new_graph_def wf_graph_def split: if_splits dest!: add_nodes_wf dest: foldR_unit_each)

lemma level_rank_of: "level_valid l \<Longrightarrow> level_rank l = Some (rank0 l)"
  by (auto simp: level_valid_def rank0_def)

lemma rank0_bound: "rank0 l \<le> 5" "rank0 l = 5 \<longleftrightarrow> l = Special"
  by (cases l; simp add: rank0_def)+

lemma parent_outer:
  assumes "validate_parent ns n = Ok ()" "ju_parent n \<noteq> []" "lookup_node ns (ju_parent n) = Some p"
  shows "rank0 (ju_level p) < rank0 (ju_level n)" "ju_country p = ju_country n" "ju_level p \<noteq> Special"
  using assms by (auto simp: validate_parent_def validate_named_parent_def split: if_splits)

lemma no_parent_country:
  assumes "validate_parent ns n = Ok ()" "ju_parent n = []" "ju_level n \<noteq> Special"
  shows "ju_level n = Country"
  using assms by (auto simp: validate_parent_def split: if_splits)

lemma node_at_Some: "node_at g i t = Some n \<Longrightarrow> n \<in> set (gr_nodes g) \<and> ju_id n = i \<and> valid_at n t \<and> lookup_node (gr_nodes g) i = Some n"
  by (auto simp: node_at_def dest: lookup_node_Some split: option.splits if_splits)

definition upward :: "graph \<Rightarrow> int \<Rightarrow> geo_node list \<Rightarrow> bool" where
  "upward g t ns \<longleftrightarrow> (\<forall>n \<in> set ns. n \<in> set (gr_nodes g) \<and> valid_at n t \<and> ju_level n \<noteq> Special)
     \<and> sorted_wrt (\<lambda>a b. rank0 (ju_level b) < rank0 (ju_level a) \<and> ju_country b = ju_country a) ns"

lemma upward_snoc:
  assumes "upward g t (ns @ [n])" "p \<in> set (gr_nodes g)" "valid_at p t" "ju_level p \<noteq> Special"
    and "rank0 (ju_level p) < rank0 (ju_level n)" "ju_country p = ju_country n"
  shows "upward g t ((ns @ [n]) @ [p])"
  using assms by (auto simp: upward_def sorted_wrt_append dest: less_trans)

text \<open>The walk returns on every accepted graph: the rank of the node it stands on decreases.\<close>

lemma climb_chain_returns:
  assumes "wf_graph g" "upward g t (acc @ [n])"
  shows "\<exists>r. climb_chain g t n (acc @ [n]) = Some r \<and> (\<forall>ns. r = Ok ns \<longrightarrow>
    upward g t ns \<and> ju_level (last ns) = Country \<and> (\<exists>ps. ns = acc @ n # ps))"
  using assms(2)
proof (induction "rank0 (ju_level n)" arbitrary: n acc rule: less_induct)
  case less
  have n: "n \<in> set (gr_nodes g)" "ju_level n \<noteq> Special" using less.prems by (auto simp: upward_def)
  have v: "validate_parent (gr_nodes g) n = Ok ()" using assms(1) n(1) by (simp add: wf_graph_def)
  show ?case
  proof (cases "ju_parent n = []")
    case True
    then show ?thesis using no_parent_country[OF v True n(2)] less.prems by (simp add: climb_chain.simps[of g t n])
  next
    case False
    show ?thesis
    proof (cases "node_at g (ju_parent n) t")
      case None
      then show ?thesis using False by (simp add: climb_chain.simps[of g t n])
    next
      case (Some p)
      note P = node_at_Some[OF Some]
      note O = parent_outer[OF v False conjunct2[OF conjunct2[OF conjunct2[OF P]]]]
      have "upward g t ((acc @ [n]) @ [p])" by (rule upward_snoc[OF less.prems]) (use P O in auto)
      from less.hyps[OF O(1) this] show ?thesis using False Some by (auto simp: climb_chain.simps[of g t n])
    qed
  qed
qed

lemma rank_list_length: "sorted_wrt (\<lambda>a b. (f b :: nat) < f a) xs \<Longrightarrow> xs \<noteq> [] \<Longrightarrow> length xs \<le> Suc (f (hd xs))"
proof (induction xs)
  case (Cons x xs)
  then show ?case by (cases xs) (auto dest!: Cons.IH)
qed simp

end
