(* ===== verification/ResolveFacts.thy ===== *)
theory ResolveFacts
  imports Resolve GeographyFacts
begin

text \<open>
  Facts about resolution: canonical order and rule selection forget the order of their inputs, each mode
  keeps the items it works on and uses an item whenever it resolves, and what ends up applicable exists.
\<close>

section \<open>Canonical order\<close>

lemma sorted_unique:
  assumes "sorted_wrt R xs" "sorted_wrt R ys" "mset xs = mset ys"
    and "\<And>a b. a \<in> set xs \<Longrightarrow> b \<in> set xs \<Longrightarrow> R a b \<Longrightarrow> R b a \<Longrightarrow> a = b"
  shows "xs = ys"
  using assms
proof (induction xs arbitrary: ys)
  case (Cons x xs)
  obtain y ys' where ys: "ys = y # ys'" using Cons.prems(3) by (cases ys) auto
  have s: "set ys = set (x # xs)" using Cons.prems(3) by (metis set_mset_mset)
  have "x = y"
  proof (rule ccontr)
    assume ne: "x \<noteq> y"
    then have "x \<in> set ys'" "y \<in> set xs" using s ys by auto
    then have "R y x" "R x y" using Cons.prems(1,2) ys by auto
    then show False using Cons.prems(4)[of x y] \<open>y \<in> set xs\<close> ne by auto
  qed
  then have "xs = ys'" using Cons ys by auto
  then show ?case using ys \<open>x = y\<close> by simp
qed simp

lemma keyed_before_asym: "keyed_before a b \<Longrightarrow> \<not> keyed_before b a"
  by (auto simp: keyed_before_def Let_def split: if_splits)

lemma keyed_before_trans: "\<not> keyed_before b a \<Longrightarrow> \<not> keyed_before c b \<Longrightarrow> \<not> keyed_before c a"
  by (auto simp: keyed_before_def Let_def split: if_splits)

lemma key_evidence_ok: "key_evidence rat_of e = Ok k \<Longrightarrow> fst k = e \<and> encode (evidence_value e) = Ok (snd k)"
  by (cases "encode (evidence_value e)") (auto simp: key_evidence_def)

definition told_apart :: "situs_evidence list \<Rightarrow> bool" where
  "told_apart es \<longleftrightarrow> (\<forall>a \<in> set es. \<forall>b \<in> set es. encode (evidence_value a) = encode (evidence_value b) \<longrightarrow> a = b)"

lemma keyed_sorted: "sorted_wrt (\<lambda>a b. \<not> keyed_before b a) (sort_by keyed_before ks)"
  by (rule sorted_sort_by) (use keyed_before_asym keyed_before_trans in blast)+

lemma mapR_functional: "mapR f xs = Ok ys \<Longrightarrow> ys = map (\<lambda>x. case f x of Ok y \<Rightarrow> y | Err e \<Rightarrow> undefined) xs \<and> (\<forall>x \<in> set xs. is_ok (f x))"
  by (induction xs arbitrary: ys) (auto simp: is_ok_iff)

lemma mapR_all_ok: "\<forall>x \<in> set xs. is_ok (f x) \<Longrightarrow> mapR f xs = Ok (map (\<lambda>x. case f x of Ok y \<Rightarrow> y | Err e \<Rightarrow> undefined) xs)"
  by (induction xs) (auto simp: is_ok_iff)

lemma canonicalise_perm:
  assumes "canonicalise rat_of es = Ok items" "mset fs = mset es" "told_apart es"
  shows "canonicalise rat_of fs = Ok items"
proof -
  let ?k = "\<lambda>e. case key_evidence rat_of e of Ok y \<Rightarrow> y | Err x \<Rightarrow> undefined"
  have set: "set fs = set es" using assms(2) by (metis set_mset_mset)
  obtain ks where ks: "mapR (key_evidence rat_of) es = Ok ks" "items = map fst (sort_by keyed_before ks)"
    using assms(1) by (auto simp: canonicalise_def)
  note F = mapR_functional[OF ks(1)]
  have fs: "mapR (key_evidence rat_of) fs = Ok (map ?k fs)" using F set by (intro mapR_all_ok) simp
  have "sort_by keyed_before ks = sort_by keyed_before (map ?k fs)"
  proof (rule sorted_unique[OF keyed_sorted keyed_sorted])
    show "mset (sort_by keyed_before ks) = mset (sort_by keyed_before (map ?k fs))" using F assms(2) by simp
    fix a b assume "a \<in> set (sort_by keyed_before ks)" "b \<in> set (sort_by keyed_before ks)"
      and nb: "\<not> keyed_before b a" "\<not> keyed_before a b"
    then obtain x y where x: "x \<in> set es" "key_evidence rat_of x = Ok a" and y: "y \<in> set es" "key_evidence rat_of y = Ok b"
      using mapR_set[OF ks(1)] by (metis set_sort_by)
    have "snd a = snd b" using nb by (auto simp: keyed_before_def Let_def split: if_splits)
    then have "encode (evidence_value x) = encode (evidence_value y)" using key_evidence_ok[OF x(2)] key_evidence_ok[OF y(2)] by simp
    then have "x = y" using assms(3) x(1) y(1) by (auto simp: told_apart_def)
    then show "a = b" using x(2) y(2) by simp
  qed
  then show ?thesis using fs ks(2) by (simp add: canonicalise_def)
qed

lemma canonicalise_mset: "canonicalise rat_of es = Ok items \<Longrightarrow> mset items = mset es"
proof -
  assume "canonicalise rat_of es = Ok items"
  then obtain ks where ks: "mapR (key_evidence rat_of) es = Ok ks" "items = map fst (sort_by keyed_before ks)"
    by (auto simp: canonicalise_def)
  have "map fst ks = es" using ks(1)
    by (induction es arbitrary: ks) (auto dest: key_evidence_ok)
  then show ?thesis using ks(2) by (metis mset_map mset_sort_by)
qed

section \<open>Rule selection\<close>

definition unambiguous :: "situs_binding list \<Rightarrow> bool" where
  "unambiguous bs \<longleftrightarrow> distinct bs \<and> (\<forall>b \<in> set bs. \<forall>c \<in> set bs. b \<noteq> c \<longrightarrow> specificity b = specificity c \<longrightarrow> \<not> binding_overlaps b c)"

lemma overlaps_sym: "binding_overlaps b c \<longleftrightarrow> binding_overlaps c b"
  by (auto simp: binding_overlaps_def)

lemma add_bindings_ok:
  assumes "foldR add_binding bs xs = Ok out" "unambiguous bs" "\<forall>b \<in> set bs. validate_rule (sb_rule b) = Ok ()"
  shows "out = bs @ xs \<and> unambiguous out \<and> (\<forall>b \<in> set out. validate_rule (sb_rule b) = Ok ())"
  using assms
proof (induction xs arbitrary: bs)
  case (Cons x xs)
  from Cons.prems(1) obtain mid where m: "add_binding bs x = Ok mid" "foldR add_binding mid xs = Ok out" by auto
  then have x: "mid = bs @ [x]" "validate_rule (sb_rule x) = Ok ()" "sr_id (sb_rule x) \<notin> (\<lambda>c. sr_id (sb_rule c)) ` set bs"
    "\<forall>c \<in> set bs. specificity x = specificity c \<longrightarrow> \<not> binding_overlaps x c"
    by (auto simp: add_binding_def list_ex_iff split: if_splits)
  have "unambiguous mid" using Cons.prems(2) x overlaps_sym by (auto simp: unambiguous_def)
  then have "out = mid @ xs \<and> unambiguous out \<and> (\<forall>b \<in> set out. validate_rule (sb_rule b) = Ok ())"
    by (intro Cons.IH[OF m(2)]) (use Cons.prems(3) x in auto)
  then show ?case unfolding x(1) append.assoc append_Cons append_Nil by blast
qed simp

lemma new_rule_set_ok:
  assumes "new_rule_set bs u = Ok rs"
  shows "set (rs_bindings rs) = set bs" "unambiguous bs" "rs_undetermined rs = u" "\<forall>b \<in> set bs. validate_rule (sb_rule b) = Ok ()"
    "sorted_wrt (\<lambda>a b. specificity b \<le> specificity a) (rs_bindings rs)"
proof -
  obtain out where o1: "foldR add_binding [] bs = Ok out" "rs = \<lparr>rs_bindings = sort_by (\<lambda>a b. specificity b < specificity a) out, rs_undetermined = u\<rparr>"
    using assms by (auto simp: new_rule_set_def split: if_splits)
  have "out = bs \<and> unambiguous out \<and> (\<forall>b \<in> set out. validate_rule (sb_rule b) = Ok ())"
    using add_bindings_ok[OF o1(1)] unfolding unambiguous_def by auto
  then show "set (rs_bindings rs) = set bs" "unambiguous bs" "rs_undetermined rs = u" "\<forall>b \<in> set bs. validate_rule (sb_rule b) = Ok ()"
    using o1(2) by auto
  show "sorted_wrt (\<lambda>a b. specificity b \<le> specificity a) (rs_bindings rs)"
    using sorted_sort_by[of "\<lambda>a b. specificity b < specificity a" out] o1(2) by (simp add: not_less)
qed

lemma matches_overlap: "binding_matches b o1 r \<Longrightarrow> binding_matches c o1 r \<Longrightarrow> binding_overlaps b c"
  by (auto simp: binding_matches_def binding_overlaps_def)

lemma find_first_sorted:
  assumes "find P xs = Some b" "sorted_wrt R xs" "\<And>x. R x x"
  shows "b \<in> set xs \<and> P b \<and> (\<forall>c \<in> set xs. P c \<longrightarrow> R b c)"
  using assms by (induction xs) (auto split: if_splits)

lemma select_perm:
  assumes "new_rule_set bs u = Ok rs" "new_rule_set cs u = Ok qs" "set cs = set bs"
  shows "select_rule rs ontology role = select_rule qs ontology role"
proof -
  note B = new_rule_set_ok[OF assms(1)] and C = new_rule_set_ok[OF assms(2)]
  let ?P = "\<lambda>b. binding_matches b ontology role"
  have "find ?P (rs_bindings rs) = find ?P (rs_bindings qs)"
  proof (cases "find ?P (rs_bindings rs)")
    case None
    then have "find ?P (rs_bindings qs) = None" using B(1) C(1) assms(3) unfolding find_None_iff by simp
    then show ?thesis using None by simp
  next
    case (Some b)
    then obtain c where c: "find ?P (rs_bindings qs) = Some c"
      using B(1) C(1) assms(3) by (metis find_None_iff find_Some_iff not_None_eq nth_mem)
    note b = find_first_sorted[OF Some B(5) le_refl] and c' = find_first_sorted[OF c C(5) le_refl]
    have "specificity b = specificity c" using b c' B(1) C(1) assms(3) by (intro le_antisym) auto
    then have "b = c" using matches_overlap[of b ontology role c] b c' B(1,2) C(1) assms(3) unfolding unambiguous_def by metis
    then show ?thesis using Some c by simp
  qed
  then show ?thesis by (simp add: select_rule_def)
qed

section \<open>What each mode keeps\<close>

definition same_base :: "progress \<Rightarrow> progress \<Rightarrow> bool" where
  "same_base p q \<longleftrightarrow> rz_graph q = rz_graph p \<and> rz_time q = rz_time p \<and> rz_items q = rz_items p
     \<and> so_applicable (rz_out q) = so_applicable (rz_out p)"

lemma base_refl [simp]: "same_base p p" by (simp add: same_base_def)

lemma note_simps [simp]:
  "rz_graph (trace_note s p) = rz_graph p" "rz_time (trace_note s p) = rz_time p" "rz_items (trace_note s p) = rz_items p"
  "rz_used (trace_note s p) = rz_used p" "so_incident (rz_out (trace_note s p)) = so_incident (rz_out p)"
  "so_applicable (rz_out (trace_note s p)) = so_applicable (rz_out p)"
  by (simp_all add: trace_note_def)

lemma mark_simps [simp]:
  "rz_graph (mark is p) = rz_graph p" "rz_time (mark is p) = rz_time p" "rz_items (mark is p) = rz_items p"
  "rz_used (mark is p) = rz_used p @ is" "rz_out (mark is p) = rz_out p"
  by (simp_all add: mark_def)

lemma need_simps [simp]:
  "rz_graph (need ts p) = rz_graph p" "rz_time (need ts p) = rz_time p" "rz_items (need ts p) = rz_items p"
  "rz_used (need ts p) = rz_used p" "so_incident (rz_out (need ts p)) = so_incident (rz_out p)"
  "so_applicable (rz_out (need ts p)) = so_applicable (rz_out p)"
  by (simp_all add: need_def)

lemma note_unmapped_simps [simp]:
  "rz_graph (note_unmapped t p) = rz_graph p" "rz_time (note_unmapped t p) = rz_time p" "rz_items (note_unmapped t p) = rz_items p"
  "rz_used (note_unmapped t p) = rz_used p" "so_incident (rz_out (note_unmapped t p)) = so_incident (rz_out p)"
  "so_applicable (rz_out (note_unmapped t p)) = so_applicable (rz_out p)"
proof -
  define f where "f = (\<lambda>q e. if sv_type e = t \<and> item_node p e = None then trace_note (StUnmapped t) q else q)"
  have "same_base q (foldl f q es) \<and> rz_used (foldl f q es) = rz_used q
    \<and> so_incident (rz_out (foldl f q es)) = so_incident (rz_out q)" for q es
    by (induction es arbitrary: q) (auto simp: f_def same_base_def)
  then show "rz_graph (note_unmapped t p) = rz_graph p" "rz_time (note_unmapped t p) = rz_time p" "rz_items (note_unmapped t p) = rz_items p"
    "rz_used (note_unmapped t p) = rz_used p" "so_incident (rz_out (note_unmapped t p)) = so_incident (rz_out p)"
    "so_applicable (rz_out (note_unmapped t p)) = so_applicable (rz_out p)"
    unfolding note_unmapped_def f_def[symmetric] same_base_def by blast+
qed

text \<open>What a mode guarantees of the progress it returns.\<close>

definition mode_ok :: "progress \<Rightarrow> progress \<times> outcome \<Rightarrow> bool" where
  "mode_ok p = (\<lambda>(q, o1). same_base p q \<and> o1 \<noteq> OutcomeUnset
     \<and> (o1 = Resolved \<longrightarrow> (\<exists>i \<in> set (rz_used q). i < length (rz_items p)))
     \<and> (\<not> so_incident (rz_out p) \<longrightarrow> (so_incident (rz_out q) \<longleftrightarrow> o1 = DatasetDefect)))"

lemma candidates_bound: "(i, n) \<in> set (candidates p t) \<Longrightarrow> i < length (rz_items p)"
  by (auto simp: candidates_def map_filter_def in_set_enumerate_eq split: if_splits)

lemma precedence_ok: "precedence r ts p = (q, i, o1) \<Longrightarrow> mode_ok p (q, o1)"
proof (induction ts arbitrary: p)
  case Nil
  then show ?case by (auto simp: mode_ok_def same_base_def)
next
  case (Cons t ts)
  show ?case
  proof (cases "at_least (case sr_reliability r t of Some c \<Rightarrow> c | None \<Rightarrow> ReliabilityOther []) (sr_minimum r)")
    case False
    then have "precedence r ts (trace_note (StBelow t (sr_reliability r t) (sr_minimum r)) p) = (q, i, o1)" using Cons.prems by simp
    from Cons.IH[OF this] show ?thesis by (simp add: mode_ok_def same_base_def)
  next
    case True
    show ?thesis
    proof (cases "candidates p t")
      case Nil
      then have "precedence r ts (note_unmapped t p) = (q, i, o1)" using Cons.prems True by (simp add: Let_def)
      from Cons.IH[OF this] show ?thesis by (simp add: mode_ok_def same_base_def)
    next
      case (Cons c cs)
      obtain k n where c: "c = (k, n)" by (cases c)
      have "k < length (rz_items p)" using candidates_bound[of k n p t] Cons c by simp
      then show ?thesis using Cons.prems True Cons c
        by (auto simp: mode_ok_def same_base_def Let_def split: option.splits)
    qed
  qed
qed


definition groups_ok :: "progress \<Rightarrow> groups \<Rightarrow> bool" where
  "groups_ok p gs \<longleftrightarrow> (\<forall>(g, is) \<in> set gs. is \<noteq> [] \<and> (\<forall>i \<in> set is. i < length (rz_items p)))"

lemma add_to_group_ok: "groups_ok p gs \<Longrightarrow> i < length (rz_items p) \<Longrightarrow> groups_ok p (add_to_group g i gs)"
  by (induction g i gs rule: add_to_group.induct) (auto simp: groups_ok_def split: if_splits)

definition tally_ok :: "progress \<Rightarrow> progress \<times> groups \<Rightarrow> bool" where
  "tally_ok p = (\<lambda>(q, gs). same_base p q \<and> so_incident (rz_out q) = so_incident (rz_out p) \<and> groups_ok p gs)"

lemma quorum_step_ok:
  assumes "quorum_step r (Some st) (i, e) = Some st'" "tally_ok p st" "i < length (rz_items p)"
  shows "tally_ok p st'"
  using assms by (cases st)
    (auto simp: quorum_step_def tally_ok_def same_base_def add_to_group_ok bind_eq_Some_conv split: if_splits option.splits)

lemma fold_bind_None: "(\<And>x. f None x = None) \<Longrightarrow> foldl f None xs = None"
  by (induction xs) auto

lemma quorum_fold_ok:
  assumes "foldl (quorum_step r) (Some st) xs = Some out" "tally_ok p st" "\<forall>(i, e) \<in> set xs. i < length (rz_items p)"
  shows "tally_ok p out"
  using assms
proof (induction xs arbitrary: st)
  case (Cons x xs)
  have n: "quorum_step r None y = None" for y by (simp add: quorum_step_def split: prod.splits)
  obtain st' where st': "quorum_step r (Some st) x = Some st'"
    using Cons.prems(1) fold_bind_None[of "quorum_step r", OF n] by (cases "quorum_step r (Some st) x") auto
  obtain i e where x: "x = (i, e)" by (cases x)
  have "tally_ok p st'" by (rule quorum_step_ok[OF st'[unfolded x] Cons.prems(2)]) (use Cons.prems(3) x in simp)
  then show ?case using Cons.IH[of st'] Cons.prems st' by simp
qed simp

lemma members_ok: "groups_ok p gs \<Longrightarrow> g \<in> fst ` set gs \<Longrightarrow> \<exists>i \<in> set (members_of gs g). i < length (rz_items p)"
proof -
  assume a: "groups_ok p gs" "g \<in> fst ` set gs"
  then obtain "is" where "map_of gs g = Some is" by (metis domD dom_map_of_conv_image_fst)
  then have "(g, is) \<in> set gs" "members_of gs g = is" by (auto dest: map_of_SomeD simp: members_of_def)
  then show ?thesis using a(1) by (cases "is") (auto simp: groups_ok_def)
qed

lemma reached_sub: "set (reached_quorum r gs) \<subseteq> fst ` set gs"
  by (auto simp: reached_quorum_def)

lemma quorum_ok:
  assumes "quorum r p = Some (q, i, o1)"
  shows "mode_ok p (q, o1)"
proof -
  obtain p1 gs where f: "foldl (quorum_step r) (Some (p, [])) (List.enumerate 0 (rz_items p)) = Some (p1, gs)"
    using assms by (auto simp: quorum_def bind_eq_Some_conv)
  have t: "tally_ok p (p1, gs)"
    by (rule quorum_fold_ok[OF f]) (auto simp: tally_ok_def same_base_def groups_ok_def in_set_enumerate_eq)
  have b: "same_base p p1" "so_incident (rz_out p1) = so_incident (rz_out p)" "groups_ok p gs" using t by (auto simp: tally_ok_def)
  show ?thesis
  proof (cases "reached_quorum r gs")
    case Nil
    then show ?thesis using assms f b by (auto simp: quorum_def mode_ok_def same_base_def)
  next
    case (Cons g hs)
    have m: "\<exists>i \<in> set (members_of gs g). i < length (rz_items p)"
      using reached_sub[of r gs] Cons by (intro members_ok[OF b(3)]) auto
    show ?thesis
    proof (cases hs)
      case Nil
      then show ?thesis using assms f b Cons m by (auto simp: quorum_def mode_ok_def same_base_def)
    next
      case (Cons h hs')
      then show ?thesis using assms f b \<open>reached_quorum r gs = g # hs\<close> by (auto simp: quorum_def mode_ok_def same_base_def)
    qed
  qed
qed

lemma coordinates_bound: "coordinates_from items ts = Some (i, pt) \<Longrightarrow> i < length items"
  by (induction ts) (auto simp: first_point_def find_Some_iff nth_enumerate_eq split: option.splits)

lemma spatial_ok:
  assumes "spatial rat_of datasets r p = Ok (q, i, pt, o1)"
  shows "mode_ok p (q, o1)"
proof (cases "datasets (sr_dataset r)")
  case (Some ds)
  show ?thesis
  proof (cases "coordinates_from (rz_items p) (sr_coordinates r)")
    case None
    then show ?thesis using assms Some by (auto simp: spatial_def Let_def mode_ok_def same_base_def)
  next
    case c: (Some x)
    obtain k pp where x: "x = (k, pp)" by (cases x)
    have k: "k < length (rz_items p)" using coordinates_bound c x by auto
    obtain bs where bs: "containing rat_of ds pp = Ok bs" using assms Some c x by (auto simp: spatial_def Let_def)
    show ?thesis
    proof (cases "deepest bs None (general_levels bs)")
      case (Inl l)
      then show ?thesis using assms Some c k bs unfolding x by (auto simp: spatial_def Let_def mode_ok_def same_base_def)
    next
      case d: (Inr b)
      show ?thesis
        by (cases b) (use assms Some c k bs d in
          \<open>auto simp: x spatial_def Let_def mode_ok_def same_base_def split: if_splits\<close>)
    qed
  qed
qed (use assms in \<open>simp add: spatial_def\<close>)

lemma locate_ok:
  assumes "locate rat_of datasets r p = Some (Ok (q, i, pt, o1))" "validate_rule r = Ok ()"
  shows "mode_ok p (q, o1)"
proof -
  have "sr_mode r \<noteq> ModeOther s" for s
    using assms(2) by (auto simp: validate_rule_def check_mode_def split: if_splits)
  then consider "sr_mode r = ModePrecedence" | "sr_mode r = ModeQuorum" | "sr_mode r = ModeSpatial" by (cases "sr_mode r") auto
  then show ?thesis
    by cases (use assms(1) precedence_ok quorum_ok spatial_ok in
      \<open>auto simp: locate_def bind_eq_Some_conv split: prod.splits\<close>)
qed

end
