(* ===== verification/ResolveSafety.thy ===== *)
theory ResolveSafety
  imports ResolveFacts
begin

text \<open>
  From the modes to the finished record: resolution always returns on an accepted graph, every item ends
  up winning or unused, and what is applicable exists in the graph at the event time.
\<close>

section \<open>Resolution returns\<close>

text \<open>What a walk of an accepted graph gives, and that it returns.\<close>

definition walk_shape :: "graph \<Rightarrow> jid \<Rightarrow> int \<Rightarrow> geo_node list \<Rightarrow> bool" where
  "walk_shape g i t ns \<longleftrightarrow> ns \<noteq> [] \<and> ju_id (hd ns) = i \<and> (\<forall>n \<in> set ns. n \<in> set (gr_nodes g) \<and> valid_at n t)
    \<and> (if ju_level (hd ns) = Special then length ns = 1
       else length ns \<le> 5 \<and> ju_level (last ns) = Country
         \<and> sorted_wrt (\<lambda>a b. rank0 (ju_level b) < rank0 (ju_level a) \<and> ju_country b = ju_country a) ns)"

lemma upward_length:
  assumes "upward g t ns" "ns \<noteq> []"
  shows "length ns \<le> 5"
proof -
  have "sorted_wrt (\<lambda>a b. rank0 (ju_level b) < rank0 (ju_level a)) ns"
    using assms(1) by (auto simp: upward_def elim: sorted_wrt_mono_rel[rotated])
  from rank_list_length[OF this assms(2)] have "length ns \<le> Suc (rank0 (ju_level (hd ns)))" by simp
  moreover have "ju_level (hd ns) \<noteq> Special" using assms by (simp add: upward_def)
  then have "rank0 (ju_level (hd ns)) < 5" using rank0_bound[of "ju_level (hd ns)"] by (metis le_neq_implies_less)
  ultimately show ?thesis by simp
qed

lemma chain_shape:
  assumes "wf_graph g"
  shows "\<exists>r. chain g i t = Some r \<and> (\<forall>ns. r = Ok ns \<longrightarrow> walk_shape g i t ns)"
proof (cases "node_at g i t")
  case None
  then show ?thesis by (simp add: chain_def)
next
  case (Some n)
  note P = node_at_Some[OF Some]
  show ?thesis
  proof (cases "ju_level n = Special")
    case True
    then show ?thesis using Some P by (simp add: chain_def walk_shape_def)
  next
    case False
    then have "upward g t ([] @ [n])" using P by (simp add: upward_def)
    from climb_chain_returns[OF assms this] obtain r where r: "climb_chain g t n [n] = Some r"
      "\<forall>ns. r = Ok ns \<longrightarrow> upward g t ns \<and> ju_level (last ns) = Country \<and> (\<exists>ps. ns = n # ps)" by auto
    have "walk_shape g i t ns" if "r = Ok ns" for ns
      using r(2) that upward_length[of g t ns] False P by (auto simp: walk_shape_def upward_def)
    then show ?thesis using r(1) Some False by (simp add: chain_def)
  qed
qed

lemma chain_returns: "wf_graph g \<Longrightarrow> \<exists>r. chain g i t = Some r"
  using chain_shape by blast

lemma quorum_fold_returns:
  assumes "wf_graph g" "rz_graph (fst st) = g"
  shows "\<exists>st'. foldl (quorum_step r) (Some st) xs = Some st'"
  using assms(2)
proof (induction xs arbitrary: st)
  case (Cons x xs)
  have "\<exists>st'. quorum_step r (Some st) x = Some st' \<and> rz_graph (fst st') = g"
  proof (cases "item_node (fst st) (snd x)")
    case None
    then show ?thesis using Cons.prems by (cases st; cases x) (simp add: quorum_step_def)
  next
    case (Some n)
    obtain a where "ancestor_at g (ju_id n) (sr_agreement r) (rz_time (fst st)) = Some a"
      using chain_returns[OF assms(1), of "ju_id n" "rz_time (fst st)"] by (auto simp: ancestor_at_def)
    then show ?thesis using Cons.prems Some by (cases st; cases x; cases a) (simp_all add: quorum_step_def)
  qed
  then show ?case using Cons.IH by auto
qed simp

lemma locate_returns: "wf_graph (rz_graph p) \<Longrightarrow> \<exists>res. locate rat_of datasets r p = Some res"
  using quorum_fold_returns[of "rz_graph p" "(p, [])" r "List.enumerate 0 (rz_items p)"]
  by (cases "sr_mode r") (auto simp: locate_def quorum_def split: prod.splits)

lemma settle_role_simps [simp]:
  "rz_graph (settle_role rules p) = rz_graph p" "rz_time (settle_role rules p) = rz_time p"
  "rz_items (settle_role rules p) = rz_items p" "rz_used (settle_role rules p) = rz_used p"
  "so_incident (rz_out (settle_role rules p)) = so_incident (rz_out p)"
  "so_applicable (rz_out (settle_role rules p)) = so_applicable (rz_out p)"
  by (simp_all add: settle_role_def Let_def split: prod.splits)

lemma resolve_by_returns:
  assumes "wf_graph g" "rz_graph p = g"
  shows "\<exists>r. resolve_by rat_of datasets rule g rq p = Some r"
proof -
  obtain res where res: "locate rat_of datasets rule p = Some res" using locate_returns assms by blast
  obtain c where c: "\<And>i t. chain g i t = Some (c i t)" using chain_returns[OF assms(1)] by metis
  show ?thesis using res c by (cases res) (auto simp: resolve_by_def split: result.split)
qed

lemma started_graph: "rz_graph (started rules g rq items) = g"
  by (simp add: started_def)

lemma resolve_returns:
  assumes "wf_graph g" "rv_graph rv = Some g"
  shows "\<exists>r. resolve rat_of rv rq = Some r"
proof (cases "rv_rules rv")
  case (Some rules)
  have s: "\<exists>r. resolve_started rat_of ds rules g rq (started rules g rq items) = Some r" for ds items
    using resolve_by_returns[OF assms(1)] started_graph[of rules g rq items]
    by (simp add: resolve_started_def Let_def selected_def split: option.split)
  show ?thesis using s assms(2) Some by (cases "canonicalise rat_of (sq_evidence rq)") (simp_all add: resolve_def)
qed (use assms(2) in \<open>simp add: resolve_def\<close>)

section \<open>What follows the walk\<close>

lemma derive_roaming_ok:
  assumes "derive_roaming r ns p = (q, ro, o1)"
  shows "same_base p q \<and> rz_used q = rz_used p \<and> so_incident (rz_out q) = so_incident (rz_out p)
    \<and> so_applicable (rz_out q) = so_applicable (rz_out p) \<and> (o1 = Resolved \<or> o1 = Unsupported) \<and> (ro = None \<longrightarrow> o1 = Resolved)"
  using assms by (auto simp: derive_roaming_def Let_def same_base_def split: prod.splits if_splits)

definition exists_at :: "graph \<Rightarrow> int \<Rightarrow> jurisdiction \<Rightarrow> bool" where
  "exists_at g t j \<longleftrightarrow> (\<exists>n \<in> set (gr_nodes g). j = to_jurisdiction n \<and> valid_at n t)"

lemma to_jurisdiction_simps [simp]:
  "ju_id (to_jurisdiction n) = ju_id n" "ju_level (to_jurisdiction n) = ju_level n" "ju_country (to_jurisdiction n) = ju_country n"
  by (simp_all add: to_jurisdiction_def jurisdiction.truncate_def)

lemma node_at_exists: "node_at g i t = Some n \<Longrightarrow> exists_at g t (to_jurisdiction n)"
  by (auto dest: node_at_Some simp: exists_at_def)

lemma unique_ids_sub: "set (unique_ids seen js) \<subseteq> set js"
  by (induction seen js rule: unique_ids.induct) auto

lemma country_at_exists: "country_at g c t = Some n \<Longrightarrow> exists_at g t (to_jurisdiction n)"
proof -
  assume a: "country_at g c t = Some n"
  let ?f = "filter (\<lambda>n. ju_level n = Country \<and> ju_country n = c \<and> valid_at n t) (gr_nodes g)"
  have "?f = [n]" using a by (auto simp: country_at_def split: list.splits)
  then have "n \<in> set ?f" by simp
  then show ?thesis by (auto simp: exists_at_def)
qed

lemma apply_roaming_exists:
  assumes "apply_roaming g t ro js = Ok out" "\<forall>j \<in> set js. exists_at g t j"
  shows "\<forall>j \<in> set out. exists_at g t j"
  using assms unique_ids_sub[of "[]"] 
  by (fastforce simp: apply_roaming_def dest: country_at_exists split: option.splits roaming_sourcing.splits)

lemma apply_roaming_nonempty: "apply_roaming g t ro js = Ok out \<Longrightarrow> js \<noteq> [] \<Longrightarrow> out \<noteq> []"
  by (cases js) (auto simp: apply_roaming_def split: option.splits roaming_sourcing.splits)

lemma map_filter_set: "y \<in> set (List.map_filter f xs) \<longleftrightarrow> (\<exists>x \<in> set xs. f x = Some y)"
  by (force simp: map_filter_def)

lemma specials_exist: "n \<in> set (specials_for g ids t) \<Longrightarrow> exists_at g t (to_jurisdiction n)"
  by (auto simp: specials_for_def map_filter_set split: option.splits if_splits dest: node_at_exists)

lemma note_fold:
  "same_base p (foldl (\<lambda>q j. trace_note (f j) q) p js) \<and> rz_used (foldl (\<lambda>q j. trace_note (f j) q) p js) = rz_used p
   \<and> so_incident (rz_out (foldl (\<lambda>q j. trace_note (f j) q) p js)) = so_incident (rz_out p)"
  by (induction js arbitrary: p) (auto simp: same_base_def)

lemma specials_at_point_exist:
  assumes "specials_at_point rat_of datasets r pt p = Ok bp" "j \<in> set bp"
  shows "exists_at (rz_graph p) (rz_time p) j"
  using assms by (auto simp: specials_at_point_def map_filter_set split: option.splits if_splits dest: node_at_exists)

lemma find_specials_ok:
  assumes "find_specials rat_of datasets r pt js p = Ok (q, sp)"
  shows "same_base p q \<and> rz_used q = rz_used p \<and> so_incident (rz_out q) = so_incident (rz_out p)
    \<and> (\<forall>j \<in> set sp. exists_at (rz_graph p) (rz_time p) j)"
proof -
  let ?g = "rz_graph p" and ?t = "rz_time p"
  let ?m = "map to_jurisdiction (specials_for ?g (map ju_id js) ?t)"
  obtain bp where bp: "sp = sort_by (\<lambda>a b. ju_id a < ju_id b) (unique_ids [] (?m @ bp))"
    "q = foldl (\<lambda>q j. trace_note (StSpecial (ju_id j)) q) p sp" "\<forall>j \<in> set bp. exists_at ?g ?t j"
    using assms specials_at_point_exist[of rat_of datasets r pt p] by (auto simp: find_specials_def Let_def)
  have "set sp \<subseteq> set ?m \<union> set bp" using bp(1) unique_ids_sub[of "[]" "?m @ bp"] by simp
  then show ?thesis using note_fold[where f = "\<lambda>j. StSpecial (ju_id j)" and p = p and js = sp] bp specials_exist by fastforce
qed

lemma place_simps [simp]:
  "rz_graph (place_of_supply i p) = rz_graph p" "rz_time (place_of_supply i p) = rz_time p"
  "rz_items (place_of_supply i p) = rz_items p" "rz_used (place_of_supply i p) = rz_used p"
  "so_incident (rz_out (place_of_supply i p)) = so_incident (rz_out p)"
  "so_applicable (rz_out (place_of_supply i p)) = so_applicable (rz_out p)"
  by (simp_all add: place_of_supply_def Let_def)

lemma coverage_ok:
  assumes "coverage covered p = (q, o2)"
  shows "same_base p q \<and> rz_used q = rz_used p \<and> so_incident (rz_out q) = so_incident (rz_out p)
    \<and> so_applicable (rz_out q) = so_applicable (rz_out p) \<and> (o2 = Resolved \<or> o2 = Unsupported)
    \<and> (o2 = Resolved \<longrightarrow> (\<forall>j \<in> set (so_applicable (rz_out p)). ju_level j = Country \<longrightarrow> ju_country j \<in> set covered))"
proof (cases "find (\<lambda>j. ju_level j = Country \<and> ju_country j \<notin> set covered) (so_applicable (rz_out p))")
  case None
  then have "\<forall>j \<in> set (so_applicable (rz_out p)). \<not> (ju_level j = Country \<and> ju_country j \<notin> set covered)"
    unfolding find_None_iff by blast
  then show ?thesis using assms None by (auto simp: coverage_def same_base_def)
qed (use assms in \<open>auto simp: coverage_def same_base_def\<close>)

section \<open>The finished record\<close>

lemma filter_split_mset: "mset (map f (filter P xs) @ map f (filter (\<lambda>x. \<not> P x) xs)) = mset (map f xs)"
  by (induction xs) auto

lemma finish_ok:
  "mset (so_winning (finish_resolution o1 p) @ so_unused (finish_resolution o1 p)) = mset (rz_items p)"
  "so_outcome (finish_resolution o1 p) = o1" "so_incident (finish_resolution o1 p) = so_incident (rz_out p)"
  "so_applicable (finish_resolution o1 p) = so_applicable (rz_out p)"
proof -
  have "map snd (List.enumerate 0 (rz_items p)) = rz_items p" by simp
  then show "mset (so_winning (finish_resolution o1 p) @ so_unused (finish_resolution o1 p)) = mset (rz_items p)"
    using filter_split_mset[of snd "\<lambda>x. fst x \<in> set (rz_used p)" "List.enumerate 0 (rz_items p)"]
    by (simp add: finish_resolution_def Let_def case_prod_unfold)
qed (simp_all add: finish_resolution_def Let_def)

lemma finish_winning:
  assumes "i \<in> set (rz_used p)" "i < length (rz_items p)"
  shows "so_winning (finish_resolution o1 p) \<noteq> []"
proof -
  have "(i, rz_items p ! i) \<in> set (List.enumerate 0 (rz_items p))" using assms(2) by (simp add: in_set_enumerate_eq)
  then have "filter (\<lambda>(i, e). i \<in> set (rz_used p)) (List.enumerate 0 (rz_items p)) \<noteq> []"
    using assms(1) by (auto simp: filter_empty_conv)
  then show ?thesis by (simp add: finish_resolution_def Let_def)
qed

lemma jur_before_asym: "jur_before a b \<Longrightarrow> \<not> jur_before b a"
  by (auto simp: jur_before_def split: option.splits if_splits)

lemma jur_before_trans: "\<not> jur_before b a \<Longrightarrow> \<not> jur_before c b \<Longrightarrow> \<not> jur_before c a"
  by (auto simp: jur_before_def split: option.splits if_splits)

lemma sort_applicable_sorted: "sorted_wrt (\<lambda>a b. \<not> jur_before b a) (sort_applicable js)"
  unfolding sort_applicable_def by (rule sorted_sort_by) (use jur_before_asym jur_before_trans in blast)+

definition located :: "graph \<Rightarrow> int \<Rightarrow> string list \<Rightarrow> situs_resolution \<Rightarrow> bool" where
  "located g t covered out \<longleftrightarrow> (\<forall>j \<in> set (so_applicable out). exists_at g t j)
     \<and> sorted_wrt (\<lambda>a b. \<not> jur_before b a) (so_applicable out)
     \<and> (so_outcome out = Resolved \<longrightarrow> so_applicable out \<noteq> [] \<and>
          (\<forall>j \<in> set (so_applicable out). ju_level j = Country \<longrightarrow> ju_country j \<in> set covered))"

lemma apply_chain_ok:
  assumes "apply_chain rat_of ds r covered primary pt ns p = Ok out"
    and "\<forall>n \<in> set ns. n \<in> set (gr_nodes (rz_graph p)) \<and> valid_at n (rz_time p)" "ns \<noteq> []"
    and "so_applicable (rz_out p) = []" "\<not> so_incident (rz_out p)" "i \<in> set (rz_used p)" "i < length (rz_items p)"
  shows "located (rz_graph p) (rz_time p) covered out \<and> mset (so_winning out @ so_unused out) = mset (rz_items p)
    \<and> (so_outcome out = Resolved \<or> so_outcome out = Unsupported) \<and> \<not> so_incident out \<and> so_winning out \<noteq> []"
proof -
  obtain p1 ro o1 where d: "derive_roaming r ns (trace_note (StHierarchy primary (length ns - 1) (rz_time p)) p) = (p1, ro, o1)"
    by (cases "derive_roaming r ns (trace_note (StHierarchy primary (length ns - 1) (rz_time p)) p)") auto
  define p2 where "p2 = (case ro of None \<Rightarrow> p1 | Some x \<Rightarrow> p1\<lparr>rz_out := (rz_out p1)\<lparr>so_roaming := Some x\<rparr>\<rparr>)"
  have p2: "same_base p p2" "rz_used p2 = rz_used p" "\<not> so_incident (rz_out p2)" "so_applicable (rz_out p2) = []"
    using derive_roaming_ok[OF d] assms(4,5) by (auto simp: p2_def same_base_def split: option.splits)
  have o1: "o1 = Resolved \<or> o1 = Unsupported" using derive_roaming_ok[OF d] by simp
  show ?thesis
  proof (cases "ro \<noteq> None \<and> o1 \<noteq> Resolved")
    case True
    then have "out = finish_resolution o1 p2" using assms(1) d by (simp add: apply_chain_def p2_def)
    then show ?thesis using finish_ok[of o1 p2] finish_winning[of i p2 o1] p2 o1 True assms(6,7)
      by (auto simp: located_def same_base_def)
  next
    case False
    let ?js = "map to_jurisdiction ns"
    obtain ap where ap: "(case ro of None \<Rightarrow> Ok ?js | Some x \<Rightarrow> apply_roaming (rz_graph p2) (rz_time p2) x ?js) = Ok ap"
      using assms(1) d False unfolding apply_chain_def p2_def by (auto simp: Let_def split: if_splits)
    obtain q sp where q: "find_specials rat_of ds r pt ap p2 = Ok (q, sp)"
      using assms(1) d False ap unfolding apply_chain_def p2_def by (auto simp: Let_def split: if_splits)
    define q2 where "q2 = q\<lparr>rz_out := (rz_out q)\<lparr>so_applicable := sort_applicable (ap @ sp)\<rparr>\<rparr>"
    obtain q3 o2 where q3: "coverage covered (place_of_supply primary q2) = (q3, o2)"
      by (cases "coverage covered (place_of_supply primary q2)") auto
    have out: "out = finish_resolution o2 q3"
      using assms(1) d False ap q q3 unfolding apply_chain_def p2_def q2_def by (auto simp: Let_def split: if_splits)
    have js: "\<forall>j \<in> set ?js. exists_at (rz_graph p) (rz_time p) j" using assms(2) by (auto simp: exists_at_def)
    have gt: "rz_graph p2 = rz_graph p" "rz_time p2 = rz_time p" using p2(1) by (simp_all add: same_base_def)
    have ape: "(\<forall>j \<in> set ap. exists_at (rz_graph p) (rz_time p) j) \<and> ap \<noteq> []"
    proof (cases ro)
      case None
      then show ?thesis using ap js assms(3) by auto
    next
      case (Some x)
      then have "apply_roaming (rz_graph p) (rz_time p) x ?js = Ok ap" using ap gt by simp
      then show ?thesis using apply_roaming_exists[OF _ js] apply_roaming_nonempty[of _ _ _ ?js ap] assms(3) by blast
    qed
    have spe: "\<forall>j \<in> set sp. exists_at (rz_graph p) (rz_time p) j" using find_specials_ok[OF q] p2(1) by (simp add: same_base_def)
    have app: "so_applicable (rz_out q3) = sort_applicable (ap @ sp)" using coverage_ok[OF q3] by (simp add: q2_def)
    have b: "rz_items q3 = rz_items p" "rz_used q3 = rz_used p" "\<not> so_incident (rz_out q3)"
      using coverage_ok[OF q3] find_specials_ok[OF q] p2 by (auto simp: q2_def same_base_def)
    have s: "set (sort_applicable (ap @ sp)) = set ap \<union> set sp" by (simp add: sort_applicable_def)
    have sa: "so_applicable out = sort_applicable (ap @ sp)" "so_outcome out = o2" unfolding out finish_ok app by simp_all
    have "sort_applicable (ap @ sp) \<noteq> []" using s ape by (metis Un_empty set_empty)
    moreover have "\<forall>j \<in> set (sort_applicable (ap @ sp)). exists_at (rz_graph p) (rz_time p) j" using ape spe s by blast
    moreover have "o2 = Resolved \<longrightarrow> (\<forall>j \<in> set (sort_applicable (ap @ sp)). ju_level j = Country \<longrightarrow> ju_country j \<in> set covered)"
      using coverage_ok[OF q3] by (simp add: q2_def)
    ultimately have "located (rz_graph p) (rz_time p) covered out"
      unfolding located_def sa using sort_applicable_sorted by blast
    moreover have "mset (so_winning out @ so_unused out) = mset (rz_items p)" unfolding out finish_ok(1) b(1) ..
    moreover have "so_winning out \<noteq> []" unfolding out by (rule finish_winning[of i]) (use assms(6,7) b in simp_all)
    moreover have "\<not> so_incident out" "o2 = Resolved \<or> o2 = Unsupported"
      using b(3) coverage_ok[OF q3] unfolding out finish_ok(3) by simp_all
    ultimately show ?thesis unfolding sa by blast
  qed
qed

section \<open>A resolution, from its request\<close>

lemma started_simps [simp]:
  "rz_graph (started rules g rq items) = g" "rz_time (started rules g rq items) = sq_event_time rq"
  "rz_items (started rules g rq items) = items" "rz_used (started rules g rq items) = []"
  "so_incident (rz_out (started rules g rq items)) = False" "so_applicable (rz_out (started rules g rq items)) = []"
  by (simp_all add: started_def empty_resolution_def)

lemma selected_simps [simp]:
  "same_base p (selected r rq p)" "rz_used (selected r rq p) = rz_used p"
  "so_incident (rz_out (selected r rq p)) = so_incident (rz_out p)"
  by (simp_all add: selected_def same_base_def)

definition sound_result :: "graph \<Rightarrow> situs_request \<Rightarrow> situs_resolution \<Rightarrow> bool" where
  "sound_result g rq out \<longleftrightarrow> mset (so_winning out @ so_unused out) = mset (sq_evidence rq)
     \<and> so_outcome out \<noteq> OutcomeUnset \<and> (so_incident out \<longleftrightarrow> so_outcome out = DatasetDefect)
     \<and> located g (sq_event_time rq) (sq_covered rq) out \<and> (so_outcome out = Resolved \<longrightarrow> so_winning out \<noteq> [])"

lemma finish_sound:
  assumes "mset (rz_items p) = mset (sq_evidence rq)" "so_applicable (rz_out p) = []"
    "o1 \<noteq> OutcomeUnset" "o1 \<noteq> Resolved" "so_incident (rz_out p) \<longleftrightarrow> o1 = DatasetDefect"
  shows "sound_result g rq (finish_resolution o1 p)"
  unfolding sound_result_def located_def finish_ok using assms by simp

lemma resolve_cases:
  assumes "resolve rat_of \<lparr>rv_graph = Some g, rv_rules = Some rules, rv_datasets = ds\<rparr> rq = Some (Ok out)"
  obtains items where "canonicalise rat_of (sq_evidence rq) = Ok items"
      "resolve_started rat_of ds rules g rq (started rules g rq items) = Some (Ok out)"
  using assms by (auto simp: resolve_def split: if_splits result.splits)

lemma started_cases:
  assumes "resolve_started rat_of ds rules g rq p = Some (Ok out)"
  obtains s where "out = finish_resolution Unsupported (trace_note s p)"
  | r role where "select_rule rules (sq_ontology rq) role = Some r" "resolve_by rat_of ds r g rq (selected r rq p) = Some (Ok out)"
  using assms by (auto simp: resolve_started_def Let_def split: option.splits)

lemma resolve_by_cases:
  assumes "resolve_by rat_of ds r g rq p = Some (Ok out)"
  obtains q primary pt o1 where "locate rat_of ds r p = Some (Ok (q, primary, pt, o1))" "o1 \<noteq> Resolved" "out = finish_resolution o1 q"
  | q primary pt ns where "locate rat_of ds r p = Some (Ok (q, primary, pt, Resolved))"
      "chain g primary (rz_time q) = Some (Ok ns)" "apply_chain rat_of ds r (sq_covered rq) primary pt ns q = Ok out"
proof -
  obtain res where res: "locate rat_of ds r p = Some res" using assms by (auto simp: resolve_by_def bind_eq_Some_conv)
  obtain q primary pt o1 where q: "locate rat_of ds r p = Some (Ok (q, primary, pt, o1))"
    using assms res by (cases res) (auto simp: resolve_by_def)
  show thesis
  proof (cases "o1 = Resolved")
    case True
    then obtain c where "chain g primary (rz_time q) = Some c" using assms q by (auto simp: resolve_by_def bind_eq_Some_conv)
    then show thesis using that(2) q True assms by (cases c) (auto simp: resolve_by_def)
  qed (use that(1) q assms in \<open>simp add: resolve_by_def\<close>)
qed

lemma select_rule_mem: "select_rule rs ontology role = Some r \<Longrightarrow> \<exists>b \<in> set (rs_bindings rs). sb_rule b = r"
  by (auto simp: select_rule_def find_Some_iff)

lemma resolve_by_sound:
  assumes "wf_graph g" "validate_rule r = Ok ()" "resolve_by rat_of ds r g rq p = Some (Ok out)"
    and "rz_graph p = g" "rz_time p = sq_event_time rq" "mset (rz_items p) = mset (sq_evidence rq)"
      "so_applicable (rz_out p) = []" "\<not> so_incident (rz_out p)"
  shows "sound_result g rq out"
  using assms(3)
proof (cases rule: resolve_by_cases)
  case (1 q primary pt o1)
  have m: "mode_ok p (q, o1)" by (rule locate_ok[OF 1(1) assms(2)])
  show ?thesis unfolding 1(3)
    by (rule finish_sound) (use m 1(2) assms(6-8) in \<open>simp_all add: mode_ok_def same_base_def\<close>)
next
  case (2 q primary pt ns)
  have m: "mode_ok p (q, Resolved)" by (rule locate_ok[OF 2(1) assms(2)])
  have q: "rz_graph q = g" "rz_time q = sq_event_time rq" "rz_items q = rz_items p" "so_applicable (rz_out q) = []"
    "\<not> so_incident (rz_out q)"
    using m assms(4-8) by (simp_all add: mode_ok_def same_base_def)
  obtain i where i: "i \<in> set (rz_used q)" "i < length (rz_items q)" using m q(3) by (auto simp: mode_ok_def)
  have ns: "walk_shape g primary (rz_time q) ns" using chain_shape[OF assms(1), of primary "rz_time q"] 2(2) by auto
  have "located (rz_graph q) (rz_time q) (sq_covered rq) out \<and> mset (so_winning out @ so_unused out) = mset (rz_items q)
    \<and> (so_outcome out = Resolved \<or> so_outcome out = Unsupported) \<and> \<not> so_incident out \<and> so_winning out \<noteq> []"
    by (rule apply_chain_ok[OF 2(3) _ _ q(4,5) i]) (use ns q(1) in \<open>auto simp: walk_shape_def\<close>)
  then show ?thesis using q assms(6) by (auto simp: sound_result_def)
qed

lemma resolve_sound_result:
  assumes "wf_graph g" "new_rule_set bs u = Ok rules"
    and "resolve rat_of \<lparr>rv_graph = Some g, rv_rules = Some rules, rv_datasets = ds\<rparr> rq = Some (Ok out)"
  shows "sound_result g rq out"
proof -
  obtain items where items: "canonicalise rat_of (sq_evidence rq) = Ok items"
    "resolve_started rat_of ds rules g rq (started rules g rq items) = Some (Ok out)"
    using resolve_cases[OF assms(3)] .
  let ?p = "started rules g rq items"
  note mi = canonicalise_mset[OF items(1)]
  from items(2) show ?thesis
  proof (cases rule: started_cases)
    case (1 s)
    show ?thesis unfolding 1 by (rule finish_sound) (use mi in simp_all)
  next
    case (2 r role)
    have v: "validate_rule r = Ok ()" using select_rule_mem[OF 2(1)] new_rule_set_ok[OF assms(2)] by blast
    have b: "same_base ?p (selected r rq ?p)" by simp
    show ?thesis by (rule resolve_by_sound[OF assms(1) v 2(2)]) (use b mi in \<open>simp_all add: same_base_def\<close>)
  qed
qed

section \<open>A resolution forgets the order of what it is given\<close>

lemma settle_role_undetermined: "rs_undetermined a = rs_undetermined b \<Longrightarrow> settle_role a = settle_role b"
  by (rule ext) (simp add: settle_role_def Let_def split: prod.split)

lemma resolve_forgets_order:
  assumes "canonicalise rat_of (sq_evidence rq) = canonicalise rat_of fs"
    and "rs_undetermined a = rs_undetermined b" "\<And>ontology role. select_rule a ontology role = select_rule b ontology role"
  shows "resolve rat_of \<lparr>rv_graph = Some g, rv_rules = Some a, rv_datasets = ds\<rparr> rq
       = resolve rat_of \<lparr>rv_graph = Some g, rv_rules = Some b, rv_datasets = ds\<rparr> (rq\<lparr>sq_evidence := fs\<rparr>)"
proof (cases "canonicalise rat_of fs")
  case (Ok items)
  have s: "started b g (rq\<lparr>sq_evidence := fs\<rparr>) items = started a g rq items"
    by (simp add: started_def settle_role_undetermined[OF assms(2)])
  have f: "sq_covered (rq\<lparr>sq_evidence := fs\<rparr>) = sq_covered rq" "sq_ontology (rq\<lparr>sq_evidence := fs\<rparr>) = sq_ontology rq" by simp_all
  have "resolve_started rat_of ds a g rq p = resolve_started rat_of ds b g (rq\<lparr>sq_evidence := fs\<rparr>) p" for p
    unfolding resolve_started_def assms(3) resolve_by_def selected_def f ..
  then show ?thesis using Ok assms(1) s by (simp add: resolve_def)
qed (use assms(1) in \<open>simp add: resolve_def\<close>)

end
