(* ===== verification/JurProps.thy ===== *)
theory JurProps
  imports ResolveSafety
begin

text \<open>
  The properties of jurisdictions and situs: the walks of an accepted graph end, a resolution depends only
  on which evidence and which bindings it is given, and what it resolves to is sound.
\<close>

text \<open>C34. The walk to the root always returns on an accepted graph, though its loop has no bound of its own:
  for a general jurisdiction it gives the node and its ancestors, each existing at the instant, strictly
  outward in level, all in one country, at most five of them, ending at the country; for a special one,
  the node alone. So every resolution on such a graph returns, whatever the rules, evidence and datasets.\<close>

theorem resolution_terminates:
  assumes "new_graph version nodes memberships = Ok g"
  shows "(\<exists>r. chain g i t = Some r \<and> (\<forall>ns. r = Ok ns \<longrightarrow>
        ns \<noteq> [] \<and> ju_id (hd ns) = i \<and> (\<forall>n \<in> set ns. n \<in> set nodes \<and> valid_at n t)
      \<and> (if ju_level (hd ns) = Special then length ns = 1
         else length ns \<le> 5 \<and> ju_level (last ns) = Country
           \<and> sorted_wrt (\<lambda>a b. rank0 (ju_level b) < rank0 (ju_level a) \<and> ju_country b = ju_country a) ns)))
    \<and> (rv_graph rv = Some g \<longrightarrow> (\<exists>r. resolve rat_of rv rq = Some r))"
proof -
  have g: "wf_graph g" "gr_nodes g = nodes" using new_graph_wf[OF assms] by auto
  show ?thesis using chain_shape[OF g(1), of i t] resolve_returns[OF g(1)] unfolding walk_shape_def g(2) by blast
qed

definition demo_node :: "jid \<Rightarrow> jid \<Rightarrow> level \<Rightarrow> string \<Rightarrow> geo_node" where
  "demo_node i p l tz = \<lparr>ju_id = i, ju_parent = p, ju_level = l, ju_name = ''name'', ju_country = ''US'', ju_timezone = tz,
     nd_from = 1, nd_to = None\<rparr>"

definition demo_nodes :: "geo_node list" where
  "demo_nodes = [demo_node ''jurisdiction:us'' [] Country ''America/New_York'',
     demo_node ''jurisdiction:us/ny'' ''jurisdiction:us'' State ''America/New_York'',
     demo_node ''jurisdiction:us/mta'' [] Special ''America/New_York'']"

definition demo_memberships :: "membership list" where
  "demo_memberships = [\<lparr>ms_special = ''jurisdiction:us/mta'', ms_members = [''jurisdiction:us/ny'']\<rparr>]"

definition demo_graph :: graph where
  "demo_graph = \<lparr>gr_version = ''v1'', gr_nodes = demo_nodes, gr_members = [(''jurisdiction:us/mta'', [''jurisdiction:us/ny''])]\<rparr>"

definition demo_rule :: situs_rule where
  "demo_rule = \<lparr>sr_id = ''rule'', sr_mode = ModePrecedence,
     sr_reliability = (\<lambda>t. if t = ServiceAddress then Some Strong else if t = BillingAddress then Some Supporting else None),
     sr_order = [ServiceAddress, BillingAddress], sr_minimum = Supporting, sr_required = 0, sr_eligible = [],
     sr_agreement = Country, sr_coordinates = [], sr_dataset = [], sr_outside = OutsideInsufficient, sr_parent = [],
     sr_roaming = RoamingOther []\<rparr>"

definition demo_evidence :: "evidence_type \<Rightarrow> jid \<Rightarrow> situs_evidence" where
  "demo_evidence t i = \<lparr>sv_type = t, sv_source = SellerRecorded, sv_collected_at = 5, sv_jurisdiction = i, sv_point = None,
     sv_country = [], sv_vat = VatOther []\<rparr>"

definition demo_bindings :: "situs_binding list" where
  "demo_bindings = [\<lparr>sb_ontology = [], sb_role = RoleOther [], sb_rule = demo_rule\<rparr>]"

definition demo_rules :: rule_set where
  "demo_rules = \<lparr>rs_bindings = demo_bindings, rs_undetermined = RoleB2C\<rparr>"

definition demo_resolver :: resolver where
  "demo_resolver = \<lparr>rv_graph = Some demo_graph, rv_rules = Some demo_rules, rv_datasets = Map.empty\<rparr>"

definition demo_request :: situs_request where
  "demo_request = \<lparr>sq_event_time = 10, sq_ontology = ''telecom'',
     sq_evidence = [demo_evidence BillingAddress ''jurisdiction:us'', demo_evidence ServiceAddress ''jurisdiction:us/ny''],
     sq_covered = [''US'']\<rparr>"

lemma demo_graph_accepted: "new_graph ''v1'' demo_nodes demo_memberships = Ok demo_graph"
  by code_simp

lemma demo_rules_accepted: "new_rule_set demo_bindings RoleB2C = Ok demo_rules"
proof -
  have "is_ok (new_rule_set demo_bindings RoleB2C)" by code_simp
  then have "foldR add_binding [] demo_bindings = Ok demo_bindings"
    by (auto simp: new_rule_set_def is_ok_iff demo_bindings_def add_binding_def split: if_splits)
  then show ?thesis by (simp add: new_rule_set_def demo_rules_def demo_bindings_def sort_by_def)
qed

theorem resolution_terminates_witness: "(\<exists>r. chain demo_graph ''jurisdiction:us/ny'' 10 = Some r) \<and> (\<exists>r. resolve (\<lambda>s. None) demo_resolver demo_request = Some r)"
proof -
  have "rv_graph demo_resolver = Some demo_graph" by (simp add: demo_resolver_def)
  then show ?thesis
    using resolution_terminates[OF demo_graph_accepted, of "''jurisdiction:us/ny''" 10 demo_resolver "\<lambda>s. None" demo_request]
    by blast
qed

text \<open>C35. A resolution depends on what it is given and not on its order: permuting the evidence, and declaring
  the accepted bindings in another order, gives the same record, with the same trace, winning evidence
  and applicable jurisdictions. Evidence that differs must differ in canonical form.\<close>

theorem resolution_order_free:
  assumes "new_rule_set bindings undetermined = Ok rules" "new_rule_set bindings' undetermined = Ok rules'"
    and "set bindings' = set bindings" "mset evidence' = mset (sq_evidence rq)"
    and "told_apart (sq_evidence rq)"
    and "resolve rat_of \<lparr>rv_graph = Some g, rv_rules = Some rules, rv_datasets = datasets\<rparr> rq = Some (Ok out)"
  shows "resolve rat_of \<lparr>rv_graph = Some g, rv_rules = Some rules', rv_datasets = datasets\<rparr> (rq\<lparr>sq_evidence := evidence'\<rparr>)
       = Some (Ok out)"
proof -
  obtain items where items: "canonicalise rat_of (sq_evidence rq) = Ok items" using resolve_cases[OF assms(6)] .
  have c: "canonicalise rat_of (sq_evidence rq) = canonicalise rat_of evidence'"
    using canonicalise_perm[OF items assms(4,5)] items by simp
  have u: "rs_undetermined rules = rs_undetermined rules'"
    using new_rule_set_ok[OF assms(1)] new_rule_set_ok[OF assms(2)] by simp
  show ?thesis using resolve_forgets_order[OF c u select_perm[OF assms(1,2,3)]] assms(6) by metis
qed

lemma demo_resolves:
  "case resolve (\<lambda>s. None) demo_resolver demo_request of Some (Ok out) \<Rightarrow> so_outcome out = Resolved | _ \<Rightarrow> False"
  by code_simp

lemma demo_resolved:
  obtains out where "resolve (\<lambda>s. None) \<lparr>rv_graph = Some demo_graph, rv_rules = Some demo_rules, rv_datasets = Map.empty\<rparr> demo_request
    = Some (Ok out)" "so_outcome out = Resolved"
  using demo_resolves unfolding demo_resolver_def by (auto split: option.splits result.splits)

lemma demo_told_apart: "told_apart (sq_evidence demo_request)"
proof -
  have "encode (evidence_value (demo_evidence BillingAddress ''jurisdiction:us'')) \<noteq> encode (evidence_value (demo_evidence ServiceAddress ''jurisdiction:us/ny''))"
    by code_simp
  then show ?thesis by (auto simp: told_apart_def demo_request_def)
qed

theorem resolution_order_free_witness:
  "\<exists>out. so_outcome out = Resolved \<and>
     resolve (\<lambda>s. None) \<lparr>rv_graph = Some demo_graph, rv_rules = Some demo_rules, rv_datasets = Map.empty\<rparr>
       (demo_request\<lparr>sq_evidence := rev (sq_evidence demo_request)\<rparr>) = Some (Ok out)"
proof -
  obtain out where out: "resolve (\<lambda>s. None) \<lparr>rv_graph = Some demo_graph, rv_rules = Some demo_rules, rv_datasets = Map.empty\<rparr> demo_request
    = Some (Ok out)" "so_outcome out = Resolved" by (rule demo_resolved)
  show ?thesis
    using resolution_order_free[OF demo_rules_accepted demo_rules_accepted refl mset_rev demo_told_apart out(1)] out(2) by blast
qed

text \<open>C36. What a resolution says is sound. Every item of evidence ends up winning or unused, exactly once. The
  outcome is always set, and an incident is raised exactly for a dataset defect. Every applicable
  jurisdiction is one the graph has at the event time, in the order of \<open>Resolution.Sort\<close>. A resolved
  outcome rests on some evidence, applies some jurisdiction, and applies no country that is not covered.\<close>

theorem resolution_sound:
  assumes "new_graph version nodes memberships = Ok g" "new_rule_set bindings undetermined = Ok rules"
    and "resolve rat_of \<lparr>rv_graph = Some g, rv_rules = Some rules, rv_datasets = datasets\<rparr> rq = Some (Ok out)"
  shows "mset (so_winning out @ so_unused out) = mset (sq_evidence rq)
    \<and> so_outcome out \<noteq> OutcomeUnset \<and> (so_incident out \<longleftrightarrow> so_outcome out = DatasetDefect)
    \<and> (\<forall>j \<in> set (so_applicable out). \<exists>n \<in> set nodes. j = to_jurisdiction n \<and> valid_at n (sq_event_time rq))
    \<and> sorted_wrt (\<lambda>a b. \<not> jur_before b a) (so_applicable out)
    \<and> (so_outcome out = Resolved \<longrightarrow> so_winning out \<noteq> [] \<and> so_applicable out \<noteq> []
       \<and> (\<forall>j \<in> set (so_applicable out). ju_level j = Country \<longrightarrow> ju_country j \<in> set (sq_covered rq)))"
proof -
  have g: "wf_graph g" "gr_nodes g = nodes" using new_graph_wf[OF assms(1)] by auto
  show ?thesis
    using resolve_sound_result[OF g(1) assms(2,3)] unfolding sound_result_def located_def exists_at_def g(2) by blast
qed

theorem resolution_sound_witness:
  "\<exists>out. resolve (\<lambda>s. None) \<lparr>rv_graph = Some demo_graph, rv_rules = Some demo_rules, rv_datasets = Map.empty\<rparr> demo_request = Some (Ok out)
     \<and> so_outcome out = Resolved \<and> so_winning out \<noteq> [] \<and> \<not> so_incident out"
proof -
  obtain out where out: "resolve (\<lambda>s. None) \<lparr>rv_graph = Some demo_graph, rv_rules = Some demo_rules, rv_datasets = Map.empty\<rparr> demo_request
    = Some (Ok out)" "so_outcome out = Resolved" by (rule demo_resolved)
  note s = resolution_sound[OF demo_graph_accepted demo_rules_accepted out(1)]
  show ?thesis using s out by auto
qed

end
