(* ===== verification/TaxDoc.thy ===== *)
theory TaxDoc
  imports Situs
begin

text \<open>
  \<open>backend/internal/domain/taxation/document.go\<close>: the document a determination is made over, its validation
  and its canonical form; and the ontology families a service names (\<open>ontology.go\<close>). A calendar date is read
  as \<open>time.DateOnly\<close> reads it.
\<close>

section \<open>Dates\<close>

definition digits_nat :: "string \<Rightarrow> nat option" where
  "digits_nat s = (if s \<noteq> [] \<and> list_all is_digit s then Some (digits_val 0 s) else None)"

definition leap_year :: "int \<Rightarrow> bool" where
  "leap_year y \<longleftrightarrow> y mod 4 = 0 \<and> (y mod 100 \<noteq> 0 \<or> y mod 400 = 0)"

definition month_days :: "int \<Rightarrow> nat \<Rightarrow> nat" where
  "month_days y m = (if m = 2 then (if leap_year y then 29 else 28) else if m \<in> {4, 6, 9, 11} then 30 else 31)"

definition parse_date :: "string \<Rightarrow> (int \<times> nat \<times> nat) option" where
  "parse_date s =
     (if length s \<noteq> 10 \<or> s ! 4 \<noteq> CHR ''-'' \<or> s ! 7 \<noteq> CHR ''-'' then None
      else case (digits_nat (take 4 s), digits_nat (take 2 (drop 5 s)), digits_nat (drop 8 s)) of
        (Some y, Some m, Some d) \<Rightarrow>
          if m < 1 \<or> 12 < m \<or> d < 1 \<or> month_days (int y) m < d then None else Some (int y, m, d)
      | _ \<Rightarrow> None)"

section \<open>Families (ontology.go)\<close>

definition families :: "string list" where
  "families =
     [''MOBILE_VOICE'', ''FIXED_VOICE'', ''MESSAGING'', ''MOBILE_DATA'', ''FIXED_BROADBAND'', ''VOIP'', ''SIP_TRUNKING'',
      ''UCAAS'', ''CCAAS'', ''CPAAS'', ''IOT_CONNECTIVITY'', ''SUBSCRIPTION_IDENTITY'', ''SATELLITE_CONNECTIVITY'',
      ''ROAMING_RETAIL'', ''ROAMING_WHOLESALE'', ''INTERCONNECT'', ''WHOLESALE_ACCESS'', ''EQUIPMENT_SALE'',
      ''EQUIPMENT_RENTAL'', ''INSTALLATION_ACTIVATION'', ''PROFESSIONAL_SERVICES'', ''CONTENT_MEDIA'', ''SOFTWARE'',
      ''OTHER_NON_TELECOM'']"

definition family_valid :: "string \<Rightarrow> bool" where
  "family_valid s \<longleftrightarrow> s \<in> set families"

section \<open>The document\<close>

datatype doc_type = Invoice | CreditNote | DocTypeOther string
datatype price_mode = PriceExclusive | PriceInclusive | PriceOther string
datatype verification = Verified | Unverified | Unavailable | VerificationOther string

fun doc_type_name :: "doc_type \<Rightarrow> string" where
  "doc_type_name Invoice = ''INVOICE''"
| "doc_type_name CreditNote = ''CREDIT_NOTE''"
| "doc_type_name (DocTypeOther s) = s"

fun price_mode_name :: "price_mode \<Rightarrow> string" where
  "price_mode_name PriceExclusive = ''EXCLUSIVE''"
| "price_mode_name PriceInclusive = ''INCLUSIVE''"
| "price_mode_name (PriceOther s) = s"

fun verification_name :: "verification \<Rightarrow> string" where
  "verification_name Verified = ''VERIFIED''"
| "verification_name Unverified = ''UNVERIFIED''"
| "verification_name Unavailable = ''UNAVAILABLE''"
| "verification_name (VerificationOther s) = s"

record tx_place =
  tp_jurisdiction :: string
  tp_subdivision :: string
  tp_country :: string

record vat_identification =
  vi_country :: string
  vi_validation :: vat_status

record tx_party =
  ty_id :: string
  ty_establishment :: "tx_place option"
  ty_vat :: "vat_identification option"

record tx_evidence =
  xe_type :: evidence_type
  xe_source :: evidence_source
  xe_collected_at :: int
  xe_place :: tx_place

record certificate =
  ct_id :: string
  ct_type :: string
  ct_holder :: string
  ct_jurisdiction :: string
  ct_tax_types :: "string list"
  ct_components :: "string list"
  ct_valid_from :: string
  ct_valid_to :: string
  ct_verification :: verification

record tx_part =
  xp_key :: string
  xp_service :: string
  xp_amount :: money
  xp_quantity :: "quantity option"

record tx_line =
  xl_key :: string
  xl_sku :: string
  xl_service :: string
  xl_amount :: money
  xl_quantity :: "quantity option"
  xl_evidence :: "tx_evidence list"
  xl_parts :: "tx_part list"

record tx_document =
  td_type :: doc_type
  td_currency :: string
  td_price_mode :: price_mode
  td_seller :: tx_party
  td_customer :: tx_party
  td_evidence :: "tx_evidence list"
  td_certificates :: "certificate list"
  td_lines :: "tx_line list"

section \<open>Validation\<close>

text \<open>A \<open>FieldError\<close> by its field; the detail is fixed by the field.\<close>

type_synonym field_error = string

definition currency_code :: "string \<Rightarrow> bool" where
  "currency_code s \<longleftrightarrow> length s = 3 \<and> list_all (in_range 65 90) s"

definition validate_place :: "string \<Rightarrow> tx_place \<Rightarrow> (field_error, unit) result" where
  "validate_place field p =
     (let named = (if tp_jurisdiction p \<noteq> [] then 1 else 0) + (if tp_subdivision p \<noteq> [] then 1 else 0)
            + (if tp_country p \<noteq> [] then (1 :: nat) else 0); sub = tp_subdivision p in
      if tp_jurisdiction p \<noteq> [] \<and> \<not> validate_jurisdiction_id (tp_jurisdiction p) then Err (field @ ''.jurisdiction'')
      else if sub \<noteq> [] \<and> (length sub < 4 \<or> sub ! 2 \<noteq> CHR ''-'' \<or> \<not> country_code (take 2 sub)) then Err (field @ ''.subdivision'')
      else if tp_country p \<noteq> [] \<and> \<not> country_code (tp_country p) then Err (field @ ''.country'')
      else if named \<noteq> 1 then Err field
      else Ok ())"

definition indexed :: "string \<Rightarrow> nat \<Rightarrow> string" where
  "indexed field i = field @ ''['' @ show_nat i @ '']''"

definition validate_tx_evidence :: "string \<Rightarrow> tx_evidence \<Rightarrow> (field_error, unit) result" where
  "validate_tx_evidence field e =
     (if \<not> evidence_valid (xe_type e) then Err (field @ ''.type'')
      else if xe_type e \<in> {VATIdentification, SellerEstablishment, CustomerEstablishment, DeviceCoordinates}
        then Err (field @ ''.type'')
      else if \<not> source_valid (xe_source e) then Err (field @ ''.source'')
      else validate_place (field @ ''.place'') (xe_place e))"

definition validate_certificate :: "string \<Rightarrow> certificate \<Rightarrow> (field_error, unit) result" where
  "validate_certificate field c =
     (if ct_id c = [] \<or> ct_type c = [] \<or> ct_holder c = [] then Err field
      else if \<not> validate_jurisdiction_id (ct_jurisdiction c) then Err (field @ ''.jurisdiction'')
      else if parse_date (ct_valid_from c) = None then Err (field @ ''.validFrom'')
      else if ct_valid_to c \<noteq> [] \<and> parse_date (ct_valid_to c) = None then Err (field @ ''.validTo'')
      else (case ct_verification c of VerificationOther s \<Rightarrow> Err (field @ ''.verification'') | _ \<Rightarrow> Ok ()))"

definition validate_amount :: "tx_document \<Rightarrow> string \<Rightarrow> money \<Rightarrow> (field_error, unit) result" where
  "validate_amount d field m =
     (if m_currency m \<noteq> td_currency d then Err field
      else if td_type d = Invoice \<and> money_sign m < 0 then Err field
      else if td_type d = CreditNote \<and> 0 < money_sign m then Err field
      else Ok ())"

definition part_step ::
  "tx_document \<Rightarrow> string \<Rightarrow> money \<times> string list \<Rightarrow> nat \<times> tx_part \<Rightarrow> (field_error, money \<times> string list) result" where
  "part_step d w = (\<lambda>(total, keys) (j, p).
     (let pat = indexed (w @ ''.parts'') j in
      if xp_key p = [] \<or> 64 < length (xp_key p) \<or> xp_key p \<in> set keys then Err (pat @ ''.key'')
      else if xp_service p \<noteq> [] \<and> \<not> family_valid (xp_service p) then Err (pat @ ''.service'')
      else bindR (validate_amount d (pat @ ''.amount'') (xp_amount p)) (\<lambda>_.
        case money_add total (xp_amount p) of
          Err e \<Rightarrow> Err (pat @ ''.amount'')
        | Ok s \<Rightarrow> Ok (s, xp_key p # keys))))"

definition validate_line :: "tx_document \<Rightarrow> nat \<Rightarrow> tx_line \<Rightarrow> (field_error, unit) result" where
  "validate_line d i l =
     (let w = indexed ''document.lines'' i in
      if xl_key l = [] \<or> 64 < length (xl_key l) then Err (w @ ''.key'')
      else bindR (validate_amount d (w @ ''.amount'') (xl_amount l)) (\<lambda>_.
        if xl_service l \<noteq> [] \<and> \<not> family_valid (xl_service l) then Err (w @ ''.service'')
        else bindR (mapR (\<lambda>(j, e). validate_tx_evidence (indexed (w @ ''.evidence'') j) e) (List.enumerate 0 (xl_evidence l))) (\<lambda>_.
          if xl_parts l = [] then Ok ()
          else if xl_service l \<noteq> [] \<or> xl_quantity l \<noteq> None then Err (w @ ''.parts'')
          else bindR (foldR (part_step d w) (money_zero (xl_amount l), []) (List.enumerate 0 (xl_parts l))) (\<lambda>(total, _).
            if money_cmp total (xl_amount l) \<noteq> Ok 0 then Err (w @ ''.parts'') else Ok ()))))"

definition certificate_step :: "string list \<Rightarrow> nat \<times> certificate \<Rightarrow> (field_error, string list) result" where
  "certificate_step ids = (\<lambda>(i, c).
     bindR (validate_certificate (indexed ''document.certificates'' i) c) (\<lambda>_.
       if ct_id c \<in> set ids then Err ''document.certificates.id'' else Ok (ct_id c # ids)))"

definition line_step :: "tx_document \<Rightarrow> string list \<Rightarrow> nat \<times> tx_line \<Rightarrow> (field_error, string list) result" where
  "line_step d keys = (\<lambda>(i, l).
     bindR (validate_line d i l) (\<lambda>_.
       if xl_key l \<in> set keys then Err ''document.lines.key'' else Ok (xl_key l # keys)))"

definition validate_parties :: "tx_document \<Rightarrow> (field_error, unit) result" where
  "validate_parties d =
     (case ty_establishment (td_seller d) of
        None \<Rightarrow> Err ''document.seller''
      | Some est \<Rightarrow>
        if ty_id (td_seller d) = [] then Err ''document.seller''
        else if ty_vat (td_seller d) \<noteq> None then Err ''document.seller.vat''
        else bindR (validate_place ''document.seller.establishment'' est) (\<lambda>_.
          if ty_id (td_customer d) = [] then Err ''document.customer.id''
          else bindR (case ty_establishment (td_customer d) of None \<Rightarrow> Ok ()
                      | Some p \<Rightarrow> validate_place ''document.customer.establishment'' p) (\<lambda>_.
            case ty_vat (td_customer d) of
              None \<Rightarrow> Ok ()
            | Some v \<Rightarrow> if \<not> country_code (vi_country v) \<or> \<not> vat_valid (vi_validation v)
                then Err ''document.customer.vat'' else Ok ())))"

definition validate_document :: "tx_document \<Rightarrow> (field_error, unit) result" where
  "validate_document d =
     (if td_type d \<noteq> Invoice \<and> td_type d \<noteq> CreditNote then Err ''document.type''
      else if \<not> currency_code (td_currency d) then Err ''document.currency''
      else if td_price_mode d \<noteq> PriceExclusive \<and> td_price_mode d \<noteq> PriceInclusive then Err ''document.priceMode''
      else bindR (validate_parties d) (\<lambda>_.
        bindR (mapR (\<lambda>(i, e). validate_tx_evidence (indexed ''document.evidence'' i) e) (List.enumerate 0 (td_evidence d))) (\<lambda>_.
        bindR (foldR certificate_step [] (List.enumerate 0 (td_certificates d))) (\<lambda>_.
          if td_lines d = [] then Err ''document.lines''
          else bindR (foldR (line_step d) [] (List.enumerate 0 (td_lines d))) (\<lambda>_. Ok ())))))"

section \<open>Canonical form\<close>

definition string_array :: "string list \<Rightarrow> cvalue" where
  "string_array ss = (if ss = [] then VAbsent else VArray (map VString ss))"

definition quantity_value :: "quantity option \<Rightarrow> cvalue" where
  "quantity_value q =
     (case q of None \<Rightarrow> VAbsent
      | Some x \<Rightarrow> c_object [(''value'', VDecimal (canonical_decimal (q_amount x))), (''unit'', VString (q_unit x))])"

definition place_value :: "tx_place \<Rightarrow> cvalue" where
  "place_value p = c_object
     [(''jurisdiction'', opt_string (tp_jurisdiction p)), (''subdivision'', opt_string (tp_subdivision p)),
      (''country'', opt_string (tp_country p))]"

definition party_value :: "tx_party \<Rightarrow> cvalue" where
  "party_value p = c_object
     [(''id'', VString (ty_id p)),
      (''establishment'', case ty_establishment p of None \<Rightarrow> VAbsent | Some e \<Rightarrow> place_value e),
      (''vat'', case ty_vat p of None \<Rightarrow> VAbsent
         | Some v \<Rightarrow> c_object [(''country'', VString (vi_country v)), (''validation'', VString (vat_name (vi_validation v)))])]"

definition evidence_array :: "tx_evidence list \<Rightarrow> cvalue" where
  "evidence_array es =
     (if es = [] then VAbsent
      else VArray (map (\<lambda>e. c_object
        [(''type'', VString (evidence_name (xe_type e))), (''source'', VString (source_name (xe_source e))),
         (''collectedAt'', if xe_collected_at e = 0 then VAbsent else c_time (xe_collected_at e)),
         (''place'', place_value (xe_place e))]) es))"

definition certificate_array :: "certificate list \<Rightarrow> cvalue" where
  "certificate_array cs =
     (if cs = [] then VAbsent
      else VArray (map (\<lambda>c. c_object
        [(''id'', VString (ct_id c)), (''type'', VString (ct_type c)), (''holder'', VString (ct_holder c)),
         (''jurisdiction'', VString (ct_jurisdiction c)), (''taxTypes'', string_array (ct_tax_types c)),
         (''components'', string_array (ct_components c)), (''validFrom'', VString (ct_valid_from c)),
         (''validTo'', opt_string (ct_valid_to c)), (''verification'', VString (verification_name (ct_verification c)))]) cs))"

definition part_value :: "tx_part \<Rightarrow> cvalue" where
  "part_value p = c_object
     [(''key'', VString (xp_key p)), (''service'', opt_string (xp_service p)), (''amount'', c_money (xp_amount p)),
      (''quantity'', quantity_value (xp_quantity p))]"

definition line_value :: "tx_line \<Rightarrow> cvalue" where
  "line_value l = c_object
     [(''key'', VString (xl_key l)), (''sku'', opt_string (xl_sku l)), (''service'', opt_string (xl_service l)),
      (''amount'', c_money (xl_amount l)), (''quantity'', quantity_value (xl_quantity l)),
      (''evidence'', evidence_array (xl_evidence l)),
      (''parts'', if xl_parts l = [] then VAbsent else VArray (map part_value (xl_parts l)))]"

definition document_canonical :: "tx_document \<Rightarrow> cvalue" where
  "document_canonical d = c_object
     [(''type'', VString (doc_type_name (td_type d))), (''currency'', VString (td_currency d)),
      (''priceMode'', VString (price_mode_name (td_price_mode d))), (''seller'', party_value (td_seller d)),
      (''customer'', party_value (td_customer d)), (''evidence'', evidence_array (td_evidence d)),
      (''certificates'', certificate_array (td_certificates d)), (''lines'', VArray (map line_value (td_lines d)))]"

end
