(* ===== verification/TaxProfile.thy ===== *)
theory TaxProfile
  imports TaxDoc Schedule Resolve
begin

text \<open>
  \<open>backend/internal/domain/taxation/profile.go\<close>: the taxation section of a content bundle as it is declared,
  and its compilation into an engine. The time-zone database of the runtime is the argument \<open>zones\<close>: for a
  zone it can load, the instant of midnight on a calendar date there.
\<close>

section \<open>The declared profile\<close>

datatype treatment = CustomerCharge | ProviderCost | ReverseCharge | TreatmentExempt | TreatmentOther string

fun treatment_name :: "treatment \<Rightarrow> string" where
  "treatment_name CustomerCharge = ''CUSTOMER_CHARGE''"
| "treatment_name ProviderCost = ''PROVIDER_COST''"
| "treatment_name ReverseCharge = ''REVERSE_CHARGE''"
| "treatment_name TreatmentExempt = ''EXEMPT''"
| "treatment_name (TreatmentOther s) = s"

datatype supply_kind = SupplyAny | SupplyDomestic | SupplyCrossBorder | SupplyOther string

fun supply_name :: "supply_kind \<Rightarrow> string" where
  "supply_name SupplyAny = ''ANY''"
| "supply_name SupplyDomestic = ''DOMESTIC''"
| "supply_name SupplyCrossBorder = ''CROSS_BORDER''"
| "supply_name (SupplyOther s) = s"

datatype responsible = SellerParty | BuyerParty | NoParty | PartyOther string

fun responsible_name :: "responsible \<Rightarrow> string" where
  "responsible_name SellerParty = ''SELLER''"
| "responsible_name BuyerParty = ''BUYER''"
| "responsible_name NoParty = ''NONE''"
| "responsible_name (PartyOther s) = s"

text \<open>No legal reason is \<open>LegalOther\<close> of the empty text.\<close>

datatype legal_reason = ZeroRated | LegallyExempt | OutOfScope | LegalOther string

fun legal_name :: "legal_reason \<Rightarrow> string" where
  "legal_name ZeroRated = ''ZERO_RATED''"
| "legal_name LegallyExempt = ''EXEMPT''"
| "legal_name OutOfScope = ''OUT_OF_SCOPE''"
| "legal_name (LegalOther s) = s"

record jurisdiction_decl =
  jd_id :: jid
  jd_parent :: jid
  jd_level :: level
  jd_name :: string
  jd_country :: string
  jd_code :: string
  jd_timezone :: string
  jd_from :: string
  jd_to :: string

text \<open>The reliability of a rule is a JSON object: its members in some order, no two of one name.\<close>

record situs_rule_decl =
  sd_id :: string
  sd_service :: string
  sd_role :: customer_role
  sd_mode :: situs_mode
  sd_reliability :: "(evidence_type \<times> reliability) list"
  sd_order :: "evidence_type list"
  sd_minimum :: reliability
  sd_required :: int
  sd_eligible :: "evidence_type list"
  sd_agreement :: level
  sd_roaming :: roaming_sourcing

record responsibility_decl =
  rl_id :: string
  rl_incidence :: responsible
  rl_collection :: responsible
  rl_reporting :: responsible
  rl_remittance :: responsible
  rl_bearer :: responsible

record regime_decl =
  gd_id :: string
  gd_country :: string
  gd_name :: string
  gd_services :: "string list"
  gd_level :: level
  gd_extraction :: "rounding_policy option"
  gd_excluded :: "string list"
  gd_source :: string
  gd_citation :: string

record apply_decl =
  ay_roles :: "customer_role list"
  ay_supply :: supply_kind
  ay_treatment :: treatment
  ay_responsibility :: string

record tax_base_decl =
  tb_kind :: base_kind
  tb_components :: "comp_id list"

record version_decl =
  vd_from :: string
  vd_to :: string
  vd_kind :: rate_kind
  vd_rate :: string
  vd_amount :: string
  vd_currency :: string
  vd_unit :: string
  vd_reason :: legal_reason
  vd_source :: string
  vd_citation :: string

record component_decl =
  cd_id :: comp_id
  cd_regime :: string
  cd_jurisdiction :: jid
  cd_authority :: string
  cd_tax_type :: string
  cd_name :: string
  cd_emit :: string
  cd_services :: "string list"
  cd_applies :: "apply_decl list"
  cd_base :: tax_base_decl
  cd_rounding :: rounding_policy
  cd_exempt_by :: "string list"
  cd_versions :: "version_decl list"

record tax_profile =
  tx_version :: string
  tx_graph_version :: string
  tx_jurisdictions :: "jurisdiction_decl list"
  tx_memberships :: "membership list"
  tx_undetermined :: customer_role
  tx_rules :: "situs_rule_decl list"
  tx_responsibility :: "responsibility_decl list"
  tx_regimes :: "regime_decl list"
  tx_components :: "component_decl list"

section \<open>The compiled engine\<close>

type_synonym civil_date = "int \<times> nat \<times> nat"
type_synonym location = "civil_date \<Rightarrow> int"
type_synonym zone_db = "string \<rightharpoonup> location"

record tax_regime =
  rg_decl :: regime_decl
  rg_level :: level

record tax_version =
  vr_decl :: version_decl
  vr_from :: int
  vr_to :: "int option"
  vr_rate :: rate_decl
  vr_zero :: bool
  vr_per_units :: string

record levy =
  lv_decl :: component_decl
  lv_regime :: tax_regime
  lv_versions :: "tax_version list"
  lv_location :: location

record engine =
  en_version :: string
  en_graph :: graph
  en_rule_set :: rule_set
  en_countries :: "string list"
  en_by_code :: "(string \<times> jid) list"
  en_situs :: "situs_rule_decl list"
  en_regimes :: "tax_regime list"
  en_covered :: "string list"
  en_responsibility :: "responsibility_decl list"
  en_levies :: "levy list"
  en_slots :: "string list"

definition engine_resolver :: "engine \<Rightarrow> resolver" where
  "engine_resolver e = \<lparr>rv_graph = Some (en_graph e), rv_rules = Some (en_rule_set e), rv_datasets = (\<lambda>_. None)\<rparr>"

definition regime_in :: "engine \<Rightarrow> string \<Rightarrow> tax_regime option" where
  "regime_in e country = find (\<lambda>r. gd_country (rg_decl r) = country) (en_regimes e)"

definition levy_of :: "engine \<Rightarrow> comp_id \<Rightarrow> levy option" where
  "levy_of e i = find (\<lambda>c. cd_id (lv_decl c) = i) (en_levies e)"

definition situs_decl :: "engine \<Rightarrow> string \<Rightarrow> situs_rule_decl option" where
  "situs_decl e i = find (\<lambda>r. sd_id r = i) (en_situs e)"

definition responsibility_of :: "engine \<Rightarrow> string \<Rightarrow> responsibility_decl option" where
  "responsibility_of e i = find (\<lambda>r. rl_id r = i) (en_responsibility e)"

datatype version_err = VeDate string | VeEndsEarly | VeNoSource | VeProportionOnQuantity | VeFiscal fiscal_err | VeRateExtras
  | VeQuantityBase | VeNoUnit | VeUnit | VeKind | VeZeroUnexplained | VeReasonOnRate | VeLegalReason

datatype levy_err = LvId sched_err | LvUnnamed | LvSlot string | LvAggregateSlot | LvNoRegime | LvNoJurisdiction | LvOtherCountry
  | LvZone string | LvRounding | LvNotCovered string | LvCertificateType | LvNoApplies | LvSupply nat | LvTreatment nat
  | LvUndeclared nat | LvRole nat | LvOverlap nat nat | LvBase | LvNoVersions | LvVersion nat version_err | LvVersionsOverlap

datatype regime_err = RgNames | RgSource | RgCountry string | RgNoServices | RgService string | RgLevel | RgExtraction
  | RgExcluded string | RgExcludedDeclared string

datatype taxation_err =
    PfVersion | PfZone jid string | PfDate jid string | PfCode jid string | PfCodeTwice string | PfGraph jur_err
  | PfService string string | PfSpatial string | PfSitus jur_err | PfResponsibility | PfParty string | PfResponsibilityTwice string
  | PfRegime string regime_err | PfCountryTwice string | PfRegimeTwice string | PfLevy comp_id levy_err | PfComponentTwice comp_id
  | PfBaseUnknown comp_id comp_id | PfBaseRegime comp_id comp_id | PfNoComponents | PfSchedule sched_err

section \<open>Dates and names\<close>

text \<open>The error is the text that is not a date.\<close>

definition civil_instant :: "location \<Rightarrow> string \<Rightarrow> (string, int) result" where
  "civil_instant loc s = (case parse_date s of None \<Rightarrow> Err s | Some d \<Rightarrow> Ok (loc d))"

definition optional_instant :: "location \<Rightarrow> string \<Rightarrow> (string, int option) result" where
  "optional_instant loc s = (if s = [] then Ok None else bindR (civil_instant loc s) (\<lambda>t. Ok (Some t)))"

definition slot_name :: "string \<Rightarrow> bool" where
  "slot_name s \<longleftrightarrow> s \<noteq> [] \<and> in_range 65 90 (hd s) \<and> list_all (\<lambda>c. in_range 65 90 c \<or> is_digit c \<or> c = CHR ''_'') (tl s)"

definition subdivision_of :: "string \<Rightarrow> string \<Rightarrow> bool" where
  "subdivision_of country code \<longleftrightarrow> cut_prefix code (country @ ''-'') \<noteq> None"

section \<open>The graph and the situs rules\<close>

definition add_jurisdiction ::
  "zone_db \<Rightarrow> geo_node list \<times> (string \<times> jid) list \<Rightarrow> jurisdiction_decl \<Rightarrow>
   (taxation_err, geo_node list \<times> (string \<times> jid) list) result" where
  "add_jurisdiction zones = (\<lambda>(nodes, by_code) j.
     (case zones (jd_timezone j) of
        None \<Rightarrow> Err (PfZone (jd_id j) (jd_timezone j))
      | Some loc \<Rightarrow>
        if jd_timezone j = [] then Err (PfZone (jd_id j) [])
        else
          bindR (map_err (PfDate (jd_id j)) (civil_instant loc (jd_from j))) (\<lambda>from.
          bindR (map_err (PfDate (jd_id j)) (optional_instant loc (jd_to j))) (\<lambda>until.
            let n = \<lparr>ju_id = jd_id j, ju_parent = jd_parent j, ju_level = jd_level j, ju_name = jd_name j,
                     ju_country = jd_country j, ju_timezone = jd_timezone j, nd_from = from, nd_to = until\<rparr> in
            if jd_code j = [] then Ok (nodes @ [n], by_code)
            else if \<not> subdivision_of (jd_country j) (jd_code j) then Err (PfCode (jd_id j) (jd_code j))
            else if jd_code j \<in> fst ` set by_code then Err (PfCodeTwice (jd_code j))
            else Ok (nodes @ [n], by_code @ [(jd_code j, jd_id j)])))))"

definition build_graph :: "zone_db \<Rightarrow> tax_profile \<Rightarrow> (taxation_err, graph \<times> (string \<times> jid) list) result" where
  "build_graph zones p =
     bindR (foldR (add_jurisdiction zones) ([], []) (tx_jurisdictions p)) (\<lambda>(nodes, by_code).
     bindR (map_err PfGraph (new_graph (tx_graph_version p) nodes (tx_memberships p))) (\<lambda>g. Ok (g, by_code)))"

definition situs_rule_of :: "situs_rule_decl \<Rightarrow> situs_rule" where
  "situs_rule_of r = \<lparr>sr_id = sd_id r, sr_mode = sd_mode r, sr_reliability = map_of (sd_reliability r), sr_order = sd_order r,
     sr_minimum = sd_minimum r, sr_required = sd_required r, sr_eligible = sd_eligible r, sr_agreement = sd_agreement r,
     sr_coordinates = [], sr_dataset = [], sr_outside = OutsideOther [], sr_parent = [], sr_roaming = sd_roaming r\<rparr>"

definition build_binding :: "situs_rule_decl \<Rightarrow> (taxation_err, situs_binding) result" where
  "build_binding r =
     (if sd_service r \<noteq> [] \<and> \<not> family_valid (sd_service r) then Err (PfService (sd_id r) (sd_service r))
      else if sd_mode r = ModeSpatial then Err (PfSpatial (sd_id r))
      else Ok \<lparr>sb_ontology = sd_service r, sb_role = sd_role r, sb_rule = situs_rule_of r\<rparr>)"

definition build_situs :: "tax_profile \<Rightarrow> (taxation_err, rule_set) result" where
  "build_situs p =
     bindR (mapR build_binding (tx_rules p)) (\<lambda>bs. map_err PfSitus (new_rule_set bs (tx_undetermined p)))"

section \<open>Responsibilities and regimes\<close>

fun responsible_valid :: "responsible \<Rightarrow> bool" where
  "responsible_valid (PartyOther s) = False"
| "responsible_valid p = True"

definition valid_responsibility :: "responsibility_decl \<Rightarrow> (taxation_err, unit) result" where
  "valid_responsibility r =
     (if rl_id r = [] then Err PfResponsibility
      else if list_all responsible_valid [rl_incidence r, rl_collection r, rl_reporting r, rl_remittance r, rl_bearer r] then Ok ()
      else Err (PfParty (rl_id r)))"

definition add_responsibility ::
  "responsibility_decl list \<Rightarrow> responsibility_decl \<Rightarrow> (taxation_err, responsibility_decl list) result" where
  "add_responsibility rs r =
     bindR (valid_responsibility r) (\<lambda>_.
       if rl_id r \<in> rl_id ` set rs then Err (PfResponsibilityTwice (rl_id r)) else Ok (rs @ [r]))"

definition check_excluded :: "(string \<times> jid) list \<Rightarrow> regime_decl \<Rightarrow> unit \<Rightarrow> string \<Rightarrow> (regime_err, unit) result" where
  "check_excluded by_code r u code =
     (if \<not> subdivision_of (gd_country r) code then Err (RgExcluded code)
      else if code \<in> fst ` set by_code then Err (RgExcludedDeclared code)
      else Ok ())"

definition build_regime :: "string list \<Rightarrow> (string \<times> jid) list \<Rightarrow> regime_decl \<Rightarrow> (regime_err, tax_regime) result" where
  "build_regime countries by_code r =
     (let named = gd_level r \<noteq> LevelOther []; l = (if named then gd_level r else Country) in
      if gd_id r = [] \<or> gd_name r = [] then Err RgNames
      else if gd_source r = [] \<or> gd_citation r = [] then Err RgSource
      else if gd_country r \<notin> set countries then Err (RgCountry (gd_country r))
      else if gd_services r = [] then Err RgNoServices
      else case find (\<lambda>s. \<not> family_valid s) (gd_services r) of
        Some s \<Rightarrow> Err (RgService s)
      | None \<Rightarrow>
        if named \<and> (\<not> level_valid l \<or> l = Special) then Err RgLevel
        else if (case gd_extraction r of None \<Rightarrow> False | Some p \<Rightarrow> rp_basis p \<noteq> LINE) then Err RgExtraction
        else bindR (foldR (check_excluded by_code r) () (gd_excluded r)) (\<lambda>_. Ok \<lparr>rg_decl = r, rg_level = l\<rparr>))"

definition add_regime ::
  "string list \<Rightarrow> (string \<times> jid) list \<Rightarrow> tax_regime list \<Rightarrow> regime_decl \<Rightarrow> (taxation_err, tax_regime list) result" where
  "add_regime countries by_code rgs r =
     bindR (map_err (PfRegime (gd_id r)) (build_regime countries by_code r)) (\<lambda>rg.
       if gd_country r \<in> set (map (gd_country \<circ> rg_decl) rgs) then Err (PfCountryTwice (gd_country r))
       else if gd_id r \<in> set (map (gd_id \<circ> rg_decl) rgs) then Err (PfRegimeTwice (gd_id r))
       else Ok (rgs @ [rg]))"

section \<open>Rate versions\<close>

definition plain_rate :: "rate_kind \<Rightarrow> rate_decl" where
  "plain_rate k = \<lparr>rd_kind = k, rd_proportion = None, rd_per_unit = None, rd_flat = None, rd_bracket = None\<rparr>"

text \<open>The rate of a version, whether it is zero and the unit it is per.\<close>

definition proportion_rate :: "base_kind \<Rightarrow> version_decl \<Rightarrow> (version_err, rate_decl \<times> bool \<times> string) result" where
  "proportion_rate bk v =
     (if bk = BaseQuantity then Err VeProportionOnQuantity
      else bindR (map_err VeFiscal (parse_rate (vd_rate v) NET)) (\<lambda>r.
        if vd_amount v \<noteq> [] \<or> vd_currency v \<noteq> [] \<or> vd_unit v \<noteq> [] then Err VeRateExtras
        else Ok ((plain_rate AdValorem)\<lparr>rd_proportion := Some r\<rparr>, dec_is_zero (r_value r), [])))"

definition amount_rate :: "base_kind \<Rightarrow> version_decl \<Rightarrow> (version_err, rate_decl \<times> bool \<times> string) result" where
  "amount_rate bk v =
     bindR (map_err VeFiscal (parse_money (vd_amount v) (vd_currency v))) (\<lambda>m.
       if vd_rate v \<noteq> [] then Err VeRateExtras
       else if vd_kind v = Specific then
         (if bk \<noteq> BaseQuantity then Err VeQuantityBase
          else if vd_unit v = [] then Err VeNoUnit
          else Ok ((plain_rate Specific)\<lparr>rd_per_unit := Some m\<rparr>, money_is_zero m, vd_unit v))
       else if vd_unit v \<noteq> [] then Err VeUnit
       else Ok ((plain_rate Flat)\<lparr>rd_flat := Some m\<rparr>, money_is_zero m, []))"

definition version_rate :: "base_kind \<Rightarrow> version_decl \<Rightarrow> (version_err, rate_decl \<times> bool \<times> string) result" where
  "version_rate bk v =
     (if vd_kind v = AdValorem then proportion_rate bk v
      else if vd_kind v = Specific \<or> vd_kind v = Flat then amount_rate bk v
      else Err VeKind)"

definition check_reason :: "legal_reason \<Rightarrow> bool \<Rightarrow> (version_err, unit) result" where
  "check_reason reason zero =
     (case reason of
        LegalOther s \<Rightarrow> if s \<noteq> [] then Err VeLegalReason else if zero then Err VeZeroUnexplained else Ok ()
      | _ \<Rightarrow> if zero then Ok () else Err VeReasonOnRate)"

definition build_version :: "base_kind \<Rightarrow> location \<Rightarrow> version_decl \<Rightarrow> (version_err, tax_version) result" where
  "build_version bk loc v =
     bindR (map_err VeDate (civil_instant loc (vd_from v))) (\<lambda>from.
     bindR (map_err VeDate (optional_instant loc (vd_to v))) (\<lambda>until.
       if (case until of None \<Rightarrow> False | Some t \<Rightarrow> \<not> from < t) then Err VeEndsEarly
       else if vd_source v = [] \<or> vd_citation v = [] then Err VeNoSource
       else
         bindR (version_rate bk v) (\<lambda>(r, zero, unit).
         bindR (check_reason (vd_reason v) zero) (\<lambda>_.
           Ok \<lparr>vr_decl = v, vr_from = from, vr_to = until, vr_rate = r, vr_zero = zero, vr_per_units = unit\<rparr>))))"

section \<open>Components\<close>

definition applies_overlap :: "apply_decl \<Rightarrow> apply_decl \<Rightarrow> bool" where
  "applies_overlap a b \<longleftrightarrow>
     (ay_supply a = SupplyAny \<or> ay_supply b = SupplyAny \<or> ay_supply a = ay_supply b)
     \<and> (ay_roles a = [] \<or> ay_roles b = [] \<or> list_ex (\<lambda>x. x \<in> set (ay_roles b)) (ay_roles a))"

definition check_apply ::
  "responsibility_decl list \<Rightarrow> apply_decl list \<Rightarrow> nat \<times> apply_decl \<Rightarrow> (levy_err, apply_decl list) result" where
  "check_apply resp earlier = (\<lambda>(i, a).
     if ay_supply a \<notin> {SupplyAny, SupplyDomestic, SupplyCrossBorder} then Err (LvSupply i)
     else if ay_treatment a \<notin> {CustomerCharge, ProviderCost, ReverseCharge} then Err (LvTreatment i)
     else if ay_responsibility a \<notin> rl_id ` set resp then Err (LvUndeclared i)
     else if \<not> list_all customer_role_valid (ay_roles a) then Err (LvRole i)
     else (case find (\<lambda>(j, b). applies_overlap b a) (List.enumerate 0 earlier) of
             Some (j, b) \<Rightarrow> Err (LvOverlap j i)
           | None \<Rightarrow> Ok (earlier @ [a])))"

definition check_applies :: "responsibility_decl list \<Rightarrow> component_decl \<Rightarrow> (levy_err, unit) result" where
  "check_applies resp c =
     (if cd_applies c = [] then Err LvNoApplies
      else bindR (foldR (check_apply resp) [] (List.enumerate 0 (cd_applies c))) (\<lambda>_. Ok ()))"

definition check_base_decl :: "component_decl \<Rightarrow> (levy_err, unit) result" where
  "check_base_decl c =
     (let k = tb_kind (cd_base c); refs = tb_components (cd_base c) in
      if k = LineNet \<or> k = LineGross \<or> k = BaseQuantity then (if refs \<noteq> [] then Err LvBase else Ok ())
      else if k = NetPlusComponents \<or> k = ComponentSum then (if refs = [] then Err LvBase else Ok ())
      else Err LvBase)"

fun versions_disjoint :: "tax_version list \<Rightarrow> bool" where
  "versions_disjoint (v # w # vs) =
     ((case vr_to v of None \<Rightarrow> False | Some t \<Rightarrow> \<not> vr_from w < t) \<and> versions_disjoint (w # vs))"
| "versions_disjoint vs = True"

definition build_versions :: "component_decl \<Rightarrow> location \<Rightarrow> (levy_err, tax_version list) result" where
  "build_versions c loc =
     (if cd_versions c = [] then Err LvNoVersions
      else
        bindR (mapR (\<lambda>(i, v). map_err (LvVersion i) (build_version (tb_kind (cd_base c)) loc v))
                 (List.enumerate 0 (cd_versions c))) (\<lambda>vs.
          let sorted = sort_by (\<lambda>a b. vr_from a < vr_from b) vs in
          if versions_disjoint sorted then Ok sorted else Err LvVersionsOverlap))"

definition SlotCustomerTax :: string where "SlotCustomerTax = ''CUSTOMER_TAX''"
definition SlotProviderAccrual :: string where "SlotProviderAccrual = ''PROVIDER_ACCRUAL''"
definition SlotReverseCharge :: string where "SlotReverseCharge = ''REVERSE_CHARGE_SELF_ASSESSED''"

definition aggregate_slots :: "string list" where
  "aggregate_slots = [SlotCustomerTax, SlotProviderAccrual, SlotReverseCharge]"

definition check_names :: "component_decl \<Rightarrow> (levy_err, unit) result" where
  "check_names c =
     bindR (map_err LvId (validate_id (cd_id c))) (\<lambda>_.
       if cd_authority c = [] \<or> cd_tax_type c = [] \<or> cd_name c = [] then Err LvUnnamed
       else if cd_emit c = [] \<or> \<not> slot_name (cd_emit c) then Err (LvSlot (cd_emit c))
       else if cd_emit c \<in> set aggregate_slots then Err LvAggregateSlot
       else Ok ())"

text \<open>Where the component is levied: its regime, which is in the country of its jurisdiction, and its clock.\<close>

definition levied_in ::
  "zone_db \<Rightarrow> graph \<Rightarrow> tax_regime list \<Rightarrow> component_decl \<Rightarrow> (levy_err, tax_regime \<times> location) result" where
  "levied_in zones g rgs c =
     (case find (\<lambda>r. gd_id (rg_decl r) = cd_regime c) rgs of
        None \<Rightarrow> Err LvNoRegime
      | Some rg \<Rightarrow>
        (case lookup_node (gr_nodes g) (cd_jurisdiction c) of
           None \<Rightarrow> Err LvNoJurisdiction
         | Some n \<Rightarrow>
           if ju_country n \<noteq> gd_country (rg_decl rg) then Err LvOtherCountry
           else (case zones (ju_timezone n) of
                   None \<Rightarrow> Err (LvZone (ju_timezone n))
                 | Some loc \<Rightarrow> Ok (rg, loc))))"

definition build_levy ::
  "zone_db \<Rightarrow> graph \<Rightarrow> responsibility_decl list \<Rightarrow> tax_regime list \<Rightarrow> component_decl \<Rightarrow> (levy_err, levy) result" where
  "build_levy zones g resp rgs c =
     bindR (check_names c) (\<lambda>_.
     bindR (levied_in zones g rgs c) (\<lambda>(rg, loc).
       if mode_name (rp_mode (cd_rounding c)) = [] then Err LvRounding
       else case find (\<lambda>s. s \<notin> set (gd_services (rg_decl rg))) (cd_services c) of
         Some s \<Rightarrow> Err (LvNotCovered s)
       | None \<Rightarrow>
         if [] \<in> set (cd_exempt_by c) then Err LvCertificateType
         else
           bindR (check_applies resp c) (\<lambda>_.
           bindR (check_base_decl c) (\<lambda>_.
           bindR (build_versions c loc) (\<lambda>vs.
             Ok \<lparr>lv_decl = c, lv_regime = rg, lv_versions = vs, lv_location = loc\<rparr>)))))"

definition add_levy ::
  "zone_db \<Rightarrow> graph \<Rightarrow> responsibility_decl list \<Rightarrow> tax_regime list \<Rightarrow> levy list \<Rightarrow> component_decl \<Rightarrow> (taxation_err, levy list) result" where
  "add_levy zones g resp rgs ls c =
     bindR (map_err (PfLevy (cd_id c)) (build_levy zones g resp rgs c)) (\<lambda>l.
       if cd_id c \<in> set (map (cd_id \<circ> lv_decl) ls) then Err (PfComponentTwice (cd_id c)) else Ok (ls @ [l]))"

section \<open>The component graph\<close>

definition plan_component :: "levy \<Rightarrow> tax_version \<Rightarrow> comp_id \<Rightarrow> bool \<Rightarrow> tax_component" where
  "plan_component l v i incl = \<lparr>c_id = i, c_jurisdiction = cd_jurisdiction (lv_decl l), c_tax_type = cd_tax_type (lv_decl l),
     c_base = \<lparr>b_kind = tb_kind (cd_base (lv_decl l)), b_components = tb_components (cd_base (lv_decl l)),
       b_adjustments = [], b_allow_negative = False\<rparr>,
     c_rate = vr_rate v, c_policy = cd_rounding (lv_decl l), c_inclusive = incl\<rparr>"

definition version_at :: "levy \<Rightarrow> int \<Rightarrow> tax_version option" where
  "version_at l t = find (\<lambda>v. \<not> t < vr_from v \<and> (case vr_to v of None \<Rightarrow> True | Some e \<Rightarrow> t < e)) (lv_versions l)"

text \<open>Two pointers to regimes differ when the regimes' identifiers do: the identifiers of an engine are distinct.\<close>

definition check_base_ref :: "levy list \<Rightarrow> levy \<Rightarrow> unit \<Rightarrow> comp_id \<Rightarrow> (taxation_err, unit) result" where
  "check_base_ref ls l u ref =
     (case find (\<lambda>d. cd_id (lv_decl d) = ref) ls of
        None \<Rightarrow> Err (PfBaseUnknown (cd_id (lv_decl l)) ref)
      | Some d \<Rightarrow> if gd_id (rg_decl (lv_regime d)) \<noteq> gd_id (rg_decl (lv_regime l)) then Err (PfBaseRegime (cd_id (lv_decl l)) ref) else Ok ())"

definition check_bases :: "levy list \<Rightarrow> (taxation_err, unit) result" where
  "check_bases ls =
     bindR (foldR (\<lambda>u l. foldR (check_base_ref ls l) () (tb_components (cd_base (lv_decl l)))) () ls) (\<lambda>_.
       if ls = [] then Err PfNoComponents
       else
         let all = map (\<lambda>l. plan_component l (last (lv_versions l)) (cd_id (lv_decl l)) False) ls in
         bindR (map_err PfSchedule (compile \<lparr>s_components = all, s_extraction = None, s_subtraction = []\<rparr>)) (\<lambda>_. Ok ()))"

section \<open>Compile\<close>

definition compile_profile :: "zone_db \<Rightarrow> tax_profile \<Rightarrow> (taxation_err, engine) result" where
  "compile_profile zones p =
     (if tx_version p = [] \<or> tx_graph_version p = [] then Err PfVersion
      else
        bindR (build_graph zones p) (\<lambda>(g, by_code).
        bindR (build_situs p) (\<lambda>rules.
        bindR (foldR add_responsibility [] (tx_responsibility p)) (\<lambda>resp.
        let countries = map jd_country (filter (\<lambda>j. jd_level j = Country) (tx_jurisdictions p)) in
        bindR (foldR (add_regime countries by_code) [] (tx_regimes p)) (\<lambda>rgs.
        bindR (foldR (add_levy zones g resp rgs) [] (tx_components p)) (\<lambda>ls.
        let levies = sort_by (\<lambda>a b. cd_id (lv_decl a) < cd_id (lv_decl b)) ls in
        bindR (check_bases levies) (\<lambda>_.
          Ok \<lparr>en_version = tx_version p, en_graph = g, en_rule_set = rules, en_countries = countries, en_by_code = by_code,
              en_situs = tx_rules p, en_regimes = rgs, en_covered = sort (map (gd_country \<circ> rg_decl) rgs),
              en_responsibility = resp, en_levies = levies,
              en_slots = sort (remdups (aggregate_slots @ map (cd_emit \<circ> lv_decl) ls))\<rparr>)))))))"

end
