(* ===== verification/Rendering.thy ===== *)
theory Rendering
  imports Resolve
begin

text \<open>
  The record of a resolution as it is kept: the text of each step of the trace and the canonical form
  (\<open>resolve.go\<close>, \<open>SitusResolution.Canonical\<close>, with the texts \<open>step\<close> formats). A quoted text (\<open>%q\<close>) is rendered
  for ASCII; a printable rune beyond it stands for itself, and one that is not printable is not modelled.
\<close>

definition quote_char :: "char \<Rightarrow> string" where
  "quote_char c =
     (let n = of_char c :: nat; bs = CHR 0x5C in
      if n = 34 \<or> n = 92 then [bs, c]
      else if n = 7 then [bs, CHR ''a''] else if n = 8 then [bs, CHR ''b''] else if n = 9 then [bs, CHR ''t'']
      else if n = 10 then [bs, CHR ''n''] else if n = 11 then [bs, CHR ''v''] else if n = 12 then [bs, CHR ''f'']
      else if n = 13 then [bs, CHR ''r'']
      else if n < 32 \<or> n = 127 then [bs, CHR ''x''] @ hex_encode [c]
      else [c])"

definition go_quote :: "string \<Rightarrow> string" where
  "go_quote s = [CHR 0x22] @ concat (map quote_char s) @ [CHR 0x22]"

fun join_with :: "string \<Rightarrow> string list \<Rightarrow> string" where
  "join_with sep [] = []"
| "join_with sep [s] = s"
| "join_with sep (s # ss) = s @ sep @ join_with sep ss"

definition or_none :: "string \<Rightarrow> string" where
  "or_none s = (if s = [] then ''none'' else s)"

definition show_bool :: "bool \<Rightarrow> string" where
  "show_bool b = (if b then ''true'' else ''false'')"

text \<open>\<open>time.RFC3339\<close> of an instant in UTC.\<close>

definition rfc3339 :: "int \<Rightarrow> string" where
  "rfc3339 t =
     (let secs = t div 1000000000; (y, m, d) = civil (secs div 86400); s = nat (secs mod 86400) in
      show_year y @ ''-'' @ pad 2 m @ ''-'' @ pad 2 d @ ''T''
        @ pad 2 (s div 3600) @ '':'' @ pad 2 (s div 60 mod 60) @ '':'' @ pad 2 (s mod 60) @ ''Z'')"

fun mode_text :: "situs_mode \<Rightarrow> string" where
  "mode_text ModePrecedence = ''PRECEDENCE''"
| "mode_text ModeQuorum = ''QUORUM''"
| "mode_text ModeSpatial = ''SPATIAL''"
| "mode_text (ModeOther s) = s"

fun roaming_text :: "roaming_sourcing \<Rightarrow> string" where
  "roaming_text RoamingHome = ''HOME''"
| "roaming_text RoamingVisited = ''VISITED''"
| "roaming_text RoamingBoth = ''BOTH''"
| "roaming_text (RoamingOther s) = s"

fun role_text :: "customer_role \<Rightarrow> string" where
  "role_text RoleB2B = ''B2B''"
| "role_text RoleB2C = ''B2C''"
| "role_text RoleUndetermined = ''UNDETERMINED''"
| "role_text (RoleOther s) = s"

fun outcome_text :: "outcome \<Rightarrow> string" where
  "outcome_text OutcomeUnset = []"
| "outcome_text Resolved = ''RESOLVED''"
| "outcome_text InsufficientEvidence = ''INSUFFICIENT_EVIDENCE''"
| "outcome_text Ambiguous = ''AMBIGUOUS''"
| "outcome_text Unsupported = ''UNSUPPORTED''"
| "outcome_text DatasetDefect = ''DATASET_DEFECT''"

definition join_types :: "evidence_type list \<Rightarrow> string" where
  "join_types ts = join_with '', '' (map evidence_name ts)"

definition join_ids :: "jid list \<Rightarrow> string" where
  "join_ids is = join_with '', '' is"

definition point_string :: "point \<Rightarrow> string" where
  "point_string p = ''('' @ pt_latitude p @ '', '' @ pt_longitude p @ '')''"

definition ref_string :: "dataset_ref \<Rightarrow> string" where
  "ref_string r = dr_id r @ ''@'' @ dr_version r"

definition reliability_text :: "reliability option \<Rightarrow> string" where
  "reliability_text c = (case c of None \<Rightarrow> [] | Some x \<Rightarrow> reliability_name x)"

fun step_kind :: "situs_step \<Rightarrow> string" where
  "step_kind (StRole a b c) = ''CUSTOMER_ROLE''"
| "step_kind (StNoRule a b) = ''SELECT_RULE''"
| "step_kind (StSelected a b c d) = ''SELECT_RULE''"
| "step_kind (StBelow a b c) = ''CONSIDER''"
| "step_kind (StUnmapped a) = ''CONSIDER''"
| "step_kind (StDisagree a b c) = ''CONSIDER''"
| "step_kind (StWin a b) = ''WIN''"
| "step_kind (StNoUsable a b) = ''OUTCOME''"
| "step_kind (StNotAtLevel a b c) = ''CONSIDER''"
| "step_kind (StSupports a b c) = ''AGREE''"
| "step_kind (StNoQuorum a b) = ''OUTCOME''"
| "step_kind (StAgreed a b) = ''WIN''"
| "step_kind (StEachReach a b) = ''OUTCOME''"
| "step_kind (StNoCoordinates a) = ''OUTCOME''"
| "step_kind (StOverlap a b c d e) = ''SPATIAL''"
| "step_kind (StFallBack a b c) = ''SPATIAL''"
| "step_kind (StOutside a b) = ''SPATIAL''"
| "step_kind (StLies a b c d) = ''SPATIAL''"
| "step_kind (StHierarchy a b c) = ''HIERARCHY''"
| "step_kind (StNotRoaming a b) = ''ROAMING''"
| "step_kind (StRoamingUndeclared a b c) = ''ROAMING''"
| "step_kind (StRoaming a b c) = ''ROAMING''"
| "step_kind (StSpecial a) = ''SPECIAL''"
| "step_kind (StPlaceOfSupply a b c d) = ''PLACE_OF_SUPPLY''"
| "step_kind (StNotCovered a) = ''COVERAGE''"
| "step_kind (StUnused a b) = ''UNUSED''"
| "step_kind (StOutcome a) = ''OUTCOME''"

fun step_text :: "situs_step \<Rightarrow> string" where
  "step_text (StRole role status effective) =
     ''evidence establishes '' @ role_text role @ '' (VAT '' @ or_none (vat_name status) @ ''); treated as '' @ role_text effective"
| "step_text (StNoRule ontology role) =
     ''no situs rule selects ontology '' @ go_quote ontology @ '' for role '' @ role_text role"
| "step_text (StSelected i m ontology role) =
     ''rule '' @ i @ '' ('' @ mode_text m @ '') for ontology '' @ go_quote ontology @ '', role '' @ role_text role"
| "step_text (StBelow t c m) =
     evidence_name t @ '' is '' @ reliability_text c @ '', below the rule'' @ [CHR 0x27] @ ''s '' @ reliability_name m @ ''; not usable''"
| "step_text (StUnmapped t) = evidence_name t @ '' item does not map to a jurisdiction valid at event time''"
| "step_text (StDisagree t i j) = evidence_name t @ '' items resolve to '' @ i @ '' and '' @ j"
| "step_text (StWin t i) = evidence_name t @ '' -> '' @ i @ ''; evaluation stops at the first usable item''"
| "step_text (StNoUsable ts m) = ''no usable item of '' @ join_types ts @ '' at or above '' @ reliability_name m"
| "step_text (StNotAtLevel t i l) =
     evidence_name t @ '' item resolves to '' @ i @ '', which says nothing at '' @ level_name l @ '' level''"
| "step_text (StSupports t i l) = evidence_name t @ '' supports '' @ i @ '' at '' @ level_name l @ '' level''"
| "step_text (StNoQuorum n ts) = ''no jurisdiction has '' @ show_int n @ '' agreeing items of '' @ join_types ts"
| "step_text (StAgreed n i) = show_nat n @ '' items agree on '' @ i"
| "step_text (StEachReach is n) = join_ids is @ '' each reach the quorum of '' @ show_int n"
| "step_text (StNoCoordinates ts) = ''no coordinates among '' @ join_types ts"
| "step_text (StOverlap p n l r is) =
     point_string p @ '' lies in '' @ show_nat n @ '' '' @ level_name l @ '' boundaries in '' @ ref_string r @ '': '' @ join_ids is"
| "step_text (StFallBack p r i) =
     point_string p @ '' is outside every boundary in '' @ ref_string r @ ''; falling back to '' @ i"
| "step_text (StOutside p r) = point_string p @ '' is outside every boundary in '' @ ref_string r"
| "step_text (StLies p i l r) = point_string p @ '' lies in '' @ i @ '' ('' @ level_name l @ '') in '' @ ref_string r"
| "step_text (StHierarchy i n t) = i @ '' and '' @ show_nat n @ '' ancestor(s) valid at '' @ rfc3339 t"
| "step_text (StNotRoaming h v) = ''home '' @ h @ '', visited '' @ v @ '': not roaming''"
| "step_text (StRoamingUndeclared h v i) =
     ''home '' @ h @ '', visited '' @ v @ '': roaming, and rule '' @ i @ '' declares no roaming sourcing''"
| "step_text (StRoaming h v s) = ''home '' @ h @ '', visited '' @ v @ '': roaming, sourced '' @ roaming_text s"
| "step_text (StSpecial i) = i @ '' applies''"
| "step_text (StPlaceOfSupply s c p x) =
     ''supplier '' @ or_none s @ '', customer '' @ or_none c @ '', place of supply '' @ p @ '', cross-border '' @ show_bool x"
| "step_text (StNotCovered c) = ''no active pack covers '' @ c"
| "step_text (StUnused t s) = evidence_name t @ '' ('' @ source_name s @ '') recorded, not used''"
| "step_text (StOutcome o1) = outcome_text o1"

definition applicable_value :: "jurisdiction \<Rightarrow> cvalue" where
  "applicable_value j = c_object
     [(''id'', VString (ju_id j)), (''level'', VString (level_name (ju_level j))), (''country'', VString (ju_country j))]"

definition supply_value :: "supply_record \<Rightarrow> cvalue" where
  "supply_value s = c_object
     [(''supplier'', opt_string (sp_supplier s)), (''customer'', opt_string (sp_customer s)),
      (''placeOfSupply'', opt_string (sp_place s)), (''customerRole'', VString (role_text (sp_role s))),
      (''effectiveRole'', VString (role_text (sp_effective s))), (''vatValidation'', opt_string (vat_name (sp_vat s))),
      (''crossBorder'', VBool (sp_cross_border s))]"

definition situs_value :: "situs_resolution \<Rightarrow> cvalue" where
  "situs_value s = c_object
     [(''outcome'', VString (outcome_text (so_outcome s))), (''graphVersion'', VString (so_graph_version s)),
      (''rule'', opt_string (so_rule s)),
      (''mode'', opt_string (case so_mode s of None \<Rightarrow> [] | Some m \<Rightarrow> mode_text m)),
      (''applicable'', VArray (map applicable_value (so_applicable s))),
      (''winning'', VArray (map evidence_value (so_winning s))), (''unused'', VArray (map evidence_value (so_unused s))),
      (''dataset'', case so_dataset s of None \<Rightarrow> VAbsent | Some d \<Rightarrow> c_object
         [(''id'', VString (dr_id d)), (''version'', VString (dr_version d)), (''digest'', VString (dr_digest d))]),
      (''neededEvidence'', VArray (map (\<lambda>t. VString (evidence_name t)) (so_needed s))),
      (''roaming'', case so_roaming s of None \<Rightarrow> VAbsent | Some r \<Rightarrow> c_object
         [(''home'', VString (ro_home r)), (''visited'', VString (ro_visited r)), (''roaming'', VBool (ro_roaming r)),
          (''sourcing'', opt_string (roaming_text (ro_sourcing r)))]),
      (''supply'', supply_value (so_supply s)), (''incident'', VBool (so_incident s)),
      (''trace'', VArray (map (\<lambda>t. c_object [(''step'', VString (step_kind t)), (''detail'', VString (step_text t))]) (so_trace s)))]"

end
