(* ===== verification/TaxEngine.thy ===== *)
theory TaxEngine
  imports TaxProfile Rendering Evaluate
begin

text \<open>
  \<open>backend/internal/domain/taxation/engine.go\<close> with the result types of \<open>result.go\<close>: the determination of a
  document at a tax point. The trace is threaded through every step. A run that does not return is None,
  a nil dereference or an index out of range is \<open>TxPanic\<close>; the code's items are pointers, each held once,
  so they are updated as values.
\<close>

section \<open>Results (result.go)\<close>

datatype tax_state = StateResolved | StateUnsupported | StateReview | StateAmbiguous | StateConflicted

fun state_name :: "tax_state \<Rightarrow> string" where
  "state_name StateResolved = ''RESOLVED''"
| "state_name StateUnsupported = ''UNSUPPORTED''"
| "state_name StateReview = ''REVIEW_REQUIRED''"
| "state_name StateAmbiguous = ''AMBIGUOUS''"
| "state_name StateConflicted = ''CONFLICTED''"

fun severity :: "tax_state \<Rightarrow> nat" where
  "severity StateResolved = 0"
| "severity StateUnsupported = 1"
| "severity StateReview = 2"
| "severity StateAmbiguous = 3"
| "severity StateConflicted = 4"

text \<open>The text of a step, except where the code prints an error of the resolver or of the encoder.\<close>

datatype step_detail = Text string | SitusFailed jur_err | SitusUnrecorded canon_err

record tax_step =
  tt_item :: string
  tt_component :: string
  tt_step :: string
  tt_detail :: step_detail

type_synonym tax_trace = "tax_step list"

record exemption_record =
  ex_certificate :: string
  ex_type :: string
  ex_assessed :: "money option"

record charge =
  ch_id :: comp_id
  ch_version :: string
  ch_regime :: string
  ch_jurisdiction :: jid
  ch_authority :: string
  ch_tax_type :: string
  ch_name :: string
  ch_emit :: string
  ch_treatment :: treatment
  ch_inclusive :: bool
  ch_rate_kind :: rate_kind
  ch_rate :: string
  ch_unit :: string
  ch_base :: "money option"
  ch_raw :: money
  ch_amount :: money
  ch_charged :: money
  ch_reason :: legal_reason
  ch_responsibility :: responsibility_decl
  ch_exemption :: "exemption_record option"
  ch_source :: string
  ch_citation :: string

record item_result =
  ir_key :: string
  ir_line :: string
  ir_part :: string
  ir_sku :: string
  ir_service :: string
  ir_amount :: money
  ir_state :: tax_state
  ir_reason :: string
  ir_outcome :: outcome
  ir_rule :: string
  ir_applicable :: "jid list"
  ir_place :: jid
  ir_role :: customer_role
  ir_supply :: supply_kind
  ir_regime :: string
  ir_needed :: "evidence_type list"
  ir_situs :: string
  ir_net :: "money option"
  ir_charges :: "charge list"

record tax_totals =
  to_net :: money
  to_customer_tax :: money
  to_customer_total :: money
  to_accrual :: money
  to_reverse :: money

record tax_result =
  xr_state :: tax_state
  xr_reason :: string
  xr_currency :: string
  xr_price_mode :: price_mode
  xr_profile_version :: string
  xr_graph_version :: string
  xr_totals :: "tax_totals option"
  xr_items :: "item_result list"
  xr_emitted :: "(string \<times> money) list"
  xr_trace :: tax_trace

section \<open>The run (engine.go)\<close>

record selection =
  sl_levy :: levy
  sl_version :: tax_version
  sl_apply :: apply_decl
  sl_treatment :: treatment
  sl_exemption :: "exemption_record option"

record tax_item =
  ti_evidence :: "situs_evidence list"
  ti_quantity :: "quantity option"
  ti_result :: item_result
  ti_selected :: "selection list"

record tax_run =
  rn_engine :: engine
  rn_document :: tx_document
  rn_at :: int
  rn_seller :: string

datatype tax_err =
    TxTaxPoint | TxDocument field_error | TxSeller jid | TxEvidence jur_err | TxLineEvidence jur_err
  | TxInclusive sched_err | TxEvaluate eval_err | TxFiscal fiscal_err | TxNoResult comp_id string | TxPanic

definition tax_note :: "string \<Rightarrow> string \<Rightarrow> step_detail \<Rightarrow> tax_trace \<Rightarrow> tax_trace" where
  "tax_note item kind detail tr = tr @ [\<lparr>tt_item = item, tt_component = [], tt_step = kind, tt_detail = detail\<rparr>]"

section \<open>Evidence\<close>

definition excluded_subdivision :: "engine \<Rightarrow> string \<Rightarrow> tax_regime option" where
  "excluded_subdivision e code =
     (case regime_in e (take 2 code) of
        None \<Rightarrow> None
      | Some rg \<Rightarrow> if code \<in> set (gd_excluded (rg_decl rg)) then Some rg else None)"

definition seller_country :: "engine \<Rightarrow> tx_place \<Rightarrow> (tax_err, string) result" where
  "seller_country e p =
     (if tp_country p \<noteq> [] then Ok (tp_country p)
      else if tp_subdivision p \<noteq> [] then Ok (take 2 (tp_subdivision p))
      else case lookup_node (gr_nodes (en_graph e)) (tp_jurisdiction p) of
        None \<Rightarrow> Err (TxSeller (tp_jurisdiction p))
      | Some n \<Rightarrow> Ok (ju_country n))"

definition place_evidence ::
  "tax_run \<Rightarrow> string \<Rightarrow> evidence_type \<Rightarrow> evidence_source \<Rightarrow> int \<Rightarrow> tx_place \<Rightarrow> tax_trace \<Rightarrow> situs_evidence \<times> tax_trace" where
  "place_evidence r item t src collected p tr =
     (let e = rn_engine r; when = (if collected = 0 then rn_at r else collected); sub = tp_subdivision p;
          blank = \<lparr>sv_type = t, sv_source = src, sv_collected_at = when div 1000 * 1000, sv_jurisdiction = [], sv_point = None,
                   sv_country = [], sv_vat = VatOther []\<rparr> in
      if tp_jurisdiction p \<noteq> [] then (blank\<lparr>sv_jurisdiction := tp_jurisdiction p\<rparr>, tr)
      else if sub \<noteq> [] then
        (case map_of (en_by_code e) sub of
           Some i \<Rightarrow> (blank\<lparr>sv_jurisdiction := i\<rparr>, tr)
         | None \<Rightarrow>
           (case excluded_subdivision e sub of
              Some rg \<Rightarrow> (blank\<lparr>sv_jurisdiction := ''jurisdiction:'' @ map ascii_lower sub\<rparr>,
                tax_note item ''SITUS'' (Text (evidence_name t @ '' subdivision '' @ sub @ '' is outside regime ''
                  @ gd_id (rg_decl rg) @ [CHR 0x27] @ ''s territory'')) tr)
            | None \<Rightarrow> (blank\<lparr>sv_country := take 2 sub\<rparr>,
                tax_note item ''SITUS'' (Text (evidence_name t @ '' subdivision '' @ sub @ '' is not in graph ''
                  @ gr_version (en_graph e) @ ''; recorded as country '' @ take 2 sub @ '' evidence'')) tr)))
      else (blank\<lparr>sv_country := tp_country p\<rparr>, tr))"

definition place_all :: "tax_run \<Rightarrow> string \<Rightarrow> tx_evidence list \<Rightarrow> situs_evidence list \<times> tax_trace \<Rightarrow> situs_evidence list \<times> tax_trace" where
  "place_all r item xs st =
     foldl (\<lambda>(out, tr) x. let (e, tr) = place_evidence r item (xe_type x) (xe_source x) (xe_collected_at x) (xe_place x) tr in
       (out @ [e], tr)) st xs"

text \<open>A validated document names where its seller is established.\<close>

definition gather_evidence :: "tax_run \<Rightarrow> tx_place \<Rightarrow> situs_evidence list \<times> tax_trace" where
  "gather_evidence r est =
     (let d = rn_document r;
          (s, tr) = place_evidence r [] SellerEstablishment SellerRecorded 0 est [];
          (out, tr) = (case ty_establishment (td_customer d) of
             None \<Rightarrow> ([s], tr)
           | Some p \<Rightarrow> (let (c, tr) = place_evidence r [] CustomerEstablishment SellerRecorded 0 p tr in ([s, c], tr)));
          out = (case ty_vat (td_customer d) of
             None \<Rightarrow> out
           | Some v \<Rightarrow> out @ [\<lparr>sv_type = VATIdentification, sv_source = CustomerAsserted, sv_collected_at = rn_at r div 1000 * 1000,
               sv_jurisdiction = [], sv_point = None, sv_country = vi_country v, sv_vat = vi_validation v\<rparr>]) in
      place_all r [] (td_evidence d) (out, tr))"

definition document_evidence ::
  "rat_reader \<Rightarrow> tax_run \<Rightarrow> tx_place \<Rightarrow> (tax_err, situs_evidence list \<times> tax_trace) result" where
  "document_evidence rat_of r est =
     (let (out, tr) = gather_evidence r est in
      bindR (map_err TxEvidence (foldR (\<lambda>u e. validate_evidence rat_of e) () out)) (\<lambda>_. Ok (out, tr)))"

section \<open>Items\<close>

definition new_item ::
  "string \<Rightarrow> string \<Rightarrow> string \<Rightarrow> string \<Rightarrow> string \<Rightarrow> money \<Rightarrow> quantity option \<Rightarrow> situs_evidence list \<Rightarrow> tax_item" where
  "new_item key line part sku service amount q ev =
     \<lparr>ti_evidence = ev, ti_quantity = q,
      ti_result = \<lparr>ir_key = key, ir_line = line, ir_part = part, ir_sku = sku, ir_service = service, ir_amount = amount,
        ir_state = StateResolved, ir_reason = [], ir_outcome = OutcomeUnset, ir_rule = [], ir_applicable = [], ir_place = [],
        ir_role = RoleOther [], ir_supply = SupplyOther [], ir_regime = [], ir_needed = [], ir_situs = [], ir_net = None,
        ir_charges = []\<rparr>, ti_selected = []\<rparr>"

definition line_evidence_step ::
  "rat_reader \<Rightarrow> tax_run \<Rightarrow> string \<Rightarrow> situs_evidence list \<times> tax_trace \<Rightarrow> tx_evidence \<Rightarrow>
   (tax_err, situs_evidence list \<times> tax_trace) result" where
  "line_evidence_step rat_of r key = (\<lambda>(ev, tr) x.
     (let (e, tr) = place_evidence r key (xe_type x) (xe_source x) (xe_collected_at x) (xe_place x) tr in
      bindR (map_err TxLineEvidence (validate_evidence rat_of e)) (\<lambda>_. Ok (ev @ [e], tr))))"

definition line_items :: "tx_line \<Rightarrow> situs_evidence list \<Rightarrow> tax_item list" where
  "line_items l ev =
     (if xl_parts l = [] then [new_item (xl_key l) (xl_key l) [] (xl_sku l) (xl_service l) (xl_amount l) (xl_quantity l) ev]
      else map (\<lambda>p. new_item (xl_key l @ ''/'' @ xp_key p) (xl_key l) (xp_key p) (xl_sku l) (xp_service p) (xp_amount p)
             (xp_quantity p) ev) (xl_parts l))"

definition items_step ::
  "rat_reader \<Rightarrow> tax_run \<Rightarrow> situs_evidence list \<Rightarrow> tax_item list \<times> tax_trace \<Rightarrow> tx_line \<Rightarrow>
   (tax_err, tax_item list \<times> tax_trace) result" where
  "items_step rat_of r base = (\<lambda>(out, tr) l.
     bindR (foldR (line_evidence_step rat_of r (xl_key l)) (base, tr) (xl_evidence l)) (\<lambda>(ev, tr).
       Ok (out @ line_items l ev, tr)))"

section \<open>Resolving an item\<close>

definition item_key :: "tax_item \<Rightarrow> string" where
  "item_key it = ir_key (ti_result it)"

definition settle_with :: "tax_state \<Rightarrow> string \<Rightarrow> step_detail \<Rightarrow> tax_item \<Rightarrow> tax_trace \<Rightarrow> tax_item \<times> tax_trace" where
  "settle_with state reason detail it tr =
     (it\<lparr>ti_result := (ti_result it)\<lparr>ir_state := state, ir_reason := reason\<rparr>\<rparr>, tax_note (item_key it) ''STATE'' detail tr)"

definition settle :: "tax_state \<Rightarrow> string \<Rightarrow> string \<Rightarrow> tax_item \<Rightarrow> tax_trace \<Rightarrow> tax_item \<times> tax_trace" where
  "settle state reason text = settle_with state reason (Text (state_name state @ '' ('' @ reason @ ''): '' @ text))"

definition record_situs :: "situs_resolution \<Rightarrow> string \<Rightarrow> tax_item \<Rightarrow> tax_item" where
  "record_situs sr bytes it = it\<lparr>ti_result := (ti_result it)\<lparr>ir_situs := bytes, ir_outcome := so_outcome sr, ir_rule := so_rule sr,
     ir_role := sp_effective (so_supply sr), ir_applicable := map ju_id (so_applicable sr), ir_needed := so_needed sr\<rparr>\<rparr>"

definition evidence_rank_of :: "reliability option \<Rightarrow> nat" where
  "evidence_rank_of c = (case c of None \<Rightarrow> 0 | Some x \<Rightarrow> (case reliability_rank x of None \<Rightarrow> 0 | Some n \<Rightarrow> n))"

text \<open>The places the rule would consult, a later entry of one type overwriting an earlier one.\<close>

definition consulted :: "situs_rule_decl \<Rightarrow> (evidence_type \<times> nat) list" where
  "consulted rule =
     (case sd_mode rule of
        ModePrecedence \<Rightarrow> rev (map (\<lambda>(i, t). (t, i))
          (filter (\<lambda>(i, t). evidence_rank_of (Some (sd_minimum rule)) \<le> evidence_rank_of (map_of (sd_reliability rule) t))
            (List.enumerate 0 (sd_order rule))))
      | ModeQuorum \<Rightarrow> map (\<lambda>t. (t, 0)) (sd_eligible rule)
      | _ \<Rightarrow> [])"

definition consulted_limit :: "situs_rule_decl \<Rightarrow> situs_resolution \<Rightarrow> nat" where
  "consulted_limit rule sr =
     (if sd_mode rule = ModePrecedence \<and> so_winning sr \<noteq> [] \<and> (so_outcome sr = Resolved \<or> so_outcome sr = Ambiguous)
      then (case map_of (consulted rule) (sv_type (hd (so_winning sr))) of None \<Rightarrow> 0 | Some i \<Rightarrow> i)
      else length (sd_order rule) + length (sd_eligible rule))"

definition outside_content :: "engine \<Rightarrow> situs_evidence \<Rightarrow> bool" where
  "outside_content e v =
     (if sv_jurisdiction v \<noteq> [] then lookup_node (gr_nodes (en_graph e)) (sv_jurisdiction v) = None
      else sv_country v \<noteq> [] \<and> sv_country v \<notin> set (en_countries e))"

definition outranks_from_outside :: "engine \<Rightarrow> tax_item \<Rightarrow> situs_resolution \<Rightarrow> situs_evidence option" where
  "outranks_from_outside e it sr =
     (case situs_decl e (so_rule sr) of
        None \<Rightarrow> None
      | Some rule \<Rightarrow>
        find (\<lambda>v. (case map_of (consulted rule) (sv_type v) of
                     None \<Rightarrow> False
                   | Some p \<Rightarrow> \<not> (consulted_limit rule sr \<le> p \<and> sd_mode rule = ModePrecedence) \<and> outside_content e v))
          (ti_evidence it))"

definition matching_apply :: "levy \<Rightarrow> customer_role \<Rightarrow> supply_kind \<Rightarrow> apply_decl option" where
  "matching_apply l role supplied =
     find (\<lambda>a. (ay_supply a = SupplyAny \<or> ay_supply a = supplied) \<and> (ay_roles a = [] \<or> role \<in> set (ay_roles a)))
       (cd_applies (lv_decl l))"

section \<open>Exemption\<close>

definition certificate_date :: "levy \<Rightarrow> string \<Rightarrow> int" where
  "certificate_date l s = (case civil_instant (lv_location l) s of Ok t \<Rightarrow> t | Err e \<Rightarrow> 0)"

text \<open>Why a certificate does not exempt the component, or nothing.\<close>

definition refusal :: "tax_run \<Rightarrow> levy \<Rightarrow> certificate \<Rightarrow> string" where
  "refusal r l c =
     (let d = lv_decl l; holder = ty_id (td_customer (rn_document r)) in
      if ct_jurisdiction c \<noteq> cd_jurisdiction d
        then ''issued for '' @ ct_jurisdiction c @ '', not '' @ cd_jurisdiction d
      else if ct_holder c \<noteq> holder then ''held by '' @ ct_holder c @ '', not the customer '' @ holder
      else if ct_tax_types c \<noteq> [] \<and> cd_tax_type d \<notin> set (ct_tax_types c)
        then ''scoped to '' @ join_with '', '' (ct_tax_types c) @ '', not '' @ cd_tax_type d
      else if ct_components c \<noteq> [] \<and> cd_id d \<notin> set (ct_components c)
        then ''scoped to '' @ join_with '', '' (ct_components c)
      else if rn_at r < certificate_date l (ct_valid_from c) then ''not yet valid at the tax point''
      else if ct_valid_to c \<noteq> [] \<and> \<not> rn_at r < certificate_date l (ct_valid_to c) then ''expired before the tax point''
      else [])"

text \<open>The exemption found, with whether its verification was unavailable.\<close>

fun find_exemption ::
  "tax_run \<Rightarrow> string \<Rightarrow> levy \<Rightarrow> certificate list \<Rightarrow> tax_trace \<Rightarrow> (exemption_record \<times> bool) option \<times> tax_trace" where
  "find_exemption r item l [] tr = (None, tr)"
| "find_exemption r item l (c # cs) tr =
     (if ct_type c \<notin> set (cd_exempt_by (lv_decl l)) then find_exemption r item l cs tr
      else if refusal r l c \<noteq> [] then
        find_exemption r item l cs (tax_note item ''EXEMPTION'' (Text (''certificate '' @ ct_id c @ '' does not exempt ''
          @ cd_id (lv_decl l) @ '': '' @ refusal r l c)) tr)
      else (case ct_verification c of
          Verified \<Rightarrow> (Some (\<lparr>ex_certificate = ct_id c, ex_type = ct_type c, ex_assessed = None\<rparr>, False),
            tax_note item ''EXEMPTION'' (Text (''certificate '' @ ct_id c @ '' ('' @ ct_type c @ '') exempts '' @ cd_id (lv_decl l))) tr)
        | Unavailable \<Rightarrow> (Some (\<lparr>ex_certificate = ct_id c, ex_type = ct_type c, ex_assessed = None\<rparr>, True), tr)
        | _ \<Rightarrow> find_exemption r item l cs
            (tax_note item ''EXEMPTION'' (Text (''certificate '' @ ct_id c @ '' is unverified and exempts nothing'')) tr)))"

section \<open>Rates as text\<close>

definition rate_value :: "tax_version \<Rightarrow> (tax_err, string) result" where
  "rate_value v =
     (let rt = vr_rate v in
      case (if rd_kind rt = AdValorem then map_option (canonical_decimal \<circ> r_value) (rd_proportion rt)
            else if rd_kind rt = Specific then map_option money_canonical (rd_per_unit rt)
            else map_option money_canonical (rd_flat rt)) of
        None \<Rightarrow> Err TxPanic
      | Some s \<Rightarrow> Ok s)"

definition rate_currency :: "tax_version \<Rightarrow> string" where
  "rate_currency v = (case (if rd_kind (vr_rate v) = Specific then rd_per_unit (vr_rate v) else rd_flat (vr_rate v)) of
     None \<Rightarrow> [] | Some m \<Rightarrow> m_currency m)"

definition rate_text :: "tax_version \<Rightarrow> (tax_err, string) result" where
  "rate_text v =
     bindR (rate_value v) (\<lambda>s. Ok
       (if rd_kind (vr_rate v) = AdValorem then ''rate '' @ s
        else if rd_kind (vr_rate v) = Specific then s @ '' '' @ rate_currency v @ '' per '' @ vr_per_units v
        else ''flat '' @ s @ '' '' @ rate_currency v))"

section \<open>Selection\<close>

datatype choice = Passed | Held tax_state string string | Selected selection

definition exempted ::
  "tax_run \<Rightarrow> string \<Rightarrow> levy \<Rightarrow> treatment \<Rightarrow> tax_trace \<Rightarrow> (exemption_record \<times> bool) option \<times> tax_trace" where
  "exempted r item l t tr =
     (if t = CustomerCharge \<and> cd_exempt_by (lv_decl l) \<noteq> []
      then find_exemption r item l (td_certificates (rn_document r)) tr else (None, tr))"

definition take_levy ::
  "tax_run \<Rightarrow> tax_item \<Rightarrow> levy \<Rightarrow> tax_version \<Rightarrow> apply_decl \<Rightarrow> tax_trace \<Rightarrow> (tax_err, choice \<times> tax_trace) result" where
  "take_levy r it l v a tr =
     (let i = cd_id (lv_decl l); (ex, tr) = exempted r (item_key it) l (ay_treatment a) tr in
      case ex of
        Some (x, True) \<Rightarrow> Ok (Held StateReview ''EXEMPTION_VERIFICATION_UNAVAILABLE''
          (''certificate '' @ ex_certificate x @ '' would exempt '' @ i @ '' and could not be verified''), tr)
      | _ \<Rightarrow>
        let t = (if ex = None then ay_treatment a else TreatmentExempt) in
        bindR (rate_text v) (\<lambda>rt.
          Ok (Selected \<lparr>sl_levy = l, sl_version = v, sl_apply = a, sl_treatment = t, sl_exemption = map_option fst ex\<rparr>,
              tax_note (item_key it) ''SELECT'' (Text (i @ '' version from '' @ vd_from (vr_decl v) @ '', '' @ treatment_name t
                @ '', '' @ rt)) tr)))"

definition consider_levy ::
  "tax_run \<Rightarrow> tax_regime \<Rightarrow> tax_item \<Rightarrow> levy \<Rightarrow> tax_trace \<Rightarrow> (tax_err, choice \<times> tax_trace) result" where
  "consider_levy r rg it l tr =
     (let d = lv_decl l; res = ti_result it in
      if gd_id (rg_decl (lv_regime l)) \<noteq> gd_id (rg_decl rg) \<or> cd_jurisdiction d \<notin> set (ir_applicable res)
        \<or> cd_services d \<noteq> [] \<and> ir_service res \<notin> set (cd_services d) then Ok (Passed, tr)
      else case version_at l (rn_at r) of
        None \<Rightarrow> Ok (Passed, tax_note (item_key it) ''SKIP'' (Text (cd_id d @ '' has no version in force at '' @ format_time (rn_at r))) tr)
      | Some v \<Rightarrow>
        (case matching_apply l (ir_role res) (ir_supply res) of
           None \<Rightarrow> Ok (Passed, tax_note (item_key it) ''SKIP'' (Text (cd_id d @ '' does not apply to a '' @ role_text (ir_role res)
             @ '' customer on a '' @ supply_name (ir_supply res) @ '' supply'')) tr)
         | Some a \<Rightarrow>
           if rd_kind (vr_rate v) = Specific
             \<and> (case ti_quantity it of None \<Rightarrow> True | Some q \<Rightarrow> q_unit q \<noteq> vr_per_units v)
           then Ok (Held StateReview ''QUANTITY_REQUIRED''
             (cd_id d @ '' is levied per '' @ vr_per_units v @ '' and the line carries no quantity in that unit''), tr)
           else take_levy r it l v a tr))"

fun select_levies ::
  "tax_run \<Rightarrow> tax_regime \<Rightarrow> levy list \<Rightarrow> tax_item \<Rightarrow> tax_trace \<Rightarrow> (tax_err, tax_item \<times> tax_trace) result" where
  "select_levies r rg [] it tr =
     Ok (if ti_selected it = [] then settle StateUnsupported ''NO_APPLICABLE_CONTENT''
           (''no component of '' @ gd_id (rg_decl rg) @ '' applies to '' @ ir_service (ti_result it) @ '' for a ''
             @ role_text (ir_role (ti_result it)) @ '' customer on a '' @ supply_name (ir_supply (ti_result it)) @ '' supply'') it tr
         else (it, tr))"
| "select_levies r rg (l # ls) it tr =
     bindR (consider_levy r rg it l tr) (\<lambda>(c, tr).
       case c of
         Passed \<Rightarrow> select_levies r rg ls it tr
       | Held state reason text \<Rightarrow> Ok (settle state reason text it tr)
       | Selected s \<Rightarrow> select_levies r rg ls (it\<lparr>ti_selected := ti_selected it @ [s]\<rparr>) tr)"

section \<open>The stages of an item\<close>

definition deepest_general :: "jurisdiction list \<Rightarrow> jurisdiction option" where
  "deepest_general js = (case find (\<lambda>j. ju_level j \<noteq> Special) (rev js) of Some j \<Rightarrow> Some j | None \<Rightarrow> primary_of js)"

definition blank_jurisdiction :: jurisdiction where
  "blank_jurisdiction = \<lparr>ju_id = [], ju_parent = [], ju_level = LevelOther [], ju_name = [], ju_country = [], ju_timezone = []\<rparr>"

definition levy_stage ::
  "tax_run \<Rightarrow> situs_resolution \<Rightarrow> tax_item \<Rightarrow> tax_trace \<Rightarrow> (tax_err, tax_item \<times> tax_trace) result" where
  "levy_stage r sr it tr =
     (let e = rn_engine r;
          primary = (case deepest_general (so_applicable sr) of Some j \<Rightarrow> j | None \<Rightarrow> blank_jurisdiction);
          supplied = (if rn_seller r \<noteq> ju_country primary then SupplyCrossBorder else SupplyDomestic) in
      case regime_in e (ju_country primary) of
        None \<Rightarrow> Err TxPanic
      | Some rg \<Rightarrow>
        let it = it\<lparr>ti_result := (ti_result it)\<lparr>ir_place := ju_id primary, ir_supply := supplied, ir_regime := gd_id (rg_decl rg)\<rparr>\<rparr>;
            tr = tax_note (item_key it) ''REGIME'' (Text (gd_id (rg_decl rg) @ '' ('' @ ju_country primary @ ''); seller in ''
              @ rn_seller r @ '', supply '' @ supply_name supplied @ '', customer '' @ role_text (ir_role (ti_result it)))) tr in
        if rank0 (ju_level primary) < rank0 (rg_level rg) then
          Ok (settle StateReview ''JURISDICTION_LEVEL_REQUIRED''
            (ju_id primary @ '' resolved to '' @ level_name (ju_level primary) @ '' level; regime '' @ gd_id (rg_decl rg) @ '' needs ''
              @ level_name (rg_level rg)) it tr)
        else if ir_service (ti_result it) \<notin> set (gd_services (rg_decl rg)) then
          Ok (settle StateUnsupported ''SERVICE_NOT_COVERED''
            (''regime '' @ gd_id (rg_decl rg) @ '' declares no content for '' @ ir_service (ti_result it)) it tr)
        else select_levies r rg (en_levies e) it tr)"

definition situs_stage ::
  "tax_run \<Rightarrow> situs_resolution \<Rightarrow> tax_item \<Rightarrow> tax_trace \<Rightarrow> (tax_err, tax_item \<times> tax_trace) result" where
  "situs_stage r sr it tr =
     (let ids = join_with '', '' (ir_applicable (ti_result it)) in
      case outranks_from_outside (rn_engine r) it sr of
        Some v \<Rightarrow> Ok (settle StateUnsupported ''JURISDICTION_UNSUPPORTED''
          (evidence_name (sv_type v) @ '' evidence places the supply in ''
            @ (if sv_country v = [] then sv_jurisdiction v else sv_country v) @ '', which the active content does not declare'') it tr)
      | None \<Rightarrow>
        (case so_outcome sr of
           Resolved \<Rightarrow> levy_stage r sr it tr
         | InsufficientEvidence \<Rightarrow> Ok (settle StateReview ''SITUS_EVIDENCE_INSUFFICIENT''
             (''needs one of '' @ join_with '', '' (map evidence_name (ir_needed (ti_result it)))) it tr)
         | Ambiguous \<Rightarrow> Ok (settle StateAmbiguous ''AMBIGUOUS'' ''the evidence supports more than one place of supply'' it tr)
         | Unsupported \<Rightarrow> Ok (settle StateUnsupported ''JURISDICTION_UNSUPPORTED'' (''no active content covers '' @ ids) it tr)
         | o1 \<Rightarrow> Ok (settle StateConflicted ''SITUS_DATASET_DEFECT'' (''situs outcome '' @ outcome_text o1) it tr)))"

definition resolved_stage ::
  "tax_run \<Rightarrow> (jur_err, situs_resolution) result \<Rightarrow> tax_item \<Rightarrow> tax_trace \<Rightarrow> (tax_err, tax_item \<times> tax_trace) result" where
  "resolved_stage r res it tr =
     (case res of
        Err e \<Rightarrow> Ok (settle_with StateReview ''SITUS_EVIDENCE_INSUFFICIENT'' (SitusFailed e) it tr)
      | Ok sr \<Rightarrow>
        (case encode (situs_value sr) of
           Err e \<Rightarrow> Ok (settle_with StateConflicted ''SITUS_DATASET_DEFECT'' (SitusUnrecorded e) it tr)
         | Ok bytes \<Rightarrow>
           let it = record_situs sr bytes it in
           situs_stage r sr it (tax_note (item_key it) ''SITUS'' (Text (outcome_text (so_outcome sr) @ '' under rule '' @ or_none (so_rule sr)
             @ '': '' @ join_with '', '' (ir_applicable (ti_result it)))) tr)))"

definition resolve_item ::
  "rat_reader \<Rightarrow> tax_run \<Rightarrow> tax_item \<Rightarrow> tax_trace \<Rightarrow> (tax_err, tax_item \<times> tax_trace) result option" where
  "resolve_item rat_of r it tr =
     (let res = ti_result it; e = rn_engine r in
      if ir_service res = [] then Some (Ok (settle StateReview ''CLASSIFICATION_REQUIRED''
        (''SKU '' @ go_quote (ir_sku res) @ '' has no ontology family'') it tr))
      else map_option (\<lambda>sr. resolved_stage r sr it
          (tax_note (item_key it) ''CLASSIFY'' (Text (''service '' @ ir_service res @ '' (SKU '' @ or_none (ir_sku res) @ '')'')) tr))
        (resolve rat_of (engine_resolver e) \<lparr>sq_event_time = rn_at r, sq_ontology = ir_service res, sq_evidence = ti_evidence it,
           sq_covered = en_covered e\<rparr>))"

fun resolve_items ::
  "rat_reader \<Rightarrow> tax_run \<Rightarrow> tax_item list \<Rightarrow> tax_trace \<Rightarrow> (tax_err, tax_item list \<times> tax_trace) result option" where
  "resolve_items rat_of r [] tr = Some (Ok ([], tr))"
| "resolve_items rat_of r (it # its) tr =
     Option.bind (resolve_item rat_of r it tr) (\<lambda>x. case x of
       Err e \<Rightarrow> Some (Err e)
     | Ok (it, tr) \<Rightarrow> map_option (\<lambda>y. bindR y (\<lambda>(its, tr). Ok (it # its, tr))) (resolve_items rat_of r its tr))"

end
