(* ===== verification/TaxDetermine.thy ===== *)
theory TaxDetermine
  imports TaxEngine "HOL-Library.AList"
begin

text \<open>
  \<open>backend/internal/domain/taxation/engine.go\<close>: the plan of a resolved document, its evaluation, the result
  collected from it, and \<open>Determine\<close>. A Go map is the list of its entries; where the code ranges over sorted
  keys, so does the model.
\<close>

section \<open>Plan identifiers\<close>

definition levy_id :: "selection \<Rightarrow> comp_id" where
  "levy_id s = cd_id (lv_decl (sl_levy s))"

definition all_selected :: "tax_item list \<Rightarrow> selection list" where
  "all_selected its = concat (map ti_selected its)"

definition treatments_of :: "tax_item list \<Rightarrow> comp_id \<Rightarrow> treatment list" where
  "treatments_of its i = remdups (map sl_treatment (filter (\<lambda>s. levy_id s = i) (all_selected its)))"

definition plan_id :: "tax_item list \<Rightarrow> comp_id \<Rightarrow> treatment \<Rightarrow> comp_id" where
  "plan_id its i t = (if length (treatments_of its i) \<le> 1 then i else i @ ''#'' @ treatment_name t)"

section \<open>The plan\<close>

record plan_state =
  ps_plan :: "(comp_id \<times> tax_component) list"
  ps_variants :: "(comp_id \<times> comp_id list) list"

definition plan_keys :: "plan_state \<Rightarrow> comp_id list" where
  "plan_keys ps = map fst (ps_plan ps)"

definition variants_of :: "plan_state \<Rightarrow> comp_id \<Rightarrow> comp_id list" where
  "variants_of ps i = (case map_of (ps_variants ps) i of None \<Rightarrow> [] | Some vs \<Rightarrow> vs)"

definition add_selection :: "tax_item list \<Rightarrow> bool \<Rightarrow> bool \<Rightarrow> plan_state \<Rightarrow> selection \<Rightarrow> plan_state" where
  "add_selection its inclusive assessed ps s =
     (let i = levy_id s; t = (if assessed \<and> sl_treatment s = TreatmentExempt then CustomerCharge else sl_treatment s);
          k = plan_id its i (sl_treatment s) in
      if k \<in> set (plan_keys ps) then ps
      else \<lparr>ps_plan = ps_plan ps @ [(k, plan_component (sl_levy s) (sl_version s) k (inclusive \<and> t = CustomerCharge))],
            ps_variants = AList.update i (variants_of ps i @ [k]) (ps_variants ps)\<rparr>)"

text \<open>A component that is only named by a base is declared with its version in force, or its latest.\<close>

definition declared_version :: "levy \<Rightarrow> int \<Rightarrow> (tax_err, tax_version) result" where
  "declared_version l t =
     (case version_at l t of
        Some v \<Rightarrow> Ok v
      | None \<Rightarrow> if lv_versions l = [] then Err TxPanic else Ok (last (lv_versions l)))"

definition close_ref :: "engine \<Rightarrow> int \<Rightarrow> plan_state \<Rightarrow> comp_id \<Rightarrow> (tax_err, plan_state) result" where
  "close_ref e t ps ref =
     (if ref \<in> set (plan_keys ps) \<or> variants_of ps ref \<noteq> [] then Ok ps
      else case levy_of e ref of
        None \<Rightarrow> Err TxPanic
      | Some l \<Rightarrow>
        bindR (declared_version l t) (\<lambda>v.
          Ok \<lparr>ps_plan = ps_plan ps @ [(ref, plan_component l v ref False)],
              ps_variants = AList.update ref [ref] (ps_variants ps)\<rparr>))"

definition base_refs :: "plan_state \<Rightarrow> comp_id \<Rightarrow> comp_id list" where
  "base_refs ps i = (case map_of (ps_plan ps) i of None \<Rightarrow> [] | Some c \<Rightarrow> b_components (c_base c))"

definition close_sweep :: "engine \<Rightarrow> int \<Rightarrow> plan_state \<Rightarrow> (tax_err, plan_state) result" where
  "close_sweep e t ps = foldR (\<lambda>qs i. foldR (close_ref e t) qs (base_refs qs i)) ps (sort (plan_keys ps))"

definition engine_ids :: "engine \<Rightarrow> comp_id list" where
  "engine_ids e = map (cd_id \<circ> lv_decl) (en_levies e)"

lemma levy_of_mem: "levy_of e i = Some l \<Longrightarrow> l \<in> set (en_levies e) \<and> cd_id (lv_decl l) = i"
  unfolding levy_of_def by (metis (mono_tags, lifting) find_Some_iff nth_mem)

lemma close_ref_keys:
  assumes "close_ref e t ps ref = Ok qs"
  shows "\<exists>new. plan_keys qs = plan_keys ps @ new \<and> set new \<subseteq> set (engine_ids e) - set (plan_keys ps)"
proof (cases "ref \<in> set (plan_keys ps) \<or> variants_of ps ref \<noteq> []")
  case True
  with assms show ?thesis by (auto simp: close_ref_def)
next
  case False
  with assms obtain l where "levy_of e ref = Some l" "plan_keys qs = plan_keys ps @ [ref]"
    by (auto simp: close_ref_def plan_keys_def split: option.splits)
  moreover from this levy_of_mem have "ref \<in> set (engine_ids e)" by (force simp: engine_ids_def)
  ultimately show ?thesis using False by auto
qed

lemma foldR_keys:
  assumes "foldR f ps xs = Ok qs"
    and step: "\<And>ps x qs. f ps x = Ok qs \<Longrightarrow> \<exists>new. plan_keys qs = plan_keys ps @ new \<and> set new \<subseteq> A - set (plan_keys ps)"
  shows "\<exists>new. plan_keys qs = plan_keys ps @ new \<and> set new \<subseteq> A - set (plan_keys ps)"
  using assms(1)
proof (induction xs arbitrary: ps)
  case (Cons x xs)
  then obtain rs where "f ps x = Ok rs" "foldR f rs xs = Ok qs" by auto
  with Cons.IH step show ?case by (fastforce simp: subset_iff)
qed simp

lemma close_sweep_keys:
  assumes "close_sweep e t ps = Ok qs"
  shows "\<exists>new. plan_keys qs = plan_keys ps @ new \<and> set new \<subseteq> set (engine_ids e) - set (plan_keys ps)"
  using assms unfolding close_sweep_def
  by (rule foldR_keys) (rule foldR_keys, assumption, rule close_ref_keys)

function close_plan :: "engine \<Rightarrow> int \<Rightarrow> plan_state \<Rightarrow> (tax_err, plan_state) result" where
  "close_plan e t ps =
     bindR (close_sweep e t ps) (\<lambda>qs.
       if length (ps_plan qs) = length (ps_plan ps) then Ok qs else close_plan e t qs)"
  by pat_completeness auto
termination
proof (relation "measure (\<lambda>(e, t, ps). card (set (engine_ids e) - set (plan_keys ps)))")
  fix e t ps qs
  assume "close_sweep e t ps = Ok qs" and neq: "length (ps_plan qs) \<noteq> length (ps_plan ps)"
  then obtain new where new: "plan_keys qs = plan_keys ps @ new" "set new \<subseteq> set (engine_ids e) - set (plan_keys ps)"
    using close_sweep_keys by blast
  with neq have "new \<noteq> []" by (auto simp: plan_keys_def dest: arg_cong[where f = length])
  with new have "set (engine_ids e) - set (plan_keys qs) \<subset> set (engine_ids e) - set (plan_keys ps)"
    by (cases new) auto
  then show "((e, t, qs), e, t, ps) \<in> measure (\<lambda>(e, t, ps). card (set (engine_ids e) - set (plan_keys ps)))"
    by (simp add: psubset_card_mono)
qed simp

declare close_plan.simps [simp del]

definition final_component :: "plan_state \<Rightarrow> tax_component \<Rightarrow> tax_component" where
  "final_component ps c =
     c\<lparr>c_base := (c_base c)\<lparr>b_components := concat (map (variants_of ps) (b_components (c_base c)))\<rparr>\<rparr>"

definition plan_schedule :: "plan_state \<Rightarrow> bool \<Rightarrow> rounding_policy option \<Rightarrow> schedule" where
  "plan_schedule ps inclusive extraction =
     (let cs = map (\<lambda>(i, c). final_component ps c) (sort_key fst (ps_plan ps)) in
      \<lparr>s_components = cs, s_extraction = (if inclusive then extraction else None),
       s_subtraction = map c_id (filter (\<lambda>c. c_inclusive c \<and> (rd_kind (c_rate c) = Flat \<or> rd_kind (c_rate c) = Specific)) cs)\<rparr>)"

definition plan_line :: "tax_item list \<Rightarrow> bool \<Rightarrow> tax_item \<Rightarrow> doc_line" where
  "plan_line its assessed it =
     \<lparr>l_key = item_key it, l_amount = ir_amount (ti_result it), l_quantity = ti_quantity it,
      l_applicable = map (\<lambda>s. plan_id its (levy_id s) (sl_treatment s))
        (filter (\<lambda>s. \<not> (sl_treatment s = TreatmentExempt \<and> \<not> assessed)) (ti_selected it))\<rparr>"

definition initial_plan :: "tax_item list \<Rightarrow> bool \<Rightarrow> bool \<Rightarrow> plan_state" where
  "initial_plan its inclusive assessed =
     foldl (add_selection its inclusive assessed) \<lparr>ps_plan = [], ps_variants = []\<rparr> (all_selected its)"

definition run_plan ::
  "tax_run \<Rightarrow> tax_item list \<Rightarrow> bool \<Rightarrow> rounding_policy option \<Rightarrow> bool \<Rightarrow> (tax_err, determination) result" where
  "run_plan r its inclusive extraction assessed =
     bindR (close_plan (rn_engine r) (rn_at r) (initial_plan its inclusive assessed)) (\<lambda>ps.
     bindR (map_err TxInclusive (compile (plan_schedule ps inclusive extraction))) (\<lambda>p.
       map_err TxEvaluate (evaluate p \<lparr>d_currency = td_currency (rn_document r), d_lines = map (plan_line its assessed) its\<rparr>)))"

section \<open>Collecting the result\<close>

record tally =
  ta_net :: money
  ta_customer_tax :: money
  ta_accrual :: money
  ta_reverse :: money
  ta_emitted :: "(string \<times> money) list"

definition tax_add :: "money \<Rightarrow> money \<Rightarrow> (tax_err, money) result" where
  "tax_add a b = map_err TxFiscal (money_add a b)"

definition emit :: "string \<Rightarrow> money \<Rightarrow> tally \<Rightarrow> (tax_err, tally) result" where
  "emit slot m y =
     (case map_of (ta_emitted y) slot of
        None \<Rightarrow> Ok (y\<lparr>ta_emitted := ta_emitted y @ [(slot, m)]\<rparr>)
      | Some prior \<Rightarrow> bindR (tax_add prior m) (\<lambda>s. Ok (y\<lparr>ta_emitted := AList.update slot s (ta_emitted y)\<rparr>)))"

definition post_amount :: "treatment \<Rightarrow> string \<Rightarrow> money \<Rightarrow> tally \<Rightarrow> (tax_err, tally) result" where
  "post_amount t slot m y =
     (case t of
        CustomerCharge \<Rightarrow>
          bindR (tax_add (ta_customer_tax y) m) (\<lambda>s.
          bindR (emit SlotCustomerTax m (y\<lparr>ta_customer_tax := s\<rparr>)) (emit slot m))
      | ProviderCost \<Rightarrow>
          bindR (tax_add (ta_accrual y) m) (\<lambda>s.
          bindR (emit SlotProviderAccrual m (y\<lparr>ta_accrual := s\<rparr>)) (emit slot m))
      | ReverseCharge \<Rightarrow>
          bindR (tax_add (ta_reverse y) m) (\<lambda>s. emit SlotReverseCharge m (y\<lparr>ta_reverse := s\<rparr>))
      | _ \<Rightarrow> Ok y)"

definition no_responsibility :: responsibility_decl where
  "no_responsibility = \<lparr>rl_id = [], rl_incidence = PartyOther [], rl_collection = PartyOther [], rl_reporting = PartyOther [],
     rl_remittance = PartyOther [], rl_bearer = PartyOther []\<rparr>"

text \<open>What a charge carries whatever its amount.\<close>

definition blank_charge :: "engine \<Rightarrow> money \<Rightarrow> string \<Rightarrow> selection \<Rightarrow> charge" where
  "blank_charge e zero rt s =
     (let l = sl_levy s; d = lv_decl l; v = sl_version s in
      \<lparr>ch_id = cd_id d, ch_version = vd_from (vr_decl v), ch_regime = gd_id (rg_decl (lv_regime l)), ch_jurisdiction = cd_jurisdiction d,
       ch_authority = cd_authority d, ch_tax_type = cd_tax_type d, ch_name = cd_name d, ch_emit = cd_emit d,
       ch_treatment = sl_treatment s, ch_inclusive = False, ch_rate_kind = rd_kind (vr_rate v), ch_rate = rt, ch_unit = vr_per_units v,
       ch_base = None, ch_raw = money0, ch_amount = money0, ch_charged = zero, ch_reason = vd_reason (vr_decl v),
       ch_responsibility = (case responsibility_of e (ay_responsibility (sl_apply s)) of None \<Rightarrow> no_responsibility | Some x \<Rightarrow> x),
       ch_exemption = None, ch_source = vd_source (vr_decl v), ch_citation = vd_citation (vr_decl v)\<rparr>)"

type_synonym amounts = "comp_id \<Rightarrow> comp_result option"

text \<open>A later result of one component overwrites an earlier one, as in the code's map.\<close>

definition amounts_of :: "line_result \<Rightarrow> amounts" where
  "amounts_of l i = find (\<lambda>c. r_component c = i) (rev (lr_components l))"

definition assessed_of :: "determination option \<Rightarrow> string \<Rightarrow> comp_id \<Rightarrow> money option" where
  "assessed_of assessed key i =
     (case assessed of
        None \<Rightarrow> None
      | Some d \<Rightarrow>
        (case find (\<lambda>l. lr_key l = key) (rev (dn_lines d)) of
           None \<Rightarrow> None
         | Some l \<Rightarrow> map_option r_amount (amounts_of l i)))"

definition exempt_charge :: "money \<Rightarrow> money option \<Rightarrow> exemption_record \<Rightarrow> charge \<Rightarrow> charge" where
  "exempt_charge zero assessed x c =
     (let none = (case assessed of None \<Rightarrow> zero | Some a \<Rightarrow> money_zero a) in
      c\<lparr>ch_exemption := Some (x\<lparr>ex_assessed := assessed\<rparr>), ch_reason := LegallyExempt,
        ch_raw := none, ch_amount := none, ch_charged := none\<rparr>)"

definition charge_selection ::
  "engine \<Rightarrow> tax_item list \<Rightarrow> money \<Rightarrow> (comp_id \<Rightarrow> money option) \<Rightarrow> amounts \<Rightarrow> string \<Rightarrow> tally \<times> charge list \<Rightarrow> selection \<Rightarrow>
   (tax_err, tally \<times> charge list) result" where
  "charge_selection e its zero assessed found key = (\<lambda>(y, cs) s.
     (let pid = plan_id its (levy_id s) (sl_treatment s) in
      bindR (rate_value (sl_version s)) (\<lambda>rt.
        let c = blank_charge e zero rt s in
        case sl_exemption s of
          Some x \<Rightarrow> Ok (y, cs @ [exempt_charge zero (assessed pid) x c])
        | None \<Rightarrow>
          (case found pid of
             None \<Rightarrow> Err (TxNoResult pid key)
           | Some res \<Rightarrow>
             bindR (post_amount (sl_treatment s) (cd_emit (lv_decl (sl_levy s))) (r_amount res) y) (\<lambda>y.
               Ok (y, cs @ [c\<lparr>ch_inclusive := r_inclusive res, ch_base := r_base res, ch_raw := r_raw res, ch_amount := r_amount res,
                 ch_charged := (if sl_treatment s = CustomerCharge then r_amount res else money_zero (r_amount res))\<rparr>]))))))"

definition collect_item ::
  "engine \<Rightarrow> tax_item list \<Rightarrow> money \<Rightarrow> determination option \<Rightarrow> tally \<times> tax_item list \<Rightarrow> tax_item \<times> line_result \<Rightarrow>
   (tax_err, tally \<times> tax_item list) result" where
  "collect_item e its zero assessed = (\<lambda>(y, out) (it, lr).
     bindR (tax_add (ta_net y) (lr_net lr)) (\<lambda>net.
     bindR (foldR (charge_selection e its zero (assessed_of assessed (item_key it)) (amounts_of lr) (item_key it))
              (y\<lparr>ta_net := net\<rparr>, []) (ti_selected it)) (\<lambda>(y, cs).
       Ok (y, out @ [it\<lparr>ti_result := (ti_result it)\<lparr>ir_net := Some (lr_net lr), ir_charges := cs\<rparr>\<rparr>]))))"

definition collect_result ::
  "engine \<Rightarrow> tax_item list \<Rightarrow> determination \<Rightarrow> determination option \<Rightarrow> tax_result \<Rightarrow> (tax_err, tax_item list \<times> tax_result) result" where
  "collect_result e its actual assessed out =
     (case dn_lines actual of
        [] \<Rightarrow> Err TxPanic
      | l # ls \<Rightarrow>
        let zero = money_zero (lr_net l);
            y = \<lparr>ta_net = zero, ta_customer_tax = zero, ta_accrual = zero, ta_reverse = zero,
                 ta_emitted = map (\<lambda>s. (s, zero)) aggregate_slots\<rparr> in
        if length (dn_lines actual) < length its then Err TxPanic
        else
          bindR (foldR (collect_item e its zero assessed) (y, []) (zip its (dn_lines actual))) (\<lambda>(y, its).
          bindR (tax_add (ta_net y) (ta_customer_tax y)) (\<lambda>total.
            Ok (its, out\<lparr>xr_totals := Some \<lparr>to_net = ta_net y, to_customer_tax = ta_customer_tax y, to_customer_total = total,
                  to_accrual = ta_accrual y, to_reverse = ta_reverse y\<rparr>, xr_emitted := ta_emitted y\<rparr>))))"

section \<open>Evaluating a resolved document\<close>

definition item_country :: "engine \<Rightarrow> tax_item \<Rightarrow> string" where
  "item_country e it = (case lookup_node (gr_nodes (en_graph e)) (ir_place (ti_result it)) of None \<Rightarrow> [] | Some n \<Rightarrow> ju_country n)"

text \<open>The extraction policy the items share, or the item and regime that have none in common.\<close>

fun shared_extraction ::
  "engine \<Rightarrow> rounding_policy option \<Rightarrow> tax_item list \<Rightarrow> (tax_err, (tax_item \<times> tax_regime) + rounding_policy option) result" where
  "shared_extraction e p [] = Ok (Inr p)"
| "shared_extraction e p (it # its) =
     (case regime_in e (item_country e it) of
        None \<Rightarrow> Err TxPanic
      | Some rg \<Rightarrow>
        (case gd_extraction (rg_decl rg) of
           None \<Rightarrow> Ok (Inl (it, rg))
         | Some q \<Rightarrow>
           if (case p of None \<Rightarrow> False | Some p \<Rightarrow> policy_string p \<noteq> policy_string q) then Ok (Inl (it, rg))
           else shared_extraction e (Some q) its))"

definition tax_steps :: "trace \<Rightarrow> tax_trace" where
  "tax_steps tr = map (\<lambda>s. \<lparr>tt_item = ts_line s, tt_component = ts_component s, tt_step = ts_step s, tt_detail = Text (ts_detail s)\<rparr>) tr"

definition has_exemption :: "tax_item list \<Rightarrow> bool" where
  "has_exemption its \<longleftrightarrow> list_ex (\<lambda>s. sl_exemption s \<noteq> None) (all_selected its)"

definition evaluate_with ::
  "tax_run \<Rightarrow> tax_item list \<Rightarrow> bool \<Rightarrow> rounding_policy option \<Rightarrow> tax_trace \<Rightarrow> tax_result \<Rightarrow>
   (tax_err, tax_item list \<times> tax_result \<times> tax_trace) result" where
  "evaluate_with r its inclusive extraction tr out =
     bindR (run_plan r its inclusive extraction False) (\<lambda>actual.
     bindR (if has_exemption its then bindR (run_plan r its inclusive extraction True) (\<lambda>d. Ok (Some d)) else Ok None) (\<lambda>assessed.
     bindR (collect_result (rn_engine r) its actual assessed out) (\<lambda>(its, out).
       Ok (its, out, tr @ tax_steps (dn_trace actual)))))"

definition evaluate_items ::
  "tax_run \<Rightarrow> tax_item list \<Rightarrow> tax_trace \<Rightarrow> tax_result \<Rightarrow> (tax_err, tax_item list \<times> tax_result \<times> tax_trace) result" where
  "evaluate_items r its tr out =
     (if td_price_mode (rn_document r) \<noteq> PriceInclusive then evaluate_with r its False None tr out
      else bindR (shared_extraction (rn_engine r) None its) (\<lambda>x.
        case x of
          Inl (it, rg) \<Rightarrow> Ok (its, out\<lparr>xr_state := StateUnsupported, xr_reason := ''INCLUSIVE_PRICING_UNSUPPORTED''\<rparr>,
            tax_note (item_key it) ''STATE'' (Text (''UNSUPPORTED (INCLUSIVE_PRICING_UNSUPPORTED): regime '' @ gd_id (rg_decl rg))) tr)
        | Inr extraction \<Rightarrow> evaluate_with r its True extraction tr out))"

section \<open>Determine\<close>

definition worse :: "tax_result \<Rightarrow> tax_item \<Rightarrow> tax_result" where
  "worse out it =
     (if severity (xr_state out) < severity (ir_state (ti_result it))
      then out\<lparr>xr_state := ir_state (ti_result it), xr_reason := ir_reason (ti_result it)\<rparr> else out)"

definition empty_result :: "engine \<Rightarrow> tx_document \<Rightarrow> tax_result" where
  "empty_result e d = \<lparr>xr_state = StateResolved, xr_reason = ''NOT_AUTHORITATIVE'', xr_currency = td_currency d,
     xr_price_mode = td_price_mode d, xr_profile_version = en_version e, xr_graph_version = gr_version (en_graph e),
     xr_totals = None, xr_items = [], xr_emitted = [], xr_trace = []\<rparr>"

definition conclude :: "tax_run \<Rightarrow> tax_item list \<Rightarrow> tax_trace \<Rightarrow> (tax_err, tax_result) result" where
  "conclude r its tr =
     (let out = foldl worse (empty_result (rn_engine r) (rn_document r)) its in
      bindR (if xr_state out = StateResolved then evaluate_items r its tr out else Ok (its, out, tr)) (\<lambda>(its, out, tr).
        Ok (out\<lparr>xr_items := map ti_result its, xr_trace := tr\<rparr>)))"

definition prepare ::
  "rat_reader \<Rightarrow> engine \<Rightarrow> tx_document \<Rightarrow> int \<Rightarrow> tx_place \<Rightarrow> (tax_err, tax_run \<times> tax_item list \<times> tax_trace) result" where
  "prepare rat_of e d t est =
     bindR (seller_country e est) (\<lambda>country.
       let r = \<lparr>rn_engine = e, rn_document = d, rn_at = t, rn_seller = country\<rparr> in
       bindR (document_evidence rat_of r est) (\<lambda>(base, tr).
       bindR (foldR (items_step rat_of r base) ([], tr) (td_lines d)) (\<lambda>(its, tr). Ok (r, its, tr))))"

definition determine :: "rat_reader \<Rightarrow> engine \<Rightarrow> tx_document \<Rightarrow> int \<Rightarrow> (tax_err, tax_result) result option" where
  "determine rat_of e d t =
     (if t = 0 then Some (Err TxTaxPoint)
      else case validate_document d of
        Err f \<Rightarrow> Some (Err (TxDocument f))
      | Ok u \<Rightarrow>
        (case ty_establishment (td_seller d) of
           None \<Rightarrow> Some (Err TxPanic)
         | Some est \<Rightarrow>
           (case prepare rat_of e d t est of
              Err x \<Rightarrow> Some (Err x)
            | Ok (r, its, tr) \<Rightarrow> map_option (\<lambda>y. bindR y (\<lambda>(its, tr). conclude r its tr)) (resolve_items rat_of r its tr))))"

end
