(* ===== verification/TaxFacts.thy ===== *)
theory TaxFacts
  imports TaxDetermine ResolveSafety EvalSafety
begin

text \<open>
  What compilation of a taxation profile guarantees of its engine, and what a resolution against the
  engine's graph then says about the country of its place of supply.
\<close>

section \<open>Compiled engines\<close>

definition sound_rate :: "rate_decl \<Rightarrow> bool" where
  "sound_rate r \<longleftrightarrow>
     (case rd_kind r of
        AdValorem \<Rightarrow> rd_proportion r \<noteq> None | Specific \<Rightarrow> rd_per_unit r \<noteq> None | Flat \<Rightarrow> rd_flat r \<noteq> None | _ \<Rightarrow> False)"

definition sound_levy :: "levy \<Rightarrow> bool" where
  "sound_levy l \<longleftrightarrow> lv_versions l \<noteq> [] \<and> (\<forall>v \<in> set (lv_versions l). sound_rate (vr_rate v))"

definition members_special :: "graph \<Rightarrow> bool" where
  "members_special g \<longleftrightarrow>
     (\<forall>(s, ms) \<in> set (gr_members g). \<exists>n. lookup_node (gr_nodes g) s = Some n \<and> ju_level n = Special)"

definition sound_engine :: "engine \<Rightarrow> bool" where
  "sound_engine e \<longleftrightarrow> wf_graph (en_graph e) \<and> members_special (en_graph e)
     \<and> (\<exists>bs u. new_rule_set bs u = Ok (en_rule_set e) \<and> (\<forall>b \<in> set bs. sr_mode (sb_rule b) \<noteq> ModeSpatial))
     \<and> set (en_covered e) = set (map (gd_country \<circ> rg_decl) (en_regimes e))
     \<and> (\<forall>l \<in> set (en_levies e). sound_levy l \<and> set (tb_components (cd_base (lv_decl l))) \<subseteq> set (engine_ids e))"

lemma version_rate_sound: "version_rate bk v = Ok (r, z, u) \<Longrightarrow> sound_rate r"
  by (auto simp: version_rate_def proportion_rate_def amount_rate_def plain_rate_def sound_rate_def split: if_splits)

lemma build_version_sound: "build_version bk loc v = Ok w \<Longrightarrow> sound_rate (vr_rate w)"
  by (auto simp: build_version_def dest: version_rate_sound split: if_splits)

lemma sorted_versions_sound:
  assumes "build_versions c loc = Ok vs"
  shows "vs \<noteq> [] \<and> (\<forall>v \<in> set vs. sound_rate (vr_rate v))"
proof -
  obtain us where us: "mapR (\<lambda>(i, v). map_err (LvVersion i) (build_version (tb_kind (cd_base c)) loc v)) (List.enumerate 0 (cd_versions c)) = Ok us"
    "vs = sort_by (\<lambda>a b. vr_from a < vr_from b) us" "cd_versions c \<noteq> []"
    using assms by (auto simp: build_versions_def Let_def split: if_splits)
  have "length us = length (cd_versions c)" using mapR_length[OF us(1)] by simp
  then have "vs \<noteq> []" using us(2,3) by (metis length_0_conv length_sort_by)
  moreover have "sound_rate (vr_rate v)" if "v \<in> set us" for v
    using mapR_set[OF us(1) that] by (auto dest: build_version_sound)
  ultimately show ?thesis using us(2) by simp
qed

lemma build_levy_sound: "build_levy zones g resp rgs c = Ok l \<Longrightarrow> sound_levy l \<and> lv_decl l = c"
  by (auto simp: build_levy_def sound_levy_def dest: sorted_versions_sound split: if_splits option.splits)

lemma add_levies_sound:
  assumes "foldR (add_levy zones g resp rgs) [] cs = Ok ls"
  shows "\<forall>l \<in> set ls. sound_levy l"
  by (rule foldR_invariant[OF assms]) (auto simp: add_levy_def dest: build_levy_sound split: if_splits)

lemma check_bases_refs:
  assumes "check_bases ls = Ok u" "l \<in> set ls" "ref \<in> set (tb_components (cd_base (lv_decl l)))"
  shows "ref \<in> set (map (cd_id \<circ> lv_decl) ls)"
proof -
  have "foldR (\<lambda>u l. foldR (check_base_ref ls l) () (tb_components (cd_base (lv_decl l)))) () ls = Ok ()"
    using assms(1) by (auto simp: check_bases_def)
  from foldR_unit_each[OF this assms(2)]
  have "foldR (\<lambda>u r. check_base_ref ls l () r) () (tb_components (cd_base (lv_decl l))) = Ok ()" by simp
  from foldR_unit_each[OF this assms(3)] have "check_base_ref ls l () ref = Ok ()" .
  then obtain d where "find (\<lambda>d. cd_id (lv_decl d) = ref) ls = Some d" by (auto simp: check_base_ref_def split: option.splits)
  then show ?thesis by (force simp: find_Some_iff)
qed

lemma put_members_special:
  assumes "foldR (add_membership ns) gm ms = Ok out" "\<forall>(s, xs) \<in> set gm. \<exists>n. lookup_node ns s = Some n \<and> ju_level n = Special"
  shows "\<forall>(s, xs) \<in> set out. \<exists>n. lookup_node ns s = Some n \<and> ju_level n = Special"
  by (rule foldR_invariant[OF assms(1), where P = "\<lambda>gm. \<forall>(s, xs) \<in> set gm. \<exists>n. lookup_node ns s = Some n \<and> ju_level n = Special"])
    (use assms(2) in \<open>auto simp: add_membership_def put_members_def split: option.splits if_splits\<close>)

lemma new_graph_members: "new_graph v nodes ms = Ok g \<Longrightarrow> members_special g"
  unfolding members_special_def
  by (auto simp: new_graph_def split: if_splits dest!: put_members_special)

lemma build_situs_plain:
  assumes "build_situs p = Ok rules"
  shows "\<exists>bs u. new_rule_set bs u = Ok rules \<and> (\<forall>b \<in> set bs. sr_mode (sb_rule b) \<noteq> ModeSpatial)"
proof -
  obtain bs where bs: "mapR build_binding (tx_rules p) = Ok bs" "new_rule_set bs (tx_undetermined p) = Ok rules"
    using assms by (auto simp: build_situs_def)
  have "sr_mode (sb_rule b) \<noteq> ModeSpatial" if "b \<in> set bs" for b
    using mapR_set[OF bs(1) that] by (auto simp: build_binding_def situs_rule_of_def split: if_splits)
  then show ?thesis using bs(2) by blast
qed

lemma compile_profile_parts:
  assumes "compile_profile zones p = Ok e"
  obtains by_code ls resp where "build_graph zones p = Ok (en_graph e, by_code)" "build_situs p = Ok (en_rule_set e)"
    "foldR (add_regime (en_countries e) by_code) [] (tx_regimes p) = Ok (en_regimes e)"
    "foldR (add_levy zones (en_graph e) resp (en_regimes e)) [] (tx_components p) = Ok ls"
    "en_levies e = sort_by (\<lambda>a b. cd_id (lv_decl a) < cd_id (lv_decl b)) ls" "check_bases (en_levies e) = Ok ()"
    "en_covered e = sort (map (gd_country \<circ> rg_decl) (en_regimes e))" "en_responsibility e = resp"
    "en_countries e = map jd_country (filter (\<lambda>j. jd_level j = Country) (tx_jurisdictions p))"
proof -
  note D = assms[unfolded compile_profile_def Let_def]
  obtain g by_code where g: "build_graph zones p = Ok (g, by_code)"
    using D by (cases "build_graph zones p") (auto split: if_splits)
  obtain rules where r: "build_situs p = Ok rules" using D g by (cases "build_situs p") (auto split: if_splits)
  obtain resp where a: "foldR add_responsibility [] (tx_responsibility p) = Ok resp"
    using D g r by (cases "foldR add_responsibility [] (tx_responsibility p)") (auto split: if_splits)
  let ?c = "map jd_country (filter (\<lambda>j. jd_level j = Country) (tx_jurisdictions p))"
  obtain rgs where x: "foldR (add_regime ?c by_code) [] (tx_regimes p) = Ok rgs"
    using D g r a by (cases "foldR (add_regime ?c by_code) [] (tx_regimes p)") (auto split: if_splits)
  obtain ls where l: "foldR (add_levy zones g resp rgs) [] (tx_components p) = Ok ls"
    using D g r a x by (cases "foldR (add_levy zones g resp rgs) [] (tx_components p)") (auto split: if_splits)
  let ?s = "sort_by (\<lambda>a b. cd_id (lv_decl a) < cd_id (lv_decl b)) ls"
  have b: "check_bases ?s = Ok ()" using D g r a x l by (cases "check_bases ?s") (auto split: if_splits)
  show thesis by (rule that[of by_code resp ls]) (use D g r a x l b in \<open>auto split: if_splits\<close>)
qed

lemma compile_profile_sound:
  assumes "compile_profile zones p = Ok e"
  shows "sound_engine e"
proof -
  obtain by_code ls resp where c: "build_graph zones p = Ok (en_graph e, by_code)" "build_situs p = Ok (en_rule_set e)"
    "foldR (add_levy zones (en_graph e) resp (en_regimes e)) [] (tx_components p) = Ok ls"
    "en_levies e = sort_by (\<lambda>a b. cd_id (lv_decl a) < cd_id (lv_decl b)) ls" "check_bases (en_levies e) = Ok ()"
    "en_covered e = sort (map (gd_country \<circ> rg_decl) (en_regimes e))"
    using compile_profile_parts[OF assms] by metis
  obtain v nodes ms where "new_graph v nodes ms = Ok (en_graph e)" using c(1) by (auto simp: build_graph_def)
  then have "wf_graph (en_graph e)" "members_special (en_graph e)" using new_graph_wf new_graph_members by blast+
  moreover have "\<forall>l \<in> set (en_levies e). sound_levy l" using add_levies_sound[OF c(3)] c(4) by simp
  moreover have "\<forall>l \<in> set (en_levies e). set (tb_components (cd_base (lv_decl l))) \<subseteq> set (engine_ids e)"
    using check_bases_refs[OF c(5)] unfolding engine_ids_def by blast
  ultimately show ?thesis unfolding sound_engine_def using build_situs_plain[OF c(2)] c(6) by simp
qed

section \<open>The place of supply is in a covered country\<close>

text \<open>Every general jurisdiction that applies has its country beside it.\<close>

definition grounded :: "jurisdiction list \<Rightarrow> bool" where
  "grounded js \<longleftrightarrow> (\<forall>j \<in> set js. ju_level j \<noteq> Special \<longrightarrow> (\<exists>k \<in> set js. ju_level k = Country \<and> ju_country k = ju_country j))"

lemma unique_ids_set:
  assumes "\<forall>x \<in> set xs. \<forall>y \<in> set xs. ju_id x = ju_id y \<longrightarrow> x = y"
  shows "set (unique_ids seen xs) = {x \<in> set xs. ju_id x \<notin> set seen}"
  using assms by (induction seen xs rule: unique_ids.induct) auto

lemma exists_at_id:
  assumes "wf_graph g" "exists_at g t x" "exists_at g t y" "ju_id x = ju_id y"
  shows "x = y"
proof -
  obtain n m where n: "n \<in> set (gr_nodes g)" "x = to_jurisdiction n" and m: "m \<in> set (gr_nodes g)" "y = to_jurisdiction m"
    using assms(2,3) unfolding exists_at_def by blast
  have "inj_on ju_id (set (gr_nodes g))" using assms(1) unfolding wf_graph_def distinct_map by blast
  then have "n = m" by (rule inj_onD) (use n m assms(4) in simp_all)
  then show ?thesis using n m by simp
qed

lemma walk_grounded:
  assumes "walk_shape g i t ns"
  shows "grounded (map to_jurisdiction ns)"
proof (cases "ju_level (hd ns) = Special")
  case True
  then have "length ns = 1" using assms by (simp add: walk_shape_def)
  then show ?thesis using True by (cases ns) (simp_all add: grounded_def)
next
  case False
  then have w: "ns \<noteq> []" "ju_level (last ns) = Country"
    "sorted_wrt (\<lambda>a b. rank0 (ju_level b) < rank0 (ju_level a) \<and> ju_country b = ju_country a) ns"
    using assms unfolding walk_shape_def by (simp_all only: if_False simp_thms)
  obtain xs x where ns: "ns = xs @ [x]" using w(1) by (metis rev_exhaust)
  have "\<forall>y \<in> set xs. ju_country x = ju_country y" using w(3) unfolding ns sorted_wrt_append by simp
  moreover have "ju_level x = Country" using w(2) unfolding ns by simp
  ultimately have "\<exists>k \<in> set ns. ju_level k = Country \<and> ju_country k = ju_country n" if "n \<in> set ns" for n
    using that unfolding ns by fastforce
  then show ?thesis unfolding grounded_def by simp
qed

lemma country_at_level:
  assumes "country_at g c t = Some n"
  shows "ju_level n = Country"
proof -
  let ?f = "filter (\<lambda>n. ju_level n = Country \<and> ju_country n = c \<and> valid_at n t) (gr_nodes g)"
  have "?f = [n]" using assms by (auto simp: country_at_def split: list.splits)
  then have "n \<in> set ?f" by simp
  then show ?thesis by simp
qed

lemma apply_roaming_grounded:
  assumes "apply_roaming g t ro js = Ok out" "grounded js" "\<forall>j \<in> set js. exists_at g t j" "wf_graph g"
  shows "grounded out"
proof -
  obtain home where h: "country_at g (ro_home ro) t = Some home" using assms(1) by (auto simp: apply_roaming_def split: option.splits)
  let ?h = "to_jurisdiction home"
  have lh: "ju_level ?h = Country" using country_at_level[OF h] by simp
  have "\<forall>x \<in> set (js @ [?h]). exists_at g t x" using assms(3) country_at_exists[OF h] by auto
  then have "\<forall>x \<in> set (js @ [?h]). \<forall>y \<in> set (js @ [?h]). ju_id x = ju_id y \<longrightarrow> x = y"
    using exists_at_id[OF assms(4)] by blast
  from unique_ids_set[OF this, of "[]"] have "set (unique_ids [] (js @ [?h])) = set (js @ [?h])" by auto
  moreover have "grounded (js @ [?h])" "grounded [?h]" using assms(2) lh by (auto simp: grounded_def)
  ultimately have "grounded (unique_ids [] (js @ [?h]))" by (simp add: grounded_def)
  then show ?thesis using assms(1,2) h \<open>grounded [?h]\<close>
    by (cases "ro_sourcing ro") (simp_all add: apply_roaming_def)
qed

lemma find_specials_special:
  assumes "find_specials rat_of ds r pt js p = Ok (q, sp)" "sr_mode r \<noteq> ModeSpatial" "members_special (rz_graph p)"
  shows "\<forall>j \<in> set sp. ju_level j = Special"
proof -
  let ?m = "map to_jurisdiction (specials_for (rz_graph p) (map ju_id js) (rz_time p))"
  have "sp = sort_by (\<lambda>a b. ju_id a < ju_id b) (unique_ids [] ?m)"
    using assms(1,2) by (auto simp: find_specials_def specials_at_point_def Let_def)
  then have "set sp \<subseteq> set ?m" using unique_ids_sub[of "[]" ?m] by simp
  moreover have "ju_level n = Special" if "n \<in> set (specials_for (rz_graph p) (map ju_id js) (rz_time p))" for n
    using that assms(3)
    by (fastforce simp: specials_for_def map_filter_set members_special_def dest: node_at_Some split: option.splits if_splits)
  ultimately show ?thesis by auto
qed

lemma apply_chain_grounded:
  assumes "apply_chain rat_of ds r covered primary pt ns p = Ok out" "walk_shape (rz_graph p) primary (rz_time p) ns"
    and "sr_mode r \<noteq> ModeSpatial" "members_special (rz_graph p)" "wf_graph (rz_graph p)" "so_applicable (rz_out p) = []"
  shows "grounded (so_applicable out)"
proof -
  obtain p1 ro o1 where d: "derive_roaming r ns (trace_note (StHierarchy primary (length ns - 1) (rz_time p)) p) = (p1, ro, o1)"
    by (cases "derive_roaming r ns (trace_note (StHierarchy primary (length ns - 1) (rz_time p)) p)") auto
  define p2 where "p2 = (case ro of None \<Rightarrow> p1 | Some x \<Rightarrow> p1\<lparr>rz_out := (rz_out p1)\<lparr>so_roaming := Some x\<rparr>\<rparr>)"
  have p2: "rz_graph p2 = rz_graph p" "rz_time p2 = rz_time p" "so_applicable (rz_out p2) = []"
    using derive_roaming_ok[OF d] assms(6) by (auto simp: p2_def same_base_def split: option.splits)
  show ?thesis
  proof (cases "ro \<noteq> None \<and> o1 \<noteq> Resolved")
    case True
    then have "out = finish_resolution o1 p2" using assms(1) d by (simp add: apply_chain_def p2_def)
    then show ?thesis using p2(3) by (simp add: finish_ok grounded_def)
  next
    case False
    let ?js = "map to_jurisdiction ns"
    obtain ap where ap: "(case ro of None \<Rightarrow> Ok ?js | Some x \<Rightarrow> apply_roaming (rz_graph p2) (rz_time p2) x ?js) = Ok ap"
      using assms(1) d False unfolding apply_chain_def p2_def by (auto simp: Let_def split: if_splits)
    obtain q sp where q: "find_specials rat_of ds r pt ap p2 = Ok (q, sp)"
      using assms(1) d False ap unfolding apply_chain_def p2_def by (auto simp: Let_def split: if_splits)
    define q2 where "q2 = q\<lparr>rz_out := (rz_out q)\<lparr>so_applicable := sort_applicable (ap @ sp)\<rparr>\<rparr>"
    obtain q3 o2 where q3: "coverage covered (place_of_supply primary q2) = (q3, o2)"
      by (cases "coverage covered (place_of_supply primary q2)") auto
    have out: "out = finish_resolution o2 q3"
      using assms(1) d False ap q q3 unfolding apply_chain_def p2_def q2_def by (auto simp: Let_def split: if_splits)
    have js: "\<forall>j \<in> set ?js. exists_at (rz_graph p) (rz_time p) j" using assms(2) by (auto simp: exists_at_def walk_shape_def)
    have g: "grounded ap"
      using ap apply_roaming_grounded[OF _ walk_grounded[OF assms(2)] js assms(5)] walk_grounded[OF assms(2)] p2(1,2)
      by (cases ro) auto
    have s: "\<forall>j \<in> set sp. ju_level j = Special" by (rule find_specials_special[OF q assms(3)]) (use assms(4) p2 in simp)
    have "so_applicable out = sort_applicable (ap @ sp)" unfolding out finish_ok using coverage_ok[OF q3] by (simp add: q2_def)
    moreover have "set (sort_applicable (ap @ sp)) = set ap \<union> set sp" by (simp add: sort_applicable_def)
    ultimately show ?thesis using g s unfolding grounded_def by fastforce
  qed
qed

lemma resolve_by_grounded:
  assumes "wf_graph g" "members_special g" "validate_rule r = Ok ()" "sr_mode r \<noteq> ModeSpatial"
    and "resolve_by rat_of ds r g rq p = Some (Ok out)" "rz_graph p = g" "so_applicable (rz_out p) = []"
  shows "grounded (so_applicable out)"
  using assms(5)
proof (cases rule: resolve_by_cases)
  case (1 q primary pt o1)
  have "mode_ok p (q, o1)" by (rule locate_ok[OF 1(1) assms(3)])
  then show ?thesis unfolding 1(3) finish_ok using assms(7) by (simp add: mode_ok_def same_base_def grounded_def)
next
  case (2 q primary pt ns)
  have m: "mode_ok p (q, Resolved)" by (rule locate_ok[OF 2(1) assms(3)])
  then have q: "rz_graph q = g" "so_applicable (rz_out q) = []" using assms(6,7) by (simp_all add: mode_ok_def same_base_def)
  have "walk_shape g primary (rz_time q) ns" using chain_shape[OF assms(1), of primary "rz_time q"] 2(2) by auto
  then show ?thesis using apply_chain_grounded[OF 2(3)] q assms(1,2,4) by simp
qed

lemma resolve_grounded:
  assumes "sound_engine e" "resolve rat_of (engine_resolver e) rq = Some (Ok out)"
  shows "grounded (so_applicable out)"
proof -
  obtain bs u where b: "new_rule_set bs u = Ok (en_rule_set e)" "\<forall>b \<in> set bs. sr_mode (sb_rule b) \<noteq> ModeSpatial"
    and g: "wf_graph (en_graph e)" "members_special (en_graph e)" using assms(1) by (auto simp: sound_engine_def)
  note R = assms(2)[unfolded engine_resolver_def]
  obtain items where items: "resolve_started rat_of (\<lambda>_. None) (en_rule_set e) (en_graph e) rq (started (en_rule_set e) (en_graph e) rq items)
      = Some (Ok out)" using resolve_cases[OF R] .
  from items show ?thesis
  proof (cases rule: started_cases)
    case (1 s)
    then show ?thesis by (simp add: finish_ok grounded_def)
  next
    case (2 r role)
    obtain b' where "b' \<in> set (rs_bindings (en_rule_set e))" "sb_rule b' = r" using select_rule_mem[OF 2(1)] by blast
    then have "validate_rule r = Ok ()" "sr_mode r \<noteq> ModeSpatial" using new_rule_set_ok[OF b(1)] b(2) by auto
    then show ?thesis by (rule resolve_by_grounded[OF g _ _ 2(2)]) (simp_all add: selected_def)
  qed
qed

lemma regime_in_covered: "sound_engine e \<Longrightarrow> c \<in> set (en_covered e) \<Longrightarrow> \<exists>rg. regime_in e c = Some rg"
  by (cases "regime_in e c") (auto simp: sound_engine_def regime_in_def find_None_iff)

lemma find_mem: "find P xs = Some x \<Longrightarrow> x \<in> set xs \<and> P x"
  by (metis (no_types, lifting) find_Some_iff nth_mem)

lemma deepest_general_mem:
  assumes "js \<noteq> []"
  obtains j where "deepest_general js = Some j" "j \<in> set js"
proof (cases "find (\<lambda>j. ju_level j \<noteq> Special) (rev js)")
  case None
  then show thesis using that[of "last js"] assms by (simp add: deepest_general_def primary_of_def)
next
  case (Some j)
  then show thesis using that[of j] find_mem[OF Some] by (simp add: deepest_general_def)
qed

text \<open>The jurisdiction the regime is looked up by: covered, or a special one.\<close>

lemma place_of_resolution:
  assumes "sound_engine e" "resolve rat_of (engine_resolver e) rq = Some (Ok out)" "so_outcome out = Resolved" "sq_covered rq = en_covered e"
  obtains j where "deepest_general (so_applicable out) = Some j" "exists_at (en_graph e) (sq_event_time rq) j"
    "ju_level j \<noteq> Special \<longrightarrow> ju_country j \<in> set (en_covered e)"
proof -
  obtain bs u where b: "new_rule_set bs u = Ok (en_rule_set e)" and g: "wf_graph (en_graph e)" using assms(1) by (auto simp: sound_engine_def)
  have l: "located (en_graph e) (sq_event_time rq) (en_covered e) out"
    using resolve_sound_result[OF g b assms(2)[unfolded engine_resolver_def]] assms(4) by (simp add: sound_result_def)
  then have ne: "so_applicable out \<noteq> []" using assms(3) by (simp add: located_def)
  obtain j where j: "deepest_general (so_applicable out) = Some j" "j \<in> set (so_applicable out)"
    by (rule deepest_general_mem[OF ne])
  have "ju_country j \<in> set (en_covered e)" if general: "ju_level j \<noteq> Special"
  proof -
    obtain k where "k \<in> set (so_applicable out)" "ju_level k = Country" "ju_country k = ju_country j"
      using resolve_grounded[OF assms(1,2), unfolded grounded_def, rule_format, OF j(2) general] by blast
    then show ?thesis using l assms(3) by (auto simp: located_def)
  qed
  then show thesis using that j l by (auto simp: located_def)
qed

end
