(* ===== verification/TaxSafety.thy ===== *)
theory TaxSafety
  imports TaxFacts ExactSum
begin

text \<open>
  What holds of the items of a determination: a selected component comes from the engine with the version in
  force, and is exempt only on a verified certificate; under a compiled engine no stage dereferences nil.
\<close>

section \<open>Selections\<close>

definition exempted_by :: "tax_run \<Rightarrow> levy \<Rightarrow> exemption_record \<Rightarrow> bool" where
  "exempted_by r l x \<longleftrightarrow> (\<exists>c \<in> set (td_certificates (rn_document r)). ct_id c = ex_certificate x \<and> ct_type c = ex_type x
     \<and> ct_type c \<in> set (cd_exempt_by (lv_decl l)) \<and> refusal r l c = [] \<and> ct_verification c = Verified)"

definition sound_selection :: "tax_run \<Rightarrow> selection \<Rightarrow> bool" where
  "sound_selection r s \<longleftrightarrow> sl_levy s \<in> set (en_levies (rn_engine r))
     \<and> version_at (sl_levy s) (rn_at r) = Some (sl_version s) \<and> sl_apply s \<in> set (cd_applies (lv_decl (sl_levy s)))
     \<and> (case sl_exemption s of
          None \<Rightarrow> sl_treatment s = ay_treatment (sl_apply s)
        | Some x \<Rightarrow> sl_treatment s = TreatmentExempt \<and> ay_treatment (sl_apply s) = CustomerCharge \<and> exempted_by r (sl_levy s) x)"

lemma find_exemption_verified:
  assumes "find_exemption r item l cs tr = (Some (x, False), tr')"
  shows "\<exists>c \<in> set cs. ct_id c = ex_certificate x \<and> ct_type c = ex_type x
     \<and> ct_type c \<in> set (cd_exempt_by (lv_decl l)) \<and> refusal r l c = [] \<and> ct_verification c = Verified"
  using assms
proof (induction cs arbitrary: tr)
  case (Cons c cs)
  show ?case
  proof (cases "ct_type c \<in> set (cd_exempt_by (lv_decl l)) \<and> refusal r l c = [] \<and> ct_verification c = Verified")
    case True
    then show ?thesis using Cons.prems by auto
  next
    case False
    then obtain tr'' where "find_exemption r item l cs tr'' = (Some (x, False), tr')"
      using Cons.prems by (auto split: if_splits verification.splits)
    then show ?thesis using Cons.IH by auto
  qed
qed simp

lemma take_levy_sound:
  assumes "take_levy r it l v a tr = Ok (Selected s, tr')" "l \<in> set (en_levies (rn_engine r))"
    and "version_at l (rn_at r) = Some v" "a \<in> set (cd_applies (lv_decl l))"
  shows "sound_selection r s"
proof -
  obtain ex tr1 where e: "exempted r (item_key it) l (ay_treatment a) tr = (ex, tr1)" by (metis surj_pair)
  show ?thesis
  proof (cases ex)
    case None
    then show ?thesis using assms e by (auto simp: take_levy_def Let_def sound_selection_def)
  next
    case (Some y)
    obtain x b where y: "y = (x, b)" by (cases y)
    then have b: "\<not> b" using assms(1) e Some by (auto simp: take_levy_def)
    with e y Some have "ay_treatment a = CustomerCharge"
      "find_exemption r (item_key it) l (td_certificates (rn_document r)) tr = (Some (x, False), tr1)"
      by (auto simp: exempted_def split: if_splits)
    moreover from find_exemption_verified[OF this(2)] have "exempted_by r l x" unfolding exempted_by_def .
    ultimately show ?thesis using assms e y Some b by (auto simp: take_levy_def Let_def sound_selection_def)
  qed
qed

lemma consider_levy_sound:
  assumes "consider_levy r rg it l tr = Ok (Selected s, tr')" "l \<in> set (en_levies (rn_engine r))"
  shows "sound_selection r s"
proof -
  obtain v a where va: "version_at l (rn_at r) = Some v" "matching_apply l (ir_role (ti_result it)) (ir_supply (ti_result it)) = Some a"
    and t: "take_levy r it l v a tr = Ok (Selected s, tr')"
    using assms(1) by (auto simp: consider_levy_def Let_def split: if_splits option.splits)
  have "a \<in> set (cd_applies (lv_decl l))" using va(2) unfolding matching_apply_def by (rule find_mem[THEN conjunct1])
  then show ?thesis by (rule take_levy_sound[OF t assms(2) va(1)])
qed

text \<open>An item before its resolution, and after it.\<close>

definition fresh_item :: "tax_item \<Rightarrow> bool" where
  "fresh_item it \<longleftrightarrow> ti_selected it = [] \<and> ir_charges (ti_result it) = [] \<and> ir_net (ti_result it) = None"

definition sound_item :: "tax_run \<Rightarrow> tax_item \<Rightarrow> bool" where
  "sound_item r it \<longleftrightarrow> (\<forall>s \<in> set (ti_selected it). sound_selection r s)
     \<and> ir_charges (ti_result it) = [] \<and> ir_net (ti_result it) = None"

lemma settled_sound [simp]:
  "settle_with state reason detail it tr = (it', tr') \<Longrightarrow> sound_item r it' = sound_item r it"
  "settle state reason detail' it tr = (it', tr') \<Longrightarrow> sound_item r it' = sound_item r it"
  by (auto simp: settle_def settle_with_def sound_item_def)

lemma select_levies_sound:
  assumes "select_levies r rg ls it tr = Ok (it', tr')" "sound_item r it" "set ls \<subseteq> set (en_levies (rn_engine r))"
  shows "sound_item r it'"
  using assms
proof (induction ls arbitrary: it tr)
  case Nil
  then show ?case by (auto split: if_splits)
next
  case (Cons l ls)
  obtain c tr1 where c: "consider_levy r rg it l tr = Ok (c, tr1)" using Cons.prems(1) by auto
  show ?case
  proof (cases c)
    case Passed
    then show ?thesis using Cons c by auto
  next
    case (Held state reason msg)
    then show ?thesis using Cons.prems c by auto
  next
    case (Selected s)
    then have s: "sound_selection r s" using consider_levy_sound c Cons.prems(3) by auto
    then have "sound_item r (it\<lparr>ti_selected := ti_selected it @ [s]\<rparr>)" using Cons.prems(2) by (auto simp: sound_item_def)
    then show ?thesis using Cons Selected c by auto
  qed
qed

lemma levy_stage_sound:
  assumes "levy_stage r sr it tr = Ok (it', tr')" "sound_item r it"
  shows "sound_item r it'"
proof -
  have u: "sound_item r (it\<lparr>ti_result := (ti_result it)\<lparr>ir_place := p, ir_supply := s, ir_regime := g\<rparr>\<rparr>)" for p s g
    using assms(2) by (simp add: sound_item_def)
  show ?thesis using assms(1) u by (auto simp: levy_stage_def Let_def dest!: select_levies_sound split: option.splits if_splits)
qed

lemma resolved_stage_sound:
  assumes "resolved_stage r res it tr = Ok (it', tr')" "sound_item r it"
  shows "sound_item r it'"
proof -
  have u: "sound_item r (record_situs sr b it)" for sr b using assms(2) by (simp add: sound_item_def record_situs_def)
  have s: "situs_stage r sr (record_situs sr b it) tr1 = Ok (it', tr') \<Longrightarrow> sound_item r it'" for sr b tr1
    using u levy_stage_sound by (auto simp: situs_stage_def Let_def split: option.splits outcome.splits)
  show ?thesis using assms s by (auto simp: resolved_stage_def Let_def split: result.splits)
qed

lemma resolve_item_sound:
  assumes "resolve_item rat_of r it tr = Some (Ok (it', tr'))" "fresh_item it"
  shows "sound_item r it'"
proof -
  have f: "sound_item r it" using assms(2) by (simp add: sound_item_def fresh_item_def)
  show ?thesis using assms(1) f by (auto simp: resolve_item_def Let_def dest: resolved_stage_sound split: if_splits)
qed

lemma resolve_items_each:
  assumes "resolve_items rat_of r its tr = Some (Ok (its', tr'))"
  shows "list_all2 (\<lambda>it it'. \<exists>tr tr'. resolve_item rat_of r it tr = Some (Ok (it', tr'))) its its'"
  using assms
proof (induction its arbitrary: tr its')
  case (Cons it its)
  obtain x where x: "resolve_item rat_of r it tr = Some x" "x \<noteq> Err e" for e
    using Cons.prems by (cases "resolve_item rat_of r it tr") (auto split: result.splits)
  obtain it1 tr1 where r: "resolve_item rat_of r it tr = Some (Ok (it1, tr1))"
    using x by (cases x) auto
  then obtain rest where "resolve_items rat_of r its tr1 = Some (Ok (rest, tr'))" "its' = it1 # rest"
    using Cons.prems by (auto split: result.splits)
  then show ?case using Cons.IH r by auto
qed simp

text \<open>The items a document is split into.\<close>

lemma items_fresh:
  assumes "prepare rat_of e d t est = Ok (r, its, tr)"
  shows "\<forall>it \<in> set its. fresh_item it" "rn_engine r = e" "rn_document r = d" "rn_at r = t"
proof -
  obtain country base tr0 where b: "document_evidence rat_of r est = Ok (base, tr0)"
    and f: "foldR (items_step rat_of r base) ([], tr0) (td_lines d) = Ok (its, tr)"
    and r: "r = \<lparr>rn_engine = e, rn_document = d, rn_at = t, rn_seller = country\<rparr>"
    using assms by (auto simp: prepare_def Let_def)
  have one: "\<forall>it \<in> set (line_items l ev). fresh_item it" for l ev
    by (simp add: line_items_def new_item_def fresh_item_def)
  have "\<forall>it \<in> set (fst (its, tr)). fresh_item it"
    by (rule foldR_invariant[OF f]) (use one in \<open>auto simp: items_step_def\<close>)
  then show "\<forall>it \<in> set its. fresh_item it" by simp
  show "rn_engine r = e" "rn_document r = d" "rn_at r = t" using r by simp_all
qed

section \<open>Every item settles\<close>

definition specials_covered :: "engine \<Rightarrow> bool" where
  "specials_covered e \<longleftrightarrow> (\<forall>n \<in> set (gr_nodes (en_graph e)). ju_level n = Special \<longrightarrow> ju_country n \<in> set (en_covered e))"

text \<open>A resolved item is placed where there is a regime.\<close>

definition placed :: "engine \<Rightarrow> tax_item \<Rightarrow> bool" where
  "placed e it \<longleftrightarrow> (ir_state (ti_result it) = StateResolved \<longrightarrow> regime_in e (item_country e it) \<noteq> None)"

lemma rate_value_total: "sound_rate (vr_rate v) \<Longrightarrow> \<exists>s. rate_value v = Ok s"
  by (auto simp: rate_value_def sound_rate_def Let_def split: rate_kind.splits)

lemma version_at_mem: "version_at l t = Some v \<Longrightarrow> v \<in> set (lv_versions l)"
  unfolding version_at_def using find_mem by fast

lemma take_levy_total:
  assumes "sound_rate (vr_rate v)"
  shows "\<exists>c tr'. take_levy r it l v a tr = Ok (c, tr') \<and> (\<forall>state reason msg. c = Held state reason msg \<longrightarrow> state = StateReview)"
proof -
  obtain s where "rate_value v = Ok s" using rate_value_total[OF assms] by blast
  then show ?thesis
    by (auto simp: take_levy_def Let_def rate_text_def split: prod.splits option.splits bool.splits)
qed

lemma consider_levy_total:
  assumes "sound_levy l"
  shows "\<exists>c tr'. consider_levy r rg it l tr = Ok (c, tr') \<and> (\<forall>state reason msg. c = Held state reason msg \<longrightarrow> state = StateReview)"
proof -
  have "sound_rate (vr_rate v)" if "version_at l (rn_at r) = Some v" for v
    using version_at_mem[OF that] assms by (simp add: sound_levy_def)
  then show ?thesis using take_levy_total by (auto simp: consider_levy_def Let_def split: option.splits)
qed

lemma select_levies_total:
  assumes "\<forall>l \<in> set ls. sound_levy l"
  shows "\<exists>it' tr'. select_levies r rg ls it tr = Ok (it', tr')
    \<and> (ir_state (ti_result it') = StateResolved \<longrightarrow> ti_result it' = ti_result it)"
  using assms
proof (induction ls arbitrary: it tr)
  case Nil
  then show ?case by (auto simp: settle_def settle_with_def)
next
  case (Cons l ls)
  obtain c tr1 where c: "consider_levy r rg it l tr = Ok (c, tr1)" "\<forall>state reason msg. c = Held state reason msg \<longrightarrow> state = StateReview"
    using consider_levy_total Cons.prems by (metis list.set_intros(1))
  have IH: "\<exists>it' tr'. select_levies r rg ls it2 tr1 = Ok (it', tr')
      \<and> (ir_state (ti_result it') = StateResolved \<longrightarrow> ti_result it' = ti_result it2)" for it2
    using Cons by simp
  show ?case
  proof (cases c)
    case Passed
    then show ?thesis using c IH by simp
  next
    case (Held state reason msg)
    then show ?thesis using c by (auto simp: settle_def settle_with_def)
  next
    case (Selected s)
    then show ?thesis using c IH[of "it\<lparr>ti_selected := ti_selected it @ [s]\<rparr>"] by simp
  qed
qed

lemma lookup_exists:
  assumes "wf_graph g" "exists_at g t j"
  obtains n where "lookup_node (gr_nodes g) (ju_id j) = Some n" "ju_country n = ju_country j"
proof -
  obtain m where m: "m \<in> set (gr_nodes g)" "j = to_jurisdiction m" using assms(2) unfolding exists_at_def by blast
  have "lookup_node (gr_nodes g) (ju_id m) \<noteq> None" using m(1) by (auto simp: lookup_node_def find_None_iff)
  then obtain n where n: "lookup_node (gr_nodes g) (ju_id m) = Some n" by blast
  then have "n \<in> set (gr_nodes g)" "ju_id n = ju_id m" using lookup_node_Some by blast+
  moreover have "inj_on ju_id (set (gr_nodes g))" using assms(1) unfolding wf_graph_def distinct_map by blast
  ultimately have "n = m" using m(1) by (meson inj_onD)
  then show thesis using that n m by simp
qed

lemma levy_stage_total:
  assumes "sound_engine (rn_engine r)" "deepest_general (so_applicable sr) = Some j" "exists_at (en_graph (rn_engine r)) t j"
    and "ju_country j \<in> set (en_covered (rn_engine r))"
  shows "\<exists>it' tr'. levy_stage r sr it tr = Ok (it', tr') \<and> placed (rn_engine r) it'"
proof -
  let ?e = "rn_engine r"
  obtain rg where rg: "regime_in ?e (ju_country j) = Some rg" using regime_in_covered[OF assms(1,4)] by blast
  have "wf_graph (en_graph ?e)" using assms(1) by (simp add: sound_engine_def)
  then obtain n where n: "lookup_node (gr_nodes (en_graph ?e)) (ju_id j) = Some n" "ju_country n = ju_country j"
    using lookup_exists assms(3) by blast
  have P: "placed ?e it'" if "ir_place (ti_result it') = ju_id j" for it'
    using that n rg by (simp add: placed_def item_country_def)
  have L: "\<exists>it' tr'. select_levies r rg (en_levies ?e) it1 tr1 = Ok (it', tr') \<and> placed ?e it'"
    if "ir_place (ti_result it1) = ju_id j" for it1 tr1
  proof -
    obtain it' tr' where i: "select_levies r rg (en_levies ?e) it1 tr1 = Ok (it', tr')"
      "ir_state (ti_result it') = StateResolved \<longrightarrow> ti_result it' = ti_result it1"
      using select_levies_total[of "en_levies ?e" r rg it1 tr1] assms(1) by (auto simp: sound_engine_def)
    show ?thesis
    proof (cases "ir_state (ti_result it') = StateResolved")
      case True
      then have "ir_place (ti_result it') = ju_id j" using i(2) that by simp
      then show ?thesis using i(1) P by blast
    qed (use i(1) in \<open>auto simp: placed_def\<close>)
  qed
  have T: "\<exists>it' tr'. settle state reason msg it1 tr1 = (it', tr') \<and> placed ?e it'" if "state \<noteq> StateResolved"
    for state reason msg it1 tr1 using that by (auto simp: settle_def settle_with_def placed_def)
  show ?thesis using L T unfolding levy_stage_def Let_def assms(2) option.case rg by simp
qed

lemma resolve_item_total:
  assumes "sound_engine (rn_engine r)" "specials_covered (rn_engine r)"
  shows "\<exists>it' tr'. resolve_item rat_of r it tr = Some (Ok (it', tr')) \<and> placed (rn_engine r) it'"
proof -
  let ?e = "rn_engine r"
  have T: "\<exists>it' tr'. settle_with state reason detail it1 tr1 = (it', tr') \<and> placed ?e it'" if "state \<noteq> StateResolved"
    for state reason detail it1 tr1 using that by (auto simp: settle_with_def placed_def)
  show ?thesis
  proof (cases "ir_service (ti_result it) = []")
    case True
    then show ?thesis using T by (simp add: resolve_item_def settle_def)
  next
    case False
    let ?rq = "\<lparr>sq_event_time = rn_at r, sq_ontology = ir_service (ti_result it), sq_evidence = ti_evidence it, sq_covered = en_covered ?e\<rparr>"
    have g: "wf_graph (en_graph ?e)" "rv_graph (engine_resolver ?e) = Some (en_graph ?e)"
      using assms(1) by (simp_all add: sound_engine_def engine_resolver_def)
    obtain res where res: "resolve rat_of (engine_resolver ?e) ?rq = Some res" using resolve_returns[OF g] by blast
    have "\<exists>it' tr'. resolved_stage r res it1 tr1 = Ok (it', tr') \<and> placed ?e it'" for it1 tr1
    proof (cases res)
      case (Err x)
      then show ?thesis using T by (simp add: resolved_stage_def)
    next
      case (Ok sr)
      have L: "\<exists>it' tr'. levy_stage r sr it2 tr2 = Ok (it', tr') \<and> placed ?e it'" if placed: "so_outcome sr = Resolved" for it2 tr2
      proof -
        obtain j where j: "deepest_general (so_applicable sr) = Some j" "exists_at (en_graph ?e) (rn_at r) j"
          "ju_level j \<noteq> Special \<longrightarrow> ju_country j \<in> set (en_covered ?e)"
          using place_of_resolution[OF assms(1) res[unfolded Ok] placed] by auto
        then have "ju_country j \<in> set (en_covered ?e)" using assms(2) by (auto simp: specials_covered_def exists_at_def)
        then show ?thesis using levy_stage_total[OF assms(1) j(1,2)] by blast
      qed
      have "\<exists>it' tr'. situs_stage r sr it2 tr2 = Ok (it', tr') \<and> placed ?e it'" for it2 tr2
        unfolding situs_stage_def Let_def settle_def using T L
        by (cases "outranks_from_outside ?e it2 sr"; cases "so_outcome sr") simp_all
      then show ?thesis using T Ok by (cases "encode (situs_value sr)") (simp_all add: resolved_stage_def Let_def)
    qed
    then show ?thesis using False res by (simp add: resolve_item_def Let_def)
  qed
qed

lemma resolve_items_total:
  assumes "sound_engine (rn_engine r)" "specials_covered (rn_engine r)"
  shows "\<exists>its' tr'. resolve_items rat_of r its tr = Some (Ok (its', tr')) \<and> (\<forall>it \<in> set its'. placed (rn_engine r) it)"
proof (induction its arbitrary: tr)
  case (Cons it its)
  obtain it1 tr1 where i: "resolve_item rat_of r it tr = Some (Ok (it1, tr1))" "placed (rn_engine r) it1"
    using resolve_item_total[OF assms] by blast
  obtain rest tr2 where "resolve_items rat_of r its tr1 = Some (Ok (rest, tr2))" "\<forall>it \<in> set rest. placed (rn_engine r) it"
    using Cons by blast
  then show ?case using i by simp
qed simp

end
