(* ===== verification/TaxTotals.thy ===== *)
theory TaxTotals
  imports TaxPlan Brackets
begin

text \<open>
  Collecting a result: every charge is posted to the totals its treatment names, so the totals and the emitted
  slots are the exact sums of the charges. Then the whole of \<open>conclude\<close>.
\<close>

section \<open>Tallies\<close>

definition slot_total :: "(string \<times> money) list \<Rightarrow> string \<Rightarrow> rat" where
  "slot_total em s = (case map_of em s of None \<Rightarrow> 0 | Some m \<Rightarrow> amount_of m)"

text \<open>What a charge adds to an emitted slot.\<close>

definition slot_part :: "string \<Rightarrow> charge \<Rightarrow> rat" where
  "slot_part s c =
     (case ch_treatment c of
        CustomerCharge \<Rightarrow> (if s = SlotCustomerTax then amount_of (ch_amount c) else 0) + (if s = ch_emit c then amount_of (ch_amount c) else 0)
      | ProviderCost \<Rightarrow> (if s = SlotProviderAccrual then amount_of (ch_amount c) else 0) + (if s = ch_emit c then amount_of (ch_amount c) else 0)
      | ReverseCharge \<Rightarrow> (if s = SlotReverseCharge then amount_of (ch_amount c) else 0)
      | _ \<Rightarrow> 0)"

definition treated :: "treatment \<Rightarrow> charge \<Rightarrow> rat" where
  "treated t c = (if ch_treatment c = t then amount_of (ch_amount c) else 0)"

definition wf_emitted :: "(string \<times> money) list \<Rightarrow> bool" where
  "wf_emitted em \<longleftrightarrow> (\<forall>s m. map_of em s = Some m \<longrightarrow> wf_money m)"

definition wf_tally :: "tally \<Rightarrow> bool" where
  "wf_tally y \<longleftrightarrow> wf_money (ta_net y) \<and> wf_money (ta_customer_tax y) \<and> wf_money (ta_accrual y) \<and> wf_money (ta_reverse y)
     \<and> wf_emitted (ta_emitted y)"

definition posted :: "tally \<Rightarrow> charge list \<Rightarrow> bool" where
  "posted y cs \<longleftrightarrow> amount_of (ta_customer_tax y) = (\<Sum>c\<leftarrow>cs. treated CustomerCharge c)
     \<and> amount_of (ta_accrual y) = (\<Sum>c\<leftarrow>cs. treated ProviderCost c)
     \<and> amount_of (ta_reverse y) = (\<Sum>c\<leftarrow>cs. treated ReverseCharge c)
     \<and> (\<forall>s. slot_total (ta_emitted y) s = (\<Sum>c\<leftarrow>cs. slot_part s c))"

lemma tax_add_ok: "tax_add a b = Ok s \<Longrightarrow> wf_money a \<Longrightarrow> wf_money b \<Longrightarrow> wf_money s \<and> amount_of s = amount_of a + amount_of b"
  using moneys.add_wf[of a b s] moneys.add_val[of a b s] by (simp add: tax_add_def)

lemma emit_ok:
  assumes "emit slot m y = Ok y'" "wf_money m" "wf_emitted (ta_emitted y)"
  shows "\<exists>em. y' = y\<lparr>ta_emitted := em\<rparr> \<and> wf_emitted em
    \<and> (\<forall>s. slot_total em s = slot_total (ta_emitted y) s + (if s = slot then amount_of m else 0))"
proof (cases "map_of (ta_emitted y) slot")
  case None
  then have "y' = y\<lparr>ta_emitted := ta_emitted y @ [(slot, m)]\<rparr>" using assms(1) by (simp add: emit_def)
  then show ?thesis using assms(2,3) None
    by (auto simp: wf_emitted_def slot_total_def map_of_append map_add_def split: option.splits if_splits)
next
  case (Some p)
  then obtain s where s: "tax_add p m = Ok s" "y' = y\<lparr>ta_emitted := AList.update slot s (ta_emitted y)\<rparr>"
    using assms(1) by (auto simp: emit_def)
  have "wf_money s \<and> amount_of s = amount_of p + amount_of m"
    using tax_add_ok[OF s(1)] assms(2,3) Some by (auto simp: wf_emitted_def)
  then show ?thesis using s(2) Some assms(3)
    by (intro exI[of _ "AList.update slot s (ta_emitted y)"]) (auto simp: wf_emitted_def slot_total_def update_conv' split: if_splits)
qed

lemma emit_twice:
  assumes "bindR (emit a m y) (emit b m) = Ok y'" "wf_money m" "wf_emitted (ta_emitted y)"
  shows "\<exists>em. y' = y\<lparr>ta_emitted := em\<rparr> \<and> wf_emitted em
    \<and> (\<forall>s. slot_total em s = slot_total (ta_emitted y) s + (if s = a then amount_of m else 0) + (if s = b then amount_of m else 0))"
proof -
  obtain y1 where y1: "emit a m y = Ok y1" "emit b m y1 = Ok y'" using assms(1) by auto
  obtain em where em: "y1 = y\<lparr>ta_emitted := em\<rparr>" "wf_emitted em"
    "\<forall>s. slot_total em s = slot_total (ta_emitted y) s + (if s = a then amount_of m else 0)"
    using emit_ok[OF y1(1) assms(2,3)] by blast
  obtain en where "y' = y1\<lparr>ta_emitted := en\<rparr>" "wf_emitted en"
    "\<forall>s. slot_total en s = slot_total em s + (if s = b then amount_of m else 0)"
    using emit_ok[OF y1(2) assms(2)] em(1,2) by auto
  then show ?thesis using em by (intro exI[of _ en]) simp
qed

lemma post_amount_ok:
  assumes "post_amount (ch_treatment c) (ch_emit c) (ch_amount c) y = Ok y'" "wf_money (ch_amount c)" "wf_tally y" "posted y cs"
  shows "wf_tally y' \<and> posted y' (cs @ [c]) \<and> ta_net y' = ta_net y"
proof -
  note w = assms(3)[unfolded wf_tally_def] and m = assms(2)
  show ?thesis
  proof (cases "ch_treatment c")
    case CustomerCharge
    then obtain s where s: "tax_add (ta_customer_tax y) (ch_amount c) = Ok s"
      and y1: "bindR (emit SlotCustomerTax (ch_amount c) (y\<lparr>ta_customer_tax := s\<rparr>)) (emit (ch_emit c) (ch_amount c)) = Ok y'"
      using assms(1) by (auto simp: post_amount_def)
    have sv: "wf_money s" "amount_of s = amount_of (ta_customer_tax y) + amount_of (ch_amount c)" using tax_add_ok[OF s] w m by auto
    show ?thesis using emit_twice[OF y1 m] w sv assms(4) CustomerCharge
      by (auto simp: wf_tally_def posted_def treated_def slot_part_def)
  next
    case ProviderCost
    then obtain s where s: "tax_add (ta_accrual y) (ch_amount c) = Ok s"
      and y1: "bindR (emit SlotProviderAccrual (ch_amount c) (y\<lparr>ta_accrual := s\<rparr>)) (emit (ch_emit c) (ch_amount c)) = Ok y'"
      using assms(1) by (auto simp: post_amount_def)
    have sv: "wf_money s" "amount_of s = amount_of (ta_accrual y) + amount_of (ch_amount c)" using tax_add_ok[OF s] w m by auto
    show ?thesis using emit_twice[OF y1 m] w sv assms(4) ProviderCost
      by (auto simp: wf_tally_def posted_def treated_def slot_part_def)
  next
    case ReverseCharge
    then obtain s where s: "tax_add (ta_reverse y) (ch_amount c) = Ok s"
      and y1: "emit SlotReverseCharge (ch_amount c) (y\<lparr>ta_reverse := s\<rparr>) = Ok y'"
      using assms(1) by (auto simp: post_amount_def)
    have sv: "wf_money s" "amount_of s = amount_of (ta_reverse y) + amount_of (ch_amount c)" using tax_add_ok[OF s] w m by auto
    obtain em where "y' = y\<lparr>ta_reverse := s, ta_emitted := em\<rparr>" "wf_emitted em"
      "\<forall>t. slot_total em t = slot_total (ta_emitted y) t + (if t = SlotReverseCharge then amount_of (ch_amount c) else 0)"
      using emit_ok[OF y1 m] w by auto
    then show ?thesis using w sv assms(4) ReverseCharge by (simp add: wf_tally_def posted_def treated_def slot_part_def)
  qed (use assms in \<open>auto simp: post_amount_def posted_def treated_def slot_part_def\<close>)
qed

text \<open>A charge of nothing leaves every sum as it is.\<close>

lemma posted_nothing:
  assumes "posted y cs" "amount_of (ch_amount c) = 0"
  shows "posted y (cs @ [c])"
  using assms by (simp add: posted_def treated_def slot_part_def split: treatment.split)

section \<open>One item's charges\<close>

definition charge_of :: "selection \<Rightarrow> charge \<Rightarrow> bool" where
  "charge_of s c \<longleftrightarrow> ch_id c = levy_id s \<and> ch_treatment c = sl_treatment s \<and> ch_emit c = cd_emit (lv_decl (sl_levy s))
     \<and> ch_jurisdiction c = cd_jurisdiction (lv_decl (sl_levy s)) \<and> ch_tax_type c = cd_tax_type (lv_decl (sl_levy s))
     \<and> (sl_exemption s = None \<longleftrightarrow> ch_exemption c = None)
     \<and> (\<forall>x. ch_exemption c = Some x \<longrightarrow> (\<exists>x0. sl_exemption s = Some x0 \<and> ex_certificate x = ex_certificate x0 \<and> ex_type x = ex_type x0)
          \<and> amount_of (ch_amount c) = 0 \<and> amount_of (ch_charged c) = 0 \<and> ch_reason c = LegallyExempt)
     \<and> (ch_exemption c = None \<longrightarrow> ch_charged c = (if ch_treatment c = CustomerCharge then ch_amount c else money_zero (ch_amount c)))"

lemma charge_selection_cases:
  assumes "charge_selection e its zero assessed found key (y, cs) s = Ok (y', cs')" "amount_of zero = 0"
  obtains c where "cs' = cs @ [c]" "charge_of s c"
    "ch_exemption c = None \<Longrightarrow> post_amount (ch_treatment c) (ch_emit c) (ch_amount c) y = Ok y'"
    "ch_exemption c \<noteq> None \<Longrightarrow> y' = y"
proof (cases "sl_exemption s")
  case None
  then show thesis using assms that
    by (force simp: charge_selection_def Let_def blank_charge_def charge_of_def levy_id_def split: option.splits)
next
  case (Some x)
  have "amount_of (ch_amount (exempt_charge zero a x c)) = 0 \<and> amount_of (ch_charged (exempt_charge zero a x c)) = 0" for a c
    using assms(2) by (simp add: exempt_charge_def Let_def split: option.split)
  then show thesis using assms(1) that Some
    by (force simp: charge_selection_def Let_def exempt_charge_def blank_charge_def charge_of_def levy_id_def)
qed


lemma charges_posted:
  assumes "foldR (charge_selection e its zero assessed found key) (y, cs) ss = Ok (y', cs')" "amount_of zero = 0"
  shows "\<exists>new. cs' = cs @ new \<and> list_all2 charge_of ss new
    \<and> ((\<forall>c \<in> set new. wf_money (ch_amount c)) \<longrightarrow> wf_tally y \<longrightarrow> posted y pre \<longrightarrow>
         wf_tally y' \<and> posted y' (pre @ new) \<and> ta_net y' = ta_net y)"
  using assms(1)
proof (induction ss arbitrary: y cs pre)
  case (Cons s ss)
  obtain y1 cs1 where one: "charge_selection e its zero assessed found key (y, cs) s = Ok (y1, cs1)"
    and rest: "foldR (charge_selection e its zero assessed found key) (y1, cs1) ss = Ok (y', cs')" using Cons.prems by auto
  obtain c where c: "cs1 = cs @ [c]" "charge_of s c"
    "ch_exemption c = None \<Longrightarrow> post_amount (ch_treatment c) (ch_emit c) (ch_amount c) y = Ok y1"
    "ch_exemption c \<noteq> None \<Longrightarrow> y1 = y" using charge_selection_cases[OF one assms(2)] by metis
  have step: "wf_tally y1 \<and> posted y1 (pre @ [c]) \<and> ta_net y1 = ta_net y"
    if w: "wf_money (ch_amount c)" "wf_tally y" "posted y pre"
  proof (cases "ch_exemption c = None")
    case True
    then show ?thesis using post_amount_ok[OF c(3)] w by blast
  next
    case False
    then have "amount_of (ch_amount c) = 0" using c(2) by (auto simp: charge_of_def)
    then show ?thesis using c(4)[OF False] w posted_nothing by simp
  qed
  obtain new where new: "cs' = cs1 @ new" "list_all2 charge_of ss new"
    "(\<forall>c \<in> set new. wf_money (ch_amount c)) \<longrightarrow> wf_tally y1 \<longrightarrow> posted y1 (pre @ [c]) \<longrightarrow>
       wf_tally y' \<and> posted y' ((pre @ [c]) @ new) \<and> ta_net y' = ta_net y1" using Cons.IH[OF rest] by blast
  show ?case by (intro exI[of _ "c # new"]) (use new c step in auto)
qed simp

section \<open>The items collected\<close>

definition collected :: "tax_item \<Rightarrow> tax_item \<Rightarrow> bool" where
  "collected it it' \<longleftrightarrow> (\<exists>n cs. it' = it\<lparr>ti_result := (ti_result it)\<lparr>ir_net := Some n, ir_charges := cs\<rparr>\<rparr> \<and> list_all2 charge_of (ti_selected it) cs)"

definition net_of :: "item_result \<Rightarrow> rat" where
  "net_of i = (case ir_net i of None \<Rightarrow> 0 | Some m \<Rightarrow> amount_of m)"

definition wf_item_result :: "item_result \<Rightarrow> bool" where
  "wf_item_result i \<longleftrightarrow> (\<forall>m. ir_net i = Some m \<longrightarrow> wf_money m) \<and> (\<forall>c \<in> set (ir_charges i). wf_money (ch_amount c))"

definition all_charges :: "item_result list \<Rightarrow> charge list" where
  "all_charges is = concat (map ir_charges is)"

lemma collect_items:
  assumes "foldR (collect_item e its zero assessed) (y, out) xs = Ok (y', out')" "amount_of zero = 0"
  shows "\<exists>new. out' = out @ new \<and> list_all2 collected (map fst xs) new
    \<and> ((\<forall>it \<in> set new. wf_item_result (ti_result it)) \<longrightarrow> wf_tally y \<longrightarrow> posted y pre \<longrightarrow>
         wf_tally y' \<and> posted y' (pre @ all_charges (map ti_result new))
         \<and> amount_of (ta_net y') = amount_of (ta_net y) + (\<Sum>it\<leftarrow>new. net_of (ti_result it)))"
  using assms(1)
proof (induction xs arbitrary: y out pre)
  case (Cons x xs)
  obtain it lr where x: "x = (it, lr)" by (cases x)
  obtain y1 out1 where one: "collect_item e its zero assessed (y, out) (it, lr) = Ok (y1, out1)"
    and rest: "foldR (collect_item e its zero assessed) (y1, out1) xs = Ok (y', out')" using Cons.prems x by auto
  obtain n cs where n: "tax_add (ta_net y) (lr_net lr) = Ok n"
    and cs: "foldR (charge_selection e its zero (assessed_of assessed (item_key it)) (amounts_of lr) (item_key it)) (y\<lparr>ta_net := n\<rparr>, [])
      (ti_selected it) = Ok (y1, cs)"
    and out1: "out1 = out @ [it\<lparr>ti_result := (ti_result it)\<lparr>ir_net := Some (lr_net lr), ir_charges := cs\<rparr>\<rparr>]"
    using one by (auto simp: collect_item_def)
  define it' where "it' = it\<lparr>ti_result := (ti_result it)\<lparr>ir_net := Some (lr_net lr), ir_charges := cs\<rparr>\<rparr>"
  have c: "list_all2 charge_of (ti_selected it) cs"
    "(\<forall>c \<in> set cs. wf_money (ch_amount c)) \<longrightarrow> wf_tally (y\<lparr>ta_net := n\<rparr>) \<longrightarrow> posted (y\<lparr>ta_net := n\<rparr>) pre \<longrightarrow>
       wf_tally y1 \<and> posted y1 (pre @ cs) \<and> ta_net y1 = n"
    using charges_posted[OF cs assms(2), of pre] by auto
  have it': "collected it it'" using c(1) by (auto simp: collected_def it'_def)
  have step: "wf_tally y1 \<and> posted y1 (pre @ cs) \<and> amount_of (ta_net y1) = amount_of (ta_net y) + net_of (ti_result it')"
    if "wf_item_result (ti_result it')" "wf_tally y" "posted y pre"
  proof -
    have w: "wf_money (lr_net lr)" "\<forall>c \<in> set cs. wf_money (ch_amount c)" using that(1) by (simp_all add: wf_item_result_def it'_def)
    have "wf_money n \<and> amount_of n = amount_of (ta_net y) + amount_of (lr_net lr)"
      using tax_add_ok[OF n] that(2) w(1) by (simp add: wf_tally_def)
    moreover have "posted (y\<lparr>ta_net := n\<rparr>) pre" using that(3) by (simp add: posted_def)
    ultimately show ?thesis using c(2) w(2) that(2) by (auto simp: wf_tally_def net_of_def it'_def)
  qed
  obtain new where new: "out' = out1 @ new" "list_all2 collected (map fst xs) new"
    "(\<forall>it \<in> set new. wf_item_result (ti_result it)) \<longrightarrow> wf_tally y1 \<longrightarrow> posted y1 (pre @ cs) \<longrightarrow>
       wf_tally y' \<and> posted y' ((pre @ cs) @ all_charges (map ti_result new))
       \<and> amount_of (ta_net y') = amount_of (ta_net y1) + (\<Sum>it\<leftarrow>new. net_of (ti_result it))"
    using Cons.IH[OF rest, of "pre @ cs"] by blast
  have "all_charges (map ti_result (it' # new)) = cs @ all_charges (map ti_result new)" by (simp add: all_charges_def it'_def)
  then show ?case using new step it' out1 x by (intro exI[of _ "it' # new"]) (auto simp: it'_def[symmetric])
qed (simp add: all_charges_def)

text \<open>The totals of a result: the exact sums over its items and their charges.\<close>

definition exact_totals :: "tax_result \<Rightarrow> bool" where
  "exact_totals out \<longleftrightarrow> (\<exists>t. xr_totals out = Some t
     \<and> amount_of (to_net t) = (\<Sum>i\<leftarrow>xr_items out. net_of i)
     \<and> amount_of (to_customer_tax t) = (\<Sum>c\<leftarrow>all_charges (xr_items out). treated CustomerCharge c)
     \<and> amount_of (to_customer_total t) = amount_of (to_net t) + amount_of (to_customer_tax t)
     \<and> amount_of (to_accrual t) = (\<Sum>c\<leftarrow>all_charges (xr_items out). treated ProviderCost c)
     \<and> amount_of (to_reverse t) = (\<Sum>c\<leftarrow>all_charges (xr_items out). treated ReverseCharge c)
     \<and> (\<forall>s. slot_total (xr_emitted out) s = (\<Sum>c\<leftarrow>all_charges (xr_items out). slot_part s c)))"

lemma collect_result_exact:
  assumes "collect_result e its actual assessed out = Ok (its', out')"
  shows "list_all2 collected (map fst (zip its (dn_lines actual))) its' \<and> xr_state out' = xr_state out \<and> xr_reason out' = xr_reason out
    \<and> xr_totals out' \<noteq> None
    \<and> ((\<forall>it \<in> set its'. wf_item_result (ti_result it)) \<longrightarrow> exact_totals (out'\<lparr>xr_items := map ti_result its', xr_trace := tr\<rparr>))"
proof -
  obtain l ls where l: "dn_lines actual = l # ls" using assms by (cases "dn_lines actual") (auto simp: collect_result_def)
  let ?zero = "money_zero (lr_net l)"
  let ?y = "\<lparr>ta_net = ?zero, ta_customer_tax = ?zero, ta_accrual = ?zero, ta_reverse = ?zero, ta_emitted = map (\<lambda>s. (s, ?zero)) aggregate_slots\<rparr>"
  obtain y total where f: "foldR (collect_item e its ?zero assessed) (?y, []) (zip its (dn_lines actual)) = Ok (y, its')"
    and t: "tax_add (ta_net y) (ta_customer_tax y) = Ok total"
    and out': "out' = out\<lparr>xr_totals := Some \<lparr>to_net = ta_net y, to_customer_tax = ta_customer_tax y, to_customer_total = total,
                  to_accrual = ta_accrual y, to_reverse = ta_reverse y\<rparr>, xr_emitted := ta_emitted y\<rparr>"
    using assms l by (auto simp: collect_result_def Let_def split: if_splits)
  have z: "amount_of ?zero = 0" "wf_money ?zero" by simp_all
  have y0: "wf_tally ?y" "posted ?y []"
    using z by (auto simp: wf_tally_def wf_emitted_def posted_def slot_total_def aggregate_slots_def)
  have c: "list_all2 collected (map fst (zip its (dn_lines actual))) its'"
    "(\<forall>it \<in> set its'. wf_item_result (ti_result it)) \<longrightarrow> wf_tally y \<and> posted y (all_charges (map ti_result its'))
       \<and> amount_of (ta_net y) = (\<Sum>it\<leftarrow>its'. net_of (ti_result it))"
    using collect_items[OF f z(1), of "[]"] y0 z(1) by auto
  have "exact_totals (out'\<lparr>xr_items := map ti_result its', xr_trace := tr\<rparr>)" if "\<forall>it \<in> set its'. wf_item_result (ti_result it)"
  proof -
    have "amount_of total = amount_of (ta_net y) + amount_of (ta_customer_tax y)"
      using tax_add_ok[OF t] c(2) that by (simp add: wf_tally_def)
    then show ?thesis using c(2) that by (simp add: exact_totals_def out' posted_def comp_def)
  qed
  then show ?thesis using c(1) out' by simp
qed


section \<open>The document's state\<close>

lemma worst_state:
  "(\<forall>it \<in> set its. severity (ir_state (ti_result it)) \<le> severity (xr_state (foldl worse o0 its)))
   \<and> severity (xr_state o0) \<le> severity (xr_state (foldl worse o0 its))
   \<and> (\<exists>s m. foldl worse o0 its = o0\<lparr>xr_state := s, xr_reason := m\<rparr>
        \<and> (s = xr_state o0 \<and> m = xr_reason o0 \<or> (\<exists>it \<in> set its. ir_state (ti_result it) = s \<and> ir_reason (ti_result it) = m)))"
proof (induction its arbitrary: o0)
  case (Cons it its)
  obtain s m where w: "worse o0 it = o0\<lparr>xr_state := s, xr_reason := m\<rparr>" "severity (xr_state o0) \<le> severity s"
    "severity (ir_state (ti_result it)) \<le> severity s"
    "s = xr_state o0 \<and> m = xr_reason o0 \<or> ir_state (ti_result it) = s \<and> ir_reason (ti_result it) = m"
  proof (cases "severity (xr_state o0) < severity (ir_state (ti_result it))")
    case True
    then show thesis by (intro that[where s = "ir_state (ti_result it)" and m = "ir_reason (ti_result it)"]) (simp_all add: worse_def)
  next
    case False
    then show thesis by (intro that[where s = "xr_state o0" and m = "xr_reason o0"]) (simp_all add: worse_def)
  qed
  from Cons.IH[of "worse o0 it"] obtain s2 m2 where i: "\<forall>it' \<in> set its. severity (ir_state (ti_result it')) \<le> severity (xr_state (foldl worse (worse o0 it) its))"
    "severity (xr_state (worse o0 it)) \<le> severity (xr_state (foldl worse (worse o0 it) its))"
    "foldl worse (worse o0 it) its = (worse o0 it)\<lparr>xr_state := s2, xr_reason := m2\<rparr>"
    "s2 = xr_state (worse o0 it) \<and> m2 = xr_reason (worse o0 it) \<or> (\<exists>it' \<in> set its. ir_state (ti_result it') = s2 \<and> ir_reason (ti_result it') = m2)"
    by blast
  have e: "foldl worse o0 (it # its) = o0\<lparr>xr_state := s2, xr_reason := m2\<rparr>" using i(3) w(1) by simp
  have v: "severity s \<le> severity s2" "\<forall>it' \<in> set its. severity (ir_state (ti_result it')) \<le> severity s2"
    using i(1-3) w(1) by simp_all
  have "s2 = xr_state o0 \<and> m2 = xr_reason o0 \<or> (\<exists>it' \<in> set (it # its). ir_state (ti_result it') = s2 \<and> ir_reason (ti_result it') = m2)"
    using i(4) w(1,4) by auto
  moreover have "\<forall>it' \<in> set (it # its). severity (ir_state (ti_result it')) \<le> severity s2" using v w(3) by auto
  moreover have "severity (xr_state o0) \<le> severity s2" using v(1) w(2) by simp
  ultimately show ?case unfolding e by (intro conjI exI[of _ s2] exI[of _ m2]) simp_all
qed simp

lemma severity_resolved: "severity s = 0 \<longleftrightarrow> s = StateResolved"
  by (cases s) simp_all

definition worst_of :: "tax_run \<Rightarrow> tax_item list \<Rightarrow> tax_result" where
  "worst_of r its = foldl worse (empty_result (rn_engine r) (rn_document r)) its"

lemma worst_of_facts:
  "\<forall>it \<in> set its. severity (ir_state (ti_result it)) \<le> severity (xr_state (worst_of r its))"
  "xr_totals (worst_of r its) = None" "xr_emitted (worst_of r its) = []" "xr_price_mode (worst_of r its) = td_price_mode (rn_document r)"
  "xr_state (worst_of r its) \<noteq> StateResolved \<Longrightarrow>
     \<exists>it \<in> set its. ir_state (ti_result it) = xr_state (worst_of r its) \<and> ir_reason (ti_result it) = xr_reason (worst_of r its)"
proof -
  obtain s m where w: "worst_of r its = (empty_result (rn_engine r) (rn_document r))\<lparr>xr_state := s, xr_reason := m\<rparr>"
    "s = StateResolved \<or> (\<exists>it \<in> set its. ir_state (ti_result it) = s \<and> ir_reason (ti_result it) = m)"
    using worst_state[of its "empty_result (rn_engine r) (rn_document r)"] unfolding worst_of_def by (auto simp: empty_result_def)
  show "\<forall>it \<in> set its. severity (ir_state (ti_result it)) \<le> severity (xr_state (worst_of r its))"
    using worst_state[of its "empty_result (rn_engine r) (rn_document r)"] unfolding worst_of_def by blast
  show "xr_totals (worst_of r its) = None" "xr_emitted (worst_of r its) = []" "xr_price_mode (worst_of r its) = td_price_mode (rn_document r)"
    using w(1) by (simp_all add: empty_result_def)
  show "xr_state (worst_of r its) \<noteq> StateResolved \<Longrightarrow>
     \<exists>it \<in> set its. ir_state (ti_result it) = xr_state (worst_of r its) \<and> ir_reason (ti_result it) = xr_reason (worst_of r its)"
    using w by auto
qed

lemma worst_resolved: "xr_state (worst_of r its) = StateResolved \<Longrightarrow> it \<in> set its \<Longrightarrow> ir_state (ti_result it) = StateResolved"
  using worst_of_facts(1)[of its r] by (auto simp: severity_resolved)

lemma conclude_cases:
  assumes "conclude r its tr = Ok out"
  obtains (Unresolved) "xr_state (worst_of r its) \<noteq> StateResolved" "out = (worst_of r its)\<lparr>xr_items := map ti_result its, xr_trace := tr\<rparr>"
  | (Inclusive) tr' where "xr_state (worst_of r its) = StateResolved" "td_price_mode (rn_document r) = PriceInclusive"
      "out = (worst_of r its)\<lparr>xr_state := StateUnsupported, xr_reason := ''INCLUSIVE_PRICING_UNSUPPORTED'', xr_items := map ti_result its, xr_trace := tr'\<rparr>"
  | (Evaluated) actual assessed its' o1 tr' where "xr_state (worst_of r its) = StateResolved" "length (dn_lines actual) = length its"
      "collect_result (rn_engine r) its actual assessed (worst_of r its) = Ok (its', o1)"
      "out = o1\<lparr>xr_items := map ti_result its', xr_trace := tr'\<rparr>"
proof (cases "xr_state (worst_of r its) = StateResolved")
  case False
  then show thesis using assms Unresolved by (simp add: conclude_def Let_def worst_of_def)
next
  case True
  obtain i1 o1 t1 where e: "evaluate_items r its tr (worst_of r its) = Ok (i1, o1, t1)" "out = o1\<lparr>xr_items := map ti_result i1, xr_trace := t1\<rparr>"
    using assms True by (auto simp: conclude_def Let_def worst_of_def)
  have E: thesis if "evaluate_with r its inclusive extraction tr (worst_of r its) = Ok (i1, o1, t1)" for inclusive extraction
  proof -
    obtain actual assessed where "run_plan r its inclusive extraction False = Ok actual"
      "collect_result (rn_engine r) its actual assessed (worst_of r its) = Ok (i1, o1)"
      using \<open>evaluate_with r its inclusive extraction tr (worst_of r its) = Ok (i1, o1, t1)\<close> by (auto simp: evaluate_with_def)
    then show thesis using Evaluated True run_plan_lines(1) e(2) by blast
  qed
  show thesis
  proof (cases "td_price_mode (rn_document r) = PriceInclusive")
    case False
    then show thesis using e(1) E by (simp add: evaluate_items_def)
  next
    case inc: True
    then obtain x where x: "shared_extraction (rn_engine r) None its = Ok x" using e(1) by (auto simp: evaluate_items_def)
    show thesis
    proof (cases x)
      case (Inl y)
      then show thesis using e x inc True Inclusive by (cases y) (auto simp: evaluate_items_def)
    next
      case (Inr extraction)
      then show thesis using e(1) x inc E by (simp add: evaluate_items_def)
    qed
  qed
qed

lemma resolve_items_sound:
  assumes "resolve_items rat_of r its tr = Some (Ok (its', tr'))" "\<forall>it \<in> set its. fresh_item it"
  shows "\<forall>it \<in> set its'. sound_item r it"
proof
  fix it' assume "it' \<in> set its'"
  then obtain k where k: "k < length its'" "its' ! k = it'" by (auto simp: in_set_conv_nth)
  note l = resolve_items_each[OF assms(1)]
  then have len: "length its = length its'" by (rule list_all2_lengthD)
  obtain tr1 tr2 where "resolve_item rat_of r (its ! k) tr1 = Some (Ok (its' ! k, tr2))"
    using list_all2_nthD2[OF l k(1)] by blast
  then show "sound_item r it'" using resolve_item_sound assms(2) k len by auto
qed

lemma determine_cases:
  assumes "determine rat_of e d t = Some (Ok out)"
  obtains r its tr where "rn_engine r = e" "rn_document r = d" "rn_at r = t" "\<forall>it \<in> set its. sound_item r it" "conclude r its tr = Ok out"
proof -
  obtain est r its tr where p: "prepare rat_of e d t est = Ok (r, its, tr)"
    and y: "map_option (\<lambda>y. bindR y (\<lambda>(its, tr). conclude r its tr)) (resolve_items rat_of r its tr) = Some (Ok out)"
    using assms by (auto simp: determine_def split: if_splits result.splits option.splits)
  from y obtain its' tr' where i: "resolve_items rat_of r its tr = Some (Ok (its', tr'))" "conclude r its' tr' = Ok out" by auto
  note f = items_fresh[OF p]
  have "\<forall>it \<in> set its'. sound_item r it" by (rule resolve_items_sound[OF i(1) f(1)])
  then show thesis using that f(2-4) i(2) by blast
qed

section \<open>No panic\<close>

lemma charge_selection_no_panic:
  assumes "charge_selection e its zero assessed found key acc s = Err x" "sound_rate (vr_rate (sl_version s))"
  shows "\<not> panics x"
proof -
  obtain rt where rt: "rate_value (sl_version s) = Ok rt" using rate_value_total[OF assms(2)] by blast
  have e: "emit slot m y = Err x \<Longrightarrow> \<not> panics x" for slot m y
    by (auto simp: emit_def tax_add_def panics_def result_simps split: option.splits)
  have p: "post_amount t slot m y = Err x \<Longrightarrow> \<not> panics x" for t slot m y
    by (cases t) (auto simp: post_amount_def tax_add_def result_simps panics_def[of "TxFiscal _"] dest: e)
  show ?thesis using assms(1) rt
    by (cases acc) (auto simp: charge_selection_def Let_def result_simps panics_def[of "TxNoResult _ _"] dest: p split: option.splits)
qed

lemma collect_no_panic:
  assumes "collect_result e its actual assessed out = Err x" "length (dn_lines actual) = length its" "dn_lines actual \<noteq> []"
    and "\<forall>it \<in> set its. \<forall>s \<in> set (ti_selected it). sound_rate (vr_rate (sl_version s))"
  shows "\<not> panics x"
proof -
  obtain l ls where l: "dn_lines actual = l # ls" using assms(3) by (cases "dn_lines actual") auto
  have c: "\<not> panics x" if f: "foldR (collect_item e its zero assessed) acc (zip its (l # ls)) = Err x" for zero acc
  proof -
    obtain acc1 z where z: "z \<in> set (zip its (l # ls))" "collect_item e its zero assessed acc1 z = Err x"
      using foldR_panic[OF f, of "\<lambda>_. True"] by auto
    obtain it lr y1 out1 where k: "z = (it, lr)" "acc1 = (y1, out1)" by (cases z, cases acc1)
    then have it: "it \<in> set its" using z(1) by (auto dest: set_zip_leftD)
    show ?thesis
    proof (cases "tax_add (ta_net y1) (lr_net lr)")
      case (Err y)
      then show ?thesis using z(2) k by (auto simp: collect_item_def tax_add_def panics_def result_simps)
    next
      case (Ok n)
      let ?f = "charge_selection e its zero (assessed_of assessed (item_key it)) (amounts_of lr) (item_key it)"
      have f: "foldR ?f (y1\<lparr>ta_net := n\<rparr>, []) (ti_selected it) = Err x"
        using z(2) k Ok by (auto simp: collect_item_def result_simps)
      obtain acc2 s where "s \<in> set (ti_selected it)" "?f acc2 s = Err x" using foldR_panic[OF f, of "\<lambda>_. True"] by auto
      then show ?thesis using charge_selection_no_panic assms(4) it by blast
    qed
  qed
  have a: "tax_add p q = Err x \<Longrightarrow> \<not> panics x" for p q by (auto simp: tax_add_def panics_def result_simps)
  show ?thesis using assms(1,2) l by (auto simp: collect_result_def Let_def result_simps dest!: c a split: prod.splits)
qed

lemma conclude_no_panic:
  assumes "sound_engine (rn_engine r)" "\<forall>it \<in> set its. sound_item r it \<and> placed (rn_engine r) it" "conclude r its tr = Err x"
  shows "\<not> panics x"
proof -
  have s: "\<forall>s \<in> set (all_selected its). sound_selection r s" using assms(2) by (auto simp: all_selected_def sound_item_def)
  have rates: "\<forall>it \<in> set its. \<forall>s \<in> set (ti_selected it). sound_rate (vr_rate (sl_version s))"
  proof (intro ballI)
    fix it s assume "it \<in> set its" "s \<in> set (ti_selected it)"
    then have "sound_selection r s" using assms(2) by (simp add: sound_item_def)
    then have "sl_levy s \<in> set (en_levies (rn_engine r))" "sl_version s \<in> set (lv_versions (sl_levy s))"
      using version_at_mem unfolding sound_selection_def by blast+
    then show "sound_rate (vr_rate (sl_version s))" using assms(1) by (auto simp: sound_engine_def sound_levy_def)
  qed
  have resolved: "xr_state (worst_of r its) = StateResolved" and e: "evaluate_items r its tr (worst_of r its) = Err x"
    using assms(3) by (auto simp: conclude_def Let_def worst_of_def result_simps split: if_splits)
  have E: "\<not> panics x" if w: "evaluate_with r its inclusive extraction tr (worst_of r its) = Err x" for inclusive extraction
  proof (cases "run_plan r its inclusive extraction False")
    case (Err y)
    then show ?thesis using w run_plan_no_panic[OF assms(1) s Err] by (simp add: evaluate_with_def)
  next
    case (Ok actual)
    note L = run_plan_lines[OF Ok]
    show ?thesis
    proof (cases "has_exemption its \<and> (\<exists>y. run_plan r its inclusive extraction True = Err y)")
      case True
      then obtain y where y: "run_plan r its inclusive extraction True = Err y" by blast
      then show ?thesis using w True Ok run_plan_no_panic[OF assms(1) s y] by (simp add: evaluate_with_def)
    next
      case False
      then obtain assessed where "collect_result (rn_engine r) its actual assessed (worst_of r its) = Err x"
        using w Ok by (cases "run_plan r its inclusive extraction True") (auto simp: evaluate_with_def result_simps split: if_splits)
      then show ?thesis using collect_no_panic L rates by blast
    qed
  qed
  have sh: "shared_extraction (rn_engine r) p js \<noteq> Err y" if "set js \<subseteq> set its" for p js y
    using that
  proof (induction js arbitrary: p)
    case (Cons it js)
    have "ir_state (ti_result it) = StateResolved" using worst_resolved[OF resolved] Cons.prems by simp
    then have "regime_in (rn_engine r) (item_country (rn_engine r) it) \<noteq> None" using assms(2) Cons.prems by (auto simp: placed_def)
    then show ?case using Cons by (auto split: option.splits)
  qed simp
  show ?thesis
  proof (cases "td_price_mode (rn_document r) = PriceInclusive")
    case False
    then show ?thesis using e E by (simp add: evaluate_items_def)
  next
    case True
    then obtain z where "shared_extraction (rn_engine r) None its = Ok z" using sh[of its None] by (cases "shared_extraction (rn_engine r) None its") auto
    then show ?thesis using e E True by (auto simp: evaluate_items_def split: sum.splits prod.splits)
  qed
qed

lemma prepare_no_panic:
  assumes "prepare rat_of e d t est = Err x"
  shows "\<not> panics x"
proof -
  have a: "\<not> panics x" if f: "foldR (line_evidence_step rat_of r key) acc xs = Err x" for r key acc xs
  proof -
    obtain acc1 z where "line_evidence_step rat_of r key acc1 z = Err x" using foldR_panic[OF f, of "\<lambda>_. True"] by auto
    then show ?thesis by (auto simp: line_evidence_step_def result_simps panics_def split: prod.splits)
  qed
  have b: "\<not> panics x" if f: "foldR (items_step rat_of r base) acc xs = Err x" for r base acc xs
  proof -
    obtain acc1 z where "items_step rat_of r base acc1 z = Err x" using foldR_panic[OF f, of "\<lambda>_. True"] by auto
    then show ?thesis by (auto simp: items_step_def result_simps dest!: a split: prod.splits)
  qed
  show ?thesis using assms
    by (auto simp: prepare_def seller_country_def document_evidence_def result_simps Let_def panics_def[of "TxSeller _"] panics_def[of "TxEvidence _"]
        dest!: b split: if_splits option.splits prod.splits)
qed

end
