(* ===== verification/TaxProps.thy ===== *)
theory TaxProps
  imports TaxTotals CanonTotal
begin

text \<open>
  The properties of a tax determination, on a small engine of one country with an exemptible
  flat component.
\<close>

section \<open>A determination\<close>

definition uk :: tx_place where "uk = \<lparr>tp_jurisdiction = [], tp_subdivision = [], tp_country = ''GB''\<rparr>"

definition uk_regime :: tax_regime where
  "uk_regime = \<lparr>rg_decl = \<lparr>gd_id = ''g'', gd_country = ''GB'', gd_name = ''g'', gd_services = [''MOBILE_VOICE''], gd_level = Country, gd_extraction = None,
     gd_excluded = [], gd_source = ''s'', gd_citation = ''c''\<rparr>, rg_level = Country\<rparr>"

definition uk_version :: "rate_decl \<Rightarrow> tax_version" where
  "uk_version r = \<lparr>vr_decl = \<lparr>vd_from = ''f'', vd_to = [], vd_kind = rd_kind r, vd_rate = [], vd_amount = [], vd_currency = [], vd_unit = [],
     vd_reason = LegalOther [], vd_source = ''s'', vd_citation = ''c''\<rparr>, vr_from = 0, vr_to = None, vr_rate = r, vr_zero = False, vr_per_units = []\<rparr>"

definition uk_levy :: "comp_id \<Rightarrow> string \<Rightarrow> string list \<Rightarrow> rate_decl \<Rightarrow> levy" where
  "uk_levy i slot exempt r = \<lparr>lv_decl = \<lparr>cd_id = i, cd_regime = ''g'', cd_jurisdiction = ''jurisdiction:gb'', cd_authority = ''a'', cd_tax_type = ''T'', cd_name = ''n'',
     cd_emit = slot, cd_services = [], cd_applies = [\<lparr>ay_roles = [], ay_supply = SupplyAny, ay_treatment = CustomerCharge, ay_responsibility = ''s''\<rparr>],
     cd_base = \<lparr>tb_kind = LineNet, tb_components = []\<rparr>, cd_rounding = \<lparr>rp_mode = HALF_UP, rp_scale = 2, rp_basis = LINE\<rparr>,
     cd_exempt_by = exempt, cd_versions = []\<rparr>, lv_regime = uk_regime, lv_versions = [uk_version r], lv_location = (\<lambda>d. 0)\<rparr>"

definition pounds :: "int \<Rightarrow> money" where
  "pounds n = \<lparr>m_amount = set_finite n 0, m_currency = ''GBP''\<rparr>"

definition cents :: "int \<Rightarrow> money" where
  "cents n = \<lparr>m_amount = set_finite n (- 2), m_currency = ''GBP''\<rparr>"

definition uk_engine :: engine where
  "uk_engine = \<lparr>en_version = ''1'',
     en_graph = \<lparr>gr_version = ''1'', gr_nodes = [\<lparr>ju_id = ''jurisdiction:gb'', ju_parent = [], ju_level = Country, ju_name = ''GB'', ju_country = ''GB'',
       ju_timezone = ''UTC'', nd_from = 0, nd_to = None\<rparr>], gr_members = []\<rparr>,
     en_rule_set = \<lparr>rs_bindings = [\<lparr>sb_ontology = [], sb_role = RoleOther [], sb_rule = \<lparr>sr_id = ''r'', sr_mode = ModePrecedence,
       sr_reliability = map_of [(ServiceAddress, Strong)], sr_order = [ServiceAddress], sr_minimum = Supporting, sr_required = 0, sr_eligible = [],
       sr_agreement = LevelOther [], sr_coordinates = [], sr_dataset = [], sr_outside = OutsideOther [], sr_parent = [],
       sr_roaming = RoamingOther []\<rparr>\<rparr>], rs_undetermined = RoleB2C\<rparr>,
     en_countries = [''GB''], en_by_code = [], en_situs = [], en_regimes = [uk_regime], en_covered = [''GB''], en_responsibility = [],
     en_levies = [uk_levy ''v'' ''V'' [''D''] ((plain_rate Flat)\<lparr>rd_flat := Some (pounds 5)\<rparr>)],
     en_slots = [''V'']\<rparr>"

definition diplomat :: "verification \<Rightarrow> certificate" where
  "diplomat v = \<lparr>ct_id = ''x'', ct_type = ''D'', ct_holder = ''c'', ct_jurisdiction = ''jurisdiction:gb'', ct_tax_types = [], ct_components = [],
    ct_valid_from = ''2021-01-01'', ct_valid_to = [], ct_verification = v\<rparr>"

definition uk_line :: tx_line where
  "uk_line = \<lparr>xl_key = ''1'', xl_sku = ''k'', xl_service = ''MOBILE_VOICE'', xl_amount = pounds 100, xl_quantity = None, xl_evidence = [], xl_parts = []\<rparr>"

definition uk_invoice :: tx_document where
  "uk_invoice = \<lparr>td_type = Invoice, td_currency = ''GBP'', td_price_mode = PriceExclusive,
    td_seller = \<lparr>ty_id = ''s'', ty_establishment = Some uk, ty_vat = None\<rparr>,
    td_customer = \<lparr>ty_id = ''c'', ty_establishment = None, ty_vat = None\<rparr>,
    td_evidence = [\<lparr>xe_type = ServiceAddress, xe_source = SellerRecorded, xe_collected_at = 0, xe_place = uk\<rparr>],
    td_certificates = [diplomat Verified], td_lines = [uk_line]\<rparr>"

definition uk_run :: tax_run where
  "uk_run = \<lparr>rn_engine = uk_engine, rn_document = uk_invoice, rn_at = 1000, rn_seller = ''GB''\<rparr>"

definition uk_evidence :: "evidence_type \<Rightarrow> situs_evidence" where
  "uk_evidence t = \<lparr>sv_type = t, sv_source = SellerRecorded, sv_collected_at = 1000, sv_jurisdiction = [], sv_point = None, sv_country = ''GB'', sv_vat = VatOther []\<rparr>"

definition no_rat :: rat_reader where "no_rat s = None"

definition uk_request :: situs_request where
  "uk_request = \<lparr>sq_event_time = 1000, sq_ontology = ''MOBILE_VOICE'', sq_evidence = [uk_evidence SellerEstablishment, uk_evidence ServiceAddress], sq_covered = [''GB'']\<rparr>"

definition uk_resolution :: situs_resolution where
  "uk_resolution = \<lparr>so_outcome = Resolved, so_graph_version = ''1'', so_rule = ''r'', so_mode = Some ModePrecedence,
     so_applicable = [\<lparr>ju_id = ''jurisdiction:gb'', ju_parent = [], ju_level = Country, ju_name = ''GB'', ju_country = ''GB'', ju_timezone = ''UTC''\<rparr>],
     so_winning = [uk_evidence ServiceAddress], so_unused = [uk_evidence SellerEstablishment], so_dataset = None, so_needed = [], so_roaming = None,
     so_supply = \<lparr>sp_supplier = ''jurisdiction:gb'', sp_customer = [], sp_place = ''jurisdiction:gb'', sp_role = RoleUndetermined, sp_effective = RoleB2C,
       sp_vat = VatOther [], sp_cross_border = False\<rparr>, so_incident = False,
     so_trace = [StRole RoleUndetermined (VatOther []) RoleB2C, StSelected ''r'' ModePrecedence ''MOBILE_VOICE'' RoleB2C,
       StWin ServiceAddress ''jurisdiction:gb'', StHierarchy ''jurisdiction:gb'' 0 1000, StPlaceOfSupply ''jurisdiction:gb'' [] ''jurisdiction:gb'' False,
       StUnused SellerEstablishment SellerRecorded, StOutcome Resolved]\<rparr>"

lemma uk_steps: "validate_document uk_invoice = Ok ()"
  "document_evidence no_rat uk_run uk = Ok ([uk_evidence SellerEstablishment, uk_evidence ServiceAddress], [])"
  "resolve no_rat (engine_resolver uk_engine) uk_request = Some (Ok uk_resolution)"
  by code_simp+

definition uk_item :: tax_item where
  "uk_item = new_item ''1'' ''1'' [] ''k'' ''MOBILE_VOICE'' (pounds 100) None [uk_evidence SellerEstablishment, uk_evidence ServiceAddress]"

lemma uk_prepared: "prepare no_rat uk_engine uk_invoice 1000 uk = Ok (uk_run, [uk_item], [])"
proof -
  have "seller_country uk_engine uk = Ok ''GB''" by (simp add: seller_country_def uk_def)
  moreover have "foldR (items_step no_rat uk_run [uk_evidence SellerEstablishment, uk_evidence ServiceAddress]) ([], []) (td_lines uk_invoice) = Ok ([uk_item], [])"
    by (simp add: uk_invoice_def items_step_def line_items_def uk_line_def uk_item_def)
  ultimately show ?thesis using uk_steps(2) by (simp add: prepare_def uk_run_def[symmetric])
qed

definition exempt_outcome :: "(tax_err, tax_result) result \<Rightarrow> bool" where
  "exempt_outcome x = (case x of Err e \<Rightarrow> False | Ok out \<Rightarrow> xr_state out = StateResolved
     \<and> (case xr_items out of
          [i] \<Rightarrow> ir_net i = Some (pounds 100) \<and> (case ir_charges i of
             [c] \<Rightarrow> wf_money (ch_amount c) \<and> ch_exemption c = Some \<lparr>ex_certificate = ''x'', ex_type = ''D'', ex_assessed = Some (cents 500)\<rparr>
           | _ \<Rightarrow> False)
        | _ \<Rightarrow> False))"

lemma uk_concluded:
  "exempt_outcome (bindR (situs_stage uk_run uk_resolution (record_situs uk_resolution b uk_item) tr) (\<lambda>(it, tr). conclude uk_run [it] tr))"
  by code_simp

text \<open>The canonical form of a resolution is always an object of distinct members.\<close>

lemma encodable_members:
  assumes "distinct (map fst fs)" "\<forall>(n, v) \<in> set fs. v = VAbsent \<or> encodable v"
  shows "encodable (c_object fs)"
  unfolding encodable_object using distinct_map_filter[OF assms(1)] assms(2) by auto

lemma encodable_optional: "opt_string t = VAbsent \<or> encodable (opt_string t)"
  by (simp add: opt_string_def)

lemma encodable_evidence: "encodable (evidence_value e)"
  unfolding evidence_value_def
  by (rule encodable_members) (simp_all add: encodable_optional c_time_def point_value_def encodable_members split: option.split)

lemma situs_encodes: "\<exists>b. encode (situs_value s) = Ok b"
proof -
  have "encodable (situs_value s)" unfolding situs_value_def
    by (rule encodable_members)
       (simp_all add: encodable_optional list_all_iff applicable_value_def supply_value_def encodable_members encodable_evidence split: option.split)
  then show ?thesis using encode_total by (simp add: is_ok_iff)
qed

lemma uk_fields: "rn_engine uk_run = uk_engine" "rn_at uk_run = 1000" "en_covered uk_engine = [''GB'']"
  "ir_service (ti_result uk_item) = ''MOBILE_VOICE''" "ti_evidence uk_item = [uk_evidence SellerEstablishment, uk_evidence ServiceAddress]"
  "ty_establishment (td_seller uk_invoice) = Some uk"
  by (simp_all add: uk_run_def uk_engine_def uk_item_def new_item_def uk_invoice_def)

lemma uk_determined: "\<exists>out. determine no_rat uk_engine uk_invoice 1000 = Some (Ok out) \<and> exempt_outcome (Ok out)"
proof -
  obtain b where b: "encode (situs_value uk_resolution) = Ok b" using situs_encodes by blast
  have "\<exists>tr1. resolve_item no_rat uk_run uk_item [] = Some (situs_stage uk_run uk_resolution (record_situs uk_resolution b uk_item) tr1)"
    using uk_steps(3)[unfolded uk_request_def] b
    by (simp add: resolve_item_def resolved_stage_def Let_def uk_fields) blast
  then obtain tr1 where r: "resolve_item no_rat uk_run uk_item [] = Some (situs_stage uk_run uk_resolution (record_situs uk_resolution b uk_item) tr1)"
    by blast
  let ?x = "bindR (situs_stage uk_run uk_resolution (record_situs uk_resolution b uk_item) tr1) (\<lambda>(it, tr). conclude uk_run [it] tr)"
  have "determine no_rat uk_engine uk_invoice 1000 = Some ?x"
    using r uk_steps(1) uk_prepared uk_fields(6)
    by (cases "situs_stage uk_run uk_resolution (record_situs uk_resolution b uk_item) tr1") (auto simp: determine_def)
  then show ?thesis using uk_concluded[of b tr1] by (cases ?x) (auto simp: exempt_outcome_def)
qed

section \<open>The properties\<close>

lemma collected_each:
  assumes "list_all2 collected its its'" "it' \<in> set its'"
  shows "\<exists>it \<in> set its. ir_state (ti_result it') = ir_state (ti_result it)"
  using assms by (induction rule: list_all2_induct) (auto simp: collected_def)

lemma validate_document_establishment:
  assumes "validate_document d = Ok u"
  shows "\<exists>est. ty_establishment (td_seller d) = Some est"
  using assms by (cases "ty_establishment (td_seller d)") (auto simp: validate_document_def Let_def validate_parties_def split: if_splits option.splits)

text \<open>The exception is reached: the same document priced with tax, in a country whose regime has no extraction
  policy, is UNSUPPORTED while its one item is resolved.\<close>

definition uk_inclusive :: tx_document where "uk_inclusive = uk_invoice\<lparr>td_price_mode := PriceInclusive\<rparr>"

definition uk_inclusive_run :: tax_run where "uk_inclusive_run = uk_run\<lparr>rn_document := uk_inclusive\<rparr>"

definition unsupported_outcome :: "(tax_err, tax_result) result \<Rightarrow> bool" where
  "unsupported_outcome x = (case x of Err e \<Rightarrow> False | Ok out \<Rightarrow> xr_state out = StateUnsupported
     \<and> xr_reason out = ''INCLUSIVE_PRICING_UNSUPPORTED'' \<and> map ir_state (xr_items out) = [StateResolved])"

lemma uk_inclusive_steps: "validate_document uk_inclusive = Ok ()"
  "document_evidence no_rat uk_inclusive_run uk = Ok ([uk_evidence SellerEstablishment, uk_evidence ServiceAddress], [])"
  by code_simp+

lemma uk_inclusive_prepared: "prepare no_rat uk_engine uk_inclusive 1000 uk = Ok (uk_inclusive_run, [uk_item], [])"
proof -
  have "seller_country uk_engine uk = Ok ''GB''" by (simp add: seller_country_def uk_def)
  moreover have "foldR (items_step no_rat uk_inclusive_run [uk_evidence SellerEstablishment, uk_evidence ServiceAddress]) ([], []) (td_lines uk_inclusive) = Ok ([uk_item], [])"
    by (simp add: uk_inclusive_def uk_invoice_def items_step_def line_items_def uk_line_def uk_item_def)
  ultimately show ?thesis using uk_inclusive_steps(2)
    by (simp add: prepare_def uk_inclusive_run_def uk_run_def)
qed

lemma uk_inclusive_concluded:
  "unsupported_outcome (bindR (situs_stage uk_inclusive_run uk_resolution (record_situs uk_resolution b uk_item) tr) (\<lambda>(it, tr). conclude uk_inclusive_run [it] tr))"
  by code_simp

lemma inclusive_document_unsupported:
  "\<exists>out. determine no_rat uk_engine uk_inclusive 1000 = Some (Ok out) \<and> unsupported_outcome (Ok out)"
proof -
  obtain b where b: "encode (situs_value uk_resolution) = Ok b" using situs_encodes by blast
  have f: "rn_engine uk_inclusive_run = uk_engine" "rn_at uk_inclusive_run = 1000" "ty_establishment (td_seller uk_inclusive) = Some uk"
    by (simp_all add: uk_inclusive_run_def uk_inclusive_def uk_fields)
  have "\<exists>tr1. resolve_item no_rat uk_inclusive_run uk_item [] = Some (situs_stage uk_inclusive_run uk_resolution (record_situs uk_resolution b uk_item) tr1)"
    using uk_steps(3)[unfolded uk_request_def] b
    by (simp add: resolve_item_def resolved_stage_def Let_def uk_fields f) blast
  then obtain tr1 where r: "resolve_item no_rat uk_inclusive_run uk_item [] = Some (situs_stage uk_inclusive_run uk_resolution (record_situs uk_resolution b uk_item) tr1)"
    by blast
  let ?x = "bindR (situs_stage uk_inclusive_run uk_resolution (record_situs uk_resolution b uk_item) tr1) (\<lambda>(it, tr). conclude uk_inclusive_run [it] tr)"
  have "determine no_rat uk_engine uk_inclusive 1000 = Some ?x"
    using r uk_inclusive_steps(1) uk_inclusive_prepared f(3)
    by (cases "situs_stage uk_inclusive_run uk_resolution (record_situs uk_resolution b uk_item) tr1") (auto simp: determine_def)
  then show ?thesis using uk_inclusive_concluded[of b tr1] by (cases ?x) (auto simp: unsupported_outcome_def)
qed

text \<open>C37. A determination fails closed. No item is worse than its document, so a resolved document has only
  resolved items. A document that is not resolved has no totals, no emitted amounts and no charges, and takes
  the state and the reason of one of its items; the one exception is a document whose prices include tax and
  whose regimes share no extraction policy: it is UNSUPPORTED with every item resolved.\<close>

theorem determine_fails_closed:
  assumes "determine rat_of e d t = Some (Ok out)"
  shows "(\<forall>i \<in> set (xr_items out). severity (ir_state i) \<le> severity (xr_state out))
    \<and> (xr_state out = StateResolved \<longrightarrow> (\<forall>i \<in> set (xr_items out). ir_state i = StateResolved))
    \<and> (xr_totals out \<noteq> None \<longleftrightarrow> xr_state out = StateResolved)
    \<and> (xr_state out \<noteq> StateResolved \<longrightarrow> xr_emitted out = [] \<and> all_charges (xr_items out) = []
        \<and> ((\<exists>i \<in> set (xr_items out). ir_state i = xr_state out \<and> ir_reason i = xr_reason out)
           \<or> td_price_mode d = PriceInclusive \<and> xr_state out = StateUnsupported \<and> xr_reason out = ''INCLUSIVE_PRICING_UNSUPPORTED''
             \<and> (\<forall>i \<in> set (xr_items out). ir_state i = StateResolved)))"
proof -
  obtain r its tr where r: "rn_document r = d" "\<forall>it \<in> set its. sound_item r it" "conclude r its tr = Ok out"
    using determine_cases[OF assms] by metis
  have none: "all_charges (map ti_result its) = []" using r(2) by (simp add: all_charges_def sound_item_def)
  note w = worst_of_facts[where its = its and r = r]
  from r(3) show ?thesis
  proof (cases rule: conclude_cases)
    case Unresolved
    then show ?thesis using w none by auto
  next
    case (Inclusive tr')
    then show ?thesis using w worst_resolved[OF Inclusive(1)] none r(1) by auto
  next
    case (Evaluated actual assessed its' o1 tr')
    note c = collect_result_exact[OF Evaluated(3)]
    have "list_all2 collected its its'" using c Evaluated(2) by simp
    then have "ir_state (ti_result it') = StateResolved" if "it' \<in> set its'" for it'
      using collected_each[OF _ that] worst_resolved[OF Evaluated(1)] by metis
    moreover have "xr_state out = StateResolved" "xr_totals out \<noteq> None" "xr_items out = map ti_result its'"
      using c Evaluated(1,4) by simp_all
    ultimately show ?thesis by simp
  qed
qed

lemma determine_fails_closed_witness: "\<exists>out. determine no_rat uk_engine uk_invoice 1000 = Some (Ok out) \<and> xr_totals out \<noteq> None"
proof -
  obtain out where out: "determine no_rat uk_engine uk_invoice 1000 = Some (Ok out)" "exempt_outcome (Ok out)" using uk_determined by blast
  then show ?thesis using determine_fails_closed[OF out(1)] by (auto simp: exempt_outcome_def)
qed

text \<open>C38. The totals of a resolved document are the exact sums over its items: net, customer tax, customer
  total, provider accrual, reverse charge and every emitted slot; the customer tax is the sum of what the
  charges charge.\<close>

theorem determine_totals_exact:
  assumes "determine rat_of e d t = Some (Ok out)" "xr_state out = StateResolved" "\<forall>i \<in> set (xr_items out). wf_item_result i"
  shows "exact_totals out \<and> (\<forall>y. xr_totals out = Some y \<longrightarrow>
    amount_of (to_customer_tax y) = (\<Sum>c\<leftarrow>all_charges (xr_items out). amount_of (ch_charged c)))"
proof -
  obtain r its tr where r: "\<forall>it \<in> set its. sound_item r it" "conclude r its tr = Ok out"
    using determine_cases[OF assms(1)] by metis
  from r(2) show ?thesis
  proof (cases rule: conclude_cases)
    case (Evaluated actual assessed its' o1 tr')
    note c = collect_result_exact[OF Evaluated(3), where tr = tr']
    have ex: "exact_totals out" using c assms(3) Evaluated(4) by auto
    have "list_all2 collected its its'" using c Evaluated(2) by simp
    then have each: "list_all2 charge_of (ti_selected (its ! k)) (ir_charges (ti_result (its' ! k)))" if "k < length its'" for k
      using that by (auto simp: list_all2_conv_all_nth collected_def)
    have one: "treated CustomerCharge c = amount_of (ch_charged c)" if mem: "c \<in> set (all_charges (xr_items out))" for c
    proof -
      obtain k where "k < length its'" "c \<in> set (ir_charges (ti_result (its' ! k)))"
        using mem Evaluated(4) by (auto simp: all_charges_def in_set_conv_nth[of _ its'])
      then obtain s where "charge_of s c" using each[of k] by (auto simp: list_all2_conv_all_nth in_set_conv_nth)
      then show ?thesis by (cases "ch_exemption c") (auto simp: charge_of_def treated_def)
    qed
    have "(\<Sum>c\<leftarrow>all_charges (xr_items out). treated CustomerCharge c) = (\<Sum>c\<leftarrow>all_charges (xr_items out). amount_of (ch_charged c))"
      by (rule arg_cong[where f = sum_list]) (simp add: one)
    then show ?thesis using ex by (auto simp: exact_totals_def)
  qed (use assms(2) in auto)
qed

lemma determine_totals_exact_witness: "\<exists>out. determine no_rat uk_engine uk_invoice 1000 = Some (Ok out) \<and> exact_totals out"
proof -
  obtain out where out: "determine no_rat uk_engine uk_invoice 1000 = Some (Ok out)" "exempt_outcome (Ok out)" using uk_determined by blast
  have "xr_state out = StateResolved \<and> (\<forall>i \<in> set (xr_items out). wf_item_result i)"
    using out(2) by (auto simp: exempt_outcome_def wf_item_result_def wf_money_def pounds_def set_finite_def wf_dec_def split: list.splits)
  then show ?thesis using determine_totals_exact[OF out(1)] out(1) by blast
qed

text \<open>C39. A charge is exempt only on a certificate of the document that was verified, is held by the customer,
  is of a type the component admits, covers its jurisdiction, tax type and component, and is in force at the
  tax point; an exempt charge charges nothing.\<close>

theorem exemption_needs_verified_certificate:
  assumes "determine rat_of e d t = Some (Ok out)" "c \<in> set (all_charges (xr_items out))" "ch_exemption c = Some x"
  shows "\<exists>k \<in> set (td_certificates d). \<exists>l \<in> set (en_levies e). ct_id k = ex_certificate x \<and> ct_type k = ex_type x
    \<and> ct_verification k = Verified \<and> ct_holder k = ty_id (td_customer d) \<and> ct_type k \<in> set (cd_exempt_by (lv_decl l))
    \<and> cd_id (lv_decl l) = ch_id c \<and> ct_jurisdiction k = ch_jurisdiction c
    \<and> (ct_tax_types k = [] \<or> ch_tax_type c \<in> set (ct_tax_types k)) \<and> (ct_components k = [] \<or> ch_id c \<in> set (ct_components k))
    \<and> certificate_date l (ct_valid_from k) \<le> t \<and> (ct_valid_to k = [] \<or> t < certificate_date l (ct_valid_to k))
    \<and> ch_treatment c = TreatmentExempt \<and> amount_of (ch_amount c) = 0 \<and> amount_of (ch_charged c) = 0"
proof -
  obtain r its tr where r: "rn_engine r = e" "rn_document r = d" "rn_at r = t" "\<forall>it \<in> set its. sound_item r it" "conclude r its tr = Ok out"
    using determine_cases[OF assms(1)] by metis
  have none: "all_charges (map ti_result its) = []" using r(4) by (simp add: all_charges_def sound_item_def)
  from r(5) show ?thesis
  proof (cases rule: conclude_cases)
    case (Evaluated actual assessed its' o1 tr')
    have l: "list_all2 collected its its'" using collect_result_exact[OF Evaluated(3)] Evaluated(2) by simp
    obtain k where k: "k < length its'" "c \<in> set (ir_charges (ti_result (its' ! k)))"
      using assms(2) Evaluated(4) by (auto simp: all_charges_def in_set_conv_nth[of _ its'])
    have "collected (its ! k) (its' ! k)" using list_all2_nthD2[OF l k(1)] .
    then have cs: "list_all2 charge_of (ti_selected (its ! k)) (ir_charges (ti_result (its' ! k)))" by (auto simp: collected_def)
    obtain m where m: "m < length (ir_charges (ti_result (its' ! k)))" "ir_charges (ti_result (its' ! k)) ! m = c"
      using k(2) by (auto simp: in_set_conv_nth)
    define s where "s = ti_selected (its ! k) ! m"
    have co: "charge_of s c" using list_all2_nthD2[OF cs m(1)] m(2) by (simp add: s_def)
    have "s \<in> set (ti_selected (its ! k))" "its ! k \<in> set its"
      using m(1) k(1) list_all2_lengthD[OF cs] list_all2_lengthD[OF l] by (simp_all add: s_def)
    then have ss: "sound_selection r s" using r(4) by (auto simp: sound_item_def)
    obtain x0 where x0: "sl_exemption s = Some x0" "ex_certificate x = ex_certificate x0" "ex_type x = ex_type x0"
      using co assms(3) by (auto simp: charge_of_def)
    have "exempted_by r (sl_levy s) x0" using ss x0(1) by (simp add: sound_selection_def)
    then obtain q where q: "q \<in> set (td_certificates d)" "ct_id q = ex_certificate x" "ct_type q = ex_type x"
      "ct_type q \<in> set (cd_exempt_by (lv_decl (sl_levy s)))" "refusal r (sl_levy s) q = []" "ct_verification q = Verified"
      using x0 r(2) by (auto simp: exempted_by_def)
    have f: "ct_jurisdiction q = cd_jurisdiction (lv_decl (sl_levy s))" "ct_holder q = ty_id (td_customer d)"
      "ct_tax_types q = [] \<or> cd_tax_type (lv_decl (sl_levy s)) \<in> set (ct_tax_types q)"
      "ct_components q = [] \<or> cd_id (lv_decl (sl_levy s)) \<in> set (ct_components q)"
      "certificate_date (sl_levy s) (ct_valid_from q) \<le> t" "ct_valid_to q = [] \<or> t < certificate_date (sl_levy s) (ct_valid_to q)"
      using q(5) r(2,3) by (auto simp: refusal_def Let_def split: if_splits)
    show ?thesis
      by (rule bexI[OF _ q(1)], rule bexI[of _ "sl_levy s"])
         (use q f co ss x0 r(1) assms(3) in \<open>auto simp: charge_of_def levy_id_def sound_selection_def\<close>)
  qed (use assms(2) none in auto)
qed

lemma exemption_needs_verified_certificate_witness:
  "\<exists>out c. determine no_rat uk_engine uk_invoice 1000 = Some (Ok out) \<and> c \<in> set (all_charges (xr_items out)) \<and> ch_treatment c = TreatmentExempt"
proof -
  obtain out where out: "determine no_rat uk_engine uk_invoice 1000 = Some (Ok out)" "exempt_outcome (Ok out)" using uk_determined by blast
  then obtain c x where c: "c \<in> set (all_charges (xr_items out))" "ch_exemption c = Some x"
    by (auto simp: exempt_outcome_def all_charges_def split: list.splits)
  show ?thesis using exemption_needs_verified_certificate[OF out(1) c] out(1) c(1) by blast
qed

text \<open>C40. Under an engine compiled from a profile a determination always returns and never dereferences nil,
  for any document and tax point, provided the country of every special jurisdiction of the profile has a regime.\<close>

theorem determine_never_panics:
  assumes "compile_profile zones p = Ok e" "specials_covered e"
  shows "\<exists>y. determine rat_of e d t = Some y \<and> y \<noteq> Err TxPanic \<and> y \<noteq> Err (TxEvaluate EvPanic)"
proof -
  have sound: "sound_engine e" by (rule compile_profile_sound[OF assms(1)])
  have "\<exists>y. determine rat_of e d t = Some y \<and> (\<forall>x. y = Err x \<longrightarrow> \<not> panics x)"
  proof (cases "t = 0 \<or> (\<exists>f. validate_document d = Err f)")
    case True
    then show ?thesis by (auto simp: determine_def panics_def)
  next
    case False
    then have v: "t \<noteq> 0" "validate_document d = Ok ()" by (cases "validate_document d"; simp)+
    obtain est where est: "ty_establishment (td_seller d) = Some est" using validate_document_establishment[OF v(2)] by blast
    show ?thesis
    proof (cases "prepare rat_of e d t est")
      case (Err x)
      then show ?thesis using v est prepare_no_panic[OF Err] by (simp add: determine_def)
    next
      case (Ok w)
      obtain r its tr where p: "prepare rat_of e d t est = Ok (r, its, tr)" using Ok by (cases w) auto
      note f = items_fresh[OF p]
      have e: "sound_engine (rn_engine r)" "specials_covered (rn_engine r)" using sound assms(2) f(2) by simp_all
      obtain its' tr' where i: "resolve_items rat_of r its tr = Some (Ok (its', tr'))" "\<forall>it \<in> set its'. placed (rn_engine r) it"
        using resolve_items_total[OF e] by blast
      have "\<forall>it \<in> set its'. sound_item r it" by (rule resolve_items_sound[OF i(1) f(1)])
      then have "\<not> panics x" if "conclude r its' tr' = Err x" for x using conclude_no_panic[OF e(1) _ that] i(2) by blast
      moreover have "determine rat_of e d t = Some (conclude r its' tr')" using v est p i(1) by (simp add: determine_def)
      ultimately show ?thesis by blast
    qed
  qed
  then show ?thesis by (auto simp: panics_def)
qed

definition uk_zones :: zone_db where
  "uk_zones z = (if z = ''UTC'' then Some (\<lambda>(y, m, d). y * 372 + int m * 31 + int d) else None)"

definition uk_profile :: tax_profile where
  "uk_profile = \<lparr>tx_version = ''1'', tx_graph_version = ''1'',
     tx_jurisdictions = [\<lparr>jd_id = ''jurisdiction:gb'', jd_parent = [], jd_level = Country, jd_name = ''GB'', jd_country = ''GB'', jd_code = [],
       jd_timezone = ''UTC'', jd_from = ''2020-01-01'', jd_to = []\<rparr>],
     tx_memberships = [], tx_undetermined = RoleB2C,
     tx_rules = [\<lparr>sd_id = ''r'', sd_service = [], sd_role = RoleOther [], sd_mode = ModePrecedence, sd_reliability = [(ServiceAddress, Strong)],
       sd_order = [ServiceAddress], sd_minimum = Supporting, sd_required = 0, sd_eligible = [], sd_agreement = LevelOther [],
       sd_roaming = RoamingOther []\<rparr>],
     tx_responsibility = [\<lparr>rl_id = ''s'', rl_incidence = BuyerParty, rl_collection = SellerParty, rl_reporting = SellerParty,
       rl_remittance = SellerParty, rl_bearer = BuyerParty\<rparr>],
     tx_regimes = [\<lparr>gd_id = ''g'', gd_country = ''GB'', gd_name = ''VAT'', gd_services = [''MOBILE_VOICE''], gd_level = LevelOther [],
       gd_extraction = None, gd_excluded = [], gd_source = ''s'', gd_citation = ''c''\<rparr>],
     tx_components = [\<lparr>cd_id = ''v'', cd_regime = ''g'', cd_jurisdiction = ''jurisdiction:gb'', cd_authority = ''a'', cd_tax_type = ''VAT'',
       cd_name = ''VAT'', cd_emit = ''VAT'', cd_services = [],
       cd_applies = [\<lparr>ay_roles = [], ay_supply = SupplyAny, ay_treatment = CustomerCharge, ay_responsibility = ''s''\<rparr>],
       cd_base = \<lparr>tb_kind = LineNet, tb_components = []\<rparr>, cd_rounding = \<lparr>rp_mode = HALF_UP, rp_scale = 2, rp_basis = LINE\<rparr>,
       cd_exempt_by = [''D''], cd_versions = [\<lparr>vd_from = ''2020-01-01'', vd_to = [], vd_kind = AdValorem, vd_rate = ''0.20'', vd_amount = [],
         vd_currency = [], vd_unit = [], vd_reason = LegalOther [], vd_source = ''s'', vd_citation = ''c''\<rparr>]\<rparr>]\<rparr>"

lemma uk_compiles: "case compile_profile uk_zones uk_profile of Ok e \<Rightarrow> specials_covered e | Err x \<Rightarrow> False"
  by code_simp

lemma determine_never_panics_witness:
  "\<exists>e. compile_profile uk_zones uk_profile = Ok e \<and> (\<exists>y. determine no_rat e uk_invoice 1000 = Some y \<and> y \<noteq> Err TxPanic)"
proof -
  obtain e where e: "compile_profile uk_zones uk_profile = Ok e" "specials_covered e"
    using uk_compiles by (auto split: result.splits)
  then show ?thesis using determine_never_panics[OF e, of no_rat uk_invoice 1000] by blast
qed

end
