(* ===== verification/Divergences.thy ===== *)
theory Divergences
  imports FiscalProps
begin

text \<open>
  Concrete inputs on which the fiscal package does something other than its comments say: rounding up an
  amount below a tenth of the last place, parsing a money value that is not a number, refusing a
  weight of negative zero, and a quotient that is rounded twice.
\<close>

text \<open>A tenth of a cent rounds up to a cent and a hundredth of a cent rounds up to zero: \<open>Quantize\<close> of the
  decimal library drops a coefficient it would shift out whole without consulting the mode.\<close>

lemma tiny_amount_not_rounded_up:
  "money_round \<lparr>m_amount = set_finite 1 (- 4), m_currency = ''EUR''\<rparr> (cents UP) = Ok (eur 0)
   \<and> money_round \<lparr>m_amount = set_finite 1 (- 3), m_currency = ''EUR''\<rparr> (cents UP) = Ok (eur 1)"
  by (simp add: eur_def cents_def fiscal_eval)

lemma parse_admits_nan: "is_ok (parse_money ''NaN'' ''EUR'')"
  by code_simp

lemma negative_zero_weight_refused:
  "allocate (eur 10) [\<lparr>m_amount = (set_finite 0 0)\<lparr>d_neg := True\<rparr>, m_currency = ''EUR''\<rparr>, eur 1] (cents HALF_UP)
   = Err (NegativeWeight 0)"
  by (simp add: allocate_def cents_def eur_def fiscal_eval)

section \<open>A quotient rounded twice\<close>

text \<open>\<open>Quo\<close> divides to 34 digits and then rounds to the policy's scale. The first step already rounds, so a quotient
  just below one half is taken to one half and then up: 12.4999... in 35 digits becomes 12.5 and then 13.\<close>

definition to_units :: rounding_policy where "to_units = \<lparr>rp_mode = HALF_UP, rp_scale = 0, rp_basis = TAX_COMPONENT\<rparr>"

lemma quo_counts: "num_digits_int 9999999999999999999999999999999987 = 34" "num_digits_int 799999999999999999999999999999999 = 33" "num_digits_int 1249999999999999999999999999999999 = 34" "num_digits_int 1250000000000000000000000000000000 = 34" by (simp_all add: num_digits_int_def ndig.simps)

lemma quo_powers: "exp10 1 = 10" "exp10 33 = 1000000000000000000000000000000000" by (simp_all add: exp10_def)

lemma quo_part: "(9999999999999999999999999999999987000000000000000000000000000000000 :: int) sdiv 7999999999999999999999999999999990 = 1249999999999999999999999999999999" by (simp add: signed_divide_int_def)

lemma rem_part: "(9999999999999999999999999999999987000000000000000000000000000000000 :: int) smod 7999999999999999999999999999999990 = 7499999999999999999999999999999990" by (simp add: signed_modulo_int_def signed_divide_int_def)

lemma past_half: "big_cmp 14999999999999999999999999999999980 7999999999999999999999999999999990 = 1" by (simp add: big_cmp_def)

lemma quotient_rounded: "ctx_quo (policy_ctx to_units) (set_finite 9999999999999999999999999999999987 0) (set_finite 799999999999999999999999999999999 0) = Ok (set_finite 1250000000000000000000000000000000 (- 32), {Inexact, Rounded})" 
  by (simp add: ctx_quo_def quo_specials_def should_set_as_nan_def is_nan_form_def dec_is_zero_def set_finite_def i32_def policy_ctx_def to_units_def Precision_def quo_counts quo_powers quo_part rem_part past_half should_add_one_def dec_sign_def set_exponent_def MaxExponent_def MinExponent_def unknownNumDigits_def num_digits_def go_error_def)

lemma quotient_rounded_twice:
  assumes "fquo (set_finite 9999999999999999999999999999999987 0) (set_finite 799999999999999999999999999999999 0) to_units = Ok d"
  shows "dec_val d = 13 \<and> (9999999999999999999999999999999987 / 799999999999999999999999999999999 :: rat) < 25 / 2"
proof -
  let ?m = "\<lparr>m_amount = set_finite 1250000000000000000000000000000000 (- 32), m_currency = []\<rparr>"
  have r: "money_round ?m to_units = Ok \<lparr>m_amount = d, m_currency = []\<rparr>"
    using assms by (simp add: fquo_def quotient_rounded wrap_def money_round_def split: if_splits)
  have p: "valid_policy to_units" by (simp add: valid_policy_def to_units_def policy_validate_def MaxScale_def)
  have s: "small_dec (m_amount ?m)"
    by (simp add: small_dec_def set_finite_def wf_dec_def num_digits_def quo_counts)
  have "dec_val d * 10 powi 0 = of_int (policy_result (m_amount ?m) to_units)"
    using money_round_ok(6)[OF p s r] by (simp add: to_units_def)
  also have "policy_result (m_amount ?m) to_units = round_ref HALF_UP (25 / 2)"
    by (simp add: policy_result_def below_tenth_def to_units_def set_finite_def num_digits_def quo_counts dec_val_def power_int_minus)
  also have "round_ref HALF_UP (25 / 2 :: rat) = 13" by simp
  finally show ?thesis by simp
qed

end
