(* ===== verification/Spec2Isabelle.thy ===== *)
theory Spec2Isabelle
  imports RuleProps AccumProps EvalProps PeriodProps CanonProps JurProps TaxProps Divergences
begin

text \<open>
  Zoiko Tax backend: a verification development.

  The program is a Go service that determines indirect tax, keeps the ledger of what it determined, and
  closes fiscal periods over that ledger. Its core is under \<open>src/backend/internal/domain\<close>; amounts are decimals of the
  vendored library \<open>cockroachdb/apd\<close>. The development translates the core packages into HOL functions, one theory
  per component, and proves what makes each correct and what holds across them.

  How the parts interact. A bundle of content (\<open>content/fiscal.go\<close>, \<open>rule\<close>) is loaded and a schedule of tax components
  (\<open>determination/schedule.go\<close>) compiled from it. Situs is resolved from evidence against a jurisdiction graph
  (\<open>jurisdiction\<close>). The taxation engine (\<open>taxation\<close>) compiles a profile of regimes and levies, resolves each line of an
  invoice to the levies of its place of supply, exempts what certificates exempt, and has the rest evaluated. A document is determined under the compiled plan (\<open>evaluate.go\<close>), with fiscal arithmetic
  (\<open>fiscal\<close>) and its allocation, and corrected by reversal and partial credit (\<open>adjust.go\<close>). Accumulators
  (\<open>accumulator\<close>) keep running totals with thresholds. Tax events are posted as balanced journals (\<open>subledger\<close>),
  and a period is closed over the journals posted into it (\<open>app/periods.go\<close>, \<open>postgres/period_repo.go\<close>). Manifests,
  evidence and bundles are identified by digests of their canonical encoding (\<open>platform/canonical\<close>), and logs of them
  by Merkle roots.

  Theories and the code they model.

    \<^item> \<open>Prelude\<close>: the result type of a Go call that may fail, loops that stop at the first error, sorting by a
      comparator, \<open>int32\<close> wrap-around, decimal digits. \<open>Errs\<close>: the taxonomy of errors and every registered reason
      code (\<open>domain/errs\<close>).
    \<^item> \<open>Apd\<close>, \<open>ApdText\<close>: decimals and contexts of \<open>apd/v3\<close>, from the source under \<open>vendor\<close>, with exponent limits and
      traps; \<open>ApdFacts\<close>: a context that traps \<open>Inexact\<close> computes exactly or fails.
    \<^item> \<open>Fiscal\<close>, \<open>Allocate\<close>: money, rates, quantities, rounding policies and allocation (\<open>fiscal/*.go\<close>);
      \<open>FiscalFacts\<close> and \<open>QuoFacts\<close> give each operation's rational value, \<open>ExactSum\<close> is the interface of every
      running total (locale \<open>exact_sum\<close>), interpreted on money and factors.
    \<^item> \<open>Kahn\<close>: the topological sort the repository writes twice, as a locale interpreted on schedules and on rule
      graphs. \<open>Schedule\<close>, \<open>Evaluate\<close>, \<open>Adjust\<close>: \<open>determination/*.go\<close>. \<open>ScheduleFacts\<close>, \<open>EvalSafety\<close>, \<open>Brackets\<close>,
      \<open>InclusiveTax\<close>, \<open>Corrections\<close>: what each check establishes and what each stage computes.
    \<^item> \<open>Profile\<close> (\<open>content/fiscal.go\<close>), \<open>RuleIR\<close>, \<open>RuleBundle\<close>, \<open>RuleEval\<close> (\<open>rule/ir.go\<close>, \<open>bundle.go\<close>, \<open>eval.go\<close>);
      \<open>RuleFacts\<close> gives a node's meaning as a big-step relation.
    \<^item> \<open>Accum\<close> (\<open>accumulator/*.go\<close>), \<open>AccumFacts\<close>; \<open>Locks\<close>: concurrent commits as a step relation.
    \<^item> \<open>Digest\<close>, \<open>Canonical\<close> (\<open>platform/canonical\<close>); \<open>Merkle\<close>, \<open>CanonFacts\<close>, \<open>CanonTotal\<close>: paths and roots, the
      encoding as a prefix code, when it succeeds.
    \<^item> \<open>Subledger\<close>, \<open>Periods\<close> (\<open>domain/subledger\<close>), \<open>PeriodStore\<close> (the period service over the tables it reads and
      writes). \<open>Lifecycle\<close>: histories moved by legal events, a locale interpreted on periods. \<open>PeriodFacts\<close>: the
      invariant of the store, kept by every operation, and so true of every reachable store.
    \<^item> \<open>Geography\<close>, \<open>Situs\<close>, \<open>Resolve\<close> (\<open>domain/jurisdiction\<close>); \<open>GeographyFacts\<close>, \<open>ResolveFacts\<close>, \<open>ResolveSafety\<close>.
      \<open>Rendering\<close>: the text of a resolution's trace and its canonical form.
    \<^item> \<open>TaxDoc\<close>, \<open>TaxProfile\<close>, \<open>TaxEngine\<close>, \<open>TaxDetermine\<close> (\<open>domain/taxation\<close>: \<open>document.go\<close>, \<open>profile.go\<close>, and
      \<open>engine.go\<close> up to an item's selections and from the plan to the result). \<open>TaxFacts\<close>: what compilation
      guarantees of an engine; \<open>TaxSafety\<close>: every item settles, on selections the engine holds; \<open>TaxPlan\<close>: the plan of
      sound selections evaluates; \<open>TaxTotals\<close>: the totals as exact sums, and the document's state.
    \<^item> \<open>FiscalProps\<close>, \<open>ScheduleProps\<close>, \<open>RuleProps\<close>, \<open>AccumProps\<close>, \<open>EvalProps\<close>, \<open>MerkleProps\<close>, \<open>CanonProps\<close>, \<open>SubledgerProps\<close>,
      \<open>PeriodProps\<close>, \<open>JurProps\<close>, \<open>TaxProps\<close>: the properties, numbered, each with a witness on concrete data. \<open>Divergences\<close>: inputs
      on which the code does something other than its comments say.

  Conventions. A struct is a record with a prefix of its own, an enumeration a datatype whose last constructor
  carries any other text the Go string type admits. A Go error is \<open>Err\<close> with a constructor of the component's
  error type in place of the message. A nil pointer is None; where the code would dereference it, evaluation
  returns an error of its own (\<open>EvPanic\<close>, \<open>TxPanic\<close>). An instant is an integer, zero being Go's zero time. A Go map is a HOL
  map or, where its iteration matters, an association list in one of the orders the runtime may take.

  Bounds, fuel and termination. Loops over slices are structural; others carry a measure (the Merkle path,
  digit counting). Kahn's loop runs with the number of vertices as fuel and is proved to need no more, since a vertex
  enters the worklist once. The walk up a jurisdiction graph is a partial function, proved to return on every
  graph that was accepted: the rank of the level falls at each step. Closing a plan over the components its bases
  name terminates because each sweep adds a declared component that was not there. Exponents of decimals are kept as the code's
  \<open>int32\<close> with its wrap-around, and the facts about fiscal amounts assume 34 digits and exponents within the limits
  the package itself enforces (\<open>small_dec\<close>).

  Parameters. SHA-256 is an argument (\<open>hash\<close>); a property that needs it to be injective says unless it collides and
  exhibits the collision. The rational a coordinate's text denotes (\<open>big.Rat.SetString\<close>) is an argument, as is
  the database of time zones: the midnight of a civil date in a named zone. The sums SQL
  computes over tables that are not modelled, the clock, and the identifiers the service mints are arguments of
  the operations that use them.

  What the properties show. Allocation and rounding pools hand out exactly their total, each part within one minor
  unit of its quota; rounding agrees with a rational reference. Compilation orders components by dependency,
  independently of declaration order, and reports a cycle only where there is one. Evaluation never panics
  (one case excepted), levies what its brackets specify, and extracts inclusive tax exactly from a gross
  on the grid of the extraction policy; at a rounding pool's members it charges what the pool rounds to; reversal nets to zero.
  Rule evaluation refines an order-free meaning, fails closed, and stops marked at a REFUSE node. Thresholds are crossed once; locking in order
  cannot deadlock. Inclusion proofs are complete and sound, and a digest names one document. Journals balance,
  reversals cancel, and the trial balance closes. A period's history is legal, a closed period holds what its manifest
  sealed, a reopening has two people behind it, and a permitted move does not get stuck. Resolution of situs returns,
  does not depend on the order of its inputs, and is sound. A determination is no better than its worst item and carries amounts only when every item is
  resolved; then its totals are the exact sums of its charges, and a charge is exempt only on a verified
  certificate. Under a compiled engine it always returns, one configuration of special jurisdictions excepted.

  Not modelled. The life cycles of obligations, remittances, settlements, documents, webhooks and retention are left
  to later work. Of the modelled packages: the transcendental functions, \<open>SQL\<close> and \<open>JSON\<close> adapters of the decimal
  library; the canonical form of a determination and of a taxation result; the decoding of profiles, documents
  and results from JSON; the comparison of a stored manifest with today's population. HTTP, PostgreSQL, message brokers
  and process wiring are I/O around the core.
\<close>

end
